(* ===== verification/Go_Prelude.thy ===== *)
theory Go_Prelude
  imports Main "HOL-Library.List_Lexorder" "HOL-Library.Char_ord" "HOL-Library.Monad_Syntax"
begin

text \<open>
  Shared vocabulary of the development: the fragment of Go's \<open>strings\<close> and \<open>strconv\<close>
  packages that the API uses, Go maps as key-sorted association lists, HTTP responses, and
  the failure oracle for database statements.

  Go strings are byte sequences, so \<^typ>\<open>string\<close> (a list of 8-bit characters) models them
  directly. Case mapping and white space are modelled on ASCII; the Unicode tables of
  \<open>strings.ToLower\<close> and \<open>strings.TrimSpace\<close> beyond ASCII are not part of the model.
\<close>

named_theorems go_simps "evaluation rules of the Go string and map operations"
named_theorems json_keys "lower-cased forms of the JSON field names of the API"

section \<open>Types shared by the components\<close>

text \<open>
  A \<open>time.Time\<close> is its distance in nanoseconds from Go's zero time (0001-01-01T00:00:00Z),
  so \<open>IsZero\<close> is equality with 0; a \<open>time.Duration\<close> is a number of nanoseconds.
\<close>

type_synonym gotime = int
type_synonym duration = int

abbreviation second :: duration where "second \<equiv> 1000000000"
abbreviation minute :: duration where "minute \<equiv> 60 * second"
abbreviation hour :: duration where "hour \<equiv> 60 * minute"

text \<open>A pointer that may be nil is an option; a slice distinguishes nil from empty.\<close>

type_synonym 'a ptr = "'a option"
type_synonym 'a slice = "'a list option"

definition elems :: "'a slice \<Rightarrow> 'a list" where
  "elems s = (case s of None \<Rightarrow> [] | Some xs \<Rightarrow> xs)"

lemma elems_simps [simp]: "elems None = []" "elems (Some xs) = xs"
  by (simp_all add: elems_def)

text \<open>
  What a handler writes: an error with its status and message, a 200 or 201 with a payload,
  a bare status, or an aborted connection (a panic of the handler goroutine).
\<close>

datatype 'a response =
    Error nat string
  | OK 'a
  | Created 'a
  | Status nat
  | Panicked

fun status_of :: "'a response \<Rightarrow> nat option" where
  "status_of (Error c _) = Some c"
| "status_of (OK _) = Some 200"
| "status_of (Created _) = Some 201"
| "status_of (Status c) = Some c"
| "status_of Panicked = None"

text \<open>
  MySQL is a service outside the program. A handler's database statements are numbered in
  program order; the oracle says which of them return a driver error.
\<close>

type_synonym faults = "nat \<Rightarrow> bool"

definition no_faults :: faults where
  "no_faults = (\<lambda>_. False)"

lemma no_faults_simp [simp]: "no_faults i = False"
  by (simp add: no_faults_def)

lemma find_SomeD: "find P xs = Some x \<Longrightarrow> P x \<and> x \<in> set xs"
  by (induction xs) (auto split: if_splits)

section \<open>Package strings\<close>

definition is_space :: "char \<Rightarrow> bool" where
  "is_space c = (let n = (of_char c :: int) in n = 32 \<or> (9 \<le> n \<and> n \<le> 13))"

definition TrimSpace :: "string \<Rightarrow> string" where
  "TrimSpace s = rev (dropWhile is_space (rev (dropWhile is_space s)))"

definition lower_char :: "char \<Rightarrow> char" where
  "lower_char c = (let n = (of_char c :: int) in if 65 \<le> n \<and> n \<le> 90 then char_of (n + 32) else c)"

definition ToLower :: "string \<Rightarrow> string" where
  "ToLower s = map lower_char s"

definition EqualFold :: "string \<Rightarrow> string \<Rightarrow> bool" where
  "EqualFold s t = (ToLower s = ToLower t)"

definition HasPrefix :: "string \<Rightarrow> string \<Rightarrow> bool" where
  "HasPrefix s p = (take (length p) s = p)"

definition HasSuffix :: "string \<Rightarrow> string \<Rightarrow> bool" where
  "HasSuffix s p = HasPrefix (rev s) (rev p)"

definition TrimPrefix :: "string \<Rightarrow> string \<Rightarrow> string" where
  "TrimPrefix s p = (if HasPrefix s p then drop (length p) s else s)"

definition TrimChar :: "char \<Rightarrow> string \<Rightarrow> string" where
  "TrimChar c s = rev (dropWhile (\<lambda>x. x = c) (rev (dropWhile (\<lambda>x. x = c) s)))"

text \<open>\<open>strings.Split\<close> with a one-character separator: never the empty list.\<close>

fun Split :: "char \<Rightarrow> string \<Rightarrow> string list" where
  "Split c [] = [[]]"
| "Split c (x # xs) =
     (if x = c then [] # Split c xs
      else (case Split c xs of [] \<Rightarrow> [[x]] | y # ys \<Rightarrow> (x # y) # ys))"

text \<open>\<open>strings.Join\<close>\<close>

fun join :: "string \<Rightarrow> string list \<Rightarrow> string" where
  "join sep [] = []"
| "join sep [x] = x"
| "join sep (x # y # xs) = x @ sep @ join sep (y # xs)"

text \<open>The part before the first occurrence of a byte (\<open>IndexByte\<close> and a slice).\<close>

definition before :: "char \<Rightarrow> string \<Rightarrow> string" where
  "before c s = takeWhile (\<lambda>x. x \<noteq> c) s"

text \<open>A separator splits a text where it first occurs, in one way.\<close>

lemma split_at_first: "c \<notin> set a \<Longrightarrow> c \<notin> set b \<Longrightarrow> a @ c # s = b @ c # t \<Longrightarrow> a = b \<and> s = t"
proof (induction a arbitrary: b)
  case Nil
  then show ?case by (cases b) auto
next
  case (Cons x a)
  then show ?case by (cases b) auto
qed

lemma Split_ne [simp]: "Split c s \<noteq> []"
  by (cases s) (auto split: list.splits)

lemma Split_no_sep: "c \<notin> set s \<Longrightarrow> Split c s = [s]"
  by (induction s) auto

lemma set_Split: "t \<in> set (Split c s) \<Longrightarrow> c \<notin> set t"
  by (induction s arbitrary: t) (auto split: if_splits list.splits)

lemma lower_char_idem [simp]: "lower_char (lower_char c) = lower_char c"
  by (auto simp: lower_char_def Let_def)

lemma ToLower_idem [simp]: "ToLower (ToLower s) = ToLower s"
  by (simp add: ToLower_def)

lemma ToLower_Nil [simp]: "ToLower s = [] \<longleftrightarrow> s = []"
  by (simp add: ToLower_def)

lemma EqualFold_refl [simp]: "EqualFold s s"
  by (simp add: EqualFold_def)

lemma EqualFold_sym: "EqualFold s t = EqualFold t s"
  by (auto simp: EqualFold_def)

lemma EqualFold_trans: "EqualFold s t \<Longrightarrow> EqualFold t u \<Longrightarrow> EqualFold s u"
  by (simp add: EqualFold_def)

lemma dropWhile_idem_rev: "dropWhile P (rev (dropWhile P (rev (dropWhile P s))))
    = rev (dropWhile P (rev (dropWhile P s)))"
proof (cases "rev (dropWhile P (rev (dropWhile P s)))")
  case Nil
  then show ?thesis by (simp only: dropWhile.simps)
next
  case (Cons x xs)
  let ?d = "dropWhile P s"
  obtain ys where d: "?d = (x # xs) @ ys"
    using Cons by (metis rev_append rev_rev_ident takeWhile_dropWhile_id)
  then have "\<not> P x" by (metis append_Cons dropWhile_eq_Cons_conv)
  with Cons show ?thesis by simp
qed

lemma TrimSpace_idem [simp]: "TrimSpace (TrimSpace s) = TrimSpace s"
  unfolding TrimSpace_def by (simp add: dropWhile_idem_rev)

section \<open>Package strconv\<close>

definition is_digit :: "char \<Rightarrow> bool" where
  "is_digit c = (let n = (of_char c :: int) in 48 \<le> n \<and> n \<le> 57)"

definition digit_val :: "char \<Rightarrow> int" where
  "digit_val c = of_char c - 48"

definition digit_char :: "nat \<Rightarrow> char" where
  "digit_char d = char_of (48 + int d)"

definition digits_val :: "string \<Rightarrow> int" where
  "digits_val s = foldl (\<lambda>n c. 10 * n + digit_val c) 0 s"

fun nat_digits :: "nat \<Rightarrow> string" where
  "nat_digits n = (if n < 10 then [digit_char n] else nat_digits (n div 10) @ [digit_char (n mod 10)])"

declare nat_digits.simps [simp del]

definition Itoa :: "int \<Rightarrow> string" where
  "Itoa i = (if i < 0 then CHR ''-'' # nat_digits (nat (- i)) else nat_digits (nat i))"

definition int64_range :: "int \<Rightarrow> bool" where
  "int64_range i = (- (2 ^ 63) \<le> i \<and> i < 2 ^ 63)"

text \<open>\<open>strconv.Atoi\<close> and \<open>ParseInt(s, 10, 64)\<close>: an optional sign, decimal digits, in range.\<close>

definition Atoi :: "string \<Rightarrow> int option" where
  "Atoi s =
     (let (neg, ds) = (case s of [] \<Rightarrow> (False, [])
                       | c # cs \<Rightarrow> if c = CHR ''-'' then (True, cs)
                                   else if c = CHR ''+'' then (False, cs) else (False, s));
          v = (if neg then - digits_val ds else digits_val ds)
      in if ds \<noteq> [] \<and> list_all is_digit ds \<and> int64_range v then Some v else None)"

lemma digits_val_snoc: "digits_val (s @ [c]) = 10 * digits_val s + digit_val c"
  by (simp add: digits_val_def)

lemma digit_char_simps:
  assumes "d < 10"
  shows "digit_val (digit_char d) = int d" "is_digit (digit_char d)"
    "digit_char d \<noteq> CHR ''-''" "digit_char d \<noteq> CHR ''+''"
proof -
  have d: "d \<in> {0, 1, 2, 3, 4, 5, 6, 7, 8, 9}" using assms by auto
  show "digit_val (digit_char d) = int d" using d by (auto simp: digit_val_def digit_char_def)
  show "is_digit (digit_char d)" using d by (auto simp: is_digit_def digit_char_def)
  show "digit_char d \<noteq> CHR ''-''" using d by (auto simp: digit_char_def char_of_def)
  show "digit_char d \<noteq> CHR ''+''" using d by (auto simp: digit_char_def char_of_def)
qed

lemma nat_digits_correct:
  "digits_val (nat_digits n) = int n \<and> list_all is_digit (nat_digits n) \<and> nat_digits n \<noteq> []
   \<and> hd (nat_digits n) \<noteq> CHR ''-'' \<and> hd (nat_digits n) \<noteq> CHR ''+''"
proof (induction n rule: nat_digits.induct)
  case (1 n)
  show ?case
  proof (cases "n < 10")
    case True
    then show ?thesis
      by (subst (1 2 3 4 5) nat_digits.simps) (simp add: digits_val_def digit_char_simps)
  next
    case False
    have m: "n mod 10 < 10" by simp
    from False 1 show ?thesis
      by (subst (1 2 3 4 5) nat_digits.simps)
        (simp add: digits_val_snoc digit_char_simps [OF m] hd_append zdiv_int zmod_int)
  qed
qed

theorem Atoi_Itoa: "int64_range i \<Longrightarrow> Atoi (Itoa i) = Some i"
proof -
  assume r: "int64_range i"
  show ?thesis
  proof (cases "i < 0")
    case True
    with r nat_digits_correct [of "nat (- i)"] show ?thesis by (simp add: Atoi_def Itoa_def)
  next
    case False
    obtain c cs where ds: "nat_digits (nat i) = c # cs"
      using nat_digits_correct [of "nat i"] by (cases "nat_digits (nat i)") auto
    with False r nat_digits_correct [of "nat i"] show ?thesis by (simp add: Atoi_def Itoa_def)
  qed
qed

section \<open>Go maps\<close>

text \<open>
  A Go map with string keys is represented by its unique key-sorted association list:
  Go's maps carry no order, and \<open>encoding/json\<close> writes them in key order.
\<close>

type_synonym 'a entries = "(string \<times> 'a) list"
type_synonym 'a gomap = "'a entries option"

definition sorted_keys :: "'a entries \<Rightarrow> bool" where
  "sorted_keys m = sorted_wrt (<) (map fst m)"

fun map_put :: "string \<Rightarrow> 'a \<Rightarrow> 'a entries \<Rightarrow> 'a entries" where
  "map_put k v [] = [(k, v)]"
| "map_put k v ((a, b) # m) =
     (if k < a then (k, v) # (a, b) # m else if k = a then (k, v) # m else (a, b) # map_put k v m)"

definition map_del :: "string \<Rightarrow> 'a entries \<Rightarrow> 'a entries" where
  "map_del k m = filter (\<lambda>e. fst e \<noteq> k) m"

text \<open>Filling a map from the entries of a JSON object, in order: a repeated key overwrites.\<close>

definition go_map_of :: "'a entries \<Rightarrow> 'a entries" where
  "go_map_of es = fold (\<lambda>(k, v). map_put k v) es []"

lemma map_of_map_put [simp]: "map_of (map_put k v m) = (map_of m)(k \<mapsto> v)"
  by (induction m) (auto simp: fun_eq_iff)

lemma map_of_map_del [simp]: "map_of (map_del k m) = (map_of m)(k := None)"
  by (induction m) (auto simp: map_del_def fun_eq_iff)

lemma keys_map_put [simp]: "fst ` set (map_put k v m) = insert k (fst ` set m)"
  by (simp flip: dom_map_of_conv_image_fst)

lemma sorted_keys_Nil [simp]: "sorted_keys []"
  by (simp add: sorted_keys_def)

lemma sorted_keys_Cons: "sorted_keys (e # m) \<longleftrightarrow> (\<forall>k \<in> fst ` set m. fst e < k) \<and> sorted_keys m"
  by (auto simp: sorted_keys_def)

lemma sorted_keys_map_put [simp]: "sorted_keys m \<Longrightarrow> sorted_keys (map_put k v m)"
proof (induction m)
  case (Cons e m)
  obtain a b where e: "e = (a, b)" by (cases e)
  consider "k < a" | "k = a" | "a < k" by force
  then show ?case using Cons e
    by cases (auto simp: sorted_keys_Cons dest: order_less_trans)
qed (simp add: sorted_keys_Cons)

lemma sorted_keys_map_del [simp]: "sorted_keys m \<Longrightarrow> sorted_keys (map_del k m)"
  by (induction m) (auto simp: sorted_keys_Cons map_del_def)

lemma sorted_keys_distinct: "sorted_keys m \<Longrightarrow> distinct (map fst m)"
  by (induction m) (auto simp: sorted_keys_Cons)

lemma sorted_keys_map_values [simp]: "sorted_keys (map (\<lambda>(k, v). (k, f k v)) m) = sorted_keys m"
  by (simp add: sorted_keys_def case_prod_beta comp_def)

lemma map_put_greater: "\<forall>a \<in> fst ` set m. a < k \<Longrightarrow> map_put k v m = m @ [(k, v)]"
  by (induction m) auto

lemma fold_map_put_sorted:
  "sorted_keys (m @ es) \<Longrightarrow> fold (\<lambda>(k, v). map_put k v) es m = m @ es"
proof (induction es arbitrary: m)
  case Nil
  then show ?case by simp
next
  case (Cons e es)
  obtain k v where e: "e = (k, v)" by (cases e)
  from Cons.prems e have "\<forall>a \<in> fst ` set m. a < k"
    by (auto simp: sorted_keys_def sorted_wrt_append)
  then have "map_put k v m = m @ [(k, v)]" by (rule map_put_greater)
  with Cons.IH [of "m @ [(k, v)]"] Cons.prems e show ?case by simp
qed

lemma go_map_of_sorted: "sorted_keys es \<Longrightarrow> go_map_of es = es"
  using fold_map_put_sorted [of "[]" es] by (simp add: go_map_of_def)

lemma sorted_keys_fold_put: "sorted_keys m \<Longrightarrow> sorted_keys (fold (\<lambda>(k, v). map_put k v) es m)"
  by (induction es arbitrary: m) (auto split: prod.splits)

lemma sorted_keys_go_map_of [simp]: "sorted_keys (go_map_of es)"
  by (simp add: go_map_of_def sorted_keys_fold_put)

lemma map_of_fold_put:
  "map_of (fold (\<lambda>(k, v). map_put k v) es m) = map_of m ++ map_of (rev es)"
proof (induction es arbitrary: m)
  case (Cons e es)
  obtain k v where "e = (k, v)" by (cases e)
  with Cons show ?case by (auto simp: fun_eq_iff map_add_def split: option.splits)
qed simp

lemma map_of_go_map_of: "map_of (go_map_of es) = map_of (rev es)"
  by (simp add: go_map_of_def map_of_fold_put)

lemma sorted_keys_ext:
  assumes "sorted_keys m" "sorted_keys n" "map_of m = map_of n"
  shows "m = n"
  using assms
proof (induction m arbitrary: n)
  case Nil
  then show ?case by (cases n) (auto simp: fun_eq_iff split: if_splits)
next
  case (Cons e m)
  obtain k v where e: "e = (k, v)" by (cases e)
  have dk: "fst ` set n = insert k (fst ` set m)"
    using Cons.prems(3) e by (metis dom_map_of_conv_image_fst list.simps(15) image_insert fst_conv)
  then obtain k' v' n' where n: "n = (k', v') # n'" by (cases n) auto
  have "k' \<in> insert k (fst ` set m)" using dk n by auto
  moreover have "k \<in> insert k' (fst ` set n')" using dk n by auto
  ultimately have kk: "k' = k" using Cons.prems(1,2) e n
    by (auto simp: sorted_keys_Cons dest: order_less_asym)
  have nk: "k \<notin> fst ` set m" "k \<notin> fst ` set n'"
    using Cons.prems(1,2) e n kk by (auto simp: sorted_keys_Cons)
  have "v' = v" using Cons.prems(3) e n kk by (auto simp: fun_eq_iff dest!: spec [of _ k])
  moreover have "map_of m = map_of n'"
  proof
    fix x
    show "map_of m x = map_of n' x"
    proof (cases "x = k")
      case True
      with nk show ?thesis by (metis map_of_eq_None_iff)
    next
      case False
      with fun_cong [OF Cons.prems(3), of x] e n kk show ?thesis by simp
    qed
  qed
  then have "m = n'" using Cons e n by (auto simp: sorted_keys_Cons)
  ultimately show ?case using e n kk by simp
qed

lemmas gomap_lemmas = map_of_map_put map_of_map_del map_of_go_map_of sorted_keys_map_put
  sorted_keys_map_del sorted_keys_go_map_of

end
