(* ===== verification/Json_Tree.thy ===== *)
theory Json_Tree
  imports Go_Prelude
begin

text \<open>
  JSON values and the parts of \<open>encoding/json\<close> the API relies on: decoding into typed
  structs (case-insensitive field names, the last occurrence of a key wins, \<open>null\<close> or an
  absent key leaves the zero value), decoding into \<open>interface{}\<close> (objects become Go maps),
  and encoding structs, pointers, slices and maps. The locale \<open>json_codec\<close> is the contract
  between a struct's encoder and decoder; pointers, slices and maps of a type inherit it.

  Numbers are integers or opaque fractional literals. Go stores an \<open>interface{}\<close> number as
  a float64, which is exact for integers up to \<open>2^53\<close> in absolute value, far beyond the
  range of every numeric field of the documents.
\<close>

datatype json =
    JNull
  | JBool bool
  | JNum int
  | JFrac string
  | JStr string
  | JArr "json list"
  | JObj "(string \<times> json) list"

text \<open>Decoding into \<open>interface{}\<close>: every object becomes a Go map.\<close>

fun norm_json :: "json \<Rightarrow> json" where
  "norm_json (JArr xs) = JArr (map norm_json xs)"
| "norm_json (JObj kvs) = JObj (go_map_of (map (\<lambda>(k, v). (k, norm_json v)) kvs))"
| "norm_json j = j"

fun normal_json :: "json \<Rightarrow> bool" where
  "normal_json (JArr xs) = list_all normal_json xs"
| "normal_json (JObj kvs) = (sorted_keys kvs \<and> list_all (\<lambda>(k, v). normal_json v) kvs)"
| "normal_json j = True"

lemma norm_json_eq_JNull [simp]: "norm_json j = JNull \<longleftrightarrow> j = JNull"
  by (cases j) auto

lemma normal_json_norm: "normal_json j \<Longrightarrow> norm_json j = j"
proof (induction j rule: normal_json.induct)
  case (1 xs)
  then show ?case by (auto simp: list_all_iff intro!: map_idI)
next
  case (2 kvs)
  then have "map (\<lambda>(k, v). (k, norm_json v)) kvs = kvs"
    by (auto simp: list_all_iff intro!: map_idI)
  with 2 show ?case by (simp add: go_map_of_sorted)
qed auto

lemma set_map_put: "set (map_put k v m) \<subseteq> insert (k, v) (set m)"
  by (induction m) (auto split: if_splits)

lemma set_go_map_of: "set (go_map_of es) \<subseteq> set es"
proof -
  have "set (fold (\<lambda>(k, v). map_put k v) es m) \<subseteq> set m \<union> set es" for m :: "'a entries"
  proof (induction es arbitrary: m)
    case (Cons e es)
    obtain k v where "e = (k, v)" by (cases e)
    then show ?case using Cons [of "map_put k v m"] set_map_put [of k v m] by fastforce
  qed simp
  from this [of "[]"] show ?thesis by (simp add: go_map_of_def)
qed

lemma normal_norm_json [simp]: "normal_json (norm_json j)"
proof (induction j rule: norm_json.induct)
  case (1 xs)
  then show ?case by (simp add: list_all_iff)
next
  case (2 kvs)
  then show ?case using set_go_map_of [of "map (\<lambda>(k, v). (k, norm_json v)) kvs"]
    by (fastforce simp: list_all_iff)
qed auto

lemma norm_json_idem [simp]: "norm_json (norm_json j) = norm_json j"
  by (simp add: normal_json_norm)

section \<open>Decoding into Go types\<close>

definition field_get :: "string \<Rightarrow> (string \<times> json) list \<Rightarrow> json" where
  "field_get name kvs =
     (case map_of (rev (map (\<lambda>(k, v). (ToLower k, v)) kvs)) (ToLower name) of
        None \<Rightarrow> JNull | Some v \<Rightarrow> v)"

fun dec_struct :: "json \<Rightarrow> (string \<times> json) list option" where
  "dec_struct JNull = Some []"
| "dec_struct (JObj kvs) = Some kvs"
| "dec_struct _ = None"

fun dec_int :: "json \<Rightarrow> int option" where
  "dec_int JNull = Some 0"
| "dec_int (JNum n) = (if int64_range n then Some n else None)"
| "dec_int _ = None"

fun dec_string :: "json \<Rightarrow> string option" where
  "dec_string JNull = Some []"
| "dec_string (JStr s) = Some s"
| "dec_string _ = None"

fun dec_bool :: "json \<Rightarrow> bool option" where
  "dec_bool JNull = Some False"
| "dec_bool (JBool b) = Some b"
| "dec_bool _ = None"

definition dec_ptr :: "(json \<Rightarrow> 'a option) \<Rightarrow> json \<Rightarrow> 'a ptr option" where
  "dec_ptr d j = (if j = JNull then Some None else map_option Some (d j))"

lemma dec_ptr_JNull [simp]: "dec_ptr d JNull = Some None"
  by (simp add: dec_ptr_def)

fun dec_list :: "(json \<Rightarrow> 'a option) \<Rightarrow> json \<Rightarrow> 'a slice option" where
  "dec_list d JNull = Some None"
| "dec_list d (JArr xs) = map_option Some (those (map d xs))"
| "dec_list d _ = None"

fun dec_map :: "(json \<Rightarrow> 'a option) \<Rightarrow> json \<Rightarrow> 'a gomap option" where
  "dec_map d JNull = Some None"
| "dec_map d (JObj kvs) =
     map_option (\<lambda>es. Some (go_map_of es)) (those (map (\<lambda>(k, v). map_option (Pair k) (d v)) kvs))"
| "dec_map d _ = None"

definition dec_any :: "json \<Rightarrow> json option" where
  "dec_any j = Some (norm_json j)"

section \<open>Encoding Go types\<close>

definition enc_ptr :: "('a \<Rightarrow> json) \<Rightarrow> 'a ptr \<Rightarrow> json" where
  "enc_ptr e p = (case p of None \<Rightarrow> JNull | Some x \<Rightarrow> e x)"

definition enc_list :: "('a \<Rightarrow> json) \<Rightarrow> 'a slice \<Rightarrow> json" where
  "enc_list e s = (case s of None \<Rightarrow> JNull | Some xs \<Rightarrow> JArr (map e xs))"

definition enc_map :: "('a \<Rightarrow> json) \<Rightarrow> 'a gomap \<Rightarrow> json" where
  "enc_map e m = (case m of None \<Rightarrow> JNull | Some kvs \<Rightarrow> JObj (map (\<lambda>(k, v). (k, e v)) kvs))"

definition ok_map :: "('a \<Rightarrow> bool) \<Rightarrow> 'a gomap \<Rightarrow> bool" where
  "ok_map P m = (case m of None \<Rightarrow> True | Some kvs \<Rightarrow> sorted_keys kvs \<and> list_all (\<lambda>(k, v). P v) kvs)"

definition ok_ptr :: "('a \<Rightarrow> bool) \<Rightarrow> 'a ptr \<Rightarrow> bool" where
  "ok_ptr P p = (case p of None \<Rightarrow> True | Some x \<Rightarrow> P x)"

definition ok_list :: "('a \<Rightarrow> bool) \<Rightarrow> 'a slice \<Rightarrow> bool" where
  "ok_list P s = list_all P (elems s)"

section \<open>The encoder-decoder contract\<close>

lemma those_SomeD: "those (map f xs) = Some ys \<Longrightarrow> y \<in> set ys \<Longrightarrow> \<exists>x \<in> set xs. f x = Some y"
  by (induction xs arbitrary: ys) (auto split: option.splits)

lemma those_map_id: "(\<And>x. x \<in> set xs \<Longrightarrow> f x = Some x) \<Longrightarrow> those (map f xs) = Some xs"
  by (induction xs) auto

locale json_value =
  fixes enc :: "'a \<Rightarrow> json"
    and dec :: "json \<Rightarrow> 'a option"
    and ok :: "'a \<Rightarrow> bool"
  assumes dec_enc: "ok x \<Longrightarrow> dec (enc x) = Some x"
    and dec_norm: "ok x \<Longrightarrow> dec (norm_json (enc x)) = Some x"
    and dec_ok: "dec j = Some x \<Longrightarrow> ok x"
begin

lemma list_dec_ok: "dec_list dec j = Some s \<Longrightarrow> ok_list ok s"
  using dec_ok by (cases j) (auto simp: ok_list_def list_all_iff dest!: those_SomeD)

lemma map_dec_ok: "dec_map dec j = Some m \<Longrightarrow> ok_map ok m"
proof (cases j)
  case (JObj kvs)
  assume "dec_map dec j = Some m"
  with JObj obtain es where m: "m = Some (go_map_of es)"
    and es: "those (map (\<lambda>(k, v). map_option (Pair k) (dec v)) kvs) = Some es" by auto
  have "ok (snd e)" if "e \<in> set es" for e
    using those_SomeD [OF es that] dec_ok by auto
  then have "ok (snd e)" if "e \<in> set (go_map_of es)" for e
    using that set_go_map_of [of es] by blast
  then show ?thesis using m by (auto simp: ok_map_def list_all_iff)
qed (auto simp: ok_map_def)

lemma list_dec_enc: "ok_list ok s \<Longrightarrow> dec_list dec (enc_list enc s) = Some s"
  using dec_enc by (cases s) (auto simp: ok_list_def enc_list_def list_all_iff comp_def those_map_id)

lemma list_dec_norm: "ok_list ok s \<Longrightarrow> dec_list dec (norm_json (enc_list enc s)) = Some s"
  using dec_norm by (cases s) (auto simp: ok_list_def enc_list_def list_all_iff comp_def those_map_id)

lemma map_dec_enc: "ok_map ok m \<Longrightarrow> dec_map dec (enc_map enc m) = Some m"
  using dec_enc
  by (cases m) (auto simp: ok_map_def enc_map_def list_all_iff comp_def case_prod_beta those_map_id
      go_map_of_sorted)

lemma map_dec_norm: "ok_map ok m \<Longrightarrow> dec_map dec (norm_json (enc_map enc m)) = Some m"
proof (cases m)
  case (Some kvs)
  assume ok: "ok_map ok m"
  have srt: "sorted_keys (map (\<lambda>(k, v). (k, norm_json (enc v))) kvs)"
    using ok Some by (simp add: ok_map_def)
  have n: "norm_json (enc_map enc m) = JObj (map (\<lambda>(k, v). (k, norm_json (enc v))) kvs)"
    using go_map_of_sorted [OF srt] by (simp add: Some enc_map_def comp_def case_prod_unfold)
  from ok Some have "sorted_keys kvs" "\<forall>x \<in> set kvs. ok (snd x)"
    by (auto simp: ok_map_def list_all_iff)
  then show ?thesis using dec_norm unfolding n
    by (simp add: Some comp_def case_prod_unfold those_map_id go_map_of_sorted)
qed (simp add: enc_map_def)

lemmas container_laws = dec_enc dec_norm list_dec_enc list_dec_norm map_dec_enc map_dec_norm

end

text \<open>A pointer needs more: the value behind it must not be written as \<open>null\<close>.\<close>

locale json_codec = json_value +
  assumes enc_not_null: "ok x \<Longrightarrow> enc x \<noteq> JNull"
begin

lemma ptr_dec_enc: "ok_ptr ok p \<Longrightarrow> dec_ptr dec (enc_ptr enc p) = Some p"
  using dec_enc enc_not_null by (auto simp: ok_ptr_def dec_ptr_def enc_ptr_def split: option.splits)

lemma ptr_dec_norm: "ok_ptr ok p \<Longrightarrow> dec_ptr dec (norm_json (enc_ptr enc p)) = Some p"
  using dec_norm enc_not_null by (auto simp: ok_ptr_def dec_ptr_def enc_ptr_def split: option.splits)

lemma some_dec_enc: "ok x \<Longrightarrow> dec_ptr dec (enc x) = Some (Some x)"
  using dec_enc enc_not_null by (simp add: dec_ptr_def)

lemma some_dec_norm: "ok x \<Longrightarrow> dec_ptr dec (norm_json (enc x)) = Some (Some x)"
  using dec_norm enc_not_null by (simp add: dec_ptr_def)

lemma ptr_dec_ok: "dec_ptr dec j = Some p \<Longrightarrow> ok_ptr ok p"
  using dec_ok by (auto simp: dec_ptr_def ok_ptr_def split: if_splits)

lemmas codec_laws = container_laws ptr_dec_enc ptr_dec_norm

end

interpretation int_codec: json_codec JNum dec_int int64_range
  by unfold_locales (auto simp: int64_range_def elim!: dec_int.elims split: if_splits)

interpretation string_codec: json_codec JStr dec_string "\<lambda>_. True"
  by unfold_locales auto

interpretation bool_codec: json_codec JBool dec_bool "\<lambda>_. True"
  by unfold_locales auto

text \<open>Values of type \<open>interface{}\<close> round-trip when they are in normal form.\<close>

interpretation any_value: json_value id dec_any normal_json
  by unfold_locales (auto simp: dec_any_def normal_json_norm)

lemma ok_trivial [simp]:
  "ok_ptr (\<lambda>_. True) p" "ok_list (\<lambda>_. True) s" "ok_map (\<lambda>_. True) m = (case m of None \<Rightarrow> True | Some kvs \<Rightarrow> sorted_keys kvs)"
  by (auto simp: ok_ptr_def ok_list_def ok_map_def list_all_iff split: option.splits)

section \<open>Field lookup\<close>

lemma field_get_Nil [simp]: "field_get n [] = JNull"
  by (simp add: field_get_def)

lemma field_get_Cons:
  "field_get n ((k, v) # kvs) =
     (if ToLower n \<in> ToLower ` fst ` set kvs then field_get n kvs
      else if ToLower k = ToLower n then v else JNull)"
  by (auto simp: field_get_def map_add_def image_iff case_prod_beta split: option.splits
      dest: map_of_SomeD simp: map_of_eq_None_iff)

text \<open>One pass over the entries, for evaluation on a literal object.\<close>

fun field_last :: "json \<Rightarrow> string \<Rightarrow> (string \<times> json) list \<Rightarrow> json" where
  "field_last acc n [] = acc"
| "field_last acc n ((k, v) # kvs) = field_last (if ToLower k = ToLower n then v else acc) n kvs"

lemma field_last_map_of:
  "field_last acc n kvs =
     (case map_of (rev (map (\<lambda>(k, v). (ToLower k, v)) kvs)) (ToLower n) of None \<Rightarrow> acc | Some v \<Rightarrow> v)"
  by (induction acc n kvs rule: field_last.induct) (auto split: option.splits)

lemma field_get_eval:
  "field_get n ((k, v) # kvs) = field_last (if ToLower k = ToLower n then v else JNull) n kvs"
  by (auto simp: field_get_def field_last_map_of split: option.splits)

text \<open>Where no two keys of the object collide under case folding, lookup is exact lookup.\<close>

lemma field_get_map_of:
  assumes "distinct (map fst kvs)" "inj_on ToLower (insert n (fst ` set kvs))"
  shows "field_get n kvs = (case map_of kvs n of None \<Rightarrow> JNull | Some v \<Rightarrow> v)"
  using assms
proof (induction kvs)
  case (Cons e kvs)
  obtain k v where e: "e = (k, v)" by (cases e)
  have IH: "field_get n kvs = (case map_of kvs n of None \<Rightarrow> JNull | Some v \<Rightarrow> v)"
    using Cons by (auto simp: inj_on_def)
  have inj: "ToLower n \<in> ToLower ` fst ` set kvs \<longleftrightarrow> n \<in> fst ` set kvs" "ToLower k = ToLower n \<longleftrightarrow> k = n"
    using Cons.prems(2) e by (auto simp: inj_on_def)
  show ?case
  proof (cases "n \<in> fst ` set kvs")
    case True
    with Cons.prems(1) e have "k \<noteq> n" by auto
    with True IH inj e show ?thesis by (simp add: field_get_Cons)
  next
    case False
    then have "map_of kvs n = None" by (simp add: map_of_eq_None_iff)
    with False inj e show ?thesis by (auto simp: field_get_Cons)
  qed
qed simp

lemma field_get_go_map:
  assumes d: "distinct (map ToLower (map fst es))"
  shows "field_get n (go_map_of es) = field_get n es"
proof -
  let ?low = "map (\<lambda>(k, v). (ToLower k, v))"
  have de: "distinct (map fst es)" using d by (metis distinct_map)
  have dg: "distinct (map fst (go_map_of es))" by (simp add: sorted_keys_distinct)
  have "set (go_map_of es) = set es"
    using map_of_inject_set [OF dg, of "rev es"] de by (simp add: map_of_go_map_of rev_map [symmetric])
  then have se: "set (?low (go_map_of es)) = set (?low es)" by simp
  have dl: "distinct (map fst (?low es))" using d by (simp add: comp_def case_prod_unfold)
  have k: "fst ` set (go_map_of es) = fst ` set es" using \<open>set (go_map_of es) = set es\<close> by simp
  have "inj_on ToLower (fst ` set es)" using d by (metis distinct_map list.set_map)
  with dg k have "distinct (map ToLower (map fst (go_map_of es)))"
    by (subst distinct_map) simp
  then have dlg: "distinct (map fst (?low (go_map_of es)))"
    by (simp add: comp_def case_prod_unfold)
  have "map_of (rev (?low (go_map_of es))) = map_of (rev (?low es))"
    using map_of_inject_set [of "rev (?low (go_map_of es))" "rev (?low es)"] dl dlg se
    by (simp add: rev_map [symmetric])
  then show ?thesis by (simp add: field_get_def)
qed

end
