(* ===== verification/RC_Types.thy ===== *)
theory RC_Types
  imports Json_Tree
begin

text \<open>
  The policy document of \<open>internal/remoteconfig/types.go\<close>: one record per Go struct, fields in
  declaration order, with the encoder (\<open>json.Marshal\<close>), the decoder (\<open>json.Unmarshal\<close>) and
  the representable values of each. Every struct satisfies the \<open>json_codec\<close> contract, so
  decoding an encoded document gives it back.
\<close>

section \<open>Field names\<close>

lemma field_names_lower [json_keys]:
  "ToLower ''intervalMinutes'' = ''intervalminutes''"
  "ToLower ''staleAfterDays'' = ''staleafterdays''"
  "ToLower ''min'' = ''min''"
  "ToLower ''max'' = ''max''"
  "ToLower ''updater'' = ''updater''"
  "ToLower ''emly'' = ''emly''"
  "ToLower ''enabled'' = ''enabled''"
  "ToLower ''versions'' = ''versions''"
  "ToLower ''defaultVersion'' = ''defaultversion''"
  "ToLower ''internalSubnets'' = ''internalsubnets''"
  "ToLower ''baseServer'' = ''baseserver''"
  "ToLower ''backupServer'' = ''backupserver''"
  "ToLower ''hostnames'' = ''hostnames''"
  "ToLower ''hwids'' = ''hwids''"
  "ToLower ''whitelist'' = ''whitelist''"
  "ToLower ''reason'' = ''reason''"
  "ToLower ''until'' = ''until''"
  "ToLower ''mode'' = ''mode''"
  "ToLower ''app'' = ''app''"
  "ToLower ''seconds'' = ''seconds''"
  "ToLower ''attempts'' = ''attempts''"
  "ToLower ''delaySeconds'' = ''delayseconds''"
  "ToLower ''baseBackoffSeconds'' = ''basebackoffseconds''"
  "ToLower ''pollIntervalMinutes'' = ''pollintervalminutes''"
  "ToLower ''channelOverride'' = ''channeloverride''"
  "ToLower ''criticalWarning'' = ''criticalwarning''"
  "ToLower ''dcLookupRetry'' = ''dclookupretry''"
  "ToLower ''resolver'' = ''resolver''"
  "ToLower ''selfUpdate'' = ''selfupdate''"
  "ToLower ''installCertificate'' = ''installcertificate''"
  "ToLower ''level'' = ''level''"
  "ToLower ''maxSizeMB'' = ''maxsizemb''"
  "ToLower ''backups'' = ''backups''"
  "ToLower ''compress'' = ''compress''"
  "ToLower ''eventLog'' = ''eventlog''"
  "ToLower ''all'' = ''all''"
  "ToLower ''dcs'' = ''dcs''"
  "ToLower ''subnets'' = ''subnets''"
  "ToLower ''domains'' = ''domains''"
  "ToLower ''id'' = ''id''"
  "ToLower ''match'' = ''match''"
  "ToLower ''except'' = ''except''"
  "ToLower ''patch'' = ''patch''"
  "ToLower ''schemaVersion'' = ''schemaversion''"
  "ToLower ''revision'' = ''revision''"
  "ToLower ''generatedAt'' = ''generatedat''"
  "ToLower ''refresh'' = ''refresh''"
  "ToLower ''servers'' = ''servers''"
  "ToLower ''defaultServer'' = ''defaultserver''"
  "ToLower ''ipcProtocol'' = ''ipcprotocol''"
  "ToLower ''dcLookupMap'' = ''dclookupmap''"
  "ToLower ''hostIntegrity'' = ''hostintegrity''"
  "ToLower ''control'' = ''control''"
  "ToLower ''logging'' = ''logging''"
  "ToLower ''clientWs'' = ''clientws''"
  "ToLower ''overrides'' = ''overrides''"
  by (simp_all add: ToLower_def lower_char_def char_of_def bit_0)

section \<open>Struct Refresh\<close>

record Refresh =
  ref_IntervalMinutes :: int
  ref_StaleAfterDays :: "int ptr"

definition enc_Refresh :: "Refresh \<Rightarrow> json" where
  "enc_Refresh x = JObj [
     (''intervalMinutes'', JNum (ref_IntervalMinutes x)),
     (''staleAfterDays'', enc_ptr JNum (ref_StaleAfterDays x))]"

definition dec_Refresh :: "json \<Rightarrow> Refresh option" where
  "dec_Refresh j = do {
     kvs \<leftarrow> dec_struct j;
     v_IntervalMinutes \<leftarrow> dec_int (field_get ''intervalMinutes'' kvs);
     v_StaleAfterDays \<leftarrow> dec_ptr dec_int (field_get ''staleAfterDays'' kvs);
     Some \<lparr>ref_IntervalMinutes = v_IntervalMinutes, ref_StaleAfterDays = v_StaleAfterDays\<rparr>
   }"

definition ok_Refresh :: "Refresh \<Rightarrow> bool" where
  "ok_Refresh x = (int64_range (ref_IntervalMinutes x) \<and> ok_ptr int64_range (ref_StaleAfterDays x))"

interpretation Refresh_codec: json_codec enc_Refresh dec_Refresh ok_Refresh
  by unfold_locales
    (auto simp: enc_Refresh_def dec_Refresh_def ok_Refresh_def field_get_eval json_keys field_get_go_map bind_eq_Some_conv
      int_codec.container_laws int_codec.codec_laws intro: int_codec.dec_ok int_codec.ptr_dec_ok)

section \<open>Struct VersionRange\<close>

record VersionRange =
  vr_Min :: "string ptr"
  vr_Max :: "string ptr"

definition enc_VersionRange :: "VersionRange \<Rightarrow> json" where
  "enc_VersionRange x = JObj [
     (''min'', enc_ptr JStr (vr_Min x)),
     (''max'', enc_ptr JStr (vr_Max x))]"

definition dec_VersionRange :: "json \<Rightarrow> VersionRange option" where
  "dec_VersionRange j = do {
     kvs \<leftarrow> dec_struct j;
     v_Min \<leftarrow> dec_ptr dec_string (field_get ''min'' kvs);
     v_Max \<leftarrow> dec_ptr dec_string (field_get ''max'' kvs);
     Some \<lparr>vr_Min = v_Min, vr_Max = v_Max\<rparr>
   }"

definition ok_VersionRange :: "VersionRange \<Rightarrow> bool" where
  "ok_VersionRange x = (True)"

interpretation VersionRange_codec: json_codec enc_VersionRange dec_VersionRange ok_VersionRange
  by unfold_locales
    (auto simp: enc_VersionRange_def dec_VersionRange_def ok_VersionRange_def field_get_eval json_keys field_get_go_map bind_eq_Some_conv
      string_codec.codec_laws intro: refl)

section \<open>Struct IPCVersion\<close>

record IPCVersion =
  ipv_Updater :: VersionRange
  ipv_EMLy :: VersionRange
  ipv_Enabled :: bool

definition enc_IPCVersion :: "IPCVersion \<Rightarrow> json" where
  "enc_IPCVersion x = JObj [
     (''updater'', enc_VersionRange (ipv_Updater x)),
     (''emly'', enc_VersionRange (ipv_EMLy x)),
     (''enabled'', JBool (ipv_Enabled x))]"

definition dec_IPCVersion :: "json \<Rightarrow> IPCVersion option" where
  "dec_IPCVersion j = do {
     kvs \<leftarrow> dec_struct j;
     v_Updater \<leftarrow> dec_VersionRange (field_get ''updater'' kvs);
     v_EMLy \<leftarrow> dec_VersionRange (field_get ''emly'' kvs);
     v_Enabled \<leftarrow> dec_bool (field_get ''enabled'' kvs);
     Some \<lparr>ipv_Updater = v_Updater, ipv_EMLy = v_EMLy, ipv_Enabled = v_Enabled\<rparr>
   }"

definition ok_IPCVersion :: "IPCVersion \<Rightarrow> bool" where
  "ok_IPCVersion x = (ok_VersionRange (ipv_Updater x) \<and> ok_VersionRange (ipv_EMLy x))"

interpretation IPCVersion_codec: json_codec enc_IPCVersion dec_IPCVersion ok_IPCVersion
  by unfold_locales
    (auto simp: enc_IPCVersion_def dec_IPCVersion_def ok_IPCVersion_def field_get_eval json_keys field_get_go_map bind_eq_Some_conv
      VersionRange_codec.container_laws bool_codec.container_laws intro: VersionRange_codec.dec_ok)

section \<open>Struct IPCProtocol\<close>

record IPCProtocol =
  ipc_Versions :: "IPCVersion gomap"
  ipc_DefaultVersion :: int

definition enc_IPCProtocol :: "IPCProtocol \<Rightarrow> json" where
  "enc_IPCProtocol x = JObj [
     (''versions'', enc_map enc_IPCVersion (ipc_Versions x)),
     (''defaultVersion'', JNum (ipc_DefaultVersion x))]"

definition dec_IPCProtocol :: "json \<Rightarrow> IPCProtocol option" where
  "dec_IPCProtocol j = do {
     kvs \<leftarrow> dec_struct j;
     v_Versions \<leftarrow> dec_map dec_IPCVersion (field_get ''versions'' kvs);
     v_DefaultVersion \<leftarrow> dec_int (field_get ''defaultVersion'' kvs);
     Some \<lparr>ipc_Versions = v_Versions, ipc_DefaultVersion = v_DefaultVersion\<rparr>
   }"

definition ok_IPCProtocol :: "IPCProtocol \<Rightarrow> bool" where
  "ok_IPCProtocol x = (ok_map ok_IPCVersion (ipc_Versions x) \<and> int64_range (ipc_DefaultVersion x))"

interpretation IPCProtocol_codec: json_codec enc_IPCProtocol dec_IPCProtocol ok_IPCProtocol
  by unfold_locales
    (auto simp: enc_IPCProtocol_def dec_IPCProtocol_def ok_IPCProtocol_def field_get_eval json_keys field_get_go_map bind_eq_Some_conv
      IPCVersion_codec.container_laws int_codec.container_laws intro: IPCVersion_codec.map_dec_ok int_codec.dec_ok)

section \<open>Struct Site\<close>

record Site =
  site_InternalSubnets :: "string slice"
  site_BaseServer :: string
  site_BackupServer :: "string slice"
  site_Enabled :: bool

definition enc_Site :: "Site \<Rightarrow> json" where
  "enc_Site x = JObj [
     (''internalSubnets'', enc_list JStr (site_InternalSubnets x)),
     (''baseServer'', JStr (site_BaseServer x)),
     (''backupServer'', enc_list JStr (site_BackupServer x)),
     (''enabled'', JBool (site_Enabled x))]"

definition dec_Site :: "json \<Rightarrow> Site option" where
  "dec_Site j = do {
     kvs \<leftarrow> dec_struct j;
     v_InternalSubnets \<leftarrow> dec_list dec_string (field_get ''internalSubnets'' kvs);
     v_BaseServer \<leftarrow> dec_string (field_get ''baseServer'' kvs);
     v_BackupServer \<leftarrow> dec_list dec_string (field_get ''backupServer'' kvs);
     v_Enabled \<leftarrow> dec_bool (field_get ''enabled'' kvs);
     Some \<lparr>site_InternalSubnets = v_InternalSubnets, site_BaseServer = v_BaseServer, site_BackupServer = v_BackupServer, site_Enabled = v_Enabled\<rparr>
   }"

definition ok_Site :: "Site \<Rightarrow> bool" where
  "ok_Site x = (True)"

interpretation Site_codec: json_codec enc_Site dec_Site ok_Site
  by unfold_locales
    (auto simp: enc_Site_def dec_Site_def ok_Site_def field_get_eval json_keys field_get_go_map bind_eq_Some_conv
      string_codec.container_laws bool_codec.container_laws intro: refl)

section \<open>Struct Whitelist\<close>

record Whitelist =
  wl_Hostnames :: "string slice"
  wl_HWIDs :: "string slice"

definition enc_Whitelist :: "Whitelist \<Rightarrow> json" where
  "enc_Whitelist x = JObj [
     (''hostnames'', enc_list JStr (wl_Hostnames x)),
     (''hwids'', enc_list JStr (wl_HWIDs x))]"

definition dec_Whitelist :: "json \<Rightarrow> Whitelist option" where
  "dec_Whitelist j = do {
     kvs \<leftarrow> dec_struct j;
     v_Hostnames \<leftarrow> dec_list dec_string (field_get ''hostnames'' kvs);
     v_HWIDs \<leftarrow> dec_list dec_string (field_get ''hwids'' kvs);
     Some \<lparr>wl_Hostnames = v_Hostnames, wl_HWIDs = v_HWIDs\<rparr>
   }"

definition ok_Whitelist :: "Whitelist \<Rightarrow> bool" where
  "ok_Whitelist x = (True)"

interpretation Whitelist_codec: json_codec enc_Whitelist dec_Whitelist ok_Whitelist
  by unfold_locales
    (auto simp: enc_Whitelist_def dec_Whitelist_def ok_Whitelist_def field_get_eval json_keys field_get_go_map bind_eq_Some_conv
      string_codec.container_laws intro: refl)

section \<open>Struct HostIntegrity\<close>

record HostIntegrity =
  hi_Enabled :: bool
  hi_Whitelist :: Whitelist

definition enc_HostIntegrity :: "HostIntegrity \<Rightarrow> json" where
  "enc_HostIntegrity x = JObj [
     (''enabled'', JBool (hi_Enabled x)),
     (''whitelist'', enc_Whitelist (hi_Whitelist x))]"

definition dec_HostIntegrity :: "json \<Rightarrow> HostIntegrity option" where
  "dec_HostIntegrity j = do {
     kvs \<leftarrow> dec_struct j;
     v_Enabled \<leftarrow> dec_bool (field_get ''enabled'' kvs);
     v_Whitelist \<leftarrow> dec_Whitelist (field_get ''whitelist'' kvs);
     Some \<lparr>hi_Enabled = v_Enabled, hi_Whitelist = v_Whitelist\<rparr>
   }"

definition ok_HostIntegrity :: "HostIntegrity \<Rightarrow> bool" where
  "ok_HostIntegrity x = (ok_Whitelist (hi_Whitelist x))"

interpretation HostIntegrity_codec: json_codec enc_HostIntegrity dec_HostIntegrity ok_HostIntegrity
  by unfold_locales
    (auto simp: enc_HostIntegrity_def dec_HostIntegrity_def ok_HostIntegrity_def field_get_eval json_keys field_get_go_map bind_eq_Some_conv
      bool_codec.container_laws Whitelist_codec.container_laws intro: Whitelist_codec.dec_ok)

section \<open>Struct ControlGate\<close>

record ControlGate =
  cg_Enabled :: bool
  cg_Reason :: "string ptr"
  cg_Until :: "string ptr"

definition enc_ControlGate :: "ControlGate \<Rightarrow> json" where
  "enc_ControlGate x = JObj [
     (''enabled'', JBool (cg_Enabled x)),
     (''reason'', enc_ptr JStr (cg_Reason x)),
     (''until'', enc_ptr JStr (cg_Until x))]"

definition dec_ControlGate :: "json \<Rightarrow> ControlGate option" where
  "dec_ControlGate j = do {
     kvs \<leftarrow> dec_struct j;
     v_Enabled \<leftarrow> dec_bool (field_get ''enabled'' kvs);
     v_Reason \<leftarrow> dec_ptr dec_string (field_get ''reason'' kvs);
     v_Until \<leftarrow> dec_ptr dec_string (field_get ''until'' kvs);
     Some \<lparr>cg_Enabled = v_Enabled, cg_Reason = v_Reason, cg_Until = v_Until\<rparr>
   }"

definition ok_ControlGate :: "ControlGate \<Rightarrow> bool" where
  "ok_ControlGate x = (True)"

interpretation ControlGate_codec: json_codec enc_ControlGate dec_ControlGate ok_ControlGate
  by unfold_locales
    (auto simp: enc_ControlGate_def dec_ControlGate_def ok_ControlGate_def field_get_eval json_keys field_get_go_map bind_eq_Some_conv
      bool_codec.container_laws string_codec.codec_laws intro: refl)

section \<open>Struct AppGate\<close>

record AppGate =
  ag_Enabled :: bool
  ag_Mode :: string
  ag_Reason :: "string ptr"
  ag_Until :: "string ptr"

definition enc_AppGate :: "AppGate \<Rightarrow> json" where
  "enc_AppGate x = JObj [
     (''enabled'', JBool (ag_Enabled x)),
     (''mode'', JStr (ag_Mode x)),
     (''reason'', enc_ptr JStr (ag_Reason x)),
     (''until'', enc_ptr JStr (ag_Until x))]"

definition dec_AppGate :: "json \<Rightarrow> AppGate option" where
  "dec_AppGate j = do {
     kvs \<leftarrow> dec_struct j;
     v_Enabled \<leftarrow> dec_bool (field_get ''enabled'' kvs);
     v_Mode \<leftarrow> dec_string (field_get ''mode'' kvs);
     v_Reason \<leftarrow> dec_ptr dec_string (field_get ''reason'' kvs);
     v_Until \<leftarrow> dec_ptr dec_string (field_get ''until'' kvs);
     Some \<lparr>ag_Enabled = v_Enabled, ag_Mode = v_Mode, ag_Reason = v_Reason, ag_Until = v_Until\<rparr>
   }"

definition ok_AppGate :: "AppGate \<Rightarrow> bool" where
  "ok_AppGate x = (True)"

interpretation AppGate_codec: json_codec enc_AppGate dec_AppGate ok_AppGate
  by unfold_locales
    (auto simp: enc_AppGate_def dec_AppGate_def ok_AppGate_def field_get_eval json_keys field_get_go_map bind_eq_Some_conv
      bool_codec.container_laws string_codec.container_laws string_codec.codec_laws intro: refl)

section \<open>Struct Control\<close>

record Control =
  ctl_Updater :: ControlGate
  ctl_App :: AppGate

definition enc_Control :: "Control \<Rightarrow> json" where
  "enc_Control x = JObj [
     (''updater'', enc_ControlGate (ctl_Updater x)),
     (''app'', enc_AppGate (ctl_App x))]"

definition dec_Control :: "json \<Rightarrow> Control option" where
  "dec_Control j = do {
     kvs \<leftarrow> dec_struct j;
     v_Updater \<leftarrow> dec_ControlGate (field_get ''updater'' kvs);
     v_App \<leftarrow> dec_AppGate (field_get ''app'' kvs);
     Some \<lparr>ctl_Updater = v_Updater, ctl_App = v_App\<rparr>
   }"

definition ok_Control :: "Control \<Rightarrow> bool" where
  "ok_Control x = (ok_ControlGate (ctl_Updater x) \<and> ok_AppGate (ctl_App x))"

interpretation Control_codec: json_codec enc_Control dec_Control ok_Control
  by unfold_locales
    (auto simp: enc_Control_def dec_Control_def ok_Control_def field_get_eval json_keys field_get_go_map bind_eq_Some_conv
      ControlGate_codec.container_laws AppGate_codec.container_laws intro: ControlGate_codec.dec_ok AppGate_codec.dec_ok)

section \<open>Struct CriticalWarning\<close>

record CriticalWarning =
  cw_Enabled :: bool
  cw_Seconds :: int

definition enc_CriticalWarning :: "CriticalWarning \<Rightarrow> json" where
  "enc_CriticalWarning x = JObj [
     (''enabled'', JBool (cw_Enabled x)),
     (''seconds'', JNum (cw_Seconds x))]"

definition dec_CriticalWarning :: "json \<Rightarrow> CriticalWarning option" where
  "dec_CriticalWarning j = do {
     kvs \<leftarrow> dec_struct j;
     v_Enabled \<leftarrow> dec_bool (field_get ''enabled'' kvs);
     v_Seconds \<leftarrow> dec_int (field_get ''seconds'' kvs);
     Some \<lparr>cw_Enabled = v_Enabled, cw_Seconds = v_Seconds\<rparr>
   }"

definition ok_CriticalWarning :: "CriticalWarning \<Rightarrow> bool" where
  "ok_CriticalWarning x = (int64_range (cw_Seconds x))"

interpretation CriticalWarning_codec: json_codec enc_CriticalWarning dec_CriticalWarning ok_CriticalWarning
  by unfold_locales
    (auto simp: enc_CriticalWarning_def dec_CriticalWarning_def ok_CriticalWarning_def field_get_eval json_keys field_get_go_map bind_eq_Some_conv
      bool_codec.container_laws int_codec.container_laws intro: int_codec.dec_ok)

section \<open>Struct DCLookupRetry\<close>

record DCLookupRetry =
  dlr_Attempts :: int
  dlr_DelaySeconds :: int

definition enc_DCLookupRetry :: "DCLookupRetry \<Rightarrow> json" where
  "enc_DCLookupRetry x = JObj [
     (''attempts'', JNum (dlr_Attempts x)),
     (''delaySeconds'', JNum (dlr_DelaySeconds x))]"

definition dec_DCLookupRetry :: "json \<Rightarrow> DCLookupRetry option" where
  "dec_DCLookupRetry j = do {
     kvs \<leftarrow> dec_struct j;
     v_Attempts \<leftarrow> dec_int (field_get ''attempts'' kvs);
     v_DelaySeconds \<leftarrow> dec_int (field_get ''delaySeconds'' kvs);
     Some \<lparr>dlr_Attempts = v_Attempts, dlr_DelaySeconds = v_DelaySeconds\<rparr>
   }"

definition ok_DCLookupRetry :: "DCLookupRetry \<Rightarrow> bool" where
  "ok_DCLookupRetry x = (int64_range (dlr_Attempts x) \<and> int64_range (dlr_DelaySeconds x))"

interpretation DCLookupRetry_codec: json_codec enc_DCLookupRetry dec_DCLookupRetry ok_DCLookupRetry
  by unfold_locales
    (auto simp: enc_DCLookupRetry_def dec_DCLookupRetry_def ok_DCLookupRetry_def field_get_eval json_keys field_get_go_map bind_eq_Some_conv
      int_codec.container_laws intro: int_codec.dec_ok)

section \<open>Struct ResolverTuning\<close>

record ResolverTuning =
  rt_Attempts :: int
  rt_BaseBackoffSeconds :: int

definition enc_ResolverTuning :: "ResolverTuning \<Rightarrow> json" where
  "enc_ResolverTuning x = JObj [
     (''attempts'', JNum (rt_Attempts x)),
     (''baseBackoffSeconds'', JNum (rt_BaseBackoffSeconds x))]"

definition dec_ResolverTuning :: "json \<Rightarrow> ResolverTuning option" where
  "dec_ResolverTuning j = do {
     kvs \<leftarrow> dec_struct j;
     v_Attempts \<leftarrow> dec_int (field_get ''attempts'' kvs);
     v_BaseBackoffSeconds \<leftarrow> dec_int (field_get ''baseBackoffSeconds'' kvs);
     Some \<lparr>rt_Attempts = v_Attempts, rt_BaseBackoffSeconds = v_BaseBackoffSeconds\<rparr>
   }"

definition ok_ResolverTuning :: "ResolverTuning \<Rightarrow> bool" where
  "ok_ResolverTuning x = (int64_range (rt_Attempts x) \<and> int64_range (rt_BaseBackoffSeconds x))"

interpretation ResolverTuning_codec: json_codec enc_ResolverTuning dec_ResolverTuning ok_ResolverTuning
  by unfold_locales
    (auto simp: enc_ResolverTuning_def dec_ResolverTuning_def ok_ResolverTuning_def field_get_eval json_keys field_get_go_map bind_eq_Some_conv
      int_codec.container_laws intro: int_codec.dec_ok)

section \<open>Struct ToggleOnly\<close>

record ToggleOnly =
  tog_Enabled :: bool

definition enc_ToggleOnly :: "ToggleOnly \<Rightarrow> json" where
  "enc_ToggleOnly x = JObj [
     (''enabled'', JBool (tog_Enabled x))]"

definition dec_ToggleOnly :: "json \<Rightarrow> ToggleOnly option" where
  "dec_ToggleOnly j = do {
     kvs \<leftarrow> dec_struct j;
     v_Enabled \<leftarrow> dec_bool (field_get ''enabled'' kvs);
     Some \<lparr>tog_Enabled = v_Enabled\<rparr>
   }"

definition ok_ToggleOnly :: "ToggleOnly \<Rightarrow> bool" where
  "ok_ToggleOnly x = (True)"

interpretation ToggleOnly_codec: json_codec enc_ToggleOnly dec_ToggleOnly ok_ToggleOnly
  by unfold_locales
    (auto simp: enc_ToggleOnly_def dec_ToggleOnly_def ok_ToggleOnly_def field_get_eval json_keys field_get_go_map bind_eq_Some_conv
      bool_codec.container_laws intro: refl)

section \<open>Struct UpdaterTuning\<close>

record UpdaterTuning =
  ut_PollIntervalMinutes :: "int ptr"
  ut_ChannelOverride :: "string ptr"
  ut_CriticalWarning :: "CriticalWarning ptr"
  ut_DCLookupRetry :: "DCLookupRetry ptr"
  ut_Resolver :: "ResolverTuning ptr"
  ut_SelfUpdate :: "ToggleOnly ptr"
  ut_InstallCertificate :: "ToggleOnly ptr"

definition enc_UpdaterTuning :: "UpdaterTuning \<Rightarrow> json" where
  "enc_UpdaterTuning x = JObj [
     (''pollIntervalMinutes'', enc_ptr JNum (ut_PollIntervalMinutes x)),
     (''channelOverride'', enc_ptr JStr (ut_ChannelOverride x)),
     (''criticalWarning'', enc_ptr enc_CriticalWarning (ut_CriticalWarning x)),
     (''dcLookupRetry'', enc_ptr enc_DCLookupRetry (ut_DCLookupRetry x)),
     (''resolver'', enc_ptr enc_ResolverTuning (ut_Resolver x)),
     (''selfUpdate'', enc_ptr enc_ToggleOnly (ut_SelfUpdate x)),
     (''installCertificate'', enc_ptr enc_ToggleOnly (ut_InstallCertificate x))]"

definition dec_UpdaterTuning :: "json \<Rightarrow> UpdaterTuning option" where
  "dec_UpdaterTuning j = do {
     kvs \<leftarrow> dec_struct j;
     v_PollIntervalMinutes \<leftarrow> dec_ptr dec_int (field_get ''pollIntervalMinutes'' kvs);
     v_ChannelOverride \<leftarrow> dec_ptr dec_string (field_get ''channelOverride'' kvs);
     v_CriticalWarning \<leftarrow> dec_ptr dec_CriticalWarning (field_get ''criticalWarning'' kvs);
     v_DCLookupRetry \<leftarrow> dec_ptr dec_DCLookupRetry (field_get ''dcLookupRetry'' kvs);
     v_Resolver \<leftarrow> dec_ptr dec_ResolverTuning (field_get ''resolver'' kvs);
     v_SelfUpdate \<leftarrow> dec_ptr dec_ToggleOnly (field_get ''selfUpdate'' kvs);
     v_InstallCertificate \<leftarrow> dec_ptr dec_ToggleOnly (field_get ''installCertificate'' kvs);
     Some \<lparr>ut_PollIntervalMinutes = v_PollIntervalMinutes, ut_ChannelOverride = v_ChannelOverride, ut_CriticalWarning = v_CriticalWarning, ut_DCLookupRetry = v_DCLookupRetry, ut_Resolver = v_Resolver, ut_SelfUpdate = v_SelfUpdate, ut_InstallCertificate = v_InstallCertificate\<rparr>
   }"

definition ok_UpdaterTuning :: "UpdaterTuning \<Rightarrow> bool" where
  "ok_UpdaterTuning x = (ok_ptr int64_range (ut_PollIntervalMinutes x) \<and> ok_ptr ok_CriticalWarning (ut_CriticalWarning x) \<and> ok_ptr ok_DCLookupRetry (ut_DCLookupRetry x) \<and> ok_ptr ok_ResolverTuning (ut_Resolver x) \<and> ok_ptr ok_ToggleOnly (ut_SelfUpdate x) \<and> ok_ptr ok_ToggleOnly (ut_InstallCertificate x))"

interpretation UpdaterTuning_codec: json_codec enc_UpdaterTuning dec_UpdaterTuning ok_UpdaterTuning
  by unfold_locales
    (auto simp: enc_UpdaterTuning_def dec_UpdaterTuning_def ok_UpdaterTuning_def field_get_eval json_keys field_get_go_map bind_eq_Some_conv
      int_codec.codec_laws string_codec.codec_laws CriticalWarning_codec.codec_laws DCLookupRetry_codec.codec_laws ResolverTuning_codec.codec_laws ToggleOnly_codec.codec_laws intro: int_codec.ptr_dec_ok CriticalWarning_codec.ptr_dec_ok DCLookupRetry_codec.ptr_dec_ok ResolverTuning_codec.ptr_dec_ok ToggleOnly_codec.ptr_dec_ok)

section \<open>Struct Logging\<close>

record Logging =
  log_Level :: string
  log_MaxSizeMB :: int
  log_Backups :: int
  log_Compress :: bool
  log_EventLog :: bool

definition enc_Logging :: "Logging \<Rightarrow> json" where
  "enc_Logging x = JObj [
     (''level'', JStr (log_Level x)),
     (''maxSizeMB'', JNum (log_MaxSizeMB x)),
     (''backups'', JNum (log_Backups x)),
     (''compress'', JBool (log_Compress x)),
     (''eventLog'', JBool (log_EventLog x))]"

definition dec_Logging :: "json \<Rightarrow> Logging option" where
  "dec_Logging j = do {
     kvs \<leftarrow> dec_struct j;
     v_Level \<leftarrow> dec_string (field_get ''level'' kvs);
     v_MaxSizeMB \<leftarrow> dec_int (field_get ''maxSizeMB'' kvs);
     v_Backups \<leftarrow> dec_int (field_get ''backups'' kvs);
     v_Compress \<leftarrow> dec_bool (field_get ''compress'' kvs);
     v_EventLog \<leftarrow> dec_bool (field_get ''eventLog'' kvs);
     Some \<lparr>log_Level = v_Level, log_MaxSizeMB = v_MaxSizeMB, log_Backups = v_Backups, log_Compress = v_Compress, log_EventLog = v_EventLog\<rparr>
   }"

definition ok_Logging :: "Logging \<Rightarrow> bool" where
  "ok_Logging x = (int64_range (log_MaxSizeMB x) \<and> int64_range (log_Backups x))"

interpretation Logging_codec: json_codec enc_Logging dec_Logging ok_Logging
  by unfold_locales
    (auto simp: enc_Logging_def dec_Logging_def ok_Logging_def field_get_eval json_keys field_get_go_map bind_eq_Some_conv
      string_codec.container_laws int_codec.container_laws bool_codec.container_laws intro: int_codec.dec_ok)

section \<open>Struct Selector\<close>

record Selector =
  sel_All :: "bool ptr"
  sel_HWIDs :: "string slice"
  sel_Hostnames :: "string slice"
  sel_DCs :: "string slice"
  sel_Subnets :: "string slice"
  sel_Domains :: "string slice"

definition enc_Selector :: "Selector \<Rightarrow> json" where
  "enc_Selector x = JObj [
     (''all'', enc_ptr JBool (sel_All x)),
     (''hwids'', enc_list JStr (sel_HWIDs x)),
     (''hostnames'', enc_list JStr (sel_Hostnames x)),
     (''dcs'', enc_list JStr (sel_DCs x)),
     (''subnets'', enc_list JStr (sel_Subnets x)),
     (''domains'', enc_list JStr (sel_Domains x))]"

definition dec_Selector :: "json \<Rightarrow> Selector option" where
  "dec_Selector j = do {
     kvs \<leftarrow> dec_struct j;
     v_All \<leftarrow> dec_ptr dec_bool (field_get ''all'' kvs);
     v_HWIDs \<leftarrow> dec_list dec_string (field_get ''hwids'' kvs);
     v_Hostnames \<leftarrow> dec_list dec_string (field_get ''hostnames'' kvs);
     v_DCs \<leftarrow> dec_list dec_string (field_get ''dcs'' kvs);
     v_Subnets \<leftarrow> dec_list dec_string (field_get ''subnets'' kvs);
     v_Domains \<leftarrow> dec_list dec_string (field_get ''domains'' kvs);
     Some \<lparr>sel_All = v_All, sel_HWIDs = v_HWIDs, sel_Hostnames = v_Hostnames, sel_DCs = v_DCs, sel_Subnets = v_Subnets, sel_Domains = v_Domains\<rparr>
   }"

definition ok_Selector :: "Selector \<Rightarrow> bool" where
  "ok_Selector x = (True)"

interpretation Selector_codec: json_codec enc_Selector dec_Selector ok_Selector
  by unfold_locales
    (auto simp: enc_Selector_def dec_Selector_def ok_Selector_def field_get_eval json_keys field_get_go_map bind_eq_Some_conv
      bool_codec.codec_laws string_codec.container_laws intro: refl)

section \<open>Struct Override\<close>

record Override =
  ov_ID :: string
  ov_Match :: Selector
  ov_Except :: "Selector ptr"
  ov_Until :: "string ptr"
  ov_Patch :: "json gomap"

definition enc_Override :: "Override \<Rightarrow> json" where
  "enc_Override x = JObj [
     (''id'', JStr (ov_ID x)),
     (''match'', enc_Selector (ov_Match x)),
     (''except'', enc_ptr enc_Selector (ov_Except x)),
     (''until'', enc_ptr JStr (ov_Until x)),
     (''patch'', enc_map id (ov_Patch x))]"

definition dec_Override :: "json \<Rightarrow> Override option" where
  "dec_Override j = do {
     kvs \<leftarrow> dec_struct j;
     v_ID \<leftarrow> dec_string (field_get ''id'' kvs);
     v_Match \<leftarrow> dec_Selector (field_get ''match'' kvs);
     v_Except \<leftarrow> dec_ptr dec_Selector (field_get ''except'' kvs);
     v_Until \<leftarrow> dec_ptr dec_string (field_get ''until'' kvs);
     v_Patch \<leftarrow> dec_map dec_any (field_get ''patch'' kvs);
     Some \<lparr>ov_ID = v_ID, ov_Match = v_Match, ov_Except = v_Except, ov_Until = v_Until, ov_Patch = v_Patch\<rparr>
   }"

definition ok_Override :: "Override \<Rightarrow> bool" where
  "ok_Override x = (ok_Selector (ov_Match x) \<and> ok_ptr ok_Selector (ov_Except x) \<and> ok_map normal_json (ov_Patch x))"

interpretation Override_codec: json_codec enc_Override dec_Override ok_Override
  by unfold_locales
    (auto simp: enc_Override_def dec_Override_def ok_Override_def field_get_eval json_keys field_get_go_map bind_eq_Some_conv
      string_codec.container_laws Selector_codec.container_laws Selector_codec.codec_laws string_codec.codec_laws any_value.container_laws intro: Selector_codec.dec_ok Selector_codec.ptr_dec_ok any_value.map_dec_ok)

section \<open>Struct Document\<close>

record Document =
  doc_SchemaVersion :: int
  doc_Revision :: int
  doc_GeneratedAt :: string
  doc_Refresh :: "Refresh ptr"
  doc_Servers :: "string gomap"
  doc_DefaultServer :: string
  doc_IPCProtocol :: "IPCProtocol ptr"
  doc_DCLookupMap :: "Site gomap"
  doc_HostIntegrity :: "HostIntegrity ptr"
  doc_Control :: "Control ptr"
  doc_Updater :: "UpdaterTuning ptr"
  doc_Logging :: "Logging ptr"
  doc_ClientWS :: "ToggleOnly ptr"
  doc_Overrides :: "Override slice"

definition enc_Document :: "Document \<Rightarrow> json" where
  "enc_Document x = JObj ([
     (''schemaVersion'', JNum (doc_SchemaVersion x)),
     (''revision'', JNum (doc_Revision x)),
     (''generatedAt'', JStr (doc_GeneratedAt x)),
     (''refresh'', enc_ptr enc_Refresh (doc_Refresh x)),
     (''servers'', enc_map JStr (doc_Servers x)),
     (''defaultServer'', JStr (doc_DefaultServer x)),
     (''ipcProtocol'', enc_ptr enc_IPCProtocol (doc_IPCProtocol x)),
     (''dcLookupMap'', enc_map enc_Site (doc_DCLookupMap x)),
     (''hostIntegrity'', enc_ptr enc_HostIntegrity (doc_HostIntegrity x)),
     (''control'', enc_ptr enc_Control (doc_Control x)),
     (''updater'', enc_ptr enc_UpdaterTuning (doc_Updater x)),
     (''logging'', enc_ptr enc_Logging (doc_Logging x))]
   @ (case doc_ClientWS x of None \<Rightarrow> [] | Some c \<Rightarrow> [(''clientWs'', enc_ToggleOnly c)])
   @ [(''overrides'', enc_list enc_Override (doc_Overrides x))])"

definition dec_Document :: "json \<Rightarrow> Document option" where
  "dec_Document j = do {
     kvs \<leftarrow> dec_struct j;
     v_SchemaVersion \<leftarrow> dec_int (field_get ''schemaVersion'' kvs);
     v_Revision \<leftarrow> dec_int (field_get ''revision'' kvs);
     v_GeneratedAt \<leftarrow> dec_string (field_get ''generatedAt'' kvs);
     v_Refresh \<leftarrow> dec_ptr dec_Refresh (field_get ''refresh'' kvs);
     v_Servers \<leftarrow> dec_map dec_string (field_get ''servers'' kvs);
     v_DefaultServer \<leftarrow> dec_string (field_get ''defaultServer'' kvs);
     v_IPCProtocol \<leftarrow> dec_ptr dec_IPCProtocol (field_get ''ipcProtocol'' kvs);
     v_DCLookupMap \<leftarrow> dec_map dec_Site (field_get ''dcLookupMap'' kvs);
     v_HostIntegrity \<leftarrow> dec_ptr dec_HostIntegrity (field_get ''hostIntegrity'' kvs);
     v_Control \<leftarrow> dec_ptr dec_Control (field_get ''control'' kvs);
     v_Updater \<leftarrow> dec_ptr dec_UpdaterTuning (field_get ''updater'' kvs);
     v_Logging \<leftarrow> dec_ptr dec_Logging (field_get ''logging'' kvs);
     v_ClientWS \<leftarrow> dec_ptr dec_ToggleOnly (field_get ''clientWs'' kvs);
     v_Overrides \<leftarrow> dec_list dec_Override (field_get ''overrides'' kvs);
     Some \<lparr>doc_SchemaVersion = v_SchemaVersion, doc_Revision = v_Revision, doc_GeneratedAt = v_GeneratedAt, doc_Refresh = v_Refresh, doc_Servers = v_Servers, doc_DefaultServer = v_DefaultServer, doc_IPCProtocol = v_IPCProtocol, doc_DCLookupMap = v_DCLookupMap, doc_HostIntegrity = v_HostIntegrity, doc_Control = v_Control, doc_Updater = v_Updater, doc_Logging = v_Logging, doc_ClientWS = v_ClientWS, doc_Overrides = v_Overrides\<rparr>
   }"

definition ok_Document :: "Document \<Rightarrow> bool" where
  "ok_Document x = (int64_range (doc_SchemaVersion x) \<and> int64_range (doc_Revision x) \<and> ok_ptr ok_Refresh (doc_Refresh x) \<and> ok_map (\<lambda>_. True) (doc_Servers x) \<and> ok_ptr ok_IPCProtocol (doc_IPCProtocol x) \<and> ok_map ok_Site (doc_DCLookupMap x) \<and> ok_ptr ok_HostIntegrity (doc_HostIntegrity x) \<and> ok_ptr ok_Control (doc_Control x) \<and> ok_ptr ok_UpdaterTuning (doc_Updater x) \<and> ok_ptr ok_Logging (doc_Logging x) \<and> ok_ptr ok_ToggleOnly (doc_ClientWS x) \<and> ok_list ok_Override (doc_Overrides x))"

interpretation Document_codec: json_codec enc_Document dec_Document ok_Document
proof unfold_locales
  fix x :: Document
  assume ok: "ok_Document x"
  show "dec_Document (enc_Document x) = Some x"
    using ok by (cases x; cases "doc_ClientWS x")
      (simp_all add: enc_Document_def dec_Document_def ok_Document_def field_get_eval json_keys ok_ToggleOnly_def
        ToggleOnly_codec.some_dec_enc ToggleOnly_codec.some_dec_norm
        int_codec.container_laws string_codec.container_laws Refresh_codec.codec_laws IPCProtocol_codec.codec_laws Site_codec.container_laws HostIntegrity_codec.codec_laws Control_codec.codec_laws UpdaterTuning_codec.codec_laws Logging_codec.codec_laws ToggleOnly_codec.codec_laws Override_codec.container_laws)
  show "dec_Document (norm_json (enc_Document x)) = Some x"
    using ok by (cases x; cases "doc_ClientWS x")
      (simp_all add: enc_Document_def dec_Document_def ok_Document_def field_get_eval json_keys field_get_go_map ok_ToggleOnly_def
        ToggleOnly_codec.some_dec_enc ToggleOnly_codec.some_dec_norm
        int_codec.container_laws string_codec.container_laws Refresh_codec.codec_laws IPCProtocol_codec.codec_laws Site_codec.container_laws HostIntegrity_codec.codec_laws Control_codec.codec_laws UpdaterTuning_codec.codec_laws Logging_codec.codec_laws ToggleOnly_codec.codec_laws Override_codec.container_laws)
next
  fix j x
  assume "dec_Document j = Some x"
  then show "ok_Document x"
    by (auto simp: dec_Document_def ok_Document_def bind_eq_Some_conv ok_ToggleOnly_def simp del: ok_trivial
        intro: int_codec.dec_ok Refresh_codec.ptr_dec_ok string_codec.map_dec_ok IPCProtocol_codec.ptr_dec_ok Site_codec.map_dec_ok HostIntegrity_codec.ptr_dec_ok Control_codec.ptr_dec_ok UpdaterTuning_codec.ptr_dec_ok Logging_codec.ptr_dec_ok ToggleOnly_codec.ptr_dec_ok Override_codec.list_dec_ok)
qed (simp add: enc_Document_def)

section \<open>Patch documents\<close>

type_synonym PatchDoc = "json gomap"

definition AllowedPatchKeys :: "string list" where
  "AllowedPatchKeys = [''control'', ''updater'', ''logging'', ''defaultServer'', ''clientWs'']"

end
