(* ===== verification/RC_Merge_Patch.thy ===== *)
theory RC_Merge_Patch
  imports RC_Types
begin

text \<open>
  \<open>internal/remoteconfig/mergepatch.go\<close>: the RFC 7386 merge of two JSON trees and its
  application to a whole document. \<open>mergePatch\<close> follows the Go loop over the patch object;
  its lemmas give the order-free reading of the RFC (what every key of the result holds) and
  the frame of \<open>applyPatchToDocument\<close>: sections outside the patch come back untouched.
\<close>

definition obj_get :: "string \<Rightarrow> (string \<times> json) list \<Rightarrow> json" where
  "obj_get k m = (case map_of m k of None \<Rightarrow> JNull | Some v \<Rightarrow> v)"

fun mergePatch :: "json \<Rightarrow> json \<Rightarrow> json"
  and mergeEntries :: "(string \<times> json) list \<Rightarrow> (string \<times> json) list \<Rightarrow> (string \<times> json) list" where
  "mergePatch target (JObj patchObj) =
     JObj (mergeEntries (case target of JObj targetObj \<Rightarrow> targetObj | _ \<Rightarrow> []) patchObj)"
| "mergePatch target patch = patch"
| "mergeEntries targetObj [] = targetObj"
| "mergeEntries targetObj ((k, v) # patchObj) =
     (if v = JNull then mergeEntries (map_del k targetObj) patchObj
      else mergeEntries (map_put k (mergePatch (obj_get k targetObj) v) targetObj) patchObj)"

definition applyPatchToDocument :: "Document \<Rightarrow> PatchDoc \<Rightarrow> Document option" where
  "applyPatchToDocument doc patch =
     (if elems patch = [] then Some doc
      else
        (let tree = (case norm_json (enc_Document doc) of JObj t \<Rightarrow> t | _ \<Rightarrow> []);
             merged = fold (\<lambda>(key, value) t.
                        if key \<in> set AllowedPatchKeys
                        then map_put key (mergePatch (obj_get key t) value) t else t)
                      (elems patch) tree
         in dec_Document (JObj merged)))"

section \<open>The order-free reading of the merge\<close>

definition obj_of :: "json \<Rightarrow> (string \<times> json) list" where
  "obj_of j = (case j of JObj m \<Rightarrow> m | _ \<Rightarrow> [])"

text \<open>RFC 7386, section 2, for one key of the result.\<close>

definition merged_value :: "json option \<Rightarrow> json option \<Rightarrow> json option" where
  "merged_value old new =
     (case new of
        None \<Rightarrow> old
      | Some v \<Rightarrow> if v = JNull then None
                  else Some (mergePatch (case old of None \<Rightarrow> JNull | Some t \<Rightarrow> t) v))"

lemma mergeEntries_lookup:
  "distinct (map fst p) \<Longrightarrow>
     map_of (mergeEntries t p) k = merged_value (map_of t k) (map_of p k)"
proof (induction p arbitrary: t)
  case Nil
  then show ?case by (simp add: merged_value_def)
next
  case (Cons e p)
  obtain a v where e: "e = (a, v)" by (cases e)
  have IH: "map_of (mergeEntries s p) k = merged_value (map_of s k) (map_of p k)" for s
    using Cons by simp
  show ?case
  proof (cases "k = a")
    case True
    with Cons.prems e have "map_of p k = None"
      by (metis distinct.simps(2) fst_conv list.set_map list.simps(9) map_of_eq_None_iff)
    with True e show ?thesis
      by (simp add: IH [unfolded True] merged_value_def obj_get_def)
  next
    case False
    with e show ?thesis by (simp add: IH)
  qed
qed

lemma mergePatch_lookup:
  "distinct (map fst p) \<Longrightarrow>
     map_of (obj_of (mergePatch t (JObj p))) k = merged_value (map_of (obj_of t) k) (map_of p k)"
  by (simp add: obj_of_def mergeEntries_lookup)

lemma sorted_mergeEntries: "sorted_keys t \<Longrightarrow> sorted_keys (mergeEntries t p)"
  by (induction p arbitrary: t) auto

text \<open>A patch applied twice is the patch applied once.\<close>

lemma mergePatch_idem_aux:
  "normal_json p \<Longrightarrow> normal_json t \<Longrightarrow> mergePatch (mergePatch t p) p = mergePatch t p"
proof (induction p arbitrary: t rule: normal_json.induct)
  case (2 kvs)
  have d: "distinct (map fst kvs)" using "2.prems" by (simp add: sorted_keys_distinct)
  let ?m = "mergeEntries (obj_of t) kvs"
  have mt: "mergePatch t (JObj kvs) = JObj ?m" by (simp add: obj_of_def)
  have so: "sorted_keys (obj_of t)" using "2.prems"(2) by (cases t) (auto simp: obj_of_def)
  have eq: "map_of (mergeEntries ?m kvs) k = map_of ?m k" for k
  proof (cases "map_of kvs k")
    case None
    then show ?thesis by (simp add: mergeEntries_lookup [OF d] merged_value_def)
  next
    case (Some v)
    then have kv: "(k, v) \<in> set kvs" by (rule map_of_SomeD)
    then have nv: "normal_json v" using "2.prems"(1) by (auto simp: list_all_iff)
    let ?old = "case map_of (obj_of t) k of None \<Rightarrow> JNull | Some u \<Rightarrow> u"
    have "normal_json ?old" using "2.prems"(2)
      by (cases t) (auto simp: obj_of_def list_all_iff dest: map_of_SomeD split: option.splits)
    then have "mergePatch (mergePatch ?old v) v = mergePatch ?old v"
      using "2.IH" [OF kv refl nv] by blast
    then show ?thesis using Some
      by (simp add: mergeEntries_lookup [OF d] merged_value_def)
  qed
  have "mergeEntries ?m kvs = ?m"
    by (rule sorted_keys_ext) (auto simp: sorted_mergeEntries so eq)
  then show ?case unfolding mt by simp
qed auto

section \<open>The frame of a patched document\<close>

definition doc_keys :: "string list" where
  "doc_keys = [''schemaVersion'', ''revision'', ''generatedAt'', ''refresh'', ''servers'',
     ''defaultServer'', ''ipcProtocol'', ''dcLookupMap'', ''hostIntegrity'', ''control'',
     ''updater'', ''logging'', ''clientWs'', ''overrides'']"

lemma inj_doc_keys: "inj_on ToLower (set doc_keys)"
proof -
  have "distinct (map ToLower doc_keys)" by (simp add: doc_keys_def json_keys)
  then show ?thesis by (simp add: distinct_map)
qed

lemma allowed_doc_keys: "set AllowedPatchKeys \<subseteq> set doc_keys"
  by (simp add: AllowedPatchKeys_def doc_keys_def)

abbreviation doc_tree :: "Document \<Rightarrow> (string \<times> json) list" where
  "doc_tree d \<equiv> obj_of (norm_json (enc_Document d))"

abbreviation patch_fold :: "(string \<times> json) list \<Rightarrow> (string \<times> json) list \<Rightarrow> (string \<times> json) list" where
  "patch_fold \<equiv> fold (\<lambda>(key, value) t.
     if key \<in> set AllowedPatchKeys then map_put key (mergePatch (obj_get key t) value) t else t)"

lemma doc_tree_facts: "sorted_keys (doc_tree d)" "fst ` set (doc_tree d) \<subseteq> set doc_keys"
    "JObj (doc_tree d) = norm_json (enc_Document d)"
proof -
  obtain kvs where e: "enc_Document d = JObj kvs" by (simp add: enc_Document_def)
  then show "sorted_keys (doc_tree d)" "JObj (doc_tree d) = norm_json (enc_Document d)"
    by (simp_all add: obj_of_def)
  have "fst ` set kvs \<subseteq> set doc_keys"
    using e by (auto simp: enc_Document_def doc_keys_def split: option.splits)
  moreover have "fst ` set (doc_tree d) \<subseteq> fst ` set kvs"
    using image_mono [OF set_go_map_of [of "map (\<lambda>(k, v). (k, norm_json v)) kvs"], of fst] e
    by (simp add: obj_of_def image_image case_prod_unfold)
  ultimately show "fst ` set (doc_tree d) \<subseteq> set doc_keys" by blast
qed

lemma patch_fold_keys:
  "sorted_keys t \<Longrightarrow> fst ` set t \<subseteq> set doc_keys \<Longrightarrow>
     sorted_keys (patch_fold p t) \<and> fst ` set (patch_fold p t) \<subseteq> set doc_keys"
proof (induction p arbitrary: t)
  case (Cons e p)
  obtain a v where e: "e = (a, v)" by (cases e)
  have "sorted_keys (map_put a w t)" "fst ` set (map_put a w t) \<subseteq> set doc_keys"
    if "a \<in> set AllowedPatchKeys" for w
    using Cons.prems allowed_doc_keys that by auto
  with Cons show ?case by (simp add: e)
qed simp

lemma patch_fold_other:
  "k \<notin> fst ` set p \<or> k \<notin> set AllowedPatchKeys \<Longrightarrow> map_of (patch_fold p t) k = map_of t k"
proof (induction p arbitrary: t)
  case (Cons e p)
  obtain a v where "e = (a, v)" by (cases e)
  with Cons show ?case by auto
qed simp

lemma field_get_doc:
  assumes "sorted_keys t" "fst ` set t \<subseteq> set doc_keys" "n \<in> set doc_keys"
  shows "field_get n t = obj_get n t"
proof -
  have "inj_on ToLower (insert n (fst ` set t))"
    by (rule inj_on_subset [OF inj_doc_keys]) (use assms in auto)
  then show ?thesis
    by (simp add: obj_get_def field_get_map_of sorted_keys_distinct assms(1))
qed

lemma dec_Document_fields:
  assumes "dec_Document (JObj t) = Some d"
  shows "dec_int (field_get ''schemaVersion'' t) = Some (doc_SchemaVersion d) \<and>
    dec_int (field_get ''revision'' t) = Some (doc_Revision d) \<and>
    dec_string (field_get ''generatedAt'' t) = Some (doc_GeneratedAt d) \<and>
    dec_ptr dec_Refresh (field_get ''refresh'' t) = Some (doc_Refresh d) \<and>
    dec_map dec_string (field_get ''servers'' t) = Some (doc_Servers d) \<and>
    dec_string (field_get ''defaultServer'' t) = Some (doc_DefaultServer d) \<and>
    dec_ptr dec_IPCProtocol (field_get ''ipcProtocol'' t) = Some (doc_IPCProtocol d) \<and>
    dec_map dec_Site (field_get ''dcLookupMap'' t) = Some (doc_DCLookupMap d) \<and>
    dec_ptr dec_HostIntegrity (field_get ''hostIntegrity'' t) = Some (doc_HostIntegrity d) \<and>
    dec_ptr dec_Control (field_get ''control'' t) = Some (doc_Control d) \<and>
    dec_ptr dec_UpdaterTuning (field_get ''updater'' t) = Some (doc_Updater d) \<and>
    dec_ptr dec_Logging (field_get ''logging'' t) = Some (doc_Logging d) \<and>
    dec_ptr dec_ToggleOnly (field_get ''clientWs'' t) = Some (doc_ClientWS d) \<and>
    dec_list dec_Override (field_get ''overrides'' t) = Some (doc_Overrides d)"
  using assms by (clarsimp simp: dec_Document_def bind_eq_Some_conv)

lemma applyPatch_fields:
  assumes "applyPatchToDocument d p = Some d'" and "ok_Document d"
  shows "\<exists>t. dec_Document (JObj t) = Some d' \<and>
    (\<forall>n \<in> set doc_keys. (n \<notin> fst ` set (elems p) \<or> n \<notin> set AllowedPatchKeys) \<longrightarrow>
       field_get n t = field_get n (doc_tree d))"
proof (cases "elems p = []")
  case True
  with assms have "dec_Document (JObj (doc_tree d)) = Some d'"
    by (simp add: applyPatchToDocument_def doc_tree_facts Document_codec.dec_norm)
  then show ?thesis by blast
next
  case False
  let ?t = "patch_fold (elems p) (doc_tree d)"
  have "(case norm_json (enc_Document d) of JObj t \<Rightarrow> t | _ \<Rightarrow> []) = doc_tree d"
    by (simp add: obj_of_def)
  with False assms(1) have "dec_Document (JObj ?t) = Some d'"
    by (simp add: applyPatchToDocument_def Let_def)
  moreover have "field_get n ?t = field_get n (doc_tree d)"
    if "n \<in> set doc_keys" "n \<notin> fst ` set (elems p) \<or> n \<notin> set AllowedPatchKeys" for n
    using patch_fold_keys [OF doc_tree_facts(1,2), where p = "elems p"] doc_tree_facts
      patch_fold_other [OF that(2)] that(1)
    by (simp add: field_get_doc obj_get_def)
  ultimately show ?thesis by blast
qed

lemma applyPatch_frame:
  assumes a: "applyPatchToDocument d p = Some d'" and ok: "ok_Document d"
  shows "doc_SchemaVersion d' = doc_SchemaVersion d" "doc_Revision d' = doc_Revision d"
    "doc_GeneratedAt d' = doc_GeneratedAt d" "doc_Refresh d' = doc_Refresh d"
    "doc_Servers d' = doc_Servers d" "doc_IPCProtocol d' = doc_IPCProtocol d"
    "doc_DCLookupMap d' = doc_DCLookupMap d" "doc_HostIntegrity d' = doc_HostIntegrity d"
    "doc_Overrides d' = doc_Overrides d"
    "''control'' \<notin> fst ` set (elems p) \<Longrightarrow> doc_Control d' = doc_Control d"
    "''updater'' \<notin> fst ` set (elems p) \<Longrightarrow> doc_Updater d' = doc_Updater d"
    "''logging'' \<notin> fst ` set (elems p) \<Longrightarrow> doc_Logging d' = doc_Logging d"
    "''defaultServer'' \<notin> fst ` set (elems p) \<Longrightarrow> doc_DefaultServer d' = doc_DefaultServer d"
    "''clientWs'' \<notin> fst ` set (elems p) \<Longrightarrow> doc_ClientWS d' = doc_ClientWS d"
proof -
  obtain t where t: "dec_Document (JObj t) = Some d'"
    and f: "\<And>n. n \<in> set doc_keys \<Longrightarrow> n \<notin> fst ` set (elems p) \<or> n \<notin> set AllowedPatchKeys \<Longrightarrow>
       field_get n t = field_get n (doc_tree d)"
    using applyPatch_fields [OF a ok] by blast
  have t0: "dec_Document (JObj (doc_tree d)) = Some d"
    using ok by (simp add: doc_tree_facts Document_codec.dec_norm)
  note fs = dec_Document_fields [OF t] dec_Document_fields [OF t0]
  have k: "n \<in> set doc_keys \<Longrightarrow> n \<notin> set AllowedPatchKeys \<Longrightarrow> field_get n t = field_get n (doc_tree d)"
    "n \<in> set doc_keys \<Longrightarrow> n \<notin> fst ` set (elems p) \<Longrightarrow> field_get n t = field_get n (doc_tree d)" for n
    using f by blast+
  show "doc_SchemaVersion d' = doc_SchemaVersion d" "doc_Revision d' = doc_Revision d"
    "doc_GeneratedAt d' = doc_GeneratedAt d" "doc_Refresh d' = doc_Refresh d"
    "doc_Servers d' = doc_Servers d" "doc_IPCProtocol d' = doc_IPCProtocol d"
    "doc_DCLookupMap d' = doc_DCLookupMap d" "doc_HostIntegrity d' = doc_HostIntegrity d"
    "doc_Overrides d' = doc_Overrides d"
    using fs by (simp_all add: k(1) doc_keys_def AllowedPatchKeys_def)
  show "''control'' \<notin> fst ` set (elems p) \<Longrightarrow> doc_Control d' = doc_Control d"
    "''updater'' \<notin> fst ` set (elems p) \<Longrightarrow> doc_Updater d' = doc_Updater d"
    "''logging'' \<notin> fst ` set (elems p) \<Longrightarrow> doc_Logging d' = doc_Logging d"
    "''defaultServer'' \<notin> fst ` set (elems p) \<Longrightarrow> doc_DefaultServer d' = doc_DefaultServer d"
    "''clientWs'' \<notin> fst ` set (elems p) \<Longrightarrow> doc_ClientWS d' = doc_ClientWS d"
    using fs by (simp_all add: k(2) doc_keys_def)
qed

lemma applyPatch_ok: "applyPatchToDocument d p = Some d' \<Longrightarrow> ok_Document d \<Longrightarrow> ok_Document d'"
  using applyPatch_fields Document_codec.dec_ok by blast

end
