(* ===== verification/Go_Std.thy ===== *)
theory Go_Std
  imports Go_Prelude
begin

text \<open>
  The two standard-library parsers whose results the program branches on:
  \<open>time.Parse(time.RFC3339, _)\<close>, including what the layout parser accepts beyond the RFC
  (a one-digit hour, a fraction introduced by a comma), and \<open>net.ParseIP\<close>,
  \<open>net.ParseCIDR\<close> and \<open>(*IPNet).Contains\<close> for IPv4 and IPv6.
\<close>

section \<open>time.Parse with layout RFC3339\<close>

fun two_digits :: "string \<Rightarrow> (int \<times> string) option" where
  "two_digits (a # b # r) =
     (if is_digit a \<and> is_digit b then Some (10 * digit_val a + digit_val b, r) else None)"
| "two_digits _ = None"

text \<open>\<open>getnum(value, false)\<close>: the hour may have one digit.\<close>

fun one_or_two_digits :: "string \<Rightarrow> (int \<times> string) option" where
  "one_or_two_digits [] = None"
| "one_or_two_digits (a # r) =
     (if \<not> is_digit a then None
      else case r of
        b # r' \<Rightarrow> if is_digit b then Some (10 * digit_val a + digit_val b, r') else Some (digit_val a, r)
      | [] \<Rightarrow> Some (digit_val a, []))"

definition lit :: "char \<Rightarrow> string \<Rightarrow> string option" where
  "lit c s = (case s of x # r \<Rightarrow> if x = c then Some r else None | [] \<Rightarrow> None)"

text \<open>An optional fraction of a second, read to nanoseconds.\<close>

definition fraction :: "string \<Rightarrow> int \<times> string" where
  "fraction s =
     (case s of
        c # d # r \<Rightarrow>
          if (c = CHR ''.'' \<or> c = CHR '','') \<and> is_digit d
          then (let ds = takeWhile is_digit (d # r); nine = take 9 ds
                in (digits_val nine * 10 ^ (9 - length nine), dropWhile is_digit (d # r)))
          else (0, s)
      | _ \<Rightarrow> (0, s))"

text \<open>The zone: \<open>Z\<close>, or a signed \<open>hh:mm\<close> with the layout parser's lenient ranges.\<close>

definition zone_seconds :: "string \<Rightarrow> int option" where
  "zone_seconds s =
     (if s = ''Z'' then Some 0
      else case s of
        sg # r \<Rightarrow> do {
          (h, r1) \<leftarrow> two_digits r;
          r2 \<leftarrow> lit (CHR '':'') r1;
          (m, r3) \<leftarrow> two_digits r2;
          if r3 = [] \<and> h \<le> 24 \<and> m \<le> 60
          then (if sg = CHR ''+'' then Some (3600 * h + 60 * m)
                else if sg = CHR ''-'' then Some (- (3600 * h + 60 * m)) else None)
          else None }
      | [] \<Rightarrow> None)"

definition leap_year :: "int \<Rightarrow> bool" where
  "leap_year y = (y mod 4 = 0 \<and> (y mod 100 \<noteq> 0 \<or> y mod 400 = 0))"

definition days_in :: "int \<Rightarrow> int \<Rightarrow> int" where
  "days_in m y =
     (if m = 2 then (if leap_year y then 29 else 28)
      else if m \<in> {4, 6, 9, 11} then 30 else 31)"

definition days_before_month :: "int \<Rightarrow> int \<Rightarrow> int" where
  "days_before_month m y = sum_list (map (\<lambda>k. days_in k y) [1..m - 1])"

definition days_before_year :: "int \<Rightarrow> int" where
  "days_before_year y =
     (let k = y - 1 in 365 * k + k div 4 - k div 100 + k div 400)"

definition civil_time :: "int \<Rightarrow> int \<Rightarrow> int \<Rightarrow> int \<Rightarrow> int \<Rightarrow> int \<Rightarrow> int \<Rightarrow> int \<Rightarrow> gotime" where
  "civil_time y mo d h mi s ns off =
     ((days_before_year y + days_before_month mo y + d - 1) * 86400
        + 3600 * h + 60 * mi + s - off) * second + ns"

definition ParseRFC3339 :: "string \<Rightarrow> gotime option" where
  "ParseRFC3339 s = do {
     (y1, r) \<leftarrow> two_digits s;
     (y2, r) \<leftarrow> two_digits r;
     r \<leftarrow> lit (CHR ''-'') r;
     (mo, r) \<leftarrow> two_digits r;
     r \<leftarrow> lit (CHR ''-'') r;
     (d, r) \<leftarrow> two_digits r;
     r \<leftarrow> lit (CHR ''T'') r;
     (h, r) \<leftarrow> one_or_two_digits r;
     r \<leftarrow> lit (CHR '':'') r;
     (mi, r) \<leftarrow> two_digits r;
     r \<leftarrow> lit (CHR '':'') r;
     (sec, r) \<leftarrow> two_digits r;
     let (ns, r) = fraction r;
     off \<leftarrow> zone_seconds r;
     let y = 100 * y1 + y2;
     if 1 \<le> mo \<and> mo \<le> 12 \<and> 1 \<le> d \<and> d \<le> days_in mo y \<and> h < 24 \<and> mi < 60 \<and> sec < 60
     then Some (civil_time y mo d h mi sec ns off) else None
   }"

section \<open>Package net\<close>

text \<open>An address is its 16-byte form as a number below \<open>2^128\<close>; IPv4 is mapped under \<open>::ffff\<close>.\<close>

type_synonym ip = int

definition map4 :: "int \<Rightarrow> ip" where
  "map4 v = 65535 * 2 ^ 32 + v"

definition To4 :: "ip \<Rightarrow> int option" where
  "To4 a = (if a div 2 ^ 32 = 65535 then Some (a mod 2 ^ 32) else None)"

definition octet :: "string \<Rightarrow> int option" where
  "octet s =
     (if s \<noteq> [] \<and> list_all is_digit s \<and> length s \<le> 3 \<and> (hd s = CHR ''0'' \<longrightarrow> length s = 1)
         \<and> digits_val s \<le> 255
      then Some (digits_val s) else None)"

definition parse_ipv4 :: "string \<Rightarrow> int option" where
  "parse_ipv4 s =
     (case Split (CHR ''.'') s of
        [a, b, c, d] \<Rightarrow> do {
          a \<leftarrow> octet a; b \<leftarrow> octet b; c \<leftarrow> octet c; d \<leftarrow> octet d;
          Some (((a * 256 + b) * 256 + c) * 256 + d) }
      | _ \<Rightarrow> None)"

definition is_hex :: "char \<Rightarrow> bool" where
  "is_hex c = (let n = (of_char c :: int) in
     (48 \<le> n \<and> n \<le> 57) \<or> (65 \<le> n \<and> n \<le> 70) \<or> (97 \<le> n \<and> n \<le> 102))"

definition hex_val :: "char \<Rightarrow> int" where
  "hex_val c = (let n = of_char c in if n \<le> 57 then n - 48 else if n \<le> 70 then n - 55 else n - 87)"

definition group_val :: "string \<Rightarrow> int" where
  "group_val s = foldl (\<lambda>n c. 16 * n + hex_val c) 0 s"

text \<open>The loop of \<open>netip.parseIPv6\<close>: at most eight groups, one ellipsis, IPv4 only at the end.\<close>

fun v6_loop :: "nat \<Rightarrow> int list \<Rightarrow> nat option \<Rightarrow> string \<Rightarrow> (int list \<times> nat option) option" where
  "v6_loop 0 gs e s = (if s = [] then Some (gs, e) else None)"
| "v6_loop (Suc n) gs e s =
     (let ds = takeWhile is_hex s; r = dropWhile is_hex s; gs' = gs @ [group_val ds]
      in if ds = [] \<or> length ds > 4 then None
         else case r of
           [] \<Rightarrow> Some (gs', e)
         | c # r' \<Rightarrow>
             if c = CHR ''.'' then
               (if (e = None \<and> length gs \<noteq> 6) \<or> length gs > 6 then None
                else map_option (\<lambda>v. (gs @ [v div 65536, v mod 65536], e)) (parse_ipv4 s))
             else if c \<noteq> CHR '':'' \<or> r' = [] then None
             else if hd r' = CHR '':'' then
               (if e \<noteq> None then None
                else if tl r' = [] then Some (gs', Some (length gs'))
                else v6_loop n gs' (Some (length gs')) (tl r'))
             else v6_loop n gs' e r')"

definition v6_value :: "int list \<Rightarrow> int" where
  "v6_value gs = foldl (\<lambda>n g. 65536 * n + g) 0 gs"

definition v6_finish :: "int list \<times> nat option \<Rightarrow> ip option" where
  "v6_finish p = (case p of (gs, e) \<Rightarrow>
     (if length gs = 8 then (if e = None then Some (v6_value gs) else None)
      else case e of None \<Rightarrow> None
           | Some k \<Rightarrow> Some (v6_value (take k gs @ replicate (8 - length gs) 0 @ drop k gs))))"

definition parse_ipv6 :: "string \<Rightarrow> ip option" where
  "parse_ipv6 s =
     (if s = ''::'' then Some 0
      else if HasPrefix s ''::'' then Option.bind (v6_loop 8 [] (Some 0) (drop 2 s)) v6_finish
      else Option.bind (v6_loop 8 [] None s) v6_finish)"

text \<open>
  \<open>netip.ParseAddr\<close>, as \<open>net.ParseIP\<close> and \<open>net.ParseCIDR\<close> use it: the first of the bytes
  \<open>.\<close> and \<open>:\<close> decides the family, and an address with a zone is refused. The flag says
  whether the address was written in IPv4 form.
\<close>

definition ParseAddr :: "string \<Rightarrow> (bool \<times> ip) option" where
  "ParseAddr s =
     (if CHR ''%'' \<in> set s then None
      else case dropWhile (\<lambda>c. c \<noteq> CHR ''.'' \<and> c \<noteq> CHR '':'') s of
        [] \<Rightarrow> None
      | c # _ \<Rightarrow> if c = CHR ''.'' then map_option (\<lambda>v. (True, map4 v)) (parse_ipv4 s)
                 else map_option (Pair False) (parse_ipv6 s))"

definition ParseIP :: "string \<Rightarrow> ip option" where
  "ParseIP s = map_option snd (ParseAddr s)"

text \<open>A network: whether it carries a 4-byte mask, its masked base address, its prefix length.\<close>

record ipnet =
  net_v4 :: bool
  net_base :: int
  net_prefix :: int

definition keep_top :: "int \<Rightarrow> int \<Rightarrow> int \<Rightarrow> int" where
  "keep_top w n v = (let b = 2 ^ nat (w - n) in v div b * b)"

definition ParseCIDR :: "string \<Rightarrow> (ip \<times> ipnet) option" where
  "ParseCIDR s =
     (if CHR ''/'' \<notin> set s then None
      else
        (let addr = before (CHR ''/'') s; mask = drop (Suc (length addr)) s
         in case ParseAddr addr of
              None \<Rightarrow> None
            | Some (is4, a) \<Rightarrow>
                if mask \<noteq> [] \<and> list_all is_digit mask \<and> digits_val mask \<le> (if is4 then 32 else 128)
                then (let n = digits_val mask
                      in Some (a, \<lparr>net_v4 = is4,
                                   net_base = (if is4 then keep_top 32 n (a mod 2 ^ 32) else keep_top 128 n a),
                                   net_prefix = n\<rparr>))
                else None))"

text \<open>
  \<open>(*IPNet).Contains\<close>: a network whose base is an IPv4-mapped address compares on the last
  four bytes; a different address length never matches.
\<close>

definition Contains :: "ipnet \<Rightarrow> ip \<Rightarrow> bool" where
  "Contains n a =
     (let nn = (if net_v4 n then Some (net_base n, net_prefix n)
                else map_option (\<lambda>b. (b, max 0 (net_prefix n - 96))) (To4 (net_base n)))
      in case (nn, To4 a) of
           (Some (b, p), Some x) \<Rightarrow> keep_top 32 p x = keep_top 32 p b
         | (None, None) \<Rightarrow> keep_top 128 (net_prefix n) a = keep_top 128 (net_prefix n) (net_base n)
         | _ \<Rightarrow> False)"

section \<open>Facts about addresses\<close>

lemma digits_val_nonneg: "list_all is_digit s \<Longrightarrow> 0 \<le> digits_val s"
proof (induction s rule: rev_induct)
  case (snoc c s)
  then show ?case by (simp add: digits_val_snoc digit_val_def is_digit_def Let_def)
qed (simp add: digits_val_def)

lemma digits_octet: "octet s = Some v \<Longrightarrow> 0 \<le> v \<and> v \<le> 255"
  using digits_val_nonneg by (auto simp: octet_def split: if_splits)

lemma parse_ipv4_bound: "parse_ipv4 s = Some v \<Longrightarrow> 0 \<le> v \<and> v < 2 ^ 32"
  by (auto simp: parse_ipv4_def bind_eq_Some_conv split: list.splits dest!: digits_octet)

lemma map4_parts: "0 \<le> v \<Longrightarrow> v < 2 ^ 32 \<Longrightarrow> map4 v div 2 ^ 32 = 65535 \<and> map4 v mod 2 ^ 32 = v"
  unfolding map4_def by (simp only: div_mult_self3 mod_mult_self3 div_pos_pos_trivial mod_pos_pos_trivial) simp

lemma To4_map4: "0 \<le> v \<Longrightarrow> v < 2 ^ 32 \<Longrightarrow> To4 (map4 v) = Some v"
  using map4_parts [of v] by (simp add: To4_def)

text \<open>An address is inside every network of its own that is written in IPv4 form.\<close>

lemma Contains_self_v4:
  assumes "ParseCIDR s = Some (a, n)" "net_v4 n"
  shows "Contains n a"
proof -
  obtain w where w: "ParseAddr w = Some (True, a)"
    and n: "net_base n = keep_top 32 (net_prefix n) (a mod 2 ^ 32)" "net_prefix n \<le> 32"
    using assms by (auto simp: ParseCIDR_def Let_def split: if_splits option.splits)
  from w obtain v where v: "parse_ipv4 w = Some v" "a = map4 v"
    by (auto simp: ParseAddr_def split: if_splits list.splits)
  then have lt: "0 \<le> v" "v < 2 ^ 32" and am: "a mod 2 ^ 32 = v"
    using parse_ipv4_bound map4_parts by blast+
  have "keep_top 32 p (keep_top 32 p v) = keep_top 32 p v" for p
    by (simp add: keep_top_def Let_def)
  then show ?thesis using lt am v n assms(2)
    by (simp add: Contains_def To4_map4)
qed

end
