(* ===== verification/RC_Parse.thy ===== *)
theory RC_Parse
  imports RC_Merge_Patch Go_Std
begin

text \<open>
  \<open>internal/remoteconfig/parse.go\<close> and \<open>problem.go\<close>: decoding and validation of a policy
  document. Every validator returns the list of problems it found, as the Go code appends
  them; a Go map is visited in key order. The wording of errors that come from the standard
  library is not modelled. \<open>url.Parse\<close>, the JSON text layer and SHA-256 are the fields of
  a record of library functions that the definitions take as an argument.
\<close>

section \<open>Library functions taken as parameters\<close>

record url =
  Scheme :: string
  Host :: string
  RawQuery :: string

record golib =
  url_Parse :: "string \<Rightarrow> url option"
  json_parse :: "string \<Rightarrow> json option"
  json_print :: "json \<Rightarrow> string"
  sha256_hex :: "string \<Rightarrow> string"

section \<open>Problems\<close>

record Problem =
  Path :: string
  Message :: string

definition problemf :: "string \<Rightarrow> string \<Rightarrow> Problem" where
  "problemf path msg = \<lparr>Path = path, Message = msg\<rparr>"

definition quote :: "string \<Rightarrow> string" where
  "quote s = CHR 0x22 # s @ [CHR 0x22]"

definition MaxDocumentBytes :: int where
  "MaxDocumentBytes = 1048576"

section \<open>Section validators\<close>

text \<open>
  The pattern \<open>^[0-9]+(\.[0-9]+){0,3}[A-Za-z0-9.\-]*$\<close>. Its last class contains every byte the
  earlier groups can produce, so the language is: a digit, then bytes of the class.
\<close>

definition semver_char :: "char \<Rightarrow> bool" where
  "semver_char c = (let n = (of_char c :: int) in
     (48 \<le> n \<and> n \<le> 57) \<or> (65 \<le> n \<and> n \<le> 90) \<or> (97 \<le> n \<and> n \<le> 122) \<or> n = 46 \<or> n = 45)"

definition semverPattern :: "string \<Rightarrow> bool" where
  "semverPattern s = (case s of [] \<Rightarrow> False | c # cs \<Rightarrow> is_digit c \<and> list_all semver_char cs)"

definition validLoggingLevels :: "string list" where
  "validLoggingLevels = [''debug'', ''info'', ''warn'', ''error'']"

definition validAppModes :: "string list" where
  "validAppModes = [''normal'', ''readonly'', ''maintenance'']"

definition validChannelOverride :: "string list" where
  "validChannelOverride = [''stable'', ''beta'']"

definition validateTop :: "Document \<Rightarrow> Problem list" where
  "validateTop doc =
     (if doc_SchemaVersion doc \<noteq> 1
      then [problemf ''/schemaVersion'' (''must equal 1, got '' @ Itoa (doc_SchemaVersion doc))] else [])
   @ (if doc_Revision doc < 0 then [problemf ''/revision'' ''must be >= 0''] else [])
   @ (if doc_GeneratedAt doc \<noteq> [] \<and> ParseRFC3339 (doc_GeneratedAt doc) = None
      then [problemf ''/generatedAt'' ''must be RFC3339''] else [])"

definition validateServerURL :: "golib \<Rightarrow> string \<Rightarrow> string option" where
  "validateServerURL L raw =
     (case url_Parse L raw of
        None \<Rightarrow> Some ''invalid URL''
      | Some u \<Rightarrow>
          if Scheme u \<noteq> ''http'' \<and> Scheme u \<noteq> ''https'' then Some ''scheme must be http or https''
          else if Host u = [] then Some ''must be an absolute URL''
          else if RawQuery u \<noteq> [] then Some ''must not carry a query string''
          else if HasSuffix raw ''/'' then Some ''must not have a trailing slash''
          else None)"

definition known_server :: "Document \<Rightarrow> string \<Rightarrow> bool" where
  "known_server doc name = (map_of (elems (doc_Servers doc)) name \<noteq> None)"

definition validateServers :: "golib \<Rightarrow> Document \<Rightarrow> Problem list" where
  "validateServers L doc =
     (if elems (doc_Servers doc) = [] then [problemf ''/servers'' ''must have at least one entry''] else [])
   @ concat (map (\<lambda>(name, base). case validateServerURL L base of
         None \<Rightarrow> [] | Some e \<Rightarrow> [problemf (''/servers/'' @ name) e]) (elems (doc_Servers doc)))
   @ (if doc_DefaultServer doc = [] then [problemf ''/defaultServer'' ''is required'']
      else if \<not> known_server doc (doc_DefaultServer doc)
      then [problemf ''/defaultServer'' (''references unknown server '' @ quote (doc_DefaultServer doc))]
      else [])"

definition validateSemverPtr :: "string \<Rightarrow> string ptr \<Rightarrow> Problem list" where
  "validateSemverPtr path v =
     (case v of None \<Rightarrow> []
      | Some s \<Rightarrow> if s = [] then []
                  else if \<not> semverPattern s then [problemf path (''must be a semver string, got '' @ quote s)]
                  else [])"

definition validateIPCVersion :: "string \<times> IPCVersion \<Rightarrow> Problem list" where
  "validateIPCVersion kv = (case kv of (key, v) \<Rightarrow>
     (let p = ''/ipcProtocol/versions/'' @ key in
        (if Atoi key = None then [problemf p ''key must be a decimal integer''] else [])
      @ validateSemverPtr (p @ ''/updater/min'') (vr_Min (ipv_Updater v))
      @ validateSemverPtr (p @ ''/updater/max'') (vr_Max (ipv_Updater v))
      @ validateSemverPtr (p @ ''/emly/min'') (vr_Min (ipv_EMLy v))
      @ validateSemverPtr (p @ ''/emly/max'') (vr_Max (ipv_EMLy v))))"

definition validateIPCProtocol :: "IPCProtocol ptr \<Rightarrow> Problem list" where
  "validateIPCProtocol ipc =
     (case ipc of None \<Rightarrow> []
      | Some p \<Rightarrow>
          concat (map validateIPCVersion (elems (ipc_Versions p)))
        @ (case map_of (elems (ipc_Versions p)) (Itoa (ipc_DefaultVersion p)) of
             None \<Rightarrow> [problemf ''/ipcProtocol/defaultVersion''
                       (''references unknown protocol version '' @ Itoa (ipc_DefaultVersion p))]
           | Some v \<Rightarrow> if \<not> ipv_Enabled v
               then [problemf ''/ipcProtocol/defaultVersion''
                       (''protocol version '' @ Itoa (ipc_DefaultVersion p) @ '' is disabled'')]
               else []))"

definition validateCIDR :: "string \<Rightarrow> string option" where
  "validateCIDR cidr =
     (case ParseCIDR cidr of
        None \<Rightarrow> Some ''invalid CIDR address''
      | Some (ip, _) \<Rightarrow> if To4 ip = None then Some ''IPv6 CIDRs are not supported'' else None)"

definition cidrProblems :: "string \<Rightarrow> string list \<Rightarrow> Problem list" where
  "cidrProblems path cidrs =
     concat (map (\<lambda>cidr. case validateCIDR cidr of
        None \<Rightarrow> [] | Some e \<Rightarrow> [problemf path (quote cidr @ '': '' @ e)]) cidrs)"

definition validateSite :: "Document \<Rightarrow> string \<times> Site \<Rightarrow> Problem list" where
  "validateSite doc kv = (case kv of (dc, site) \<Rightarrow>
     (let path = ''/dcLookupMap/'' @ dc in
        (if elems (site_InternalSubnets site) = []
         then [problemf (path @ ''/internalSubnets'') ''must have at least one entry''] else [])
      @ cidrProblems (path @ ''/internalSubnets'') (elems (site_InternalSubnets site))
      @ (if site_BaseServer site = [] then [problemf (path @ ''/baseServer'') ''is required'']
         else if \<not> known_server doc (site_BaseServer site)
         then [problemf (path @ ''/baseServer'') (''references unknown server '' @ quote (site_BaseServer site))]
         else [])
      @ concat (map (\<lambda>(i, ref). if known_server doc ref then []
             else [problemf (path @ ''/backupServer/'' @ Itoa (int i)) (''references unknown server '' @ quote ref)])
          (List.enumerate 0 (elems (site_BackupServer site))))))"

definition validateDCLookupMap :: "Document \<Rightarrow> Problem list" where
  "validateDCLookupMap doc = concat (map (validateSite doc) (elems (doc_DCLookupMap doc)))"

definition validateHostIntegrity :: "HostIntegrity ptr \<Rightarrow> Problem list" where
  "validateHostIntegrity hi = []"

definition validateGateUntil :: "string \<Rightarrow> string ptr \<Rightarrow> Problem list" where
  "validateGateUntil path until =
     (case until of None \<Rightarrow> []
      | Some s \<Rightarrow> if s = [] then []
                  else if ParseRFC3339 s = None then [problemf path ''must be RFC3339''] else [])"

definition validateControl :: "Control ptr \<Rightarrow> Problem list" where
  "validateControl c =
     (case c of None \<Rightarrow> []
      | Some k \<Rightarrow>
          validateGateUntil ''/control/updater/until'' (cg_Until (ctl_Updater k))
        @ validateGateUntil ''/control/app/until'' (ag_Until (ctl_App k))
        @ (if ag_Mode (ctl_App k) \<noteq> [] \<and> ag_Mode (ctl_App k) \<notin> set validAppModes
           then [problemf ''/control/app/mode''
                  (''must be one of: normal, readonly, maintenance, got '' @ quote (ag_Mode (ctl_App k)))]
           else []))"

definition validateUpdater :: "UpdaterTuning ptr \<Rightarrow> Problem list" where
  "validateUpdater u =
     (case u of None \<Rightarrow> []
      | Some t \<Rightarrow>
          (case ut_PollIntervalMinutes t of None \<Rightarrow> []
           | Some n \<Rightarrow> if n < 1 then [problemf ''/updater/pollIntervalMinutes'' ''must be >= 1''] else [])
        @ (case ut_ChannelOverride t of None \<Rightarrow> []
           | Some s \<Rightarrow> if s \<noteq> [] \<and> s \<notin> set validChannelOverride
               then [problemf ''/updater/channelOverride'' ''must be one of: stable, beta, or null''] else [])
        @ (case ut_CriticalWarning t of None \<Rightarrow> []
           | Some w \<Rightarrow> if cw_Seconds w < 0
               then [problemf ''/updater/criticalWarning/seconds'' ''must be >= 0''] else [])
        @ (case ut_DCLookupRetry t of None \<Rightarrow> []
           | Some r \<Rightarrow>
               (if dlr_Attempts r < 0 then [problemf ''/updater/dcLookupRetry/attempts'' ''must be >= 0''] else [])
             @ (if dlr_DelaySeconds r < 0
                then [problemf ''/updater/dcLookupRetry/delaySeconds'' ''must be >= 0''] else []))
        @ (case ut_Resolver t of None \<Rightarrow> []
           | Some r \<Rightarrow>
               (if rt_Attempts r < 1 then [problemf ''/updater/resolver/attempts'' ''must be >= 1''] else [])
             @ (if rt_BaseBackoffSeconds r < 0
                then [problemf ''/updater/resolver/baseBackoffSeconds'' ''must be >= 0''] else [])))"

definition validateLogging :: "Logging ptr \<Rightarrow> Problem list" where
  "validateLogging l =
     (case l of None \<Rightarrow> []
      | Some g \<Rightarrow>
          (if log_Level g \<noteq> [] \<and> log_Level g \<notin> set validLoggingLevels
           then [problemf ''/logging/level'' (''must be one of: debug, info, warn, error, got '' @ quote (log_Level g))]
           else [])
        @ (if log_MaxSizeMB g \<noteq> 0 \<and> (log_MaxSizeMB g < 1 \<or> log_MaxSizeMB g > 100)
           then [problemf ''/logging/maxSizeMB'' ''must be in [1, 100]''] else [])
        @ (if log_Backups g < 0 \<or> log_Backups g > 50
           then [problemf ''/logging/backups'' ''must be in [0, 50]''] else []))"

section \<open>Overrides\<close>

definition nonEmptyLists :: "Selector \<Rightarrow> nat" where
  "nonEmptyLists s =
     (if elems (sel_HWIDs s) \<noteq> [] then 1 else 0) + (if elems (sel_Hostnames s) \<noteq> [] then 1 else 0)
   + (if elems (sel_DCs s) \<noteq> [] then 1 else 0) + (if elems (sel_Domains s) \<noteq> [] then 1 else 0)
   + (if elems (sel_Subnets s) \<noteq> [] then 1 else 0)"

definition validateSelector :: "string \<Rightarrow> Selector \<Rightarrow> bool \<Rightarrow> Problem list" where
  "validateSelector path s allowAll =
     cidrProblems (path @ ''/subnets'') (elems (sel_Subnets s))
   @ (case sel_All s of
        Some b \<Rightarrow>
          if \<not> allowAll then [problemf (path @ ''/all'') (quote ''all'' @ '' is not allowed here'')]
          else (if \<not> b then [problemf (path @ ''/all'') ''must be true if present''] else [])
             @ (if nonEmptyLists s > 0 then [problemf path (quote ''all'' @ '' must be the only key'')] else [])
      | None \<Rightarrow>
          if nonEmptyLists s = 0
          then [problemf path (''must be either {'' @ quote ''all''
                  @ '': true} or have at least one non-empty list'')] else [])"

text \<open>One iteration of the loop over the overrides, with the ids seen so far.\<close>

definition validateOverride :: "nat \<Rightarrow> string list \<Rightarrow> Override \<Rightarrow> Problem list" where
  "validateOverride i seen ov =
     (let path = ''/overrides/'' @ Itoa (int i) in
        (if ov_ID ov = [] then [problemf (path @ ''/id'') ''is required'']
         else if ov_ID ov \<in> set seen
         then [problemf (path @ ''/id'') (''duplicate override id '' @ quote (ov_ID ov))] else [])
      @ validateSelector (path @ ''/match'') (ov_Match ov) True
      @ (case ov_Except ov of None \<Rightarrow> [] | Some e \<Rightarrow> validateSelector (path @ ''/except'') e False)
      @ validateGateUntil (path @ ''/until'') (ov_Until ov)
      @ concat (map (\<lambda>(key, _). if key \<in> set AllowedPatchKeys then []
           else [problemf (path @ ''/patch/'' @ key)
                  ''patch may only touch control, updater, logging, defaultServer'']) (elems (ov_Patch ov))))"

fun overridesLoop :: "nat \<Rightarrow> string list \<Rightarrow> Override list \<Rightarrow> Problem list" where
  "overridesLoop i seen [] = []"
| "overridesLoop i seen (ov # ovs) =
     validateOverride i seen ov
   @ overridesLoop (Suc i) (if ov_ID ov = [] then seen else ov_ID ov # seen) ovs"

definition validateOverridesShape :: "Document \<Rightarrow> Problem list" where
  "validateOverridesShape doc = overridesLoop 0 [] (elems (doc_Overrides doc))"

definition sectionOf :: "string \<Rightarrow> string" where
  "sectionOf path =
     (case Split (CHR ''/'') path of _ # p # _ \<Rightarrow> CHR ''/'' # p | _ \<Rightarrow> [])"

definition reprefix :: "string \<Rightarrow> Problem list \<Rightarrow> Problem list" where
  "reprefix prefix ps =
     map (\<lambda>p. \<lparr>Path = prefix @ TrimPrefix (Path p) (sectionOf (Path p)), Message = Message p\<rparr>) ps"

definition dryRunOverride :: "Document \<Rightarrow> nat \<Rightarrow> Override \<Rightarrow> Problem list" where
  "dryRunOverride doc i ov =
     (let path = ''/overrides/'' @ Itoa (int i) @ ''/patch'' in
      case applyPatchToDocument doc (ov_Patch ov) of
        None \<Rightarrow> [problemf path ''failed to apply'']
      | Some patched \<Rightarrow>
          (if doc_DefaultServer patched \<noteq> [] \<and> \<not> known_server doc (doc_DefaultServer patched)
           then [problemf (path @ ''/defaultServer'')
                  (''references unknown server '' @ quote (doc_DefaultServer patched))] else [])
        @ reprefix (path @ ''/control'') (validateControl (doc_Control patched))
        @ reprefix (path @ ''/updater'') (validateUpdater (doc_Updater patched))
        @ reprefix (path @ ''/logging'') (validateLogging (doc_Logging patched)))"

definition dryRunOverrides :: "Document \<Rightarrow> Problem list" where
  "dryRunOverrides doc =
     concat (map (\<lambda>(i, ov). dryRunOverride doc i ov) (List.enumerate 0 (elems (doc_Overrides doc))))"

section \<open>Parse\<close>

definition shapeProblems :: "golib \<Rightarrow> Document \<Rightarrow> Problem list" where
  "shapeProblems L doc =
     validateTop doc @ validateServers L doc @ validateIPCProtocol (doc_IPCProtocol doc)
   @ validateDCLookupMap doc @ validateHostIntegrity (doc_HostIntegrity doc)
   @ validateControl (doc_Control doc) @ validateUpdater (doc_Updater doc)
   @ validateLogging (doc_Logging doc) @ validateOverridesShape doc"

definition Parse :: "golib \<Rightarrow> string \<Rightarrow> Document ptr \<times> Problem list" where
  "Parse L data =
     (if int (length data) > MaxDocumentBytes
      then (None, [problemf [] ''document exceeds the 1048576 byte size cap''])
      else case Option.bind (json_parse L data) dec_Document of
        None \<Rightarrow> (None, [problemf [] ''invalid JSON''])
      | Some doc \<Rightarrow>
          (let problems = shapeProblems L doc
           in (Some doc, if problems = [] then dryRunOverrides doc else problems)))"

section \<open>What an accepted document guarantees\<close>

text \<open>
  The declarative reading of the rules, section by section. Each validator reports nothing
  exactly when its rule holds.
\<close>

definition until_ok :: "string ptr \<Rightarrow> bool" where
  "until_ok u \<longleftrightarrow> (\<forall>s. u = Some s \<longrightarrow> s = [] \<or> ParseRFC3339 s \<noteq> None)"

definition control_ok :: "Control ptr \<Rightarrow> bool" where
  "control_ok c \<longleftrightarrow> (\<forall>k. c = Some k \<longrightarrow>
     until_ok (cg_Until (ctl_Updater k)) \<and> until_ok (ag_Until (ctl_App k)) \<and>
     ag_Mode (ctl_App k) \<in> insert [] (set validAppModes))"

definition updater_ok :: "UpdaterTuning ptr \<Rightarrow> bool" where
  "updater_ok u \<longleftrightarrow> (\<forall>t. u = Some t \<longrightarrow>
     (\<forall>n. ut_PollIntervalMinutes t = Some n \<longrightarrow> 1 \<le> n) \<and>
     (\<forall>s. ut_ChannelOverride t = Some s \<longrightarrow> s \<in> insert [] (set validChannelOverride)) \<and>
     (\<forall>w. ut_CriticalWarning t = Some w \<longrightarrow> 0 \<le> cw_Seconds w) \<and>
     (\<forall>r. ut_DCLookupRetry t = Some r \<longrightarrow> 0 \<le> dlr_Attempts r \<and> 0 \<le> dlr_DelaySeconds r) \<and>
     (\<forall>r. ut_Resolver t = Some r \<longrightarrow> 1 \<le> rt_Attempts r \<and> 0 \<le> rt_BaseBackoffSeconds r))"

definition logging_ok :: "Logging ptr \<Rightarrow> bool" where
  "logging_ok l \<longleftrightarrow> (\<forall>g. l = Some g \<longrightarrow>
     log_Level g \<in> insert [] (set validLoggingLevels) \<and>
     0 \<le> log_MaxSizeMB g \<and> log_MaxSizeMB g \<le> 100 \<and> 0 \<le> log_Backups g \<and> log_Backups g \<le> 50)"

definition ipv4_cidr :: "string \<Rightarrow> bool" where
  "ipv4_cidr c \<longleftrightarrow> (\<exists>ip n. ParseCIDR c = Some (ip, n) \<and> To4 ip \<noteq> None)"

definition server_ok :: "golib \<Rightarrow> string \<Rightarrow> bool" where
  "server_ok L raw \<longleftrightarrow> (\<exists>u. url_Parse L raw = Some u \<and> Scheme u \<in> {''http'', ''https''} \<and>
     Host u \<noteq> [] \<and> RawQuery u = [] \<and> \<not> HasSuffix raw ''/'')"

definition semver_ok :: "string ptr \<Rightarrow> bool" where
  "semver_ok v \<longleftrightarrow> (\<forall>s. v = Some s \<longrightarrow> s = [] \<or> semverPattern s)"

definition ipc_ok :: "IPCProtocol ptr \<Rightarrow> bool" where
  "ipc_ok p \<longleftrightarrow> (\<forall>i. p = Some i \<longrightarrow>
     (\<forall>(key, v) \<in> set (elems (ipc_Versions i)). Atoi key \<noteq> None \<and>
        semver_ok (vr_Min (ipv_Updater v)) \<and> semver_ok (vr_Max (ipv_Updater v)) \<and>
        semver_ok (vr_Min (ipv_EMLy v)) \<and> semver_ok (vr_Max (ipv_EMLy v))) \<and>
     (\<exists>v. map_of (elems (ipc_Versions i)) (Itoa (ipc_DefaultVersion i)) = Some v \<and> ipv_Enabled v))"

definition site_ok :: "Document \<Rightarrow> Site \<Rightarrow> bool" where
  "site_ok doc s \<longleftrightarrow> elems (site_InternalSubnets s) \<noteq> [] \<and>
     (\<forall>c \<in> set (elems (site_InternalSubnets s)). ipv4_cidr c) \<and>
     site_BaseServer s \<noteq> [] \<and> known_server doc (site_BaseServer s) \<and>
     (\<forall>r \<in> set (elems (site_BackupServer s)). known_server doc r)"

definition selector_lists :: "Selector \<Rightarrow> string list list" where
  "selector_lists s = [elems (sel_HWIDs s), elems (sel_Hostnames s), elems (sel_DCs s),
     elems (sel_Domains s), elems (sel_Subnets s)]"

definition selector_ok :: "bool \<Rightarrow> Selector \<Rightarrow> bool" where
  "selector_ok allowAll s \<longleftrightarrow> (\<forall>c \<in> set (elems (sel_Subnets s)). ipv4_cidr c) \<and>
     (case sel_All s of
        None \<Rightarrow> \<exists>l \<in> set (selector_lists s). l \<noteq> []
      | Some b \<Rightarrow> allowAll \<and> b \<and> (\<forall>l \<in> set (selector_lists s). l = []))"

definition override_ok :: "Override \<Rightarrow> bool" where
  "override_ok ov \<longleftrightarrow> ov_ID ov \<noteq> [] \<and> selector_ok True (ov_Match ov) \<and>
     (\<forall>e. ov_Except ov = Some e \<longrightarrow> selector_ok False e) \<and> until_ok (ov_Until ov) \<and>
     fst ` set (elems (ov_Patch ov)) \<subseteq> set AllowedPatchKeys"

text \<open>An override whose patch, applied alone to the global document, gives valid sections.\<close>

definition patch_ok :: "Document \<Rightarrow> Override \<Rightarrow> bool" where
  "patch_ok doc ov \<longleftrightarrow> (\<exists>d'. applyPatchToDocument doc (ov_Patch ov) = Some d' \<and>
     (doc_DefaultServer d' = [] \<or> known_server doc (doc_DefaultServer d')) \<and>
     control_ok (doc_Control d') \<and> updater_ok (doc_Updater d') \<and> logging_ok (doc_Logging d'))"

definition doc_valid :: "golib \<Rightarrow> Document \<Rightarrow> bool" where
  "doc_valid L doc \<longleftrightarrow>
     doc_SchemaVersion doc = 1 \<and> 0 \<le> doc_Revision doc \<and>
     (doc_GeneratedAt doc = [] \<or> ParseRFC3339 (doc_GeneratedAt doc) \<noteq> None) \<and>
     elems (doc_Servers doc) \<noteq> [] \<and> (\<forall>(n, b) \<in> set (elems (doc_Servers doc)). server_ok L b) \<and>
     doc_DefaultServer doc \<noteq> [] \<and> known_server doc (doc_DefaultServer doc) \<and>
     ipc_ok (doc_IPCProtocol doc) \<and>
     (\<forall>(dc, s) \<in> set (elems (doc_DCLookupMap doc)). site_ok doc s) \<and>
     control_ok (doc_Control doc) \<and> updater_ok (doc_Updater doc) \<and> logging_ok (doc_Logging doc) \<and>
     (\<forall>ov \<in> set (elems (doc_Overrides doc)). override_ok ov \<and> patch_ok doc ov) \<and>
     distinct (map ov_ID (elems (doc_Overrides doc)))"

named_theorems validators "each validator is silent exactly when its rule holds"

lemma validateGateUntil_Nil [validators]: "validateGateUntil p u = [] \<longleftrightarrow> until_ok u"
  by (auto simp: validateGateUntil_def until_ok_def split: option.splits)

lemma validateControl_Nil [validators]: "validateControl c = [] \<longleftrightarrow> control_ok c"
  by (cases c) (auto simp: validateControl_def control_ok_def validators)

lemma validateUpdater_Nil [validators]: "validateUpdater u = [] \<longleftrightarrow> updater_ok u"
  by (cases u) (auto simp: validateUpdater_def updater_ok_def split: option.splits)

lemma validateLogging_Nil [validators]: "validateLogging l = [] \<longleftrightarrow> logging_ok l"
  by (cases l) (auto simp: validateLogging_def logging_ok_def)

lemma validateCIDR_None [validators]: "validateCIDR c = None \<longleftrightarrow> ipv4_cidr c"
  by (auto simp: validateCIDR_def ipv4_cidr_def split: option.splits)

lemma cidrProblems_Nil [validators]: "cidrProblems p cs = [] \<longleftrightarrow> (\<forall>c \<in> set cs. ipv4_cidr c)"
  by (auto simp: cidrProblems_def validators [symmetric] split: option.splits)

lemma validateServerURL_None [validators]: "validateServerURL L raw = None \<longleftrightarrow> server_ok L raw"
  by (auto simp: validateServerURL_def server_ok_def split: option.splits)

lemma validateSemverPtr_Nil [validators]: "validateSemverPtr p v = [] \<longleftrightarrow> semver_ok v"
  by (auto simp: validateSemverPtr_def semver_ok_def split: option.splits)

lemma validateServers_Nil [validators]:
  "validateServers L doc = [] \<longleftrightarrow> elems (doc_Servers doc) \<noteq> [] \<and>
     (\<forall>(n, b) \<in> set (elems (doc_Servers doc)). server_ok L b) \<and>
     doc_DefaultServer doc \<noteq> [] \<and> known_server doc (doc_DefaultServer doc)"
  by (auto simp: validateServers_def validators [symmetric] split: option.splits)

lemma validateIPCVersion_Nil [validators]:
  "validateIPCVersion kv = [] \<longleftrightarrow> Atoi (fst kv) \<noteq> None \<and>
     semver_ok (vr_Min (ipv_Updater (snd kv))) \<and> semver_ok (vr_Max (ipv_Updater (snd kv))) \<and>
     semver_ok (vr_Min (ipv_EMLy (snd kv))) \<and> semver_ok (vr_Max (ipv_EMLy (snd kv)))"
  by (auto simp: validateIPCVersion_def Let_def validators case_prod_unfold)

lemma validateIPCProtocol_Nil [validators]: "validateIPCProtocol p = [] \<longleftrightarrow> ipc_ok p"
  by (cases p) (auto simp: validateIPCProtocol_def ipc_ok_def validators case_prod_unfold
      split: option.splits)

lemma concat_enumerate_Nil:
  "concat (map (\<lambda>(i, x). f i x) (List.enumerate n xs)) = [] \<longleftrightarrow>
     (\<forall>i < length xs. f (n + i) (xs ! i) = [])"
proof (induction xs arbitrary: n)
  case (Cons x xs)
  have "(\<forall>i < Suc (length xs). f (n + i) ((x # xs) ! i) = []) \<longleftrightarrow>
      f n x = [] \<and> (\<forall>i < length xs. f (Suc n + i) (xs ! i) = [])"
    by (auto simp: less_Suc_eq_0_disj)
  then show ?case using Cons by simp
qed simp

lemma validateSite_Nil [validators]: "validateSite doc (dc, s) = [] \<longleftrightarrow> site_ok doc s"
  by (auto simp: validateSite_def site_ok_def Let_def validators concat_enumerate_Nil in_set_conv_nth
      simp del: concat_eq_Nil_conv split: if_splits dest: nth_mem)

lemma validateDCLookupMap_Nil [validators]:
  "validateDCLookupMap doc = [] \<longleftrightarrow> (\<forall>(dc, s) \<in> set (elems (doc_DCLookupMap doc)). site_ok doc s)"
  by (fastforce simp: validateDCLookupMap_def validators)

lemma validateSelector_Nil [validators]: "validateSelector p s a = [] \<longleftrightarrow> selector_ok a s"
  by (auto simp: validateSelector_def selector_ok_def selector_lists_def nonEmptyLists_def validators
      split: option.splits)

lemma validateOverride_Nil [validators]:
  "validateOverride i seen ov = [] \<longleftrightarrow> override_ok ov \<and> ov_ID ov \<notin> set seen"
  by (auto simp: validateOverride_def override_ok_def Let_def validators image_subset_iff
      case_prod_unfold split: option.splits if_splits)

lemma overridesLoop_Nil:
  "overridesLoop i seen ovs = [] \<longleftrightarrow>
     (\<forall>ov \<in> set ovs. override_ok ov) \<and> distinct (map ov_ID ovs) \<and> set (map ov_ID ovs) \<inter> set seen = {}"
  by (induction i seen ovs rule: overridesLoop.induct) (auto simp: validators override_ok_def)

lemma reprefix_Nil [validators]: "reprefix p ps = [] \<longleftrightarrow> ps = []"
  by (simp add: reprefix_def)

lemma dryRunOverride_Nil [validators]: "dryRunOverride doc i ov = [] \<longleftrightarrow> patch_ok doc ov"
  by (auto simp: dryRunOverride_def patch_ok_def Let_def validators split: option.splits)

lemma dryRunOverrides_Nil [validators]:
  "dryRunOverrides doc = [] \<longleftrightarrow> (\<forall>ov \<in> set (elems (doc_Overrides doc)). patch_ok doc ov)"
  by (auto simp: dryRunOverrides_def concat_enumerate_Nil validators all_set_conv_all_nth simp del: concat_eq_Nil_conv)

lemma validateTop_Nil [validators]:
  "validateTop doc = [] \<longleftrightarrow> doc_SchemaVersion doc = 1 \<and> 0 \<le> doc_Revision doc \<and>
     (doc_GeneratedAt doc = [] \<or> ParseRFC3339 (doc_GeneratedAt doc) \<noteq> None)"
  by (auto simp: validateTop_def)

lemma problems_Nil_iff:
  "(if shapeProblems L doc = [] then dryRunOverrides doc else shapeProblems L doc) = [] \<longleftrightarrow> doc_valid L doc"
  by (auto simp: shapeProblems_def validateHostIntegrity_def validateOverridesShape_def validators
      overridesLoop_Nil doc_valid_def)

lemma Parse_accept:
  "Parse L data = (Some doc, []) \<longleftrightarrow>
     int (length data) \<le> MaxDocumentBytes \<and>
     Option.bind (json_parse L data) dec_Document = Some doc \<and> doc_valid L doc"
  using problems_Nil_iff [of L doc]
  by (auto simp: Parse_def Let_def split: option.splits)

lemma Parse_silent:
  "snd (Parse L data) = [] \<longleftrightarrow> (\<exists>doc. Parse L data = (Some doc, []))"
  by (auto simp: Parse_def Let_def split: option.splits if_splits)

end
