(* ===== verification/RC_Match.thy ===== *)
theory RC_Match
  imports RC_Parse "HOL-Library.Sublist"
begin

text \<open>
  \<open>internal/remoteconfig/match.go\<close> and \<open>canonical.go\<close>: which hosts an override selects, the
  effective document of a host, the site a host resolves to, and the canonical bytes with
  their ETag.
\<close>

record Host =
  h_HWID :: string
  h_Hostname :: string
  h_DC :: string
  h_Domain :: string
  h_IPs :: "string list"
  h_Now :: gotime

definition containsFold :: "string list \<Rightarrow> string \<Rightarrow> bool" where
  "containsFold xs s = (s \<noteq> [] \<and> list_ex (\<lambda>item. EqualFold item s) xs)"

definition dcShortName :: "string \<Rightarrow> string" where
  "dcShortName name = before (CHR ''.'') name"

definition dcNameMatchesAny :: "string list \<Rightarrow> string \<Rightarrow> bool" where
  "dcNameMatchesAny xs dc =
     (dc \<noteq> [] \<and> list_ex (\<lambda>item. EqualFold (dcShortName item) (dcShortName dc)) xs)"

definition subnetsContainAny :: "string list \<Rightarrow> string list \<Rightarrow> bool" where
  "subnetsContainAny cidrs ips =
     list_ex (\<lambda>cidr. case ParseCIDR cidr of
        None \<Rightarrow> False
      | Some (_, network) \<Rightarrow>
          list_ex (\<lambda>s. case ParseIP s of None \<Rightarrow> False | Some ip \<Rightarrow> Contains network ip) ips) cidrs"

definition Match :: "Selector \<Rightarrow> Host \<Rightarrow> bool" where
  "Match sel h =
     (if sel_All sel = Some True then True
      else if elems (sel_HWIDs sel) \<noteq> [] \<and> \<not> containsFold (elems (sel_HWIDs sel)) (h_HWID h) then False
      else if elems (sel_Hostnames sel) \<noteq> [] \<and> \<not> containsFold (elems (sel_Hostnames sel)) (h_Hostname h)
        then False
      else if elems (sel_DCs sel) \<noteq> [] \<and> \<not> dcNameMatchesAny (elems (sel_DCs sel)) (h_DC h) then False
      else if elems (sel_Subnets sel) \<noteq> [] \<and> \<not> subnetsContainAny (elems (sel_Subnets sel)) (h_IPs h)
        then False
      else if elems (sel_Domains sel) \<noteq> [] \<and> \<not> containsFold (elems (sel_Domains sel)) (h_Domain h)
        then False
      else elems (sel_HWIDs sel) \<noteq> [] \<or> elems (sel_Hostnames sel) \<noteq> [] \<or> elems (sel_DCs sel) \<noteq> []
        \<or> elems (sel_Subnets sel) \<noteq> [] \<or> elems (sel_Domains sel) \<noteq> [])"

definition untilExpired :: "string ptr \<Rightarrow> gotime \<Rightarrow> bool" where
  "untilExpired until now =
     (case until of None \<Rightarrow> False
      | Some s \<Rightarrow> if s = [] then False
                  else case ParseRFC3339 s of None \<Rightarrow> False | Some t \<Rightarrow> t < now)"

text \<open>
  \<open>ResolveSite\<close> returns from inside a loop over a Go map, whose order is unspecified: the
  order in which the entries are visited is an argument.
\<close>

fun resolveLoop :: "Host \<Rightarrow> (string \<times> Site) list \<Rightarrow> (string \<times> Site) option" where
  "resolveLoop h [] = None"
| "resolveLoop h ((dc, s) # rest) =
     (if \<not> site_Enabled s then resolveLoop h rest
      else if \<not> dcNameMatchesAny [dc] (h_DC h) then resolveLoop h rest
      else if \<not> subnetsContainAny (elems (site_InternalSubnets s)) (h_IPs h) then resolveLoop h rest
      else Some (dc, s))"

definition ResolveSite :: "(string \<times> Site) list \<Rightarrow> Document \<Rightarrow> Host \<Rightarrow> string ptr \<times> string list" where
  "ResolveSite order doc h =
     (case resolveLoop h order of
        Some (dc, s) \<Rightarrow> (Some dc, site_BaseServer s # elems (site_BackupServer s))
      | None \<Rightarrow> (None, [doc_DefaultServer doc]))"

definition applies :: "Override \<Rightarrow> gotime \<Rightarrow> Host \<Rightarrow> bool" where
  "applies ov now h =
     (if untilExpired (ov_Until ov) now then False
      else if \<not> Match (ov_Match ov) h then False
      else case ov_Except ov of None \<Rightarrow> True | Some e \<Rightarrow> \<not> Match e h)"

fun effectiveLoop :: "gotime \<Rightarrow> Host \<Rightarrow> Override list \<Rightarrow> Document \<Rightarrow> string list \<Rightarrow> Document \<times> string list" where
  "effectiveLoop now h [] effective applied = (effective, applied)"
| "effectiveLoop now h (ov # ovs) effective applied =
     (if \<not> applies ov now h then effectiveLoop now h ovs effective applied
      else case applyPatchToDocument effective (ov_Patch ov) of
        None \<Rightarrow> effectiveLoop now h ovs effective applied
      | Some patched \<Rightarrow> effectiveLoop now h ovs patched (applied @ [ov_ID ov]))"

text \<open>The clock reading \<open>time.Now()\<close> is the first argument.\<close>

definition Effective :: "gotime \<Rightarrow> Document \<Rightarrow> Host \<Rightarrow> Document \<times> string list" where
  "Effective clock doc h =
     effectiveLoop (if h_Now h = 0 then clock else h_Now h) h (elems (doc_Overrides doc)) doc []"

text \<open>
  \<open>canonical.go\<close>: struct fields in declaration order, map keys sorted, no white space; the
  ETag is the lower-case hex SHA-256 of the bytes.
\<close>

definition Canonical :: "golib \<Rightarrow> Document \<Rightarrow> string \<times> string" where
  "Canonical L doc = (let b = json_print L (enc_Document doc) in (b, sha256_hex L b))"

section \<open>Selection\<close>

text \<open>The AND-of-ORs reading of a selector.\<close>

lemma Match_iff:
  assumes "sel_All sel \<noteq> Some True"
  shows "Match sel h \<longleftrightarrow>
    (\<exists>l \<in> set (selector_lists sel). l \<noteq> []) \<and>
    (elems (sel_HWIDs sel) \<noteq> [] \<longrightarrow> h_HWID h \<noteq> [] \<and> (\<exists>x \<in> set (elems (sel_HWIDs sel)). EqualFold x (h_HWID h))) \<and>
    (elems (sel_Hostnames sel) \<noteq> [] \<longrightarrow>
       h_Hostname h \<noteq> [] \<and> (\<exists>x \<in> set (elems (sel_Hostnames sel)). EqualFold x (h_Hostname h))) \<and>
    (elems (sel_DCs sel) \<noteq> [] \<longrightarrow>
       h_DC h \<noteq> [] \<and> (\<exists>x \<in> set (elems (sel_DCs sel)). EqualFold (dcShortName x) (dcShortName (h_DC h)))) \<and>
    (elems (sel_Subnets sel) \<noteq> [] \<longrightarrow>
       (\<exists>c \<in> set (elems (sel_Subnets sel)). \<exists>a n s ip. ParseCIDR c = Some (a, n) \<and> s \<in> set (h_IPs h) \<and>
          ParseIP s = Some ip \<and> Contains n ip)) \<and>
    (elems (sel_Domains sel) \<noteq> [] \<longrightarrow>
       h_Domain h \<noteq> [] \<and> (\<exists>x \<in> set (elems (sel_Domains sel)). EqualFold x (h_Domain h)))"
proof -
  have sub: "subnetsContainAny cs ips \<longleftrightarrow>
      (\<exists>c \<in> set cs. \<exists>a n s ip. ParseCIDR c = Some (a, n) \<and> s \<in> set ips \<and> ParseIP s = Some ip \<and> Contains n ip)"
    for cs ips
    by (fastforce simp: subnetsContainAny_def list_ex_iff split: option.splits)
  show ?thesis using assms
    by (simp add: Match_def selector_lists_def containsFold_def dcNameMatchesAny_def list_ex_iff sub)
       blast
qed

section \<open>Effective documents\<close>

text \<open>
  The sections no patch can touch: what \<open>applyPatch_frame\<close> gives for one override, carried
  along the loop.
\<close>

definition same_frame :: "Document \<Rightarrow> Document \<Rightarrow> bool" where
  "same_frame d d' \<longleftrightarrow>
     doc_SchemaVersion d' = doc_SchemaVersion d \<and> doc_Revision d' = doc_Revision d \<and>
     doc_GeneratedAt d' = doc_GeneratedAt d \<and> doc_Refresh d' = doc_Refresh d \<and>
     doc_Servers d' = doc_Servers d \<and> doc_IPCProtocol d' = doc_IPCProtocol d \<and>
     doc_DCLookupMap d' = doc_DCLookupMap d \<and> doc_HostIntegrity d' = doc_HostIntegrity d \<and>
     doc_Overrides d' = doc_Overrides d"

lemma same_frame_refl [simp]: "same_frame d d"
  by (simp add: same_frame_def)

lemma same_frame_trans: "same_frame a b \<Longrightarrow> same_frame b c \<Longrightarrow> same_frame a c"
  by (simp add: same_frame_def)

lemma applyPatch_same_frame:
  "applyPatchToDocument d p = Some d' \<Longrightarrow> ok_Document d \<Longrightarrow> same_frame d d'"
  unfolding same_frame_def by (simp add: applyPatch_frame)

lemma effectiveLoop_ok:
  assumes "effectiveLoop now h ovs d ids = (e, ids')" and "ok_Document d"
  shows "same_frame d e \<and> ok_Document e"
  using assms
proof (induction now h ovs d ids rule: effectiveLoop.induct)
  case (2 now h ov ovs d ids)
  show ?case
  proof (cases "applyPatchToDocument d (ov_Patch ov)")
    case None
    with 2 show ?thesis by (simp split: if_splits)
  next
    case (Some d')
    with 2 applyPatch_same_frame [OF Some] applyPatch_ok [OF Some] show ?thesis
      by (auto split: if_splits intro: same_frame_trans)
  qed
qed simp

text \<open>
  A section other than the five patchable ones is out of reach; a patchable one changes only
  when some override that applies to the host names it.
\<close>

lemma effectiveLoop_control:
  assumes "effectiveLoop now h ovs d ids = (e, ids')" and "ok_Document d"
    and "\<forall>ov \<in> set ovs. applies ov now h \<longrightarrow> ''control'' \<notin> fst ` set (elems (ov_Patch ov))"
  shows "doc_Control e = doc_Control d"
  using assms
proof (induction now h ovs d ids rule: effectiveLoop.induct)
  case (2 now h ov ovs d ids)
  show ?case
  proof (cases "applyPatchToDocument d (ov_Patch ov)")
    case None
    with 2 show ?thesis by (simp split: if_splits)
  next
    case (Some d')
    with 2 applyPatch_frame(10) [OF Some] applyPatch_ok [OF Some] show ?thesis
      by (auto split: if_splits)
  qed
qed simp

lemma effectiveLoop_ids:
  "effectiveLoop now h ovs d ids = (e, ids') \<Longrightarrow>
     \<exists>app. subseq app (filter (\<lambda>ov. applies ov now h) ovs) \<and> ids' = ids @ map ov_ID app"
proof (induction now h ovs d ids rule: effectiveLoop.induct)
  case (2 now h ov ovs d ids)
  show ?case
  proof (cases "applies ov now h \<and> applyPatchToDocument d (ov_Patch ov) \<noteq> None")
    case True
    then obtain d' where d': "applyPatchToDocument d (ov_Patch ov) = Some d'" by auto
    with True 2 obtain app where
      "subseq app (filter (\<lambda>ov. applies ov now h) ovs)" "ids' = (ids @ [ov_ID ov]) @ map ov_ID app"
      by fastforce
    with True show ?thesis by (intro exI [of _ "ov # app"]) simp
  next
    case False
    have "effectiveLoop now h ovs d ids = (e, ids')"
      using 2(4) False by (auto split: if_splits option.splits)
    with 2(1,2) False obtain app where
      "subseq app (filter (\<lambda>ov. applies ov now h) ovs)" "ids' = ids @ map ov_ID app"
      by (cases "applies ov now h") force+
    with False show ?thesis by (intro exI [of _ app]) auto
  qed
qed auto

lemma effectiveLoop_none:
  "\<forall>ov \<in> set ovs. \<not> applies ov now h \<Longrightarrow> effectiveLoop now h ovs d ids = (d, ids)"
  by (induction now h ovs d ids rule: effectiveLoop.induct) auto

text \<open>An expired override changes nothing.\<close>

lemma applies_expired [simp]: "untilExpired (ov_Until ov) now \<Longrightarrow> \<not> applies ov now h"
  by (simp add: applies_def)

section \<open>Sites\<close>

lemma resolveLoop_Some:
  "resolveLoop h order = Some (dc, s) \<Longrightarrow>
     (dc, s) \<in> set order \<and> site_Enabled s \<and> dcNameMatchesAny [dc] (h_DC h) \<and>
     subnetsContainAny (elems (site_InternalSubnets s)) (h_IPs h)"
  by (induction h order rule: resolveLoop.induct) (auto split: if_splits)

lemma resolveLoop_None:
  "resolveLoop h order = None \<longleftrightarrow>
     (\<forall>(dc, s) \<in> set order. \<not> (site_Enabled s \<and> dcNameMatchesAny [dc] (h_DC h) \<and>
        subnetsContainAny (elems (site_InternalSubnets s)) (h_IPs h)))"
  by (induction h order rule: resolveLoop.induct) auto

text \<open>At most one matching site makes the answer independent of Go's map order.\<close>

lemma resolveLoop_unique:
  assumes "set order = set order'"
    and "\<forall>x \<in> set order. \<forall>y \<in> set order. resolveLoop h [x] \<noteq> None \<longrightarrow> resolveLoop h [y] \<noteq> None \<longrightarrow> x = y"
  shows "resolveLoop h order = resolveLoop h order'"
proof (cases "resolveLoop h order")
  case None
  then have "resolveLoop h order' = None" using assms(1) by (simp add: resolveLoop_None)
  with None show ?thesis by simp
next
  case (Some x)
  obtain dc s where x: "x = (dc, s)" by (cases x)
  have m: "x \<in> set order" "resolveLoop h [x] \<noteq> None"
    using resolveLoop_Some [OF Some [unfolded x]] by (auto simp: x)
  have "resolveLoop h order' \<noteq> None"
    using assms(1) Some resolveLoop_None [of h order] resolveLoop_None [of h order'] by simp
  then obtain dc' s' where y: "resolveLoop h order' = Some (dc', s')" by auto
  then have "(dc', s') \<in> set order" "resolveLoop h [(dc', s')] \<noteq> None"
    using resolveLoop_Some [OF y] assms(1) by auto
  with assms(2) m have "x = (dc', s')" by blast
  with y Some show ?thesis by simp
qed

lemma resolve_chain_known:
  assumes "doc_valid L doc" and "set order = set (elems (doc_DCLookupMap doc))"
    and "ResolveSite order doc h = (m, chain)"
  shows "chain \<noteq> [] \<and> (\<forall>c \<in> set chain. known_server doc c)"
proof (cases "resolveLoop h order")
  case None
  with assms show ?thesis by (auto simp: ResolveSite_def doc_valid_def)
next
  case (Some x)
  obtain dc s where x: "x = (dc, s)" by (cases x)
  have "(dc, s) \<in> set (elems (doc_DCLookupMap doc))"
    using resolveLoop_Some [OF Some [unfolded x]] assms(2) by simp
  then have "site_ok doc s" using assms(1) by (auto simp: doc_valid_def)
  with Some x assms(3) show ?thesis by (auto simp: ResolveSite_def site_ok_def)
qed

section \<open>The default server of an effective document\<close>

lemma patch_fold_hit:
  assumes "sorted_keys p" "map_of p k = Some v" "k \<in> set AllowedPatchKeys"
  shows "map_of (patch_fold p t) k = Some (mergePatch (obj_get k t) v)"
  using assms
proof (induction p arbitrary: t)
  case (Cons e p)
  obtain a w where e: "e = (a, w)" by (cases e)
  show ?case
  proof (cases "a = k")
    case True
    then have "k \<notin> fst ` set p" using Cons.prems(1) e by (auto simp: sorted_keys_Cons)
    with True Cons.prems e show ?thesis by (simp add: patch_fold_other)
  next
    case False
    then have "map_of (patch_fold p u) k = Some (mergePatch (obj_get k u) v)" for u
      using Cons e by (simp add: sorted_keys_Cons)
    with False e show ?thesis by (simp add: obj_get_def)
  qed
qed simp

text \<open>
  A patched default server is the patch's own string, whatever document it is applied to:
  what the dry run saw for one override is what every later application gives.
\<close>

lemma applyPatch_default:
  assumes d: "applyPatchToDocument d p = Some d'" and e: "applyPatchToDocument e p = Some e'"
    and k: "''defaultServer'' \<in> fst ` set (elems p)" and s: "sorted_keys (elems p)"
  shows "doc_DefaultServer e' = doc_DefaultServer d'"
proof -
  obtain v where v: "map_of (elems p) ''defaultServer'' = Some v"
    using k by (metis map_of_eq_None_iff option.exhaust)
  have r: "dec_string (mergePatch (obj_get ''defaultServer'' (doc_tree x)) v) = Some (doc_DefaultServer y)"
    if "applyPatchToDocument x p = Some y" for x y
  proof -
    have "elems p \<noteq> []" using k by auto
    with that have dec: "dec_Document (JObj (patch_fold (elems p) (doc_tree x))) = Some y"
      by (simp add: applyPatchToDocument_def Let_def obj_of_def)
    have "map_of (patch_fold (elems p) (doc_tree x)) ''defaultServer'' =
        Some (mergePatch (obj_get ''defaultServer'' (doc_tree x)) v)"
      using patch_fold_hit [OF s v] by (simp add: AllowedPatchKeys_def)
    moreover have "''defaultServer'' \<in> set doc_keys" by (simp add: doc_keys_def)
    ultimately have "field_get ''defaultServer'' (patch_fold (elems p) (doc_tree x)) =
        mergePatch (obj_get ''defaultServer'' (doc_tree x)) v"
      using patch_fold_keys [OF doc_tree_facts(1,2)] by (simp add: field_get_doc obj_get_def)
    with dec_Document_fields [OF dec] show ?thesis by simp
  qed
  have "dec_string (mergePatch a v) = Some x \<Longrightarrow> dec_string (mergePatch b v) = Some y \<Longrightarrow> x = y" for a b x y
    by (cases v) auto
  from this [OF r [OF e] r [OF d]] show ?thesis .
qed

definition default_ok :: "Document \<Rightarrow> Document \<Rightarrow> bool" where
  "default_ok doc e \<longleftrightarrow> doc_DefaultServer e = [] \<or> known_server doc (doc_DefaultServer e)"

lemma effectiveLoop_default:
  assumes "effectiveLoop now h ovs d ids = (e, ids')" and "ok_Document d"
    and "\<forall>ov \<in> set ovs. patch_ok doc ov \<and> sorted_keys (elems (ov_Patch ov))" and "default_ok doc d"
  shows "default_ok doc e"
  using assms
proof (induction now h ovs d ids rule: effectiveLoop.induct)
  case (2 now h ov ovs d ids)
  show ?case
  proof (cases "applyPatchToDocument d (ov_Patch ov)")
    case None
    with 2 show ?thesis by (simp split: if_splits)
  next
    case (Some d')
    obtain g where g: "applyPatchToDocument doc (ov_Patch ov) = Some g" "default_ok doc g"
      using "2.prems"(3) by (auto simp: patch_ok_def default_ok_def)
    have "default_ok doc d'"
    proof (cases "''defaultServer'' \<in> fst ` set (elems (ov_Patch ov))")
      case True
      with applyPatch_default [OF g(1) Some] "2.prems"(3) g(2) show ?thesis by (simp add: default_ok_def)
    next
      case False
      with applyPatch_frame(13) [OF Some "2.prems"(2)] "2.prems"(4) show ?thesis by (simp add: default_ok_def)
    qed
    with 2 Some applyPatch_ok [OF Some] show ?thesis by (auto split: if_splits)
  qed
qed simp

lemma ok_overrides_sorted:
  "ok_Document d \<Longrightarrow> ov \<in> set (elems (doc_Overrides d)) \<Longrightarrow> sorted_keys (elems (ov_Patch ov))"
  by (cases "doc_Overrides d"; cases "ov_Patch ov")
     (auto simp: ok_Document_def ok_Override_def ok_list_def ok_map_def list_all_iff)

lemma known_server_frame: "same_frame d e \<Longrightarrow> known_server e = known_server d"
  by (simp add: fun_eq_iff known_server_def same_frame_def)

lemma effective_chain:
  assumes v: "doc_valid L doc" and ok: "ok_Document doc" and e: "Effective clock doc h = (e, ids)"
    and o: "set order = set (elems (doc_DCLookupMap e))" and r: "ResolveSite order e h = (m, chain)"
  shows "chain \<noteq> [] \<and> (\<forall>c \<in> set chain. c = [] \<or> known_server doc c)"
proof -
  note loop = e [unfolded Effective_def]
  have f: "same_frame doc e" using effectiveLoop_ok [OF loop ok] by simp
  have d: "default_ok doc e"
    using v ok by (intro effectiveLoop_default [OF loop ok]) (auto simp: doc_valid_def default_ok_def ok_overrides_sorted)
  show ?thesis
  proof (cases "resolveLoop h order")
    case None
    with r d show ?thesis by (auto simp: ResolveSite_def default_ok_def)
  next
    case (Some x)
    obtain dc s where x: "x = (dc, s)" by (cases x)
    have "(dc, s) \<in> set (elems (doc_DCLookupMap doc))"
      using resolveLoop_Some [OF Some [unfolded x]] o f by (simp add: same_frame_def)
    then have "site_ok doc s" using v by (auto simp: doc_valid_def)
    with Some x r show ?thesis by (auto simp: ResolveSite_def site_ok_def)
  qed
qed

end
