(* ===== verification/RC_Unknown.thy ===== *)
theory RC_Unknown
  imports RC_Parse
begin

text \<open>
  \<open>internal/remoteconfig/unknown.go\<close>: the walk of a JSON tree against the Go types of the
  document, which reports the keys no field recognises. Types are the descriptors that
  \<open>reflect\<close> hands to the walk; objects of a decoded \<open>interface{}\<close> value are Go maps, visited
  in key order.
\<close>

section \<open>Type descriptors\<close>

datatype gotype =
    TScalar
  | TInterface
  | TPtr gotype
  | TSlice gotype
  | TMap gotype
  | TStruct "(string \<times> gotype) list"

fun deref :: "gotype \<Rightarrow> gotype" where
  "deref (TPtr t) = deref t"
| "deref t = t"

definition T_Refresh :: gotype where
  "T_Refresh = TStruct [(''intervalMinutes'', TScalar), (''staleAfterDays'', TPtr TScalar)]"

definition T_VersionRange :: gotype where
  "T_VersionRange = TStruct [(''min'', TPtr TScalar), (''max'', TPtr TScalar)]"

definition T_IPCVersion :: gotype where
  "T_IPCVersion = TStruct [(''updater'', T_VersionRange), (''emly'', T_VersionRange), (''enabled'', TScalar)]"

definition T_IPCProtocol :: gotype where
  "T_IPCProtocol = TStruct [(''versions'', TMap T_IPCVersion), (''defaultVersion'', TScalar)]"

definition T_Site :: gotype where
  "T_Site = TStruct [(''internalSubnets'', TSlice TScalar), (''baseServer'', TScalar),
     (''backupServer'', TSlice TScalar), (''enabled'', TScalar)]"

definition T_HostIntegrity :: gotype where
  "T_HostIntegrity = TStruct [(''enabled'', TScalar),
     (''whitelist'', TStruct [(''hostnames'', TSlice TScalar), (''hwids'', TSlice TScalar)])]"

definition T_Control :: gotype where
  "T_Control = TStruct [
     (''updater'', TStruct [(''enabled'', TScalar), (''reason'', TPtr TScalar), (''until'', TPtr TScalar)]),
     (''app'', TStruct [(''enabled'', TScalar), (''mode'', TScalar), (''reason'', TPtr TScalar),
        (''until'', TPtr TScalar)])]"

definition T_ToggleOnly :: gotype where
  "T_ToggleOnly = TStruct [(''enabled'', TScalar)]"

definition T_UpdaterTuning :: gotype where
  "T_UpdaterTuning = TStruct [(''pollIntervalMinutes'', TPtr TScalar), (''channelOverride'', TPtr TScalar),
     (''criticalWarning'', TPtr (TStruct [(''enabled'', TScalar), (''seconds'', TScalar)])),
     (''dcLookupRetry'', TPtr (TStruct [(''attempts'', TScalar), (''delaySeconds'', TScalar)])),
     (''resolver'', TPtr (TStruct [(''attempts'', TScalar), (''baseBackoffSeconds'', TScalar)])),
     (''selfUpdate'', TPtr T_ToggleOnly), (''installCertificate'', TPtr T_ToggleOnly)]"

definition T_Logging :: gotype where
  "T_Logging = TStruct [(''level'', TScalar), (''maxSizeMB'', TScalar), (''backups'', TScalar),
     (''compress'', TScalar), (''eventLog'', TScalar)]"

definition T_Selector :: gotype where
  "T_Selector = TStruct [(''all'', TPtr TScalar), (''hwids'', TSlice TScalar), (''hostnames'', TSlice TScalar),
     (''dcs'', TSlice TScalar), (''subnets'', TSlice TScalar), (''domains'', TSlice TScalar)]"

definition T_Override :: gotype where
  "T_Override = TStruct [(''id'', TScalar), (''match'', T_Selector), (''except'', TPtr T_Selector),
     (''until'', TPtr TScalar), (''patch'', TMap TInterface)]"

definition T_Document :: gotype where
  "T_Document = TStruct [(''schemaVersion'', TScalar), (''revision'', TScalar), (''generatedAt'', TScalar),
     (''refresh'', TPtr T_Refresh), (''servers'', TMap TScalar), (''defaultServer'', TScalar),
     (''ipcProtocol'', TPtr T_IPCProtocol), (''dcLookupMap'', TMap T_Site),
     (''hostIntegrity'', TPtr T_HostIntegrity), (''control'', TPtr T_Control),
     (''updater'', TPtr T_UpdaterTuning), (''logging'', TPtr T_Logging), (''clientWs'', TPtr T_ToggleOnly),
     (''overrides'', TSlice T_Override)]"

section \<open>The walk\<close>

lemma in_enumerate_size: "(i, x) \<in> set (List.enumerate n xs) \<Longrightarrow> size x < Suc (size_list size xs)"
proof -
  assume "(i, x) \<in> set (List.enumerate n xs)"
  then have "x \<in> set (map snd (List.enumerate n xs))" by (metis image_eqI set_map snd_conv)
  then have "x \<in> set xs" by simp
  then have "size x \<le> size_list size xs" by (simp add: size_list_estimation')
  then show ?thesis by simp
qed

lemma in_obj_size: "(k, v) \<in> set obj \<Longrightarrow> size v < Suc (size_list (size_prod (\<lambda>_. 0) size) obj)"
  by (induction obj) auto

function (sequential) walkUnknown :: "json \<Rightarrow> gotype \<Rightarrow> string \<Rightarrow> string list"
  and walkUnknownValue :: "json \<Rightarrow> gotype \<Rightarrow> string \<Rightarrow> string list" where
  "walkUnknown (JObj obj) t path =
     (case deref t of
        TStruct fts \<Rightarrow>
          concat (map (\<lambda>(key, v).
            case map_of fts key of
              None \<Rightarrow> [path @ ''/'' @ key]
            | Some ft \<Rightarrow> walkUnknownValue v ft (path @ ''/'' @ key)) obj)
      | TMap elemType \<Rightarrow>
          concat (map (\<lambda>(key, v). walkUnknownValue v elemType (path @ ''/'' @ key)) obj)
      | _ \<Rightarrow> [])"
| "walkUnknown _ t path = []"
| "walkUnknownValue v t path =
     (case deref t of
        TStruct fts \<Rightarrow> walkUnknown v (TStruct fts) path
      | TMap elemType \<Rightarrow>
          (case v of
             JObj obj \<Rightarrow> concat (map (\<lambda>(key, vv). walkUnknownValue vv elemType (path @ ''/'' @ key)) obj)
           | _ \<Rightarrow> [])
      | TSlice elemType \<Rightarrow>
          (case v of
             JArr arr \<Rightarrow> concat (map (\<lambda>(i, vv). walkUnknownValue vv elemType (path @ ''/'' @ Itoa (int i)))
                           (List.enumerate 0 arr))
           | _ \<Rightarrow> [])
      | _ \<Rightarrow> [])"
  by pat_completeness auto

termination
  by (relation "measure (case_sum (\<lambda>(v, _, _). 2 * size v) (\<lambda>(v, _, _). Suc (2 * size v)))")
     (auto dest: in_enumerate_size in_obj_size)

declare walkUnknownValue.simps [simp del]

definition UnknownFieldPaths :: "golib \<Rightarrow> string \<Rightarrow> string list option" where
  "UnknownFieldPaths L data =
     map_option (\<lambda>raw. walkUnknown (norm_json raw) T_Document []) (json_parse L data)"

section \<open>Documents written by the server are silent\<close>

definition silent :: "gotype \<Rightarrow> json \<Rightarrow> bool" where
  "silent t v \<longleftrightarrow> (\<forall>path. walkUnknownValue (norm_json v) t path = [])"

named_theorems silences "encoders whose output the walk accepts"

lemma silent_scalar [silences]: "silent TScalar v" "silent TInterface v"
  by (simp_all add: silent_def walkUnknownValue.simps)

lemma silent_TPtr [silences]: "silent (TPtr t) v \<longleftrightarrow> silent t v"
  by (simp add: silent_def walkUnknownValue.simps)

lemma silent_JNull [silences]: "silent t JNull"
  by (auto simp: silent_def walkUnknownValue.simps split: gotype.splits)

lemma silent_enc_ptr [silences]: "(\<And>x. silent t (e x)) \<Longrightarrow> silent t (enc_ptr e p)"
  by (cases p) (simp_all add: enc_ptr_def silent_JNull)

lemma concat_map_Nil: "(\<And>x. x \<in> set xs \<Longrightarrow> f x = []) \<Longrightarrow> concat (map f xs) = []"
  by (induction xs) auto

lemma silent_TStruct [silences]:
  assumes "\<forall>(k, v) \<in> set kvs. case map_of fs k of None \<Rightarrow> False | Some ft \<Rightarrow> silent ft v"
  shows "silent (TStruct fs) (JObj kvs)"
proof -
  let ?n = "map (\<lambda>(k, v). (k, norm_json v)) kvs"
  have "(case e of (k, v) \<Rightarrow> case map_of fs k of None \<Rightarrow> [path @ ''/'' @ k]
      | Some ft \<Rightarrow> walkUnknownValue v ft (path @ ''/'' @ k)) = []" if "e \<in> set (go_map_of ?n)" for e path
  proof -
    have "e \<in> set ?n" using that set_go_map_of [of ?n] by blast
    then obtain k v where kv: "(k, v) \<in> set kvs" "e = (k, norm_json v)" by auto
    from assms kv(1) obtain ft where ft: "map_of fs k = Some ft" "silent ft v"
      by (cases "map_of fs k") auto
    then show ?thesis using kv(2) by (simp add: silent_def)
  qed
  then show ?thesis
    by (auto simp: silent_def walkUnknownValue.simps intro!: concat_map_Nil [simplified])
qed

lemma silent_enc_map [silences]: "(\<And>x. silent t (e x)) \<Longrightarrow> silent (TMap t) (enc_map e m)"
proof (cases m)
  case None
  then show ?thesis by (simp add: enc_map_def silent_JNull)
next
  case (Some kvs)
  assume s: "\<And>x. silent t (e x)"
  let ?n = "map (\<lambda>(k, v). (k, norm_json (e v))) kvs"
  have "walkUnknownValue (snd x) t p = []" if "x \<in> set (go_map_of ?n)" for x p
  proof -
    have "x \<in> set ?n" using that set_go_map_of [of ?n] by blast
    then show ?thesis using s by (auto simp: silent_def)
  qed
  then show ?thesis using Some
    by (fastforce simp: silent_def enc_map_def walkUnknownValue.simps case_prod_unfold comp_def)
qed

lemma silent_enc_list [silences]: "(\<And>x. silent t (e x)) \<Longrightarrow> silent (TSlice t) (enc_list e m)"
  by (cases m) (auto simp: silent_def enc_list_def walkUnknownValue.simps in_set_enumerate_eq)

lemma silent_structs [silences]:
  "silent T_Refresh (enc_Refresh a)" "silent T_VersionRange (enc_VersionRange b)"
  "silent T_Site (enc_Site c)" "silent T_HostIntegrity (enc_HostIntegrity d)"
  "silent T_Control (enc_Control e)" "silent T_ToggleOnly (enc_ToggleOnly f)"
  "silent T_Logging (enc_Logging g)" "silent T_Selector (enc_Selector h)"
  unfolding T_Refresh_def T_VersionRange_def T_Site_def T_HostIntegrity_def T_Control_def T_ToggleOnly_def
    T_Logging_def T_Selector_def enc_Refresh_def enc_VersionRange_def enc_Site_def enc_HostIntegrity_def
    enc_Control_def enc_ToggleOnly_def enc_Logging_def enc_Selector_def enc_Whitelist_def
    enc_ControlGate_def enc_AppGate_def
  by (simp_all add: silences)

lemma silent_structs2 [silences]:
  "silent T_IPCVersion (enc_IPCVersion a)" "silent T_UpdaterTuning (enc_UpdaterTuning b)"
  "silent T_Override (enc_Override c)"
  unfolding T_IPCVersion_def T_UpdaterTuning_def T_Override_def enc_IPCVersion_def enc_UpdaterTuning_def
    enc_Override_def enc_CriticalWarning_def enc_DCLookupRetry_def enc_ResolverTuning_def
  by (simp_all add: silences)

lemma silent_IPCProtocol [silences]: "silent T_IPCProtocol (enc_IPCProtocol a)"
  unfolding T_IPCProtocol_def enc_IPCProtocol_def by (simp add: silences)

lemma silent_Document: "silent T_Document (enc_Document d)"
  unfolding T_Document_def enc_Document_def
  by (simp add: silences split: option.splits)

lemma walkUnknown_enc: "walkUnknown (norm_json (enc_Document d)) T_Document [] = []"
proof -
  have "walkUnknownValue (norm_json (enc_Document d)) T_Document [] = []"
    using silent_Document by (simp add: silent_def)
  then show ?thesis
    by (simp add: walkUnknownValue.simps T_Document_def)
qed

text \<open>Conversely, silence means that every top-level key is a field of the schema.\<close>

lemma walkUnknown_top:
  "walkUnknown (JObj obj) (TStruct fs) p = [] \<Longrightarrow> fst ` set obj \<subseteq> fst ` set fs"
proof
  fix k
  assume w: "walkUnknown (JObj obj) (TStruct fs) p = []" and "k \<in> fst ` set obj"
  then obtain v where "(k, v) \<in> set obj" by auto
  with w have "map_of fs k \<noteq> None" by (auto split: option.splits)
  then show "k \<in> fst ` set fs" by (simp add: map_of_eq_None_iff)
qed

end
