(* ===== verification/RC_Properties.thy ===== *)
theory RC_Properties
  imports RC_Match RC_Unknown
begin

text \<open>
  Properties of the \<open>remoteconfig\<close> package as a whole, on the definitions of the theories
  \<open>RC_Types\<close>, \<open>RC_Merge_Patch\<close>, \<open>RC_Parse\<close>, \<open>RC_Match\<close> and \<open>RC_Unknown\<close>, with the sample
  documents their witnesses use.
\<close>

section \<open>Sample documents\<close>

definition sample_selector :: Selector where
  "sample_selector = \<lparr>sel_All = Some True, sel_HWIDs = None, sel_Hostnames = None, sel_DCs = None,
     sel_Subnets = None, sel_Domains = None\<rparr>"

definition dc_selector :: Selector where
  "dc_selector = sample_selector\<lparr>sel_All := None, sel_DCs := Some [''dc1.example.org''],
     sel_Subnets := Some [''10.1.0.0/16'']\<rparr>"

definition patch_override :: "string \<Rightarrow> json entries \<Rightarrow> Override" where
  "patch_override i p = \<lparr>ov_ID = i, ov_Match = sample_selector, ov_Except = None, ov_Until = None,
     ov_Patch = Some p\<rparr>"

definition sample_site :: Site where
  "sample_site = \<lparr>site_InternalSubnets = Some [''10.1.0.0/16''], site_BaseServer = ''a'',
     site_BackupServer = Some [''b''], site_Enabled = True\<rparr>"

definition sample_doc :: "Override list \<Rightarrow> Document" where
  "sample_doc ovs = \<lparr>doc_SchemaVersion = 1, doc_Revision = 3, doc_GeneratedAt = [], doc_Refresh = None,
     doc_Servers = Some [(''a'', ''https://a.example''), (''b'', ''https://b.example'')],
     doc_DefaultServer = ''a'', doc_IPCProtocol = None, doc_DCLookupMap = Some [(''dc1'', sample_site)],
     doc_HostIntegrity = None, doc_Control = None,
     doc_Updater = Some \<lparr>ut_PollIntervalMinutes = None, ut_ChannelOverride = None, ut_CriticalWarning = None,
        ut_DCLookupRetry = None, ut_Resolver = Some \<lparr>rt_Attempts = 3, rt_BaseBackoffSeconds = 2\<rparr>,
        ut_SelfUpdate = None, ut_InstallCertificate = None\<rparr>,
     doc_Logging = None, doc_ClientWS = None, doc_Overrides = Some ovs\<rparr>"

definition sample_host :: Host where
  "sample_host = \<lparr>h_HWID = ''H1'', h_Hostname = ''pc1'', h_DC = ''DC1'', h_Domain = ''corp'',
     h_IPs = [''10.1.2.3''], h_Now = 5\<rparr>"

definition sample_lib :: golib where
  "sample_lib = \<lparr>url_Parse = (\<lambda>s. Some \<lparr>Scheme = ''https'', Host = s, RawQuery = []\<rparr>),
     json_parse = (\<lambda>_. Some (enc_Document (sample_doc []))), json_print = (\<lambda>_. ''{}''), sha256_hex = (\<lambda>_. ''ab'')\<rparr>"

text \<open>Two overrides that drop, and then partly refill, the resolver tuning.\<close>

definition drop_resolver :: Override where
  "drop_resolver = patch_override ''drop'' [(''updater'', JObj [(''resolver'', JNull)])]"

definition slow_resolver :: Override where
  "slow_resolver = patch_override ''slow'' [(''updater'', JObj [(''resolver'', JObj [(''baseBackoffSeconds'', JNum 5)])])]"

definition no_default :: Override where
  "no_default = patch_override ''nodef'' [(''defaultServer'', JNull)]"

text \<open>Validity of a sample document, by running the validators on it.\<close>

definition problems_of :: "golib \<Rightarrow> Document \<Rightarrow> Problem list" where
  "problems_of L doc = (if shapeProblems L doc = [] then dryRunOverrides doc else shapeProblems L doc)"

lemma doc_valid_run: "problems_of L doc = [] \<Longrightarrow> doc_valid L doc"
  using problems_Nil_iff [of L doc] by (simp add: problems_of_def)

lemma sample_ok: "ok_Document (sample_doc [])" "ok_Document (sample_doc [slow_resolver])"
    "ok_Document (sample_doc [drop_resolver, slow_resolver])"
  by code_simp+

lemma sample_valid: "doc_valid sample_lib (sample_doc [])"
    "doc_valid sample_lib (sample_doc [drop_resolver, slow_resolver])"
    "doc_valid sample_lib (sample_doc [no_default])"
proof -
  have "problems_of sample_lib (sample_doc []) = []" by code_simp
  then show "doc_valid sample_lib (sample_doc [])" by (rule doc_valid_run)
  have "problems_of sample_lib (sample_doc [drop_resolver, slow_resolver]) = []" by code_simp
  then show "doc_valid sample_lib (sample_doc [drop_resolver, slow_resolver])" by (rule doc_valid_run)
  have "problems_of sample_lib (sample_doc [no_default]) = []" by code_simp
  then show "doc_valid sample_lib (sample_doc [no_default])" by (rule doc_valid_run)
qed

section \<open>Properties\<close>

text \<open>C1: \<open>Parse\<close> accepts a byte string with no problems exactly when it is within the size cap,
  decodes into a document, and that document satisfies every rule of the policy: known servers
  everywhere, well-formed URLs, CIDRs, versions, times and selectors, unique override ids, and
  for every override a patch that yields valid sections when applied to the document.\<close>

theorem Parse_accepts_iff:
  "Parse L data = (Some doc, []) \<longleftrightarrow>
     int (length data) \<le> MaxDocumentBytes \<and>
     Option.bind (json_parse L data) dec_Document = Some doc \<and> doc_valid L doc"
  by (rule Parse_accept)

text \<open>Encoding a document and decoding it, directly or after a detour through Go's generic
  \<open>interface{}\<close> tree as the merge patch takes it, gives the document back.\<close>

theorem Document_roundtrip:
  "ok_Document d \<Longrightarrow>
     dec_Document (enc_Document d) = Some d \<and> dec_Document (norm_json (enc_Document d)) = Some d"
  by (simp add: Document_codec.dec_enc Document_codec.dec_norm)

theorem Document_roundtrip_witness:
  "dec_Document (enc_Document (sample_doc [slow_resolver])) = Some (sample_doc [slow_resolver])"
  using Document_roundtrip [OF sample_ok(2)] by simp

text \<open>The merge follows RFC 7386 key by key: a key absent from the patch keeps the target's
  value, a null removes it, any other value is merged into what the target has there.\<close>

theorem mergePatch_rfc7386:
  assumes "distinct (map fst p)"
  shows "mergePatch t (JObj p) = JObj (obj_of (mergePatch t (JObj p))) \<and>
    map_of (obj_of (mergePatch t (JObj p))) k =
      (case map_of p k of
         None \<Rightarrow> map_of (obj_of t) k
       | Some v \<Rightarrow>
           if v = JNull then None
           else Some (mergePatch (case map_of (obj_of t) k of None \<Rightarrow> JNull | Some u \<Rightarrow> u) v))"
proof
  show "mergePatch t (JObj p) = JObj (obj_of (mergePatch t (JObj p)))" by (simp add: obj_of_def)
qed (rule mergePatch_lookup [OF assms, unfolded merged_value_def])

theorem mergePatch_rfc7386_witness:
  "map_of (obj_of (mergePatch (JObj [(''a'', JNum 1), (''b'', JNum 2)]) (JObj [(''a'', JNull), (''c'', JNum 3)]))) ''b''
     = Some (JNum 2)"
  by (subst mergePatch_rfc7386 [THEN conjunct2]) (simp_all add: obj_of_def)

text \<open>Applying the same patch twice is applying it once.\<close>

theorem mergePatch_idempotent:
  "normal_json p \<Longrightarrow> normal_json t \<Longrightarrow> mergePatch (mergePatch t p) p = mergePatch t p"
  by (rule mergePatch_idem_aux)

theorem mergePatch_idempotent_witness:
  "mergePatch (mergePatch (JObj [(''a'', JNum 1)]) (JObj [(''a'', JNull), (''c'', JNum 3)]))
     (JObj [(''a'', JNull), (''c'', JNum 3)]) =
   mergePatch (JObj [(''a'', JNum 1)]) (JObj [(''a'', JNull), (''c'', JNum 3)])"
  by (rule mergePatch_idempotent) code_simp+

text \<open>A patch can change only the five patchable sections, and of those only the ones it
  names; everything else of the document, the overrides included, comes back untouched.\<close>

theorem applyPatch_touches_only_its_keys:
  assumes "applyPatchToDocument d p = Some d'" and "ok_Document d"
  shows "same_frame d d' \<and> ok_Document d' \<and>
    (''control'' \<notin> fst ` set (elems p) \<longrightarrow> doc_Control d' = doc_Control d) \<and>
    (''updater'' \<notin> fst ` set (elems p) \<longrightarrow> doc_Updater d' = doc_Updater d) \<and>
    (''logging'' \<notin> fst ` set (elems p) \<longrightarrow> doc_Logging d' = doc_Logging d) \<and>
    (''defaultServer'' \<notin> fst ` set (elems p) \<longrightarrow> doc_DefaultServer d' = doc_DefaultServer d) \<and>
    (''clientWs'' \<notin> fst ` set (elems p) \<longrightarrow> doc_ClientWS d' = doc_ClientWS d)"
  using applyPatch_same_frame [OF assms] applyPatch_ok [OF assms] applyPatch_frame [OF assms] by blast

theorem applyPatch_touches_only_its_keys_witness:
  "\<exists>d'. applyPatchToDocument (sample_doc []) (ov_Patch slow_resolver) = Some d' \<and>
     doc_Servers d' = doc_Servers (sample_doc []) \<and> doc_Control d' = None"
proof -
  have "applyPatchToDocument (sample_doc []) (ov_Patch slow_resolver) \<noteq> None" by code_simp
  then obtain d' where d': "applyPatchToDocument (sample_doc []) (ov_Patch slow_resolver) = Some d'" by blast
  have "''control'' \<notin> fst ` set (elems (ov_Patch slow_resolver))" by code_simp
  with applyPatch_touches_only_its_keys [OF d' sample_ok(1)] d' show ?thesis
    by (auto simp: same_frame_def sample_doc_def)
qed

text \<open>A selector without \<open>all\<close> matches a host exactly when it has a non-empty list and the host
  satisfies every non-empty list it has: identifiers case-insensitively, domain controllers by
  short name, subnets by any of the host's addresses.\<close>

theorem Match_and_of_ors:
  assumes "sel_All sel \<noteq> Some True"
  shows "Match sel h \<longleftrightarrow>
    (\<exists>l \<in> set (selector_lists sel). l \<noteq> []) \<and>
    (elems (sel_HWIDs sel) \<noteq> [] \<longrightarrow> h_HWID h \<noteq> [] \<and> (\<exists>x \<in> set (elems (sel_HWIDs sel)). EqualFold x (h_HWID h))) \<and>
    (elems (sel_Hostnames sel) \<noteq> [] \<longrightarrow>
       h_Hostname h \<noteq> [] \<and> (\<exists>x \<in> set (elems (sel_Hostnames sel)). EqualFold x (h_Hostname h))) \<and>
    (elems (sel_DCs sel) \<noteq> [] \<longrightarrow>
       h_DC h \<noteq> [] \<and> (\<exists>x \<in> set (elems (sel_DCs sel)). EqualFold (dcShortName x) (dcShortName (h_DC h)))) \<and>
    (elems (sel_Subnets sel) \<noteq> [] \<longrightarrow>
       (\<exists>c \<in> set (elems (sel_Subnets sel)). \<exists>a n s ip. ParseCIDR c = Some (a, n) \<and> s \<in> set (h_IPs h) \<and>
          ParseIP s = Some ip \<and> Contains n ip)) \<and>
    (elems (sel_Domains sel) \<noteq> [] \<longrightarrow>
       h_Domain h \<noteq> [] \<and> (\<exists>x \<in> set (elems (sel_Domains sel)). EqualFold x (h_Domain h)))"
  using assms by (rule Match_iff)

theorem Match_and_of_ors_witness:
  "\<exists>x \<in> set (elems (sel_DCs dc_selector)). EqualFold (dcShortName x) (dcShortName (h_DC sample_host))"
proof -
  have m: "Match dc_selector sample_host" and a: "sel_All dc_selector \<noteq> Some True"
    and d: "elems (sel_DCs dc_selector) \<noteq> []" by code_simp+
  from m d show ?thesis unfolding Match_and_of_ors [OF a] by blast
qed



text \<open>C5: for every accepted policy, every host and every map iteration order, the resolver chain of
  the effective document is not empty and names only servers of the document, save for the empty
  name a patch may give as default server.\<close>

theorem accepted_policy_routes_to_known_servers:
  assumes "Parse L data = (Some doc, [])" and "Effective clock doc h = (e, ids)"
    and "set order = set (elems (doc_DCLookupMap e))" and "ResolveSite order e h = (m, chain)"
  shows "chain \<noteq> [] \<and> (\<forall>c \<in> set chain. c = [] \<or> known_server doc c)"
proof -
  have "doc_valid L doc" and "ok_Document doc"
    using assms(1) by (auto simp: Parse_accept bind_eq_Some_conv intro: Document_codec.dec_ok)
  then show ?thesis using effective_chain assms(2-4) by blast
qed

theorem accepted_policy_routes_to_known_servers_witness:
  "list_all (\<lambda>c. c = [] \<or> known_server (sample_doc []) c)
     (snd (ResolveSite [(''dc1'', sample_site)] (sample_doc []) sample_host))"
proof -
  have p: "Parse sample_lib ''{}'' = (Some (sample_doc []), [])"
    using sample_valid(1) sample_ok(1)
    by (simp add: Parse_accept MaxDocumentBytes_def sample_lib_def Document_codec.dec_enc)
  have e: "Effective 0 (sample_doc []) sample_host = (sample_doc [], [])"
    by (simp add: Effective_def sample_doc_def)
  have o: "set [(''dc1'', sample_site)] = set (elems (doc_DCLookupMap (sample_doc [])))"
    by (simp add: sample_doc_def)
  show ?thesis
    using accepted_policy_routes_to_known_servers [OF p e o surjective_pairing] by (auto simp: list_all_iff)
qed

text \<open>Validation tries each override on the global document alone. Two overrides that pass can
  together give an effective document that breaks the updater's rules, and an accepted patch can
  leave a host without a default server.\<close>

theorem dry_run_is_not_compositional:
  "doc_valid sample_lib (sample_doc [drop_resolver, slow_resolver]) \<and>
   \<not> updater_ok (doc_Updater (fst (Effective 0 (sample_doc [drop_resolver, slow_resolver]) sample_host))) \<and>
   doc_valid sample_lib (sample_doc [no_default]) \<and>
   doc_DefaultServer (fst (Effective 0 (sample_doc [no_default]) sample_host)) = []"
proof (intro conjI)
  have "map_option ut_Resolver (doc_Updater (fst (Effective 0 (sample_doc [drop_resolver, slow_resolver]) sample_host)))
      = Some (Some \<lparr>rt_Attempts = 0, rt_BaseBackoffSeconds = 5\<rparr>)" by code_simp
  then show "\<not> updater_ok (doc_Updater (fst (Effective 0 (sample_doc [drop_resolver, slow_resolver]) sample_host)))"
    by (auto simp: updater_ok_def)
  show "doc_DefaultServer (fst (Effective 0 (sample_doc [no_default]) sample_host)) = []" by code_simp
qed (rule sample_valid)+

text \<open>The unknown-field walk reports nothing on a document the server wrote, and when it is
  silent on an object every top-level key of it is a field of the schema.\<close>

theorem unknown_fields_exact_at_top:
  "walkUnknown (norm_json (enc_Document d)) T_Document [] = [] \<and>
   (walkUnknown (JObj obj) (TStruct fs) p = [] \<longrightarrow> fst ` set obj \<subseteq> fst ` set fs)"
  by (simp only: walkUnknown_enc) (blast dest: walkUnknown_top)

theorem unknown_fields_exact_at_top_witness:
  "fst ` set [(''enabled'', JBool True)] \<subseteq> fst ` set [(''enabled'', TScalar)]"
proof -
  have "walkUnknown (JObj [(''enabled'', JBool True)]) (TStruct [(''enabled'', TScalar)]) [] = []" by code_simp
  with unknown_fields_exact_at_top show ?thesis by blast
qed

end
