(* ===== verification/DB_Value.thy ===== *)
theory DB_Value
  imports Go_Prelude
begin

text \<open>
  \<open>internal/dbvalue/dbvalue.go\<close>: NULL conversions and truncation of a string to a number of
  characters. \<open>Truncate\<close> goes through \<open>[]rune(s)\<close>, so the UTF-8 decoder and encoder of the
  Go runtime are part of the model: a malformed byte decodes to U+FFFD with width 1.
\<close>

definition NullString :: "string \<Rightarrow> string ptr" where
  "NullString s = (if s = [] then None else Some s)"

definition NullTime :: "gotime \<Rightarrow> gotime ptr" where
  "NullTime t = (if t = 0 then None else Some t)"

definition Deref :: "string ptr \<Rightarrow> string" where
  "Deref s = (case s of None \<Rightarrow> [] | Some v \<Rightarrow> v)"

text \<open>A \<open>TIMESTAMP\<close> or \<open>DATETIME\<close> column keeps whole seconds, rounded.\<close>

definition to_timestamp :: "gotime \<Rightarrow> gotime" where
  "to_timestamp t = (t + second div 2) div second * second"

section \<open>UTF-8\<close>

definition RuneError :: int where
  "RuneError = 65533"

definition cont_byte :: "char \<Rightarrow> bool" where
  "cont_byte c = (let b = (of_char c :: int) in 128 \<le> b \<and> b \<le> 191)"

text \<open>The second byte's accept range, which excludes overlong forms and surrogates.\<close>

definition accept :: "int \<Rightarrow> char \<Rightarrow> bool" where
  "accept b0 c = (let b = (of_char c :: int) in
     (if b0 = 224 then 160 else if b0 = 240 then 144 else 128) \<le> b \<and>
     b \<le> (if b0 = 237 then 159 else if b0 = 244 then 143 else 191))"

definition low6 :: "char \<Rightarrow> int" where
  "low6 c = of_char c - 128"

definition decodeRune :: "string \<Rightarrow> int \<times> nat" where
  "decodeRune s = (case s of
     [] \<Rightarrow> (RuneError, 0)
   | c0 # s1 \<Rightarrow> (let b0 = (of_char c0 :: int) in
       if b0 < 128 then (b0, 1)
       else if b0 < 194 \<or> 244 < b0 then (RuneError, 1)
       else case s1 of [] \<Rightarrow> (RuneError, 1)
        | c1 # s2 \<Rightarrow>
            if \<not> accept b0 c1 then (RuneError, 1)
            else if b0 < 224 then ((b0 - 192) * 64 + low6 c1, 2)
            else case s2 of [] \<Rightarrow> (RuneError, 1)
             | c2 # s3 \<Rightarrow>
                 if \<not> cont_byte c2 then (RuneError, 1)
                 else if b0 < 240 then ((b0 - 224) * 4096 + low6 c1 * 64 + low6 c2, 3)
                 else case s3 of [] \<Rightarrow> (RuneError, 1)
                  | c3 # _ \<Rightarrow>
                      if \<not> cont_byte c3 then (RuneError, 1)
                      else ((b0 - 240) * 262144 + low6 c1 * 4096 + low6 c2 * 64 + low6 c3, 4)))"

lemma decodeRune_width: "0 < snd (decodeRune (c # s))"
  by (auto simp: decodeRune_def Let_def split: list.splits)

function runes :: "string \<Rightarrow> int list" where
  "runes [] = []"
| "runes (c # s) =
     fst (decodeRune (c # s)) # runes (drop (snd (decodeRune (c # s))) (c # s))"
  by pat_completeness auto
termination
proof (relation "measure length")
  fix c s
  show "(drop (snd (decodeRune (c # s))) (c # s), c # s) \<in> measure length"
    using decodeRune_width [of c s] by simp
qed simp

declare runes.simps(2) [simp del]

definition valid_rune :: "int \<Rightarrow> bool" where
  "valid_rune r \<longleftrightarrow> 0 \<le> r \<and> r < 55296 \<or> 57344 \<le> r \<and> r \<le> 1114111"

definition encodeRune :: "int \<Rightarrow> string" where
  "encodeRune r0 = (let r = (if valid_rune r0 then r0 else RuneError) in
     if r < 128 then [char_of r]
     else if r < 2048 then [char_of (192 + r div 64), char_of (128 + r mod 64)]
     else if r < 65536 then
       [char_of (224 + r div 4096), char_of (128 + r div 64 mod 64), char_of (128 + r mod 64)]
     else [char_of (240 + r div 262144), char_of (128 + r div 4096 mod 64),
           char_of (128 + r div 64 mod 64), char_of (128 + r mod 64)])"

definition Truncate :: "string \<Rightarrow> nat \<Rightarrow> string" where
  "Truncate s maxr =
     (let r = runes s in if length r \<le> maxr then s else concat (map encodeRune (take maxr r)))"

section \<open>Lemmas\<close>

lemma NullString_simps [simp]: "NullString [] = None" "s \<noteq> [] \<Longrightarrow> NullString s = Some s"
  "Deref (NullString s) = s"
  by (simp_all add: NullString_def Deref_def)

lemma of_char_int_bounds [simp]: "0 \<le> (of_char c :: int)" "(of_char c :: int) < 256"
proof -
  have "0 \<le> (of_char c :: int) mod 256" by (rule pos_mod_sign) simp
  then show "0 \<le> (of_char c :: int)" by (simp only: of_char_mod_256)
  have "(of_char c :: int) mod 256 < 256" by (rule pos_mod_bound) simp
  then show "(of_char c :: int) < 256" by (simp only: of_char_mod_256)
qed

lemma of_char_int: "0 \<le> n \<Longrightarrow> n < 256 \<Longrightarrow> (of_char (char_of n) :: int) = n"
  by (simp add: of_char_of)

lemma decodeRune_valid: "s \<noteq> [] \<Longrightarrow> valid_rune (fst (decodeRune s))"
  by (auto simp: decodeRune_def Let_def valid_rune_def RuneError_def accept_def cont_byte_def low6_def
      split: list.splits if_splits)

lemma runes_valid: "\<forall>r \<in> set (runes s). valid_rune r"
proof (induction s rule: runes.induct)
  case (2 c s)
  then show ?case using decodeRune_valid [of "c # s"] by (simp add: runes.simps(2))
qed simp

lemma split_base64:
  fixes r :: int
  shows "r div 4096 * 4096 + r div 64 mod 64 * 64 + r mod 64 = r"
    and "r div 262144 * 262144 + r div 4096 mod 64 * 4096 + r div 64 mod 64 * 64 + r mod 64 = r"
proof -
  have q: "r div 4096 = r div 64 div 64" "r div 262144 = r div 4096 div 64"
    using zdiv_zmult2_eq [of 64 r 64] zdiv_zmult2_eq [of 64 r 4096] by simp_all
  show a: "r div 4096 * 4096 + r div 64 mod 64 * 64 + r mod 64 = r"
    using div_mult_mod_eq [of r 64] div_mult_mod_eq [of "r div 64" 64] q(1) by linarith
  show "r div 262144 * 262144 + r div 4096 mod 64 * 4096 + r div 64 mod 64 * 64 + r mod 64 = r"
    using a div_mult_mod_eq [of "r div 4096" 64] q(2) by linarith
qed

lemma decode3:
  assumes "0 \<le> a" "a < 16" "0 \<le> b" "b < 64" "0 \<le> c" "c < 64"
    and "a = 0 \<longrightarrow> 32 \<le> b" "a = 13 \<longrightarrow> b < 32"
  shows "decodeRune (char_of (224 + a) # char_of (128 + b) # char_of (128 + c) # s)
    = (a * 4096 + b * 64 + c, 3)"
proof -
  have o: "(of_char (char_of (224 + a)) :: int) = 224 + a" "(of_char (char_of (128 + b)) :: int) = 128 + b"
    "(of_char (char_of (128 + c)) :: int) = 128 + c"
    using assms by (auto intro: of_char_int)
  have "accept (224 + a) (char_of (128 + b))" unfolding accept_def o Let_def using assms by auto
  moreover have "cont_byte (char_of (128 + c))"
    unfolding cont_byte_def o Let_def using assms by auto
  ultimately show ?thesis unfolding decodeRune_def low6_def using assms by (simp add: o Let_def)
qed

lemma second_byte4:
  assumes "a * 262144 + b * 4096 + c * 64 + d = r" "65536 \<le> r" "r \<le> 1114111"
    and "0 \<le> c" "c < 64" "0 \<le> d" "d < (64 :: int)"
  shows "(a = 0 \<longrightarrow> 16 \<le> b) \<and> (a = 4 \<longrightarrow> b < 16)"
proof (intro conjI impI)
  assume "a = 0"
  with assms have "65536 \<le> b * 4096 + 63 * 64 + 63" by linarith
  then show "16 \<le> b" by linarith
next
  assume "a = 4"
  with assms have "b * 4096 \<le> 65535" by linarith
  then show "b < 16" by linarith
qed

lemma decode4:
  assumes "0 \<le> a" "a < 5" "0 \<le> b" "b < 64" "0 \<le> c" "c < 64" "0 \<le> d" "d < 64"
    and "a = 0 \<longrightarrow> 16 \<le> b" "a = 4 \<longrightarrow> b < 16"
  shows "decodeRune (char_of (240 + a) # char_of (128 + b) # char_of (128 + c) # char_of (128 + d) # s)
    = (a * 262144 + b * 4096 + c * 64 + d, 4)"
proof -
  have o: "(of_char (char_of (240 + a)) :: int) = 240 + a" "(of_char (char_of (128 + b)) :: int) = 128 + b"
    "(of_char (char_of (128 + c)) :: int) = 128 + c" "(of_char (char_of (128 + d)) :: int) = 128 + d"
    using assms by (auto intro: of_char_int)
  have "accept (240 + a) (char_of (128 + b))" unfolding accept_def o Let_def using assms by auto
  moreover have "cont_byte (char_of (128 + c))" "cont_byte (char_of (128 + d))"
    unfolding cont_byte_def o Let_def using assms by auto
  ultimately show ?thesis unfolding decodeRune_def low6_def using assms by (simp add: o Let_def)
qed

text \<open>The encoder and the decoder agree, whatever follows.\<close>

lemma decode_encode:
  assumes "valid_rune r"
  shows "decodeRune (encodeRune r @ s) = (r, length (encodeRune r))"
proof -
  consider "r < 128" | "128 \<le> r" "r < 2048" | "2048 \<le> r" "r < 65536" | "65536 \<le> r"
    by linarith
  then show ?thesis
  proof cases
    case 1
    with assms show ?thesis by (simp add: encodeRune_def decodeRune_def of_char_int valid_rune_def)
  next
    case 2
    let ?a = "r div 64" and ?b = "r mod 64"
    have r: "?a * 64 + ?b = r" by presburger
    have d: "2 \<le> ?a" "?a < 32" "0 \<le> ?b" "?b < 64" using 2 by auto
    have "decodeRune (encodeRune r @ s) = (?a * 64 + ?b, 2)"
      using 2 assms d by (auto simp: encodeRune_def decodeRune_def of_char_int accept_def low6_def Let_def)
    moreover have "length (encodeRune r) = 2" using 2 assms by (simp add: encodeRune_def)
    ultimately show ?thesis unfolding r by simp
  next
    case 3
    let ?a = "r div 4096" and ?b = "r div 64 mod 64" and ?c = "r mod 64"
    have r: "?a * 4096 + ?b * 64 + ?c = r" by (rule split_base64)
    have d: "0 \<le> ?a" "?a < 16" "0 \<le> ?b" "?b < 64" "0 \<le> ?c" "?c < 64" using 3 by auto
    have e: "?a = 0 \<longrightarrow> 32 \<le> ?b" "?a = 13 \<longrightarrow> ?b < 32"
      using 3 assms [unfolded valid_rune_def] d r by linarith+
    have "decodeRune (encodeRune r @ s) = (?a * 4096 + ?b * 64 + ?c, 3)"
      using decode3 [OF d e, of s] 3 assms by (simp add: encodeRune_def)
    moreover have "length (encodeRune r) = 3" using 3 assms by (simp add: encodeRune_def)
    ultimately show ?thesis unfolding r by simp
  next
    case 4
    let ?a = "r div 262144" and ?b = "r div 4096 mod 64" and ?c = "r div 64 mod 64" and ?d = "r mod 64"
    have r: "?a * 262144 + ?b * 4096 + ?c * 64 + ?d = r" by (rule split_base64)
    have m: "r \<le> 1114111" using 4 assms by (auto simp: valid_rune_def)
    have d: "0 \<le> ?a" "?a < 5" "0 \<le> ?b" "?b < 64" "0 \<le> ?c" "?c < 64" "0 \<le> ?d" "?d < 64"
      using 4 m by auto
    have e: "?a = 0 \<longrightarrow> 16 \<le> ?b" "?a = 4 \<longrightarrow> ?b < 16"
      using second_byte4 [OF r 4 m d(5-8)] by blast+
    have "decodeRune (encodeRune r @ s) = (?a * 262144 + ?b * 4096 + ?c * 64 + ?d, 4)"
      using decode4 [OF d e, of s] 4 assms by (simp add: encodeRune_def)
    moreover have "length (encodeRune r) = 4" using 4 assms by (simp add: encodeRune_def)
    ultimately show ?thesis unfolding r by simp
  qed
qed

lemma encodeRune_ne [simp]: "encodeRune r \<noteq> []"
  by (simp add: encodeRune_def Let_def)

lemma runes_encode: "valid_rune r \<Longrightarrow> runes (encodeRune r @ s) = r # runes s"
proof -
  assume v: "valid_rune r"
  obtain c t where ct: "encodeRune r @ s = c # t" by (cases "encodeRune r @ s") auto
  have "runes (c # t) = r # runes (drop (length (encodeRune r)) (encodeRune r @ s))"
    unfolding runes.simps(2) using decode_encode [OF v, of s] by (simp add: ct)
  then show ?thesis by (simp add: ct [symmetric])
qed

lemma runes_encode_list: "\<forall>r \<in> set rs. valid_rune r \<Longrightarrow> runes (concat (map encodeRune rs)) = rs"
  by (induction rs) (simp_all add: runes_encode)

lemma runes_Truncate: "runes (Truncate s n) = take n (runes s)"
proof (cases "length (runes s) \<le> n")
  case True
  then show ?thesis by (simp add: Truncate_def Let_def)
next
  case False
  have "\<forall>r \<in> set (take n (runes s)). valid_rune r" using runes_valid [of s] by (meson in_set_takeD)
  with False show ?thesis by (simp add: Truncate_def Let_def runes_encode_list)
qed

lemma Truncate_idem [simp]: "Truncate (Truncate s n) n = Truncate s n"
  using runes_Truncate [of s n] by (subst Truncate_def) (simp add: Let_def)

lemma Truncate_short: "length (runes s) \<le> n \<Longrightarrow> Truncate s n = s"
  by (simp add: Truncate_def)

section \<open>Properties\<close>

text \<open>\<open>Truncate\<close> keeps exactly the first characters of a string, counted as Go counts runes, so
  the result never has more characters than its column holds, and truncating again changes
  nothing.\<close>

theorem Truncate_keeps_first_runes:
  "runes (Truncate s n) = take n (runes s) \<and> length (runes (Truncate s n)) \<le> n \<and>
   Truncate (Truncate s n) n = Truncate s n"
  by (simp add: runes_Truncate)

text \<open>The UTF-8 decoder inverts the encoder on every sequence of valid code points, and only
  valid code points ever come out of it.\<close>

theorem utf8_roundtrip:
  "(\<forall>r \<in> set (runes s). valid_rune r) \<and>
   (list_all valid_rune rs \<longrightarrow> runes (concat (map encodeRune rs)) = rs)"
  by (auto simp: runes_valid runes_encode_list list_all_iff)

theorem utf8_roundtrip_witness:
  "runes (concat (map encodeRune [72, 233, 8364, 128512])) = [72, 233, 8364, 128512]"
proof -
  have "list_all valid_rune [72, 233, 8364, 128512]" by code_simp
  with utf8_roundtrip show ?thesis by blast
qed

end
