(* ===== verification/Http_Request.thy ===== *)
theory Http_Request
  imports Go_Prelude DB_Value
begin

text \<open>
  The parts of \<open>net/http\<close> and \<open>net\<close> that handlers and middlewares read: a request's headers
  (\<open>Header.Get\<close> answers the empty string for an absent header), its remote address, and
  \<open>net.SplitHostPort\<close>.
\<close>

record request =
  r_Header :: "string \<Rightarrow> string"
  r_RemoteAddr :: string

definition UserAgent :: "request \<Rightarrow> string" where
  "UserAgent r = r_Header r ''User-Agent''"

text \<open>Positions of bytes in a string: \<open>IndexByte\<close> and \<open>LastIndexByte\<close>, with -1 as None.\<close>

definition IndexByte :: "char \<Rightarrow> string \<Rightarrow> nat option" where
  "IndexByte c s = (if c \<in> set s then Some (length (takeWhile (\<lambda>x. x \<noteq> c) s)) else None)"

definition LastIndexByte :: "char \<Rightarrow> string \<Rightarrow> nat option" where
  "LastIndexByte c s =
     (if c \<in> set s then Some (length s - 1 - length (takeWhile (\<lambda>x. x \<noteq> c) (rev s))) else None)"

text \<open>\<open>net.SplitHostPort\<close>: host and port, or an error.\<close>

definition SplitHostPort :: "string \<Rightarrow> (string \<times> string) option" where
  "SplitHostPort hostport =
     (case LastIndexByte (CHR '':'') hostport of
        None \<Rightarrow> None
      | Some i \<Rightarrow>
          if hd hostport = CHR ''['' then
            (case IndexByte (CHR '']'') hostport of
               None \<Rightarrow> None
             | Some e \<Rightarrow>
                 if e + 1 \<noteq> i then None
                 else if CHR ''['' \<in> set (drop 1 hostport) \<or> CHR '']'' \<in> set (drop (e + 1) hostport) then None
                 else Some (drop 1 (take e hostport), drop (i + 1) hostport))
          else
            if CHR '':'' \<in> set (take i hostport) then None
            else if CHR ''['' \<in> set hostport \<or> CHR '']'' \<in> set hostport then None
            else Some (take i hostport, drop (i + 1) hostport))"

definition ClientIP :: "request \<Rightarrow> string" where
  "ClientIP r = (case SplitHostPort (r_RemoteAddr r) of None \<Rightarrow> r_RemoteAddr r | Some (host, _) \<Rightarrow> host)"

section \<open>Splitting an address\<close>

lemma LastIndexByte_append: "c \<notin> set t \<Longrightarrow> LastIndexByte c (s @ c # t) = Some (length s)"
proof -
  assume "c \<notin> set t"
  then have "takeWhile (\<lambda>x. x \<noteq> c) (rev t @ c # rev s) = rev t"
    by (subst takeWhile_append2) auto
  then show ?thesis by (simp add: LastIndexByte_def)
qed

lemma SplitHostPort_v4:
  assumes "set host \<inter> {CHR '':'', CHR ''['', CHR '']''} = {}" "set port \<inter> {CHR '':'', CHR ''['', CHR '']''} = {}"
  shows "SplitHostPort (host @ CHR '':'' # port) = Some (host, port)"
proof -
  have "hd (host @ CHR '':'' # port) \<noteq> CHR ''[''"
    using assms(1) by (cases host) auto
  moreover have "LastIndexByte (CHR '':'') (host @ CHR '':'' # port) = Some (length host)"
    using assms(2) by (intro LastIndexByte_append) auto
  ultimately show ?thesis using assms by (auto simp: SplitHostPort_def)
qed

end
