(* ===== verification/Updater_Identity.thy ===== *)
theory Updater_Identity
  imports Go_Std Http_Request
begin

text \<open>
  The identity half of \<open>internal/updaterclient/updaterclient.go\<close>: what a request, or an
  \<open>identity\<close> message on the client WebSocket, says about the machine behind it.
\<close>

section \<open>User agent\<close>

definition word_char :: "char \<Rightarrow> bool" where
  "word_char c = (let n = (of_char c :: int) in
     (48 \<le> n \<and> n \<le> 57) \<or> (65 \<le> n \<and> n \<le> 90) \<or> (97 \<le> n \<and> n \<le> 122) \<or> n = 95)"

definition ua_char :: "char \<Rightarrow> bool" where
  "ua_char c = (word_char c \<or> c = CHR ''.'' \<or> c = CHR ''-'')"

definition re_space :: "char \<Rightarrow> bool" where
  "re_space c = (let n = (of_char c :: int) in n = 9 \<or> n = 10 \<or> n = 12 \<or> n = 13 \<or> n = 32)"

text \<open>
  The regular expression \<open>^EMLy-Updater/([\w.\-]+)\s*\(([^)]*)\)\<close>. A version character is
  neither a space nor a parenthesis, so the greedy match is the only one.
\<close>

definition ParseUserAgent :: "string \<Rightarrow> string \<times> string" where
  "ParseUserAgent ua =
     (if \<not> HasPrefix ua ''EMLy-Updater/'' then ([], [])
      else let rest = drop (length ''EMLy-Updater/'') ua;
               version = takeWhile ua_char rest;
               tail = dropWhile re_space (dropWhile ua_char rest)
           in if version = [] then ([], [])
              else case tail of
                [] \<Rightarrow> ([], [])
              | c # inside \<Rightarrow>
                  if c = CHR ''('' \<and> CHR '')'' \<in> set inside
                  then (version, TrimSpace (takeWhile (\<lambda>x. x \<noteq> CHR '')'') inside))
                  else ([], []))"

section \<open>Versions\<close>

definition before_any :: "char list \<Rightarrow> string \<Rightarrow> string" where
  "before_any cs s = takeWhile (\<lambda>x. x \<notin> set cs) s"

fun version_fields :: "nat \<Rightarrow> string list \<Rightarrow> int list option" where
  "version_fields 0 fs = Some []"
| "version_fields (Suc n) [] = Some (replicate (Suc n) 0)"
| "version_fields (Suc n) (f # fs) =
     (case Atoi f of
        None \<Rightarrow> None
      | Some k \<Rightarrow> if k < 0 then None else map_option ((#) k) (version_fields n fs))"

definition dottedVersionParts :: "string \<Rightarrow> int list option" where
  "dottedVersionParts v =
     (let fs = Split (CHR ''.'') (before_any [CHR ''-'', CHR ''+''] v)
      in if length fs = 0 \<or> length fs > 4 then None else version_fields 3 fs)"

fun compare_parts :: "int list \<Rightarrow> int list \<Rightarrow> int" where
  "compare_parts (a # as) (b # bs) = (if a < b then - 1 else if b < a then 1 else compare_parts as bs)"
| "compare_parts _ _ = 0"

definition compareDottedVersions :: "string \<Rightarrow> string \<Rightarrow> int option" where
  "compareDottedVersions a b =
     (case dottedVersionParts a of
        None \<Rightarrow> None
      | Some pa \<Rightarrow> (case dottedVersionParts b of None \<Rightarrow> None | Some pb \<Rightarrow> Some (compare_parts pa pb)))"

definition loggedUserSessionMinUpdaterVersion :: string where
  "loggedUserSessionMinUpdaterVersion = ''1.6.2''"

definition reportsNobodyLoggedOn :: "string \<Rightarrow> string \<Rightarrow> bool" where
  "reportsNobodyLoggedOn loggedUser uaVersion =
     (if loggedUser \<noteq> [] \<or> uaVersion = [] then False
      else case compareDottedVersions uaVersion loggedUserSessionMinUpdaterVersion of
        None \<Rightarrow> False | Some cmp \<Rightarrow> 0 \<le> cmp)"

section \<open>Session state\<close>

definition loggedUserActiveConsole :: string where "loggedUserActiveConsole = ''active-console''"
definition loggedUserActiveRDP :: string where "loggedUserActiveRDP = ''active-rdp''"
definition loggedUserDisconnected :: string where "loggedUserDisconnected = ''disconnected''"

lemmas session_states = loggedUserActiveConsole_def loggedUserActiveRDP_def loggedUserDisconnected_def

definition parseLoggedUserSession :: "string \<Rightarrow> string \<Rightarrow> string \<times> gotime" where
  "parseLoggedUserSession state0 disconnectedAt =
     (let state = ToLower (TrimSpace state0)
      in if state = loggedUserActiveConsole \<or> state = loggedUserActiveRDP then (state, 0)
         else if state = loggedUserDisconnected then
           (case ParseRFC3339 (TrimSpace disconnectedAt) of
              None \<Rightarrow> (state, 0)
            | Some t \<Rightarrow> (state, t - t mod second))
         else ([], 0))"

section \<open>Identity\<close>

record Identity =
  HWID :: string
  Hostname :: string
  ADDomain :: string
  LoggedUser :: string
  LoggedUserState :: string
  LoggedUserDisconnectedAt :: gotime
  NobodyLoggedOn :: bool
  Serial :: string
  Product :: string
  OSVersion :: string
  EMLyVersion :: string
  UAVersion :: string
  Contact :: string
  IP :: string

definition Identified :: "Identity \<Rightarrow> bool" where
  "Identified c = (HWID c \<noteq> [] \<or> Hostname c \<noteq> [])"

definition IdentityFromRequest :: "request \<Rightarrow> Identity" where
  "IdentityFromRequest r =
     (let (uaVersion, contact) = ParseUserAgent (UserAgent r);
          (state, disconnectedAt) = parseLoggedUserSession
             (r_Header r ''X-EMLy-LoggedUserState'') (r_Header r ''X-EMLy-LoggedUserDisconnectedAt'');
          loggedUser = Truncate (r_Header r ''X-EMLy-LoggedUser'') 255
      in \<lparr>HWID = r_Header r ''X-EMLy-HWID'',
          Hostname = r_Header r ''X-EMLy-Hostname'',
          ADDomain = r_Header r ''X-EMLy-ADDomain'',
          LoggedUser = loggedUser,
          LoggedUserState = state,
          LoggedUserDisconnectedAt = disconnectedAt,
          NobodyLoggedOn = reportsNobodyLoggedOn loggedUser uaVersion,
          Serial = Truncate (r_Header r ''X-EMLy-Serial'') 128,
          Product = Truncate (r_Header r ''X-EMLy-Product'') 128,
          OSVersion = Truncate (r_Header r ''X-EMLy-OSVersion'') 128,
          EMLyVersion = Truncate (r_Header r ''X-EMLy-AppVersion'') 20,
          UAVersion = uaVersion,
          Contact = contact,
          IP = ClientIP r\<rparr>)"

record WSIdentityPayload =
  ws_HWID :: string
  ws_Hostname :: string
  ws_ADDomain :: string
  ws_LoggedUser :: string
  ws_LoggedUserState :: string
  ws_LoggedUserDisconnectedAt :: string
  ws_Serial :: string
  ws_Product :: string
  ws_OSVersion :: string
  ws_EMLyVersion :: string

definition IdentityFromWSPayload :: "request \<Rightarrow> WSIdentityPayload \<Rightarrow> Identity" where
  "IdentityFromWSPayload r p =
     (let (uaVersion, contact) = ParseUserAgent (UserAgent r);
          (state, disconnectedAt) = parseLoggedUserSession (ws_LoggedUserState p) (ws_LoggedUserDisconnectedAt p);
          loggedUser = Truncate (ws_LoggedUser p) 255
      in \<lparr>HWID = ws_HWID p,
          Hostname = ws_Hostname p,
          ADDomain = ws_ADDomain p,
          LoggedUser = loggedUser,
          LoggedUserState = state,
          LoggedUserDisconnectedAt = disconnectedAt,
          NobodyLoggedOn = reportsNobodyLoggedOn loggedUser uaVersion,
          Serial = Truncate (ws_Serial p) 128,
          Product = Truncate (ws_Product p) 128,
          OSVersion = Truncate (ws_OSVersion p) 128,
          EMLyVersion = Truncate (ws_EMLyVersion p) 20,
          UAVersion = uaVersion,
          Contact = contact,
          IP = ClientIP r\<rparr>)"

section \<open>Lemmas\<close>

lemma compare_parts_refl [simp]: "compare_parts as as = 0"
  by (induction as) auto

lemma compare_parts_antisym: "length as = length bs \<Longrightarrow> compare_parts bs as = - compare_parts as bs"
  by (induction as bs rule: list_induct2) auto

lemma compare_parts_zero: "length as = length bs \<Longrightarrow> compare_parts as bs = 0 \<longleftrightarrow> as = bs"
  by (induction as bs rule: list_induct2) auto

lemma compare_parts_trans:
  "length as = length bs \<Longrightarrow> length bs = length cs \<Longrightarrow>
     0 \<le> compare_parts as bs \<Longrightarrow> 0 \<le> compare_parts bs cs \<Longrightarrow> 0 \<le> compare_parts as cs"
  by (induction as bs cs rule: list_induct3) (auto split: if_splits)

lemma version_fields_length: "version_fields n fs = Some ps \<Longrightarrow> length ps = n"
  by (induction n fs arbitrary: ps rule: version_fields.induct) (auto split: option.splits if_splits)

lemma dotted_length: "dottedVersionParts v = Some ps \<Longrightarrow> length ps = 3"
  by (auto simp: dottedVersionParts_def Let_def dest: version_fields_length split: if_splits)

text \<open>The only states that reach the table, and when a disconnection time does.\<close>

lemma parseLoggedUserSession_range:
  assumes "parseLoggedUserSession s d = (state, t)"
  shows "state \<in> {[], loggedUserActiveConsole, loggedUserActiveRDP, loggedUserDisconnected} \<and>
    (t \<noteq> 0 \<longrightarrow> state = loggedUserDisconnected) \<and> t mod second = 0"
  using assms
  by (auto simp: parseLoggedUserSession_def Let_def mod_diff_eq [symmetric] split: if_splits option.splits)

lemma IdentityFromRequest_session:
  "LoggedUserDisconnectedAt (IdentityFromRequest r) \<noteq> 0 \<Longrightarrow>
     LoggedUserState (IdentityFromRequest r) = loggedUserDisconnected"
  using parseLoggedUserSession_range [OF surjective_pairing, of "r_Header r ''X-EMLy-LoggedUserState''"
      "r_Header r ''X-EMLy-LoggedUserDisconnectedAt''"]
  by (simp add: IdentityFromRequest_def Let_def case_prod_unfold)

text \<open>The header record and the payload that say the same thing.\<close>

definition payload_of :: "request \<Rightarrow> WSIdentityPayload" where
  "payload_of r =
     \<lparr>ws_HWID = r_Header r ''X-EMLy-HWID'', ws_Hostname = r_Header r ''X-EMLy-Hostname'',
      ws_ADDomain = r_Header r ''X-EMLy-ADDomain'', ws_LoggedUser = r_Header r ''X-EMLy-LoggedUser'',
      ws_LoggedUserState = r_Header r ''X-EMLy-LoggedUserState'',
      ws_LoggedUserDisconnectedAt = r_Header r ''X-EMLy-LoggedUserDisconnectedAt'',
      ws_Serial = r_Header r ''X-EMLy-Serial'', ws_Product = r_Header r ''X-EMLy-Product'',
      ws_OSVersion = r_Header r ''X-EMLy-OSVersion'', ws_EMLyVersion = r_Header r ''X-EMLy-AppVersion''\<rparr>"

lemma ParseUserAgent_match:
  assumes v: "v \<noteq> []" "list_all ua_char v" and s: "list_all re_space sp" and c: "CHR '')'' \<notin> set c"
  shows "ParseUserAgent (''EMLy-Updater/'' @ v @ sp @ CHR ''('' # c @ CHR '')'' # rest) = (v, TrimSpace c)"
proof -
  have ns: "\<not> ua_char x" if "re_space x" for x
    using that by (auto simp: ua_char_def word_char_def re_space_def Let_def)
  have np: "\<not> ua_char (CHR ''('')" "\<not> re_space (CHR ''('')"
    by (auto simp: ua_char_def word_char_def re_space_def)
  let ?t = "sp @ CHR ''('' # c @ CHR '')'' # rest"
  have tw: "takeWhile ua_char ?t = []" "dropWhile ua_char ?t = ?t"
    using s ns np by (cases sp; auto)+
  have "takeWhile ua_char (v @ ?t) = v" "dropWhile ua_char (v @ ?t) = ?t"
    using v tw by (simp_all add: takeWhile_append2 dropWhile_append2 list_all_iff)
  moreover have "dropWhile re_space ?t = CHR ''('' # c @ CHR '')'' # rest"
    using s np by (subst dropWhile_append2) (auto simp: list_all_iff)
  moreover have "takeWhile (\<lambda>x. x \<noteq> CHR '')'') (c @ CHR '')'' # rest) = c"
    using c by (subst takeWhile_append2) auto
  ultimately show ?thesis
    using v by (simp add: ParseUserAgent_def HasPrefix_def Let_def)
qed

section \<open>Properties\<close>

text \<open>The identity read from the headers of a request and the one built from an identity message
  with the same fields over the same connection are equal, field by field.\<close>

theorem header_and_ws_identity_agree:
  "IdentityFromWSPayload r (payload_of r) = IdentityFromRequest r"
  by (simp add: IdentityFromWSPayload_def IdentityFromRequest_def payload_of_def)

text \<open>Only the three known session states reach the table, a disconnection time comes only with
  the disconnected state and in whole seconds, and every bounded field fits its column.\<close>

theorem identity_fields_fit_their_columns:
  "LoggedUserState (IdentityFromRequest r) \<in>
     {[], loggedUserActiveConsole, loggedUserActiveRDP, loggedUserDisconnected} \<and>
   (LoggedUserDisconnectedAt (IdentityFromRequest r) = 0 \<or>
    LoggedUserState (IdentityFromRequest r) = loggedUserDisconnected) \<and>
   LoggedUserDisconnectedAt (IdentityFromRequest r) mod second = 0 \<and>
   length (runes (LoggedUser (IdentityFromRequest r))) \<le> 255 \<and>
   length (runes (Serial (IdentityFromRequest r))) \<le> 128 \<and>
   length (runes (Product (IdentityFromRequest r))) \<le> 128 \<and>
   length (runes (OSVersion (IdentityFromRequest r))) \<le> 128 \<and>
   length (runes (EMLyVersion (IdentityFromRequest r))) \<le> 20"
  using parseLoggedUserSession_range [OF surjective_pairing, of "r_Header r ''X-EMLy-LoggedUserState''"
      "r_Header r ''X-EMLy-LoggedUserDisconnectedAt''"]
  by (simp add: IdentityFromRequest_def Let_def case_prod_unfold runes_Truncate) blast

text \<open>The version comparison is a total preorder on the versions it accepts: swapping the arguments
  flips the sign, equal means the same three numbers, and at-least is transitive.\<close>

theorem version_order:
  assumes "dottedVersionParts a = Some x" and "dottedVersionParts b = Some y" and "dottedVersionParts c = Some z"
  shows "compareDottedVersions b a = map_option uminus (compareDottedVersions a b) \<and>
    (compareDottedVersions a b = Some 0 \<longleftrightarrow> x = y) \<and>
    (the (compareDottedVersions a b) \<ge> 0 \<longrightarrow> the (compareDottedVersions b c) \<ge> 0 \<longrightarrow>
       the (compareDottedVersions a c) \<ge> 0)"
proof -
  have l: "length x = 3" "length y = 3" "length z = 3" using assms by (auto dest: dotted_length)
  then have "compare_parts y x = - compare_parts x y" "compare_parts x y = 0 \<longleftrightarrow> x = y"
    "0 \<le> compare_parts x y \<Longrightarrow> 0 \<le> compare_parts y z \<Longrightarrow> 0 \<le> compare_parts x z"
    by (simp_all add: compare_parts_antisym [of x y] compare_parts_zero)
       (rule compare_parts_trans [of x y z], simp_all)
  with assms show ?thesis by (simp add: compareDottedVersions_def)
qed

theorem version_order_witness:
  "the (compareDottedVersions ''1.10.0-rc1'' ''1.6.2'') \<ge> 0"
proof -
  have p: "dottedVersionParts ''1.10.0-rc1'' = Some [1, 10, 0]" "dottedVersionParts ''1.9'' = Some [1, 9, 0]"
    "dottedVersionParts ''1.6.2'' = Some [1, 6, 2]" by code_simp+
  have "the (compareDottedVersions ''1.10.0-rc1'' ''1.9'') \<ge> 0" "the (compareDottedVersions ''1.9'' ''1.6.2'') \<ge> 0"
    using p by (simp_all add: compareDottedVersions_def)
  with version_order [OF p] show ?thesis by blast
qed

end
