(* ===== verification/Stats_Hub.thy ===== *)
theory Stats_Hub
  imports Go_Prelude "HOL-Library.Sublist"
begin

text \<open>
  \<open>internal/statshub/statshub.go\<close>: the in-process fan-out of ingest events to the stats
  stream. A subscriber is a reference to a buffered channel; \<open>cancel\<close> removes it from the
  hub, after which its channel keeps what it holds but receives nothing more. The operations
  take the hub's lock, so a run of the hub is a sequence of operations.
\<close>

definition subscriberBuffer :: nat where
  "subscriberBuffer = 16"

record 'e stats_hub =
  sh_subs :: "nat list"
  sh_chan :: "nat \<Rightarrow> 'e list"
  sh_next :: nat

definition sh_New :: "'e stats_hub" where
  "sh_New = \<lparr>sh_subs = [], sh_chan = (\<lambda>_. []), sh_next = 0\<rparr>"

definition Subscribe :: "'e stats_hub \<Rightarrow> 'e stats_hub \<times> nat" where
  "Subscribe h =
     (let sub = sh_next h
      in (h\<lparr>sh_subs := sub # sh_subs h, sh_chan := (sh_chan h)(sub := []), sh_next := Suc sub\<rparr>, sub))"

definition sh_cancel :: "nat \<Rightarrow> 'e stats_hub \<Rightarrow> 'e stats_hub" where
  "sh_cancel sub h = h\<lparr>sh_subs := filter (\<lambda>s. s \<noteq> sub) (sh_subs h)\<rparr>"

definition Active :: "'e stats_hub \<Rightarrow> bool" where
  "Active h = (sh_subs h \<noteq> [])"

text \<open>A non-blocking send: a full channel drops the event.\<close>

definition try_send :: "'e \<Rightarrow> 'e list \<Rightarrow> 'e list" where
  "try_send ev ch = (if length ch < subscriberBuffer then ch @ [ev] else ch)"

definition Publish :: "'e \<Rightarrow> 'e stats_hub \<Rightarrow> 'e stats_hub" where
  "Publish ev h =
     h\<lparr>sh_chan := (\<lambda>s. if s \<in> set (sh_subs h) then try_send ev (sh_chan h s) else sh_chan h s)\<rparr>"

text \<open>The subscriber's side of the channel: receive the oldest event, if any.\<close>

definition sh_receive :: "nat \<Rightarrow> 'e stats_hub \<Rightarrow> 'e stats_hub \<times> 'e option" where
  "sh_receive sub h =
     (case sh_chan h sub of
        [] \<Rightarrow> (h, None)
      | ev # rest \<Rightarrow> (h\<lparr>sh_chan := (sh_chan h)(sub := rest)\<rparr>, Some ev))"

text \<open>
  \<open>Run\<close>: the interval it uses, and its loop over what the \<open>select\<close> sees, ticks until the
  context is done. The loop is driven by the sequence of wake-ups.
\<close>

definition run_interval :: "duration \<Rightarrow> duration" where
  "run_interval interval = (if interval \<le> 0 then 30 * second else interval)"

fun sh_Run :: "'e \<Rightarrow> bool list \<Rightarrow> 'e stats_hub \<Rightarrow> 'e stats_hub" where
  "sh_Run tick [] h = h"
| "sh_Run tick (done # wakes) h = (if done then h else sh_Run tick wakes (Publish tick h))"

section \<open>Runs\<close>

datatype 'e hub_op = Sub | Cancel nat | Pub 'e | Recv nat

fun hub_step :: "'e hub_op \<Rightarrow> 'e stats_hub \<Rightarrow> 'e stats_hub" where
  "hub_step Sub h = fst (Subscribe h)"
| "hub_step (Cancel s) h = sh_cancel s h"
| "hub_step (Pub ev) h = Publish ev h"
| "hub_step (Recv s) h = fst (sh_receive s h)"

text \<open>What subscriber \<open>s\<close> reads during a run, and what is published in it.\<close>

fun received :: "nat \<Rightarrow> 'e hub_op list \<Rightarrow> 'e stats_hub \<Rightarrow> 'e list" where
  "received s [] h = []"
| "received s (op # ops) h =
     (case op of Recv t \<Rightarrow> (if t = s then (case sh_chan h s of [] \<Rightarrow> [] | ev # _ \<Rightarrow> [ev]) else []) | _ \<Rightarrow> [])
     @ received s ops (hub_step op h)"

fun published :: "'e hub_op list \<Rightarrow> 'e list" where
  "published [] = []"
| "published (op # ops) = (case op of Pub ev \<Rightarrow> [ev] | _ \<Rightarrow> []) @ published ops"

definition hub_inv :: "'e stats_hub \<Rightarrow> bool" where
  "hub_inv h \<longleftrightarrow> distinct (sh_subs h) \<and> (\<forall>s \<in> set (sh_subs h). s < sh_next h) \<and>
     (\<forall>s. length (sh_chan h s) \<le> subscriberBuffer)"

lemma hub_inv_New [simp]: "hub_inv sh_New"
  by (simp add: hub_inv_def sh_New_def)

lemma hub_inv_step: "hub_inv h \<Longrightarrow> hub_inv (hub_step op h)"
proof (cases op)
  case (Recv t)
  assume i: "hub_inv h"
  then have "length (sh_chan h t) \<le> subscriberBuffer" by (simp add: hub_inv_def)
  then have "length rest \<le> subscriberBuffer" if "sh_chan h t = ev # rest" for ev rest
    using that by simp
  with Recv i show ?thesis by (auto simp: hub_inv_def sh_receive_def split: list.splits)
qed (auto simp: hub_inv_def Subscribe_def Let_def sh_cancel_def Publish_def try_send_def less_Suc_eq)

lemma hub_inv_run: "hub_inv h \<Longrightarrow> hub_inv (fold hub_step ops h)"
  by (induction ops arbitrary: h) (auto simp: hub_inv_step)

text \<open>Subscribers see a subsequence of the published events, in order.\<close>

lemma received_subseq:
  assumes "s < sh_next h"
  shows "subseq (received s ops h @ sh_chan (fold hub_step ops h) s) (sh_chan h s @ published ops)"
  using assms
proof (induction ops arbitrary: h)
  case (Cons op ops)
  have n: "s < sh_next (hub_step op h)" using Cons.prems
    by (cases op) (auto simp: Subscribe_def Let_def sh_cancel_def Publish_def sh_receive_def split: list.splits)
  note IH = Cons.IH [OF n]
  show ?case
  proof (cases op)
    case Sub
    have "sh_chan (hub_step op h) s = sh_chan h s" using Sub Cons.prems by (simp add: Subscribe_def Let_def)
    with IH Sub show ?thesis by simp
  next
    case (Cancel t)
    with IH show ?thesis by (simp add: sh_cancel_def)
  next
    case (Pub ev)
    have "subseq (sh_chan (hub_step op h) s) (sh_chan h s @ [ev])"
      using Pub by (auto simp: Publish_def try_send_def)
    then have "subseq (sh_chan (hub_step op h) s @ published ops) ((sh_chan h s @ [ev]) @ published ops)"
      by (intro list_emb_append_mono) auto
    with IH Pub show ?thesis by (auto intro: subseq_order.trans)
  next
    case (Recv t)
    with IH show ?thesis by (auto simp: sh_receive_def split: list.splits)
  qed
qed simp

text \<open>A live subscriber that never falls a full buffer behind loses nothing.\<close>

fun keeps_up :: "nat \<Rightarrow> 'e hub_op list \<Rightarrow> 'e stats_hub \<Rightarrow> bool" where
  "keeps_up s [] h = True"
| "keeps_up s (op # ops) h =
     ((case op of Pub _ \<Rightarrow> length (sh_chan h s) < subscriberBuffer | Cancel t \<Rightarrow> t \<noteq> s | _ \<Rightarrow> True)
      \<and> keeps_up s ops (hub_step op h))"

lemma received_all:
  assumes "s \<in> set (sh_subs h)" "hub_inv h" "keeps_up s ops h"
  shows "received s ops h @ sh_chan (fold hub_step ops h) s = sh_chan h s @ published ops"
  using assms
proof (induction ops arbitrary: h)
  case (Cons op ops)
  have s: "s \<in> set (sh_subs (hub_step op h))" using Cons.prems
    by (cases op) (auto simp: Subscribe_def Let_def sh_cancel_def Publish_def sh_receive_def split: list.splits)
  have k: "keeps_up s ops (hub_step op h)" using Cons.prems(3) by simp
  note IH = Cons.IH [OF s hub_inv_step [OF Cons.prems(2)] k]
  show ?case
  proof (cases op)
    case Sub
    have "s < sh_next h" using Cons.prems by (auto simp: hub_inv_def)
    then have "sh_chan (hub_step op h) s = sh_chan h s" using Sub by (simp add: Subscribe_def Let_def)
    with IH Sub show ?thesis by simp
  next
    case (Cancel t)
    with IH show ?thesis by (simp add: sh_cancel_def)
  next
    case (Pub ev)
    with IH Cons.prems show ?thesis by (simp add: Publish_def try_send_def)
  next
    case (Recv t)
    with IH show ?thesis by (auto simp: sh_receive_def split: list.splits)
  qed
qed simp

lemma cancel_silent:
  assumes "s \<notin> set (sh_subs h)"
  shows "sh_chan (Publish ev h) s = sh_chan h s"
  using assms by (simp add: Publish_def)

section \<open>Properties\<close>

text \<open>For every run of the hub from empty, no subscriber's channel ever holds more than its buffer,
  and what a subscriber has read so far followed by what waits in its channel is a subsequence of
  what was published: events are dropped, never reordered, duplicated or invented.\<close>

theorem subscriber_sees_a_bounded_subsequence:
  assumes "s < sh_next (fold hub_step ops0 sh_New)"
  shows "subseq (received s ops (fold hub_step ops0 sh_New) @ sh_chan (fold hub_step (ops0 @ ops) sh_New) s)
      (sh_chan (fold hub_step ops0 sh_New) s @ published ops) \<and>
    length (sh_chan (fold hub_step (ops0 @ ops) sh_New) s) \<le> subscriberBuffer"
  using received_subseq [OF assms, of ops] hub_inv_run [OF hub_inv_New, of "ops0 @ ops"]
  by (simp add: hub_inv_def)

theorem subscriber_sees_a_bounded_subsequence_witness:
  "subseq (received 0 [Pub 1, Pub 2, Recv 0] (fold hub_step [Sub] sh_New)
      @ sh_chan (fold hub_step ([Sub] @ [Pub (1 :: int), Pub 2, Recv 0]) sh_New) 0)
    (sh_chan (fold hub_step [Sub] sh_New) 0 @ published [Pub 1, Pub 2, Recv 0])"
proof -
  have "0 < sh_next (fold hub_step [Sub :: int hub_op] sh_New)" by (simp add: Subscribe_def sh_New_def)
  from subscriber_sees_a_bounded_subsequence [OF this] show ?thesis by blast
qed

text \<open>A subscriber that stays subscribed and never lets its buffer fill up at a publication receives
  every event, in order.\<close>

theorem prompt_subscriber_misses_nothing:
  assumes "s \<in> set (sh_subs h)" and "hub_inv h" and "keeps_up s ops h"
  shows "received s ops h @ sh_chan (fold hub_step ops h) s = sh_chan h s @ published ops"
  using assms by (rule received_all)

theorem prompt_subscriber_misses_nothing_witness:
  "received 0 [Pub (1 :: int), Pub 2, Recv 0] (fst (Subscribe sh_New))
     @ sh_chan (fold hub_step [Pub (1 :: int), Pub 2, Recv 0] (fst (Subscribe sh_New))) 0 = [1, 2]"
proof -
  let ?h = "fst (Subscribe sh_New) :: int stats_hub"
  have h: "0 \<in> set (sh_subs ?h)" "hub_inv ?h" "sh_chan ?h 0 = []"
    using hub_inv_step [OF hub_inv_New, of Sub] by (simp_all add: Subscribe_def sh_New_def)
  have "keeps_up 0 [Pub 1, Pub 2, Recv 0] ?h"
    by (simp add: Subscribe_def sh_New_def Publish_def try_send_def subscriberBuffer_def)
  from prompt_subscriber_misses_nothing [OF h(1,2) this] h(3) show ?thesis
    by (simp del: received.simps fold_simps hub_step.simps)
qed

end
