(* ===== verification/Updater_Client.thy ===== *)
theory Updater_Client
  imports Updater_Identity Stats_Hub
begin

text \<open>
  The storage half of \<open>internal/updaterclient/updaterclient.go\<close> with the rows of
  \<open>internal/models/updater_stat.go\<close>: the \<open>updater_clients\<close> upsert, \<open>updater_events\<close> and the
  hourly rollup, and \<open>RecordEvent\<close>.

  The tables are lists of rows. The columns of the two unique keys are compared under the
  table's collation, so every statement that compares them takes the collation's key
  function \<open>ck\<close>. A statement that would break a unique key or the foreign key fails and
  changes nothing. Deleting a client cascades to its events, as the schema says.
\<close>

section \<open>Tables\<close>

record client_row =
  cl_id :: int
  cl_hwid :: "string ptr"
  cl_hostname :: string
  cl_ad_domain :: string
  cl_logged_user :: "string ptr"
  cl_logged_user_state :: "string ptr"
  cl_logged_user_disconnected_at :: "gotime ptr"
  cl_serial :: "string ptr"
  cl_product :: "string ptr"
  cl_os_version :: "string ptr"
  cl_updater_version :: "string ptr"
  cl_emly_version :: "string ptr"
  cl_config_revision :: "int ptr"
  cl_config_fetched_at :: "gotime ptr"
  cl_contact :: "string ptr"
  cl_last_ip :: "string ptr"
  cl_first_seen_at :: gotime
  cl_last_seen_at :: gotime

record event_row =
  ev_id :: int
  ev_client_id :: int
  ev_event_type :: string
  ev_product :: string
  ev_version :: "string ptr"
  ev_ip_address :: "string ptr"
  ev_created_at :: gotime

type_synonym rollup_key = "gotime \<times> string \<times> string"

record updater_db =
  u_clients :: "client_row list"
  u_nextClient :: int
  u_events :: "event_row list"
  u_nextEvent :: int
  u_hourly :: "(rollup_key \<times> int) list"

definition empty_updater_db :: updater_db where
  "empty_updater_db = \<lparr>u_clients = [], u_nextClient = 1, u_events = [], u_nextEvent = 1, u_hourly = []\<rparr>"

type_synonym collation = "string \<Rightarrow> string"

definition hwid_is :: "collation \<Rightarrow> string \<Rightarrow> client_row \<Rightarrow> bool" where
  "hwid_is ck h c = (case cl_hwid c of None \<Rightarrow> False | Some x \<Rightarrow> ck x = ck h)"

definition host_is :: "collation \<Rightarrow> string \<Rightarrow> string \<Rightarrow> client_row \<Rightarrow> bool" where
  "host_is ck hostname adDomain c = (ck (cl_hostname c) = ck hostname \<and> ck (cl_ad_domain c) = ck adDomain)"

text \<open>Two rows that violate \<open>uniq_hwid\<close> or \<open>uniq_client\<close>.\<close>

definition client_clash :: "collation \<Rightarrow> client_row \<Rightarrow> client_row \<Rightarrow> bool" where
  "client_clash ck a b =
     (host_is ck (cl_hostname a) (cl_ad_domain a) b \<or>
      (case cl_hwid a of None \<Rightarrow> False | Some h \<Rightarrow> hwid_is ck h b))"

definition uniq_clients :: "collation \<Rightarrow> client_row list \<Rightarrow> bool" where
  "uniq_clients ck rows =
     (\<forall>a \<in> set rows. \<forall>b \<in> set rows. cl_id a \<noteq> cl_id b \<longrightarrow> \<not> client_clash ck a b)"

definition lookup_client :: "(client_row \<Rightarrow> bool) \<Rightarrow> updater_db \<Rightarrow> int option" where
  "lookup_client P db = map_option cl_id (find P (u_clients db))"

definition delete_clients :: "(client_row \<Rightarrow> bool) \<Rightarrow> updater_db \<Rightarrow> updater_db" where
  "delete_clients P db =
     (let gone = map cl_id (filter P (u_clients db))
      in db\<lparr>u_clients := filter (\<lambda>c. \<not> P c) (u_clients db),
            u_events := filter (\<lambda>e. ev_client_id e \<notin> set gone) (u_events db)\<rparr>)"

definition update_client :: "collation \<Rightarrow> int \<Rightarrow> (client_row \<Rightarrow> client_row) \<Rightarrow> updater_db \<Rightarrow> updater_db option" where
  "update_client ck i g db =
     (let rows = map (\<lambda>c. if cl_id c = i then g c else c) (u_clients db)
      in if uniq_clients ck rows then Some (db\<lparr>u_clients := rows\<rparr>) else None)"

definition insert_client :: "collation \<Rightarrow> client_row \<Rightarrow> updater_db \<Rightarrow> updater_db option" where
  "insert_client ck row db =
     (if list_ex (client_clash ck row) (u_clients db) then None
      else Some (db\<lparr>u_clients := u_clients db @ [row], u_nextClient := u_nextClient db + 1\<rparr>))"

section \<open>Upsert\<close>

text \<open>\<open>COALESCE(NULLIF(?, ''), column)\<close>; the comparison with \<open>''\<close> is the collation's.\<close>

definition coalesce_nullif :: "collation \<Rightarrow> string \<Rightarrow> string ptr \<Rightarrow> string ptr" where
  "coalesce_nullif ck s old = (if ck s = ck [] then old else Some s)"

definition updated_row :: "collation \<Rightarrow> gotime \<Rightarrow> Identity \<Rightarrow> client_row \<Rightarrow> client_row" where
  "updated_row ck now idt c = c\<lparr>
     cl_hwid := coalesce_nullif ck (HWID idt) (cl_hwid c),
     cl_hostname := Hostname idt,
     cl_ad_domain := ADDomain idt,
     cl_logged_user := (if NobodyLoggedOn idt then None
                        else coalesce_nullif ck (LoggedUser idt) (cl_logged_user c)),
     cl_logged_user_disconnected_at :=
       (if NobodyLoggedOn idt \<or> ck (LoggedUserState idt) \<noteq> ck []
        then NullTime (LoggedUserDisconnectedAt idt) else cl_logged_user_disconnected_at c),
     cl_logged_user_state := (if NobodyLoggedOn idt then None
                              else coalesce_nullif ck (LoggedUserState idt) (cl_logged_user_state c)),
     cl_serial := coalesce_nullif ck (Serial idt) (cl_serial c),
     cl_product := coalesce_nullif ck (Product idt) (cl_product c),
     cl_os_version := coalesce_nullif ck (OSVersion idt) (cl_os_version c),
     cl_emly_version := coalesce_nullif ck (EMLyVersion idt) (cl_emly_version c),
     cl_updater_version := NullString (UAVersion idt),
     cl_contact := NullString (Contact idt),
     cl_last_ip := NullString (IP idt),
     cl_last_seen_at := now\<rparr>"

definition fresh_row :: "int \<Rightarrow> gotime \<Rightarrow> Identity \<Rightarrow> client_row" where
  "fresh_row i now idt =
     \<lparr>cl_id = i, cl_hwid = NullString (HWID idt), cl_hostname = Hostname idt, cl_ad_domain = ADDomain idt,
      cl_logged_user = NullString (LoggedUser idt), cl_logged_user_state = NullString (LoggedUserState idt),
      cl_logged_user_disconnected_at = NullTime (LoggedUserDisconnectedAt idt),
      cl_serial = NullString (Serial idt), cl_product = NullString (Product idt),
      cl_os_version = NullString (OSVersion idt), cl_updater_version = NullString (UAVersion idt),
      cl_emly_version = NullString (EMLyVersion idt), cl_config_revision = None, cl_config_fetched_at = None,
      cl_contact = NullString (Contact idt), cl_last_ip = NullString (IP idt),
      cl_first_seen_at = now, cl_last_seen_at = now\<rparr>"

text \<open>Step 1: the target row, by hwid if given, else by hostname and domain. Statements 0 and 1.\<close>

definition upsert_target :: "collation \<Rightarrow> faults \<Rightarrow> updater_db \<Rightarrow> Identity \<Rightarrow> int option option" where
  "upsert_target ck f db idt =
     (if HWID idt \<noteq> [] \<and> f 0 then None
      else case (if HWID idt \<noteq> [] then lookup_client (hwid_is ck (HWID idt)) db else None) of
        Some i \<Rightarrow> Some (Some i)
      | None \<Rightarrow>
          if Hostname idt = [] then Some None
          else if f 1 then None
          else Some (lookup_client (host_is ck (Hostname idt) (ADDomain idt)) db))"

text \<open>Step 2: rows squatting on the pair about to be written. Statement 2.\<close>

definition evict_squatters :: "collation \<Rightarrow> updater_db \<Rightarrow> Identity \<Rightarrow> int option \<Rightarrow> updater_db" where
  "evict_squatters ck db idt target =
     (if Hostname idt = [] then db
      else delete_clients
        (\<lambda>c. host_is ck (Hostname idt) (ADDomain idt) c \<and> target \<noteq> Some (cl_id c)) db)"

text \<open>Step 3 is statement 3. The answer is the row id, None an error.\<close>

definition Upsert :: "collation \<Rightarrow> faults \<Rightarrow> gotime \<Rightarrow> updater_db \<Rightarrow> Identity \<Rightarrow> updater_db \<times> int option" where
  "Upsert ck f now db idt =
     (case upsert_target ck f db idt of
        None \<Rightarrow> (db, None)
      | Some target \<Rightarrow>
          if Hostname idt \<noteq> [] \<and> f 2 then (db, None)
          else let db1 = evict_squatters ck db idt target
               in if f 3 then (db1, None)
                  else case target of
                    Some i \<Rightarrow>
                      (case update_client ck i (updated_row ck now idt) db1 of
                         None \<Rightarrow> (db1, None) | Some db2 \<Rightarrow> (db2, Some i))
                  | None \<Rightarrow>
                      (case insert_client ck (fresh_row (u_nextClient db1) now idt) db1 of
                         None \<Rightarrow> (db1, None) | Some db2 \<Rightarrow> (db2, Some (u_nextClient db1))))"

section \<open>Events\<close>

definition hour_bucket :: "gotime \<Rightarrow> gotime" where
  "hour_bucket t = t - t mod hour"

definition rollup_key_of :: "event_row \<Rightarrow> rollup_key" where
  "rollup_key_of e = (hour_bucket (ev_created_at e), ev_product e, ev_event_type e)"

fun bump :: "'k \<Rightarrow> ('k \<times> int) list \<Rightarrow> ('k \<times> int) list" where
  "bump k [] = [(k, 1)]"
| "bump k ((a, n) # m) = (if a = k then (a, n + 1) # m else (a, n) # bump k m)"

definition hourly_count :: "updater_db \<Rightarrow> rollup_key \<Rightarrow> int" where
  "hourly_count db k = (case map_of (u_hourly db) k of None \<Rightarrow> 0 | Some n \<Rightarrow> n)"

text \<open>
  One transaction of statements 0 (begin), 1 (insert), 2 (rollup) and 3 (commit). A rolled
  back insert still consumes its auto-increment value.
\<close>

definition insertEvent ::
  "faults \<Rightarrow> gotime \<Rightarrow> updater_db \<Rightarrow> int \<Rightarrow> string \<Rightarrow> string \<Rightarrow> string ptr \<Rightarrow> string ptr \<Rightarrow> updater_db \<times> int option" where
  "insertEvent f now db clientID eventType product version ip =
     (if f 0 then (db, None)
      else if f 1 \<or> clientID \<notin> set (map cl_id (u_clients db)) then (db, None)
      else let e = \<lparr>ev_id = u_nextEvent db, ev_client_id = clientID, ev_event_type = eventType,
                    ev_product = product, ev_version = version, ev_ip_address = ip, ev_created_at = now\<rparr>;
               burnt = db\<lparr>u_nextEvent := u_nextEvent db + 1\<rparr>
           in if f 2 \<or> f 3 then (burnt, None)
              else (burnt\<lparr>u_events := u_events db @ [e], u_hourly := bump (rollup_key_of e) (u_hourly db)\<rparr>,
                    Some (ev_id e)))"

datatype hub_event = HubUpdaterEvent client_row event_row | HubTick

definition shift_faults :: "nat \<Rightarrow> faults \<Rightarrow> faults" where
  "shift_faults n f i = f (n + i)"

definition RecordEvent ::
  "collation \<Rightarrow> faults \<Rightarrow> gotime \<Rightarrow> updater_db \<Rightarrow> hub_event stats_hub ptr \<Rightarrow> request \<Rightarrow>
     string \<Rightarrow> string \<Rightarrow> string \<Rightarrow> updater_db \<times> hub_event stats_hub ptr" where
  "RecordEvent ck f now db hub r eventType product version =
     (let idt = IdentityFromRequest r
      in if \<not> Identified idt then (db, hub)
         else case Upsert ck f now db idt of
           (db1, None) \<Rightarrow> (db1, hub)
         | (db1, Some clientID) \<Rightarrow>
             (case insertEvent (shift_faults 4 f) now db1 clientID eventType product
                     (NullString version) (NullString (IP idt)) of
                (db2, None) \<Rightarrow> (db2, hub)
              | (db2, Some eventID) \<Rightarrow>
                  (case hub of
                     None \<Rightarrow> (db2, hub)
                   | Some h \<Rightarrow>
                       if \<not> Active h \<or> f 8 then (db2, hub)
                       else case find (\<lambda>c. cl_id c = clientID) (u_clients db2) of
                         None \<Rightarrow> (db2, hub)
                       | Some client \<Rightarrow>
                           (db2, Some (Publish (HubUpdaterEvent client
                              \<lparr>ev_id = eventID, ev_client_id = clientID, ev_event_type = eventType,
                               ev_product = product, ev_version = NullString version,
                               ev_ip_address = NullString (IP idt), ev_created_at = now\<rparr>) h)))))"

section \<open>The table invariant\<close>

definition updater_db_ok :: "collation \<Rightarrow> updater_db \<Rightarrow> bool" where
  "updater_db_ok ck db \<longleftrightarrow> distinct (map cl_id (u_clients db)) \<and>
     (\<forall>c \<in> set (u_clients db). cl_id c < u_nextClient db) \<and> uniq_clients ck (u_clients db)"

lemma host_is_sym: "host_is ck (cl_hostname a) (cl_ad_domain a) b = host_is ck (cl_hostname b) (cl_ad_domain b) a"
  by (auto simp: host_is_def)

lemma client_clash_sym: "client_clash ck a b = client_clash ck b a"
  by (auto simp: client_clash_def host_is_def hwid_is_def split: option.splits)

lemma lookup_client_Some:
  "lookup_client P db = Some i \<Longrightarrow> \<exists>c \<in> set (u_clients db). cl_id c = i \<and> P c"
  by (auto simp: lookup_client_def find_Some_iff)

lemma lookup_client_None: "lookup_client P db = None \<longleftrightarrow> (\<forall>c \<in> set (u_clients db). \<not> P c)"
  by (auto simp: lookup_client_def find_None_iff)

lemma delete_clients_ok: "updater_db_ok ck db \<Longrightarrow> updater_db_ok ck (delete_clients P db)"
  by (auto simp: updater_db_ok_def delete_clients_def Let_def uniq_clients_def intro: distinct_map_filter)

lemma evict_squatters_ok: "updater_db_ok ck db \<Longrightarrow> updater_db_ok ck (evict_squatters ck db idt t)"
  by (simp add: evict_squatters_def delete_clients_ok)

lemma update_client_ok:
  assumes "updater_db_ok ck db" "update_client ck i g db = Some db'" "\<And>c. cl_id (g c) = cl_id c"
  shows "updater_db_ok ck db'"
proof -
  have "map cl_id (map (\<lambda>c. if cl_id c = i then g c else c) (u_clients db)) = map cl_id (u_clients db)"
    using assms(3) by auto
  then have "map cl_id (u_clients db') = map cl_id (u_clients db)" "u_nextClient db' = u_nextClient db"
    "uniq_clients ck (u_clients db')"
    using assms(2) by (auto simp: update_client_def Let_def split: if_splits)
  moreover have "\<forall>c \<in> set (u_clients db'). cl_id c < u_nextClient db'"
  proof -
    have "\<forall>i \<in> set (map cl_id (u_clients db)). i < u_nextClient db"
      using assms(1) by (simp add: updater_db_ok_def)
    with calculation(1,2) have "\<forall>i \<in> set (map cl_id (u_clients db')). i < u_nextClient db'" by metis
    then show ?thesis by simp
  qed
  ultimately show ?thesis using assms(1) by (simp add: updater_db_ok_def)
qed

lemma insert_client_ok:
  assumes "updater_db_ok ck db" "insert_client ck row db = Some db'" "cl_id row = u_nextClient db"
  shows "updater_db_ok ck db'"
proof -
  have db': "db' = db\<lparr>u_clients := u_clients db @ [row], u_nextClient := u_nextClient db + 1\<rparr>"
    and "\<forall>c \<in> set (u_clients db). \<not> client_clash ck row c"
    using assms(2) by (auto simp: insert_client_def list_ex_iff split: if_splits)
  moreover from this have "\<forall>c \<in> set (u_clients db). \<not> client_clash ck c row"
    by (metis client_clash_sym)
  moreover have "\<forall>c \<in> set (u_clients db). cl_id c < u_nextClient db" "distinct (map cl_id (u_clients db))"
    "uniq_clients ck (u_clients db)"
    using assms(1) by (simp_all add: updater_db_ok_def)
  ultimately show ?thesis
    unfolding updater_db_ok_def uniq_clients_def db' using assms(3) by fastforce
qed

lemma cl_id_updated_row [simp]: "cl_id (updated_row ck now idt c) = cl_id c"
  by (simp add: updated_row_def)

lemma cl_id_fresh_row [simp]: "cl_id (fresh_row i now idt) = i"
  by (simp add: fresh_row_def)

lemma Upsert_ok:
  assumes "updater_db_ok ck db"
  shows "updater_db_ok ck (fst (Upsert ck f now db idt))"
proof (cases "upsert_target ck f db idt")
  case None
  then show ?thesis using assms by (simp add: Upsert_def)
next
  case (Some t)
  let ?d = "evict_squatters ck db idt t"
  have d: "updater_db_ok ck ?d" using assms by (rule evict_squatters_ok)
  have u: "updater_db_ok ck d2" if "update_client ck i (updated_row ck now idt) ?d = Some d2" for i d2
    using update_client_ok [OF d that] by simp
  have n: "updater_db_ok ck d2" if "insert_client ck (fresh_row (u_nextClient ?d) now idt) ?d = Some d2" for d2
    using insert_client_ok [OF d that] by simp
  show ?thesis using Some assms d u n by (auto simp: Upsert_def Let_def split: option.splits)
qed

section \<open>An identified client is always recorded\<close>

text \<open>
  After step 2 the row can be written without a collision, provided a hostname was given:
  the promise of the comment above \<open>Upsert\<close>.
\<close>

lemma uniq_update:
  assumes u: "uniq_clients ck rows" and d: "distinct (map cl_id rows)" and c0: "c0 \<in> set rows" "cl_id c0 = i"
    and g: "\<And>c. cl_id (g c) = cl_id c"
    and nc: "\<And>c. c \<in> set rows \<Longrightarrow> cl_id c \<noteq> i \<Longrightarrow> \<not> client_clash ck (g c0) c"
  shows "uniq_clients ck (map (\<lambda>c. if cl_id c = i then g c else c) rows)"
proof -
  have one: "c = c0" if "c \<in> set rows" "cl_id c = i" for c
    using d c0 that by (metis distinct_map inj_onD)
  have "\<not> client_clash ck (if cl_id a = i then g a else a) (if cl_id b = i then g b else b)"
    if ab: "a \<in> set rows" "b \<in> set rows" "cl_id a \<noteq> cl_id b" for a b
  proof -
    consider "cl_id a = i" "cl_id b \<noteq> i" | "cl_id b = i" "cl_id a \<noteq> i" | "cl_id a \<noteq> i" "cl_id b \<noteq> i"
      using ab(3) by auto
    then show ?thesis
    proof cases
      case 1
      with ab one [of a] nc [of b] show ?thesis by simp
    next
      case 2
      with ab one [of b] nc [of a] show ?thesis by (simp add: client_clash_sym)
    next
      case 3
      with ab u show ?thesis by (simp add: uniq_clients_def)
    qed
  qed
  note nc' = this
  show ?thesis unfolding uniq_clients_def
  proof (intro ballI impI)
    fix x y
    assume "x \<in> set (map (\<lambda>c. if cl_id c = i then g c else c) rows)"
      "y \<in> set (map (\<lambda>c. if cl_id c = i then g c else c) rows)" and ne: "cl_id x \<noteq> cl_id y"
    then obtain a b where ab: "a \<in> set rows" "b \<in> set rows" "x = (if cl_id a = i then g a else a)"
      "y = (if cl_id b = i then g b else b)" unfolding set_map image_iff by blast
    with ne g have "cl_id a \<noteq> cl_id b" by (simp split: if_splits)
    with nc' ab show "\<not> client_clash ck x y" by blast
  qed
qed

lemma evicted_no_host:
  assumes "Hostname idt \<noteq> []" "c \<in> set (u_clients (evict_squatters ck db idt t))" "t \<noteq> Some (cl_id c)"
  shows "\<not> host_is ck (Hostname idt) (ADDomain idt) c"
  using assms by (auto simp: evict_squatters_def delete_clients_def Let_def)

lemma evict_subset: "set (u_clients (evict_squatters ck db idt t)) \<subseteq> set (u_clients db)"
  by (auto simp: evict_squatters_def delete_clients_def Let_def)

lemma evict_keeps_target:
  "c \<in> set (u_clients db) \<Longrightarrow> t = Some (cl_id c) \<Longrightarrow> c \<in> set (u_clients (evict_squatters ck db idt t))"
  by (auto simp: evict_squatters_def delete_clients_def Let_def)

lemma upsert_target_Some:
  assumes "upsert_target ck f db idt = Some t" "Hostname idt \<noteq> []"
  shows "case t of
      None \<Rightarrow> \<forall>c \<in> set (u_clients db). HWID idt \<noteq> [] \<longrightarrow> \<not> hwid_is ck (HWID idt) c
    | Some i \<Rightarrow> \<exists>c \<in> set (u_clients db). cl_id c = i \<and>
        (HWID idt \<noteq> [] \<longrightarrow> hwid_is ck (HWID idt) c \<or> (\<forall>c \<in> set (u_clients db). \<not> hwid_is ck (HWID idt) c))"
proof (cases "HWID idt \<noteq> [] \<and> lookup_client (hwid_is ck (HWID idt)) db \<noteq> None")
  case True
  then obtain i where i: "lookup_client (hwid_is ck (HWID idt)) db = Some i" by auto
  with assms True have "t = Some i" by (auto simp: upsert_target_def split: if_splits)
  with lookup_client_Some [OF i] show ?thesis by auto
next
  case False
  then have nh: "\<forall>c \<in> set (u_clients db). HWID idt \<noteq> [] \<longrightarrow> \<not> hwid_is ck (HWID idt) c"
    using lookup_client_None by blast
  have t: "t = lookup_client (host_is ck (Hostname idt) (ADDomain idt)) db"
    using assms False by (auto simp: upsert_target_def split: if_splits)
  show ?thesis
  proof (cases t)
    case None
    with nh show ?thesis by simp
  next
    case (Some i)
    with t lookup_client_Some have "\<exists>c \<in> set (u_clients db). cl_id c = i" by metis
    with nh Some show ?thesis by auto
  qed
qed

lemma clash_updated:
  assumes "\<not> host_is ck (Hostname idt) (ADDomain idt) c"
    and "ck (HWID idt) \<noteq> ck [] \<Longrightarrow> \<not> hwid_is ck (HWID idt) c"
    and "ck (HWID idt) = ck [] \<Longrightarrow> (case cl_hwid c0 of None \<Rightarrow> True | Some h \<Rightarrow> \<not> hwid_is ck h c)"
  shows "\<not> client_clash ck (updated_row ck now idt c0) c"
  using assms by (auto simp: client_clash_def updated_row_def coalesce_nullif_def split: option.splits)

lemma Upsert_total:
  assumes ok: "updater_db_ok ck db" and h: "Hostname idt \<noteq> []"
  shows "\<exists>db' i. Upsert ck no_faults now db idt = (db', Some i)"
proof -
  have "upsert_target ck no_faults db idt \<noteq> None"
    by (simp add: upsert_target_def split: option.splits)
  then obtain t where t: "upsert_target ck no_faults db idt = Some t" by blast
  note ts = upsert_target_Some [OF t h]
  let ?d = "evict_squatters ck db idt t"
  have dok: "updater_db_ok ck ?d" using ok by (rule evict_squatters_ok)
  show ?thesis
  proof (cases t)
    case None
    have "\<not> client_clash ck (fresh_row n now idt) c" if "c \<in> set (u_clients ?d)" for n c
    proof -
      have "\<not> host_is ck (Hostname idt) (ADDomain idt) c" using evicted_no_host [OF h that] None by simp
      moreover have "HWID idt \<noteq> [] \<longrightarrow> \<not> hwid_is ck (HWID idt) c" using ts None that evict_subset [of ck db idt t] by auto
      ultimately show ?thesis by (auto simp: client_clash_def fresh_row_def NullString_def split: option.splits)
    qed
    then have "insert_client ck (fresh_row (u_nextClient ?d) now idt) ?d \<noteq> None"
      by (auto simp: insert_client_def list_ex_iff)
    with t None show ?thesis by (auto simp: Upsert_def Let_def)
  next
    case (Some i)
    then obtain c0 where c0: "c0 \<in> set (u_clients db)" "cl_id c0 = i"
      and hw: "HWID idt \<noteq> [] \<longrightarrow> hwid_is ck (HWID idt) c0 \<or> (\<forall>c \<in> set (u_clients db). \<not> hwid_is ck (HWID idt) c)"
      using ts by auto
    have c0d: "c0 \<in> set (u_clients ?d)" using evict_keeps_target [OF c0(1)] Some c0(2) by simp
    have "\<not> client_clash ck (updated_row ck now idt c0) c" if c: "c \<in> set (u_clients ?d)" "cl_id c \<noteq> i" for c
    proof (rule clash_updated)
      show "\<not> host_is ck (Hostname idt) (ADDomain idt) c" using evicted_no_host [OF h c(1)] Some c(2) by auto
      have nc: "\<not> client_clash ck c0 c" using dok c0d c c0(2) by (auto simp: updater_db_ok_def uniq_clients_def)
      then show "case cl_hwid c0 of None \<Rightarrow> True | Some h \<Rightarrow> \<not> hwid_is ck h c"
        by (auto simp: client_clash_def split: option.splits)
      assume "ck (HWID idt) \<noteq> ck []"
      then have "HWID idt \<noteq> []" by auto
      with hw nc evict_subset [of ck db idt t] c(1) show "\<not> hwid_is ck (HWID idt) c"
        by (auto simp: client_clash_def hwid_is_def split: option.splits)
    qed
    then have "uniq_clients ck (map (\<lambda>c. if cl_id c = i then updated_row ck now idt c else c) (u_clients ?d))"
      using dok c0d c0(2) by (intro uniq_update [of _ _ c0]) (auto simp: updater_db_ok_def)
    then have "update_client ck i (updated_row ck now idt) ?d \<noteq> None"
      by (simp add: update_client_def Let_def)
    with t Some show ?thesis by (auto simp: Upsert_def Let_def)
  qed
qed

section \<open>What a recorded row holds\<close>

lemma Upsert_row:
  assumes "Upsert ck f now db idt = (db', Some i)"
  shows "(\<exists>c \<in> set (u_clients db). cl_id c = i \<and> updated_row ck now idt c \<in> set (u_clients db'))
    \<or> (i = u_nextClient db \<and> fresh_row i now idt \<in> set (u_clients db'))"
proof -
  obtain t where t: "upsert_target ck f db idt = Some t"
    using assms by (auto simp: Upsert_def split: option.splits)
  let ?d = "evict_squatters ck db idt t"
  have n: "u_nextClient ?d = u_nextClient db" by (simp add: evict_squatters_def delete_clients_def Let_def)
  show ?thesis
  proof (cases t)
    case None
    with assms t n show ?thesis
      by (auto simp: Upsert_def Let_def insert_client_def split: if_splits option.splits)
  next
    case (Some j)
    with assms t have j: "j = i" and up: "update_client ck i (updated_row ck now idt) ?d = Some db'"
      by (auto simp: Upsert_def Let_def split: if_splits option.splits)
    have "\<exists>c \<in> set (u_clients db). cl_id c = i"
      using t Some j by (auto simp: upsert_target_def split: if_splits option.splits dest!: lookup_client_Some)
    then obtain c where c: "c \<in> set (u_clients db)" "cl_id c = i" by blast
    then have "c \<in> set (u_clients ?d)" using Some j by (intro evict_keeps_target) auto
    with up c show ?thesis by (force simp: update_client_def Let_def split: if_splits)
  qed
qed

section \<open>Events and their rollup\<close>

lemma map_of_bump: "map_of (bump k m) k' =
    (if k' = k then Some (case map_of m k of None \<Rightarrow> 1 | Some n \<Rightarrow> n + 1) else map_of m k')"
  by (induction k m rule: bump.induct) auto

definition raw_count :: "updater_db \<Rightarrow> rollup_key \<Rightarrow> int" where
  "raw_count db k = int (length (filter (\<lambda>e. rollup_key_of e = k) (u_events db)))"

text \<open>
  The rollup never falls behind the raw rows. It may be ahead: deletes do not touch it.
\<close>

definition rollup_ok :: "updater_db \<Rightarrow> bool" where
  "rollup_ok db \<longleftrightarrow> (\<forall>k. raw_count db k \<le> hourly_count db k) \<and>
     (\<forall>e \<in> set (u_events db). ev_client_id e \<in> cl_id ` set (u_clients db)) \<and>
     (\<forall>e \<in> set (u_events db). ev_id e < u_nextEvent db) \<and> distinct (map ev_id (u_events db))"

lemma rollup_ok_empty [simp]: "rollup_ok empty_updater_db"
  by (simp add: rollup_ok_def raw_count_def hourly_count_def empty_updater_db_def)

lemma insertEvent_counts:
  assumes "insertEvent f now db c et p v ip = (db', Some i)"
  shows "hourly_count db' k = hourly_count db k + (if k = (hour_bucket now, p, et) then 1 else 0)"
    "raw_count db' k = raw_count db k + (if k = (hour_bucket now, p, et) then 1 else 0)"
    "u_clients db' = u_clients db" "c \<in> cl_id ` set (u_clients db)"
  using assms
  by (auto simp: insertEvent_def Let_def hourly_count_def raw_count_def map_of_bump rollup_key_of_def
      split: if_splits option.splits)

lemma insertEvent_atomic:
  assumes "insertEvent f now db c et p v ip = (db', None)"
  shows "u_events db' = u_events db \<and> u_hourly db' = u_hourly db \<and> u_clients db' = u_clients db"
  using assms by (auto simp: insertEvent_def Let_def split: if_splits)

lemma insertEvent_rollup_ok:
  assumes ok: "rollup_ok db" and e: "insertEvent f now db c et p v ip = (db', r)"
  shows "rollup_ok db'"
proof (cases r)
  case None
  with insertEvent_atomic [OF e [unfolded None]] ok have
    "(\<forall>k. raw_count db' k \<le> hourly_count db' k) \<and> (\<forall>x \<in> set (u_events db'). ev_client_id x \<in> cl_id ` set (u_clients db'))
      \<and> distinct (map ev_id (u_events db'))"
    by (auto simp: rollup_ok_def raw_count_def hourly_count_def)
  moreover have "u_nextEvent db \<le> u_nextEvent db'"
    using e None by (auto simp: insertEvent_def Let_def split: if_splits)
  ultimately show ?thesis
    using insertEvent_atomic [OF e [unfolded None]] ok by (fastforce simp: rollup_ok_def)
next
  case (Some i)
  note n = insertEvent_counts [OF e [unfolded Some]]
  have "\<forall>k. raw_count db' k \<le> hourly_count db' k" using ok by (simp add: n rollup_ok_def)
  moreover have "u_events db' = u_events db @ [\<lparr>ev_id = u_nextEvent db, ev_client_id = c, ev_event_type = et,
      ev_product = p, ev_version = v, ev_ip_address = ip, ev_created_at = now\<rparr>]"
    "u_nextEvent db' = u_nextEvent db + 1"
    using e Some by (auto simp: insertEvent_def Let_def split: if_splits)
  ultimately show ?thesis using ok n(3,4) by (fastforce simp: rollup_ok_def)
qed

lemma delete_clients_rollup: "rollup_ok db \<Longrightarrow> rollup_ok (delete_clients P db)"
proof -
  assume ok: "rollup_ok db"
  let ?d = "delete_clients P db"
  have "raw_count ?d k \<le> raw_count db k" for k
    by (auto simp: raw_count_def delete_clients_def Let_def intro: length_filter_le
        order_trans [OF _ length_filter_le] simp: filter_filter conj_commute)
       (metis filter_filter length_filter_le conj_commute)
  moreover have "hourly_count ?d = hourly_count db" by (simp add: hourly_count_def delete_clients_def Let_def fun_eq_iff)
  ultimately have "\<forall>k. raw_count ?d k \<le> hourly_count ?d k" using ok by (metis order_trans rollup_ok_def)
  moreover have "\<forall>e \<in> set (u_events ?d). ev_client_id e \<in> cl_id ` set (u_clients ?d)"
  proof
    fix e
    assume e: "e \<in> set (u_events ?d)"
    then obtain c where c: "c \<in> set (u_clients db)" "ev_client_id e = cl_id c"
      using ok by (auto simp: rollup_ok_def delete_clients_def Let_def)
    with e have "\<not> P c" by (auto simp: delete_clients_def Let_def)
    with c show "ev_client_id e \<in> cl_id ` set (u_clients ?d)" by (simp add: delete_clients_def Let_def)
  qed
  moreover have "set (u_events ?d) \<subseteq> set (u_events db)" "u_nextEvent ?d = u_nextEvent db"
    "distinct (map ev_id (u_events ?d))"
    using ok by (auto simp: rollup_ok_def delete_clients_def Let_def distinct_map_filter)
  ultimately show ?thesis using ok by (auto simp: rollup_ok_def)
qed

lemma update_client_rollup:
  "rollup_ok db \<Longrightarrow> update_client ck i g db = Some db' \<Longrightarrow> (\<And>c. cl_id (g c) = cl_id c) \<Longrightarrow> rollup_ok db'"
proof -
  assume ok: "rollup_ok db" and u: "update_client ck i g db = Some db'" and g: "\<And>c. cl_id (g c) = cl_id c"
  have "cl_id ` set (map (\<lambda>c. if cl_id c = i then g c else c) (u_clients db)) = cl_id ` set (u_clients db)"
    unfolding set_map image_image using g by (intro image_cong) auto
  with ok u show ?thesis
    by (auto simp: rollup_ok_def update_client_def Let_def raw_count_def hourly_count_def split: if_splits)
qed

lemma Upsert_rollup:
  assumes "rollup_ok db"
  shows "rollup_ok (fst (Upsert ck f now db idt))"
proof (cases "upsert_target ck f db idt")
  case None
  then show ?thesis using assms by (simp add: Upsert_def)
next
  case (Some t)
  let ?d = "evict_squatters ck db idt t"
  have d: "rollup_ok ?d" using assms by (simp add: evict_squatters_def delete_clients_rollup)
  have u: "rollup_ok d2" if "update_client ck i (updated_row ck now idt) ?d = Some d2" for i d2
    using update_client_rollup [OF d that] by simp
  have n: "rollup_ok d2" if "insert_client ck (fresh_row (u_nextClient ?d) now idt) ?d = Some d2" for d2
    using that d
    by (auto simp: insert_client_def rollup_ok_def raw_count_def hourly_count_def split: if_splits)
  show ?thesis using Some assms d u n by (auto simp: Upsert_def Let_def split: option.splits)
qed

lemma RecordEvent_ok:
  assumes "rollup_ok db" "updater_db_ok ck db"
  shows "rollup_ok (fst (RecordEvent ck f now db hub r et p v)) \<and>
    updater_db_ok ck (fst (RecordEvent ck f now db hub r et p v))"
proof -
  let ?idt = "IdentityFromRequest r"
  obtain d1 o1 where u: "Upsert ck f now db ?idt = (d1, o1)" by fastforce
  have 1: "rollup_ok d1" "updater_db_ok ck d1"
    using Upsert_rollup [OF assms(1), of ck f now ?idt] Upsert_ok [OF assms(2), of f now ?idt] u by simp_all
  have 2: "rollup_ok d2 \<and> updater_db_ok ck d2" if "insertEvent g now d1 c et p w ip = (d2, o2)" for g c w ip d2 o2
  proof -
    have "u_clients d2 = u_clients d1" "u_nextClient d2 = u_nextClient d1"
      using that by (auto simp: insertEvent_def Let_def split: if_splits)
    with insertEvent_rollup_ok [OF 1(1) that] 1(2) show ?thesis by (simp add: updater_db_ok_def)
  qed
  show ?thesis
  proof (cases o1)
    case None
    with u 1 assms show ?thesis by (simp add: RecordEvent_def Let_def)
  next
    case (Some c)
    obtain d2 o2 where i: "insertEvent (shift_faults 4 f) now d1 c et p (NullString v) (NullString (IP ?idt)) = (d2, o2)"
      by fastforce
    have "fst (RecordEvent ck f now db hub r et p v) = (if Identified ?idt then d2 else db)"
      using u Some i by (auto simp: RecordEvent_def Let_def split: option.splits)
    with 2 [OF i] assms show ?thesis by simp
  qed
qed

section \<open>Properties\<close>

definition sample_identity :: Identity where
  "sample_identity = \<lparr>HWID = ''h1'', Hostname = ''pc1'', ADDomain = ''corp'', LoggedUser = [], LoggedUserState = [],
     LoggedUserDisconnectedAt = 0, NobodyLoggedOn = False, Serial = ''s1'', Product = [], OSVersion = [],
     EMLyVersion = [], UAVersion = ''1.7.0'', Contact = [], IP = ''10.0.0.1''\<rparr>"

definition sample_db :: updater_db where
  "sample_db = fst (Upsert ToLower no_faults 7 empty_updater_db sample_identity)"

lemma sample_db_ok: "updater_db_ok ToLower sample_db" "rollup_ok sample_db"
  using Upsert_ok [of ToLower empty_updater_db no_faults 7 sample_identity]
    Upsert_rollup [of empty_updater_db ToLower no_faults 7 sample_identity]
  by (simp_all add: sample_db_def updater_db_ok_def empty_updater_db_def uniq_clients_def
      rollup_ok_empty [unfolded empty_updater_db_def])

text \<open>Whatever the database does, an upsert leaves the client table with distinct row ids and with
  no two rows that share a hardware id or a host name and domain.\<close>

theorem Upsert_keeps_keys_unique:
  assumes "updater_db_ok ck db" and "Upsert ck f now db idt = (db', res)"
  shows "distinct (map cl_id (u_clients db')) \<and>
    (\<forall>a \<in> set (u_clients db'). \<forall>b \<in> set (u_clients db'). cl_id a \<noteq> cl_id b \<longrightarrow> \<not> client_clash ck a b)"
  using Upsert_ok [OF assms(1), of f now idt] assms(2) by (simp add: updater_db_ok_def uniq_clients_def)

theorem Upsert_keeps_keys_unique_witness:
  "distinct (map cl_id (u_clients (fst (Upsert ToLower no_faults 9 sample_db sample_identity))))"
  using Upsert_keeps_keys_unique [OF sample_db_ok(1) surjective_pairing] by blast

lemma Upsert_named:
  assumes "updater_db_ok ck db" and "Hostname idt \<noteq> []"
  shows "\<exists>db' i. Upsert ck no_faults now db idt = (db', Some i) \<and>
    (\<exists>c \<in> set (u_clients db'). cl_id c = i \<and> cl_hostname c = Hostname idt \<and> cl_ad_domain c = ADDomain idt \<and>
       cl_last_seen_at c = now)"
proof -
  obtain db' i where u: "Upsert ck no_faults now db idt = (db', Some i)"
    using Upsert_total [OF assms] by blast
  have "cl_hostname (updated_row ck now idt c) = Hostname idt \<and> cl_ad_domain (updated_row ck now idt c) = ADDomain idt \<and>
      cl_last_seen_at (updated_row ck now idt c) = now" for c by (simp add: updated_row_def)
  moreover have "cl_hostname (fresh_row i now idt) = Hostname idt \<and> cl_ad_domain (fresh_row i now idt) = ADDomain idt \<and>
      cl_last_seen_at (fresh_row i now idt) = now" by (simp add: fresh_row_def)
  ultimately show ?thesis using u Upsert_row [OF u] by (metis cl_id_fresh_row cl_id_updated_row)
qed



text \<open>Without a host name the promise fails. A request that carries only a hardware id is stored
  under the empty host name, and the next such machine hits the unique key and is not recorded.\<close>

theorem Upsert_without_hostname_collides:
  "\<exists>db. updater_db_ok ToLower db \<and>
     snd (Upsert ToLower no_faults 9 db (sample_identity\<lparr>HWID := ''h2'', Hostname := []\<rparr>)) = None"
proof -
  let ?db = "fst (Upsert ToLower no_faults 7 empty_updater_db (sample_identity\<lparr>Hostname := []\<rparr>))"
  have "updater_db_ok ToLower ?db"
    by (rule Upsert_ok) (simp add: updater_db_ok_def empty_updater_db_def uniq_clients_def)
  moreover have "snd (Upsert ToLower no_faults 9 ?db (sample_identity\<lparr>HWID := ''h2'', Hostname := []\<rparr>)) = None"
    by code_simp
  ultimately show ?thesis by blast
qed

text \<open>In the row of a client seen before, a value the request does not report keeps what earlier
  sightings stored, a reported one replaces it, and a request that says nobody is logged on clears
  the user and the session state.\<close>

theorem Upsert_merges_reported_fields:
  assumes ok: "updater_db_ok ck db" and u: "Upsert ck f now db idt = (db', Some i)"
    and old: "c \<in> set (u_clients db)" "cl_id c = i" and new: "c' \<in> set (u_clients db')" "cl_id c' = i"
  shows "cl_serial c' = (if ck (Serial idt) = ck [] then cl_serial c else Some (Serial idt)) \<and>
    cl_product c' = (if ck (Product idt) = ck [] then cl_product c else Some (Product idt)) \<and>
    cl_os_version c' = (if ck (OSVersion idt) = ck [] then cl_os_version c else Some (OSVersion idt)) \<and>
    cl_emly_version c' = (if ck (EMLyVersion idt) = ck [] then cl_emly_version c else Some (EMLyVersion idt)) \<and>
    cl_hwid c' = (if ck (HWID idt) = ck [] then cl_hwid c else Some (HWID idt)) \<and>
    cl_logged_user c' = (if NobodyLoggedOn idt then None
       else if ck (LoggedUser idt) = ck [] then cl_logged_user c else Some (LoggedUser idt)) \<and>
    cl_logged_user_state c' = (if NobodyLoggedOn idt then None
       else if ck (LoggedUserState idt) = ck [] then cl_logged_user_state c else Some (LoggedUserState idt)) \<and>
    cl_first_seen_at c' = cl_first_seen_at c \<and> cl_config_revision c' = cl_config_revision c"
proof -
  have inj: "inj_on cl_id (set (u_clients db))" "i < u_nextClient db"
    using ok old by (auto simp: updater_db_ok_def distinct_map)
  have inj': "inj_on cl_id (set (u_clients db'))"
    using Upsert_ok [OF ok, of f now idt] u by (simp add: updater_db_ok_def distinct_map)
  obtain d where d: "d \<in> set (u_clients db)" "cl_id d = i" "updated_row ck now idt d \<in> set (u_clients db')"
    using Upsert_row [OF u] inj(2) by auto
  have "d = c" using inj(1) d(1,2) old by (auto dest: inj_onD)
  moreover have "c' = updated_row ck now idt d"
    using inj_onD [OF inj', of c' "updated_row ck now idt d"] d(2,3) new by simp
  ultimately show ?thesis by (simp add: updated_row_def coalesce_nullif_def)
qed

theorem Upsert_merges_reported_fields_witness:
  "\<exists>c c'. c \<in> set (u_clients sample_db) \<and>
     c' \<in> set (u_clients (fst (Upsert ToLower no_faults 9 sample_db (sample_identity\<lparr>Serial := []\<rparr>)))) \<and>
     cl_serial c' = cl_serial c"
proof -
  let ?idt = "sample_identity\<lparr>Serial := []\<rparr>"
  have r: "snd (Upsert ToLower no_faults 9 sample_db ?idt) = Some 1"
    and o: "list_ex (\<lambda>c. cl_id c = 1) (u_clients sample_db)"
    and n: "list_ex (\<lambda>c. cl_id c = 1) (u_clients (fst (Upsert ToLower no_faults 9 sample_db ?idt)))" by code_simp+
  from o n obtain c c' where c: "c \<in> set (u_clients sample_db)" "cl_id c = 1"
      "c' \<in> set (u_clients (fst (Upsert ToLower no_faults 9 sample_db ?idt)))" "cl_id c' = 1"
    by (auto simp: list_ex_iff)
  have "Upsert ToLower no_faults 9 sample_db ?idt = (fst (Upsert ToLower no_faults 9 sample_db ?idt), Some 1)"
    using r by (metis prod.collapse)
  from Upsert_merges_reported_fields [OF sample_db_ok(1) this c] have "cl_serial c' = cl_serial c" by simp
  with c show ?thesis by blast
qed

text \<open>An event and its hourly counter are written together or not at all: on success exactly one
  counter, that of the event's own hour, product and type, goes up by one with the raw row, and on
  any failure neither table changes.\<close>

theorem insertEvent_all_or_nothing:
  assumes "insertEvent f now db c et p v ip = (db', res)"
  shows "(res = None \<longrightarrow> u_events db' = u_events db \<and> u_hourly db' = u_hourly db) \<and>
    (res \<noteq> None \<longrightarrow>
       (\<forall>k. hourly_count db' k = hourly_count db k + (if k = (hour_bucket now, p, et) then 1 else 0) \<and>
            raw_count db' k = raw_count db k + (if k = (hour_bucket now, p, et) then 1 else 0)))"
  using assms insertEvent_atomic [of f now db c et p v ip db'] insertEvent_counts(1,2) [of f now db c et p v ip db']
  by auto

theorem insertEvent_all_or_nothing_witness:
  "hourly_count (fst (insertEvent no_faults 9 sample_db 1 ''download'' ''emly'' None None)) (0, ''emly'', ''download'') = 1"
proof -
  have r: "snd (insertEvent no_faults 9 sample_db 1 ''download'' ''emly'' None None) \<noteq> None"
    and h: "hour_bucket 9 = 0" "hourly_count sample_db (0, ''emly'', ''download'') = 0" by code_simp+
  with insertEvent_all_or_nothing [OF surjective_pairing, of no_faults 9 sample_db 1 "''download''" "''emly''" None None]
  show ?thesis by simp
qed

text \<open>Recording events keeps the rollup at or above the raw rows for every hour, product and type,
  keeps every event's client in the table, and keeps the client keys unique, for any request and
  any pattern of database failures.\<close>

theorem RecordEvent_keeps_tables_consistent:
  assumes "rollup_ok db" and "updater_db_ok ck db" and "RecordEvent ck f now db hub r et p v = (db', hub')"
  shows "(\<forall>k. raw_count db' k \<le> hourly_count db' k) \<and>
    (\<forall>e \<in> set (u_events db'). ev_client_id e \<in> cl_id ` set (u_clients db')) \<and> updater_db_ok ck db'"
  using RecordEvent_ok [OF assms(1,2), of f now hub r et p v] assms(3) by (auto simp: rollup_ok_def)

theorem RecordEvent_keeps_tables_consistent_witness:
  "\<forall>k. raw_count (fst (RecordEvent ToLower no_faults 9 sample_db None
       \<lparr>r_Header = (\<lambda>h. if h = ''X-EMLy-HWID'' then ''h1'' else []), r_RemoteAddr = ''10.0.0.1:80''\<rparr>
       ''download'' ''emly'' ''1.0'')) k \<le>
     hourly_count (fst (RecordEvent ToLower no_faults 9 sample_db None
       \<lparr>r_Header = (\<lambda>h. if h = ''X-EMLy-HWID'' then ''h1'' else []), r_RemoteAddr = ''10.0.0.1:80''\<rparr>
       ''download'' ''emly'' ''1.0'')) k"
  using RecordEvent_keeps_tables_consistent [OF sample_db_ok(2,1) surjective_pairing] by blast

end
