(* ===== verification/Session.thy ===== *)
theory Session
  imports Http_Request Updater_Client
begin

text \<open>
  \<open>internal/session/session.go\<close> with the rows of \<open>internal/models/user.go\<close> and
  \<open>session.go\<close>: who a request's session token is attributed to.
\<close>

record user_row =
  usr_id :: string
  usr_username :: string
  usr_displayname :: string
  usr_password_hash :: string
  usr_role :: string
  usr_enabled :: bool
  usr_created_at :: gotime

record session_row =
  ses_id :: string
  ses_user_id :: string
  ses_expires_at :: gotime

record auth_db =
  a_users :: "user_row list"
  a_sessions :: "session_row list"

definition session_Header :: string where
  "session_Header = ''X-Session-Token''"

text \<open>\<open>session s JOIN user u ON u.id = s.user_id WHERE s.id = ? LIMIT 1\<close>\<close>

definition session_join :: "collation \<Rightarrow> auth_db \<Rightarrow> string \<Rightarrow> (session_row \<times> user_row) option" where
  "session_join ck a token =
     find (\<lambda>(s, u). ck (ses_id s) = ck token \<and> ck (usr_id u) = ck (ses_user_id s))
       (List.product (a_sessions a) (a_users a))"

text \<open>\<open>fails\<close> says whether the query returns a driver error.\<close>

definition Username :: "collation \<Rightarrow> bool \<Rightarrow> gotime \<Rightarrow> auth_db \<Rightarrow> request \<Rightarrow> string ptr" where
  "Username ck fails now a r =
     (let token = r_Header r session_Header
      in if token = [] then None
         else if fails then None
         else case session_join ck a token of
           None \<Rightarrow> None
         | Some (s, u) \<Rightarrow> if ses_expires_at s < now then None else Some (usr_username u))"

lemma session_join_Some:
  "session_join ck a token = Some (s, u) \<Longrightarrow>
     s \<in> set (a_sessions a) \<and> u \<in> set (a_users a) \<and> ck (ses_id s) = ck token \<and> ck (usr_id u) = ck (ses_user_id s)"
  by (auto simp: session_join_def dest!: find_SomeD)

end
