(* ===== verification/Go_Time.thy ===== *)
theory Go_Time
  imports Go_Std
begin

text \<open>
  \<open>Time.Format(time.RFC3339)\<close> of a UTC time, for the years 1 to 9999 that a clock can show:
  the runtime's conversion from days to a civil date, and the proof that the parser of
  \<open>Go_Std\<close> reads the result back to the second.
\<close>

definition date_year :: "int \<Rightarrow> int \<times> int" where
  "date_year d =
     (let n400 = d div 146097; d1 = d mod 146097;
          n100 = min (d1 div 36524) 3; d2 = d1 - 36524 * n100;
          n4 = d2 div 1461; d3 = d2 mod 1461;
          n1 = min (d3 div 365) 3
      in (400 * n400 + 100 * n100 + 4 * n4 + n1 + 1, d3 - 365 * n1))"

fun month_loop :: "nat \<Rightarrow> int \<Rightarrow> int \<Rightarrow> int \<Rightarrow> int \<times> int" where
  "month_loop 0 y m yd = (m, yd + 1)"
| "month_loop (Suc k) y m yd =
     (if yd < days_in m y then (m, yd + 1) else month_loop k y (m + 1) (yd - days_in m y))"

definition pad2 :: "int \<Rightarrow> string" where
  "pad2 n = [digit_char (nat (n div 10)), digit_char (nat (n mod 10))]"

definition FormatRFC3339 :: "gotime \<Rightarrow> string" where
  "FormatRFC3339 t =
     (let s = t div second; (y, yd) = date_year (s div 86400); (mo, d) = month_loop 11 y 1 yd; r = s mod 86400
      in pad2 (y div 100) @ pad2 (y mod 100) @ ''-'' @ pad2 mo @ ''-'' @ pad2 d @ ''T''
         @ pad2 (r div 3600) @ '':'' @ pad2 (r div 60 mod 60) @ '':'' @ pad2 (r mod 60) @ ''Z'')"

section \<open>The civil date\<close>

lemma date_year_decompose:
  assumes "date_year d = (y, yd)"
  obtains a b c e where "y = 400 * a + 100 * b + 4 * c + e + 1"
    "0 \<le> b" "b \<le> 3" "0 \<le> c" "c \<le> 24" "0 \<le> e" "e \<le> 3" "0 \<le> yd" "yd \<le> 365"
    "yd = 365 \<longrightarrow> e = 3 \<and> (c = 24 \<longrightarrow> b = 3)"
    "d = 146097 * a + 36524 * b + 1461 * c + 365 * e + yd"
proof -
  define a where "a = d div 146097"
  define d1 where "d1 = d mod 146097"
  define b where "b = min (d1 div 36524) 3"
  define d2 where "d2 = d1 - 36524 * b"
  define c where "c = d2 div 1461"
  define d3 where "d3 = d2 mod 1461"
  define e where "e = min (d3 div 365) 3"
  have y: "y = 400 * a + 100 * b + 4 * c + e + 1" "yd = d3 - 365 * e"
    using assms [unfolded date_year_def Let_def, folded a_def d1_def, folded b_def, folded d2_def,
        folded c_def d3_def, folded e_def] by simp_all
  have d1: "0 \<le> d1" "d1 < 146097" by (simp_all add: d1_def)
  have b: "0 \<le> b" "b \<le> 3" using d1 by (simp_all add: b_def pos_imp_zdiv_nonneg_iff)
  have d2: "0 \<le> d2" "d2 \<le> 36524" "b < 3 \<longrightarrow> d2 < 36524"
    using d1 unfolding d2_def b_def by (auto simp: min_def)
  have c: "0 \<le> c" "c \<le> 24" using d2 by (auto simp: c_def pos_imp_zdiv_nonneg_iff)
  have d3: "0 \<le> d3" "d3 < 1461" by (simp_all add: d3_def)
  have e: "0 \<le> e" "e \<le> 3" using d3 by (simp_all add: e_def pos_imp_zdiv_nonneg_iff)
  have z: "0 \<le> d3 - 365 * e" "d3 - 365 * e \<le> 365" "d3 - 365 * e = 365 \<longrightarrow> e = 3"
    using d3 unfolding e_def by (auto simp: min_def split: if_splits)
  have e2: "d2 = 1461 * c + d3" by (simp add: c_def d3_def)
  have l: "d3 - 365 * e = 365 \<longrightarrow> c = 24 \<longrightarrow> b = 3" using z(3) e2 d2 b by force
  have "d = 146097 * a + d1" by (simp add: a_def d1_def)
  then have "d = 146097 * a + 36524 * b + 1461 * c + 365 * e + yd" using e2 y(2) by (simp add: d2_def)
  with that y b c e z l show ?thesis by simp
qed

lemma mod_zero_top: "0 < r \<Longrightarrow> r \<le> n \<Longrightarrow> (n * q + r) mod n = 0 \<longleftrightarrow> r = (n :: int)"
  by (cases "r = n") (auto simp: mod_pos_pos_trivial)

lemma days_before_year_split:
  assumes "0 \<le> b" "b \<le> 3" "0 \<le> c" "c \<le> 24" "0 \<le> e" "e \<le> 3"
  shows "days_before_year (400 * a + 100 * b + 4 * c + e + 1) = 146097 * a + 36524 * b + 1461 * c + 365 * e"
    and "leap_year (400 * a + 100 * b + 4 * c + e + 1) \<longleftrightarrow> e = 3 \<and> (c = 24 \<longrightarrow> b = 3)"
proof -
  let ?k = "400 * a + 100 * b + 4 * c + e"
  have q: "?k div 4 = 100 * a + 25 * b + c"
    using assms by (intro int_div_pos_eq [where r = e]) auto
  have q2: "?k div 100 = 4 * a + b"
    using assms by (intro int_div_pos_eq [where r = "4 * c + e"]) auto
  have q3: "?k div 400 = a"
    using assms by (intro int_div_pos_eq [where r = "100 * b + 4 * c + e"]) auto
  show "days_before_year (400 * a + 100 * b + 4 * c + e + 1) = 146097 * a + 36524 * b + 1461 * c + 365 * e"
    unfolding days_before_year_def Let_def add_diff_cancel_right' q q2 q3 by simp
  have "(?k + 1) mod 4 = 0 \<longleftrightarrow> e + 1 = 4"
    using mod_zero_top [of "e + 1" 4 "100 * a + 25 * b + c"] assms by (simp add: algebra_simps)
  moreover have "(?k + 1) mod 100 = 0 \<longleftrightarrow> 4 * c + e + 1 = 100"
    using mod_zero_top [of "4 * c + e + 1" 100 "4 * a + b"] assms by (simp add: algebra_simps)
  moreover have "(?k + 1) mod 400 = 0 \<longleftrightarrow> 100 * b + 4 * c + e + 1 = 400"
    using mod_zero_top [of "100 * b + 4 * c + e + 1" 400 a] assms by (simp add: algebra_simps)
  ultimately show "leap_year (400 * a + 100 * b + 4 * c + e + 1) \<longleftrightarrow> e = 3 \<and> (c = 24 \<longrightarrow> b = 3)"
    unfolding leap_year_def using assms by auto
qed

lemma date_year_correct:
  assumes "date_year d = (y, yd)"
  shows "days_before_year y + yd = d" "0 \<le> yd" "yd < (if leap_year y then 366 else 365)"
proof -
  obtain a b c e where y: "y = 400 * a + 100 * b + 4 * c + e + 1" and r: "0 \<le> b" "b \<le> 3" "0 \<le> c" "c \<le> 24"
      "0 \<le> e" "e \<le> 3" "0 \<le> yd" "yd \<le> 365" "yd = 365 \<longrightarrow> e = 3 \<and> (c = 24 \<longrightarrow> b = 3)"
      "d = 146097 * a + 36524 * b + 1461 * c + 365 * e + yd"
    by (rule date_year_decompose [OF assms]) blast
  note s = days_before_year_split [OF r(1-6), of a, folded y]
  show "days_before_year y + yd = d" using s(1) r(10) by simp
  show "0 \<le> yd" by (rule r)
  show "yd < (if leap_year y then 366 else 365)" using s(2) r(8,9) by (cases "yd = 365") auto
qed

lemma date_year_range:
  assumes "date_year d = (y, yd)" "0 \<le> d" "d < 3652059"
  shows "1 \<le> y \<and> y < 10000"
proof -
  obtain a b c e where y: "y = 400 * a + 100 * b + 4 * c + e + 1" and r: "0 \<le> b" "b \<le> 3" "0 \<le> c" "c \<le> 24"
      "0 \<le> e" "e \<le> 3" "0 \<le> yd" "yd \<le> 365"
      "d = 146097 * a + 36524 * b + 1461 * c + 365 * e + yd"
    by (rule date_year_decompose [OF assms(1)]) blast
  have "0 \<le> a" using r assms(2) by linarith
  then have 1: "1 \<le> y" using y r by linarith
  have "a \<le> 24" using r assms(3) by linarith
  moreover have "\<not> (a = 24 \<and> b = 3 \<and> c = 24 \<and> e = 3)" using r(7,9) assms(3) by auto
  ultimately consider "a \<le> 23" | "a = 24" "b \<le> 2" | "a = 24" "b = 3" "c \<le> 23" | "a = 24" "b = 3" "c = 24" "e \<le> 2"
    using r(2,4,6) by linarith
  then have "y < 10000" by cases (use y r(2,4,6) in linarith)+
  with 1 show ?thesis by blast
qed

lemma days_before_month_Suc: "1 \<le> m \<Longrightarrow> days_before_month (m + 1) y = days_before_month m y + days_in m y"
  using upto_rec2 [of 1 m] by (simp add: days_before_month_def)

lemma days_before_month_13: "days_before_month 13 y = (if leap_year y then 366 else 365)"
proof -
  have "[1..13 - 1] = [1, 2, 3, 4, 5, 6, 7, 8, 9, 10, 11, 12 :: int]" by (simp add: upto_rec1)
  then show ?thesis by (simp add: days_before_month_def days_in_def)
qed

lemma month_loop_correct:
  assumes "month_loop k y m yd = (mo, d)" "1 \<le> m" "m + int k = 12" "0 \<le> yd"
    and "days_before_month m y + yd < (if leap_year y then 366 else 365)"
  shows "1 \<le> mo \<and> mo \<le> 12 \<and> 1 \<le> d \<and> d \<le> days_in mo y \<and>
    days_before_month mo y + d - 1 = days_before_month m y + yd"
  using assms
proof (induction k y m yd rule: month_loop.induct)
  case (1 y m yd)
  then have "m = 12" by simp
  with 1 days_before_month_Suc [of 12 y] days_before_month_13 [of y] show ?case by auto
next
  case (2 k y m yd)
  show ?case
  proof (cases "yd < days_in m y")
    case True
    with 2 show ?thesis by auto
  next
    case False
    have "days_before_month (m + 1) y + (yd - days_in m y) = days_before_month m y + yd"
      using days_before_month_Suc [of m y] 2 by simp
    with 2 False show ?thesis by simp
  qed
qed

section \<open>Reading it back\<close>

lemma two_digits_pad2: "0 \<le> n \<Longrightarrow> n < 100 \<Longrightarrow> two_digits (pad2 n @ r) = Some (n, r)"
proof -
  assume n: "0 \<le> n" "n < 100"
  have "nat (n div 10) < 10" "nat (n mod 10) < 10" using n by auto
  note d = digit_char_simps [OF this(1)] digit_char_simps [OF this(2)]
  have "0 \<le> n div 10" using n by (simp add: pos_imp_zdiv_nonneg_iff)
  then show ?thesis using n d by (simp add: pad2_def)
qed

lemma one_or_two_digits_pad2: "0 \<le> n \<Longrightarrow> n < 100 \<Longrightarrow> one_or_two_digits (pad2 n @ r) = Some (n, r)"
proof -
  assume n: "0 \<le> n" "n < 100"
  have "nat (n div 10) < 10" "nat (n mod 10) < 10" using n by auto
  note d = digit_char_simps [OF this(1)] digit_char_simps [OF this(2)]
  have "0 \<le> n div 10" using n by (simp add: pos_imp_zdiv_nonneg_iff)
  then show ?thesis using n d by (simp add: pad2_def)
qed

lemma days_in_le [simp]: "days_in m y \<le> 31"
  by (simp add: days_in_def)

lemma Parse_parts:
  assumes "0 \<le> y" "y < 10000" "1 \<le> mo" "mo \<le> 12" "1 \<le> d" "d \<le> days_in mo y"
    and "0 \<le> h" "h < 24" "0 \<le> mi" "mi < 60" "0 \<le> sec" "sec < 60"
  shows "ParseRFC3339 (pad2 (y div 100) @ pad2 (y mod 100) @ ''-'' @ pad2 mo @ ''-'' @ pad2 d @ ''T''
    @ pad2 h @ '':'' @ pad2 mi @ '':'' @ pad2 sec @ ''Z'') = Some (civil_time y mo d h mi sec 0 0)"
proof -
  have y: "100 * (y div 100) + y mod 100 = y" by simp
  have b: "0 \<le> y div 100" "y div 100 < 100" "0 \<le> y mod 100" "y mod 100 < 100" using assms by auto
  have d: "d < 100" using assms(6) days_in_le [of mo y] by linarith
  show ?thesis using assms d
    by (simp add: ParseRFC3339_def two_digits_pad2 one_or_two_digits_pad2 b lit_def fraction_def
        zone_seconds_def Let_def y)
qed

lemma hms_split: "3600 * (r div 3600) + 60 * (r div 60 mod 60) + r mod 60 = (r :: int)"
proof -
  have "r div 3600 = r div 60 div 60" using zdiv_zmult2_eq [of 60 r 60] by simp
  with div_mult_mod_eq [of r 60] div_mult_mod_eq [of "r div 60" 60] show ?thesis by linarith
qed

lemma civil_time_eq:
  "days_before_year y + days_before_month mo y + d - 1 = n \<Longrightarrow> 3600 * h + 60 * mi + sec = r \<Longrightarrow>
     civil_time y mo d h mi sec 0 0 = (n * 86400 + r) * second"
  by (auto simp: civil_time_def)

text \<open>A time between year 1 and year 9999.\<close>

definition clock_time :: "gotime \<Rightarrow> bool" where
  "clock_time t \<longleftrightarrow> 0 \<le> t \<and> t < 3652059 * 86400 * second"

text \<open>The civil fields of a clock time, and that they name it to the second.\<close>

lemma clock_parts:
  assumes "clock_time t" "date_year (t div second div 86400) = (y, yd)" "month_loop 11 y 1 yd = (mo, d)"
    and "r = t div second mod 86400"
  shows "0 \<le> y" "y < 10000" "1 \<le> mo" "mo \<le> 12" "1 \<le> d" "d \<le> days_in mo y"
    "0 \<le> r div 3600" "r div 3600 < 24" "0 \<le> r div 60 mod 60" "r div 60 mod 60 < 60" "0 \<le> r mod 60" "r mod 60 < 60"
    "civil_time y mo d (r div 3600) (r div 60 mod 60) (r mod 60) 0 0 = t - t mod second"
proof -
  let ?s = "t div second"
  note dy = date_year_correct [OF assms(2)]
  have s: "0 \<le> ?s" "?s < 3652059 * 86400" using assms(1) by (auto simp: clock_time_def)
  have "0 \<le> ?s div 86400" "?s div 86400 < 3652059" using s by (auto simp: pos_imp_zdiv_nonneg_iff)
  then show "0 \<le> y" "y < 10000" using date_year_range [OF assms(2)] by auto
  have dm1: "days_before_month 1 y = 0" by (simp add: days_before_month_def)
  have m: "1 \<le> mo" "mo \<le> 12" "1 \<le> d" "d \<le> days_in mo y" "days_before_month mo y + d - 1 = yd"
    using month_loop_correct [OF assms(3)] dy dm1 by simp_all
  then show "1 \<le> mo" "mo \<le> 12" "1 \<le> d" "d \<le> days_in mo y" by simp_all
  have "0 \<le> r" "r < 86400" using assms(4) by simp_all
  then show "0 \<le> r div 3600" "r div 3600 < 24" "0 \<le> r div 60 mod 60" "r div 60 mod 60 < 60" "0 \<le> r mod 60" "r mod 60 < 60"
    by (auto simp: pos_imp_zdiv_nonneg_iff)
  have "civil_time y mo d (r div 3600) (r div 60 mod 60) (r mod 60) 0 0 = ?s * second"
    using civil_time_eq [OF _ hms_split [of r], of y mo d "?s div 86400"] m(5) dy(1) assms(4)
      div_mult_mod_eq [of ?s 86400] by (simp only: add_diff_eq add.assoc [symmetric])
  also have "?s * second = t - t mod second" by (simp add: minus_mod_eq_div_mult)
  finally show "civil_time y mo d (r div 3600) (r div 60 mod 60) (r mod 60) 0 0 = t - t mod second" .
qed

lemma Parse_Format:
  assumes "clock_time t"
  shows "ParseRFC3339 (FormatRFC3339 t) = Some (t - t mod second)"
proof -
  obtain y yd where yd: "date_year (t div second div 86400) = (y, yd)" by fastforce
  obtain mo d where mo: "month_loop 11 y 1 yd = (mo, d)" by fastforce
  note parts = clock_parts [OF assms yd mo refl]
  show ?thesis
    unfolding FormatRFC3339_def Let_def yd mo prod.case parts(13) [symmetric] by (rule Parse_parts [OF parts(1-12)])
qed

end
