(* ===== verification/Unique_Flag.thy ===== *)
theory Unique_Flag
  imports Go_Prelude
begin

text \<open>
  The two-statement pattern the API uses for every exclusive flag (the published revision,
  the stable, beta and critical release, the current updater build): first clear the flag
  on every row that has it, then set it on one row. The locale states what the two updates
  must do to a row; the lemmas say what the pair of statements does to the table.
\<close>

definition at_most_one :: "('r \<Rightarrow> bool) \<Rightarrow> 'r list \<Rightarrow> bool" where
  "at_most_one flag rows \<longleftrightarrow> length (filter flag rows) \<le> 1"

definition clear_flag :: "('r \<Rightarrow> bool) \<Rightarrow> ('r \<Rightarrow> 'r) \<Rightarrow> 'r list \<Rightarrow> 'r list" where
  "clear_flag flag clear rows = map (\<lambda>r. if flag r then clear r else r) rows"

definition set_flag :: "('r \<Rightarrow> bool) \<Rightarrow> ('r \<Rightarrow> 'r) \<Rightarrow> 'r list \<Rightarrow> 'r list" where
  "set_flag sel put rows = map (\<lambda>r. if sel r then put r else r) rows"

lemma at_most_one_subset:
  assumes "at_most_one flag rows"
  shows "at_most_one flag (filter P rows)"
proof -
  have "filter flag (filter P rows) = filter P (filter flag rows)" by (simp add: conj_commute)
  then have "length (filter flag (filter P rows)) \<le> length (filter flag rows)"
    by (metis length_filter_le)
  with assms show ?thesis by (simp add: at_most_one_def)
qed

lemma at_most_one_unique:
  assumes "at_most_one flag rows" "a \<in> set rows" "b \<in> set rows" "flag a" "flag b"
  shows "a = b"
proof -
  have "a \<in> set (filter flag rows)" "b \<in> set (filter flag rows)" using assms by auto
  with assms(1) show ?thesis unfolding at_most_one_def
    by (cases "filter flag rows" rule: remdups_adj.cases) auto
qed

lemma find_append: "find P (xs @ ys) = (case find P xs of None \<Rightarrow> find P ys | Some x \<Rightarrow> Some x)"
  by (induction xs) auto

lemma at_most_one_append:
  "at_most_one flag (rows @ [r]) \<longleftrightarrow> (if flag r then filter flag rows = [] else at_most_one flag rows)"
  by (auto simp: at_most_one_def)

text \<open>A selection by key picks at most one row of a table with distinct keys.\<close>

lemma at_most_one_key:
  "distinct (map key rows) \<Longrightarrow> at_most_one (\<lambda>r. key r = k \<and> P r) rows"
  by (induction rows) (auto simp: at_most_one_def filter_empty_conv image_iff)

locale exclusive_flag =
  fixes flag :: "'r \<Rightarrow> bool" and clear :: "'r \<Rightarrow> 'r" and put :: "'r \<Rightarrow> 'r"
  assumes cleared: "\<not> flag (clear r)"
    and put_on: "flag (put r)"
begin

lemma clear_none: "filter flag (clear_flag flag clear rows) = []"
  by (auto simp: clear_flag_def filter_empty_conv cleared)

lemma set_flagged:
  assumes "filter flag rows = []"
  shows "filter flag (set_flag sel put rows) = map put (filter sel rows)"
  using assms by (induction rows) (auto simp: set_flag_def put_on split: if_splits)

lemma exclusive:
  assumes "at_most_one sel (clear_flag flag clear rows)"
  shows "at_most_one flag (set_flag sel put (clear_flag flag clear rows))"
  using assms by (simp add: at_most_one_def set_flagged [OF clear_none])

lemma exactly_selected:
  "filter flag (set_flag sel put (clear_flag flag clear rows)) = map put (filter sel (clear_flag flag clear rows))"
  by (simp add: set_flagged [OF clear_none])

end

text \<open>
  The other form of the pattern, for slots promoted by key: the flag is cleared on every row that
  has it and another key, then one statement, which may set or clear it, runs on the rows with the
  key. What the second statement does to a row is arbitrary apart from keeping the key.
\<close>

definition only_at :: "('r \<Rightarrow> bool) \<Rightarrow> ('r \<Rightarrow> 'k) \<Rightarrow> 'k \<Rightarrow> 'r list \<Rightarrow> bool" where
  "only_at flag key k rows \<longleftrightarrow> (\<forall>r \<in> set rows. flag r \<longrightarrow> key r = k)"

lemma only_at_most_one:
  assumes "distinct (map key rows)" "only_at flag key k rows"
  shows "at_most_one flag rows"
proof -
  have "filter flag rows = filter (\<lambda>r. key r = k \<and> flag r) rows"
    using assms(2) by (auto simp: only_at_def intro: filter_cong)
  then show ?thesis using at_most_one_key [OF assms(1), of k flag] by (simp add: at_most_one_def)
qed

lemma at_most_one_map:
  assumes "at_most_one flag rows" "\<And>r. flag (f r) \<Longrightarrow> flag r"
  shows "at_most_one flag (map f rows)"
proof -
  have "length (filter flag (map f rows)) \<le> length (filter flag rows)"
    using assms(2) by (induction rows) auto
  with assms(1) show ?thesis by (simp add: at_most_one_def)
qed

lemma only_at_map:
  assumes "only_at flag key k rows" "\<And>r. key (f r) = key r" "\<And>r. flag (f r) \<Longrightarrow> flag r \<or> key r = k"
  shows "only_at flag key k (map f rows)"
  using assms by (auto simp: only_at_def)

locale promotable_flag =
  fixes flag :: "'r \<Rightarrow> bool" and clear :: "'r \<Rightarrow> 'r" and key :: "'r \<Rightarrow> 'k"
  assumes cleared: "\<not> flag (clear r)"
    and key_clear: "key (clear r) = key r"
begin

lemma demoted: "only_at flag key k (clear_flag (\<lambda>r. flag r \<and> key r \<noteq> k) clear rows)"
  by (auto simp: only_at_def clear_flag_def cleared)

lemma demoted_all: "filter flag (clear_flag flag clear rows) = []"
  by (auto simp: clear_flag_def filter_empty_conv cleared)

lemma keys_clear [simp]: "map key (clear_flag P clear rows) = map key rows"
  by (auto simp: clear_flag_def key_clear)

text \<open>Demoting may come with a promotion or not; either way the slot has one holder at most.\<close>

lemma promoted:
  assumes d: "distinct (map key rows)" and one: "at_most_one flag rows"
    and keep: "\<And>r. key (f r) = key r" and up: "\<And>r. flag (f r) \<Longrightarrow> flag r \<or> (p \<and> key r = k)"
  shows "at_most_one flag (map f (if p then clear_flag (\<lambda>r. flag r \<and> key r \<noteq> k) clear rows else rows))"
proof (cases p)
  case True
  have "only_at flag key k (map f (clear_flag (\<lambda>r. flag r \<and> key r \<noteq> k) clear rows))"
    by (rule only_at_map [OF demoted]) (auto simp: keep dest: up)
  moreover have "distinct (map key (map f (clear_flag (\<lambda>r. flag r \<and> key r \<noteq> k) clear rows)))"
  proof -
    have "map key (map f rs) = map key rs" for rs using keep by simp
    then show ?thesis using d by (simp only: keys_clear)
  qed
  ultimately have "at_most_one flag (map f (clear_flag (\<lambda>r. flag r \<and> key r \<noteq> k) clear rows))"
    by (intro only_at_most_one)
  with True show ?thesis by simp
next
  case False
  then show ?thesis using at_most_one_map [OF one] up by auto
qed

end

end
