(* ===== verification/Paging.thy ===== *)
theory Paging
  imports Go_Prelude
begin

text \<open>
  What the paginated handlers share: the reading of \<open>page\<close> and \<open>page_size\<close>, the 64-bit offset, and that the pages of
  a listing, one after the other, are the listing.
\<close>

text \<open>
  \<open>OFFSET\<close> is computed in 64-bit arithmetic; the driver refuses a negative one, which a huge
  page number can produce.
\<close>

definition wrap64 :: "int \<Rightarrow> int" where
  "wrap64 n = (n + 2 ^ 63) mod 2 ^ 64 - 2 ^ 63"

lemma wrap64_id: "0 \<le> n \<Longrightarrow> n < 2 ^ 63 \<Longrightarrow> wrap64 n = n"
  by (simp add: wrap64_def)

definition page_param :: "string \<Rightarrow> int" where
  "page_param p = (if p = [] then 1 else case Atoi p of Some v \<Rightarrow> if 0 < v then v else 1 | None \<Rightarrow> 1)"

definition page_size_param :: "string \<Rightarrow> int" where
  "page_size_param ps = (if ps = [] then 20 else case Atoi ps of Some v \<Rightarrow> if 0 < v \<and> v \<le> 100 then v else 20 | None \<Rightarrow> 20)"

lemma page_params:
  assumes "0 < p" "int64_range p" "0 < ps" "ps \<le> 100"
  shows "page_param (Itoa p) = p" "page_size_param (Itoa ps) = ps"
proof -
  have "int64_range ps" using assms by (simp add: int64_range_def)
  moreover have "Atoi [] = None" by (simp add: Atoi_def)
  ultimately show "page_param (Itoa p) = p" "page_size_param (Itoa ps) = ps"
    using assms Atoi_Itoa [of p] Atoi_Itoa [of ps] by (auto simp: page_param_def page_size_param_def)
qed

section \<open>The pages of a list\<close>

lemma chunks: "concat (map (\<lambda>i. take n (drop (i * n) xs)) [0..<m]) = take (m * n) xs"
proof (induction m)
  case (Suc m)
  have "take (m * n + n) xs = take (m * n) xs @ take n (drop (m * n) xs)" by (rule take_add)
  with Suc show ?case by (simp add: add.commute)
qed simp

lemma upto_upt: "[1..int m] = map (\<lambda>i. int i + 1) [0..<m]"
  by (induction m) (simp_all add: upto_rec2 ac_simps)

lemma pages_bound:
  assumes "0 < ps" "0 \<le> tot" "i < nat ((tot + ps - 1) div ps)"
  shows "int i * ps < tot"
proof -
  from assms(3) have "int i < (tot + ps - 1) div ps" by (simp add: zless_nat_eq_int_zless)
  then have "int i + 1 \<le> (tot + ps - 1) div ps" by simp
  then have "(int i + 1) * ps \<le> (tot + ps - 1) div ps * ps" using assms(1) by (intro mult_right_mono) simp_all
  also have "\<dots> \<le> tot + ps - 1" using div_mult_mod_eq [of "tot + ps - 1" ps] pos_mod_sign [OF assms(1), of "tot + ps - 1"] by linarith
  finally show ?thesis by (simp add: distrib_right)
qed

lemma pages_enough:
  assumes "0 < ps" "0 \<le> tot"
  shows "tot \<le> int (nat ((tot + ps - 1) div ps)) * ps"
proof -
  have "(tot + ps - 1) div ps * ps = tot + ps - 1 - (tot + ps - 1) mod ps" by (simp add: minus_mod_eq_div_mult)
  moreover have "(tot + ps - 1) mod ps < ps" using assms(1) by simp
  moreover have "0 \<le> (tot + ps - 1) div ps" using assms by (simp add: pos_imp_zdiv_nonneg_iff)
  ultimately show ?thesis by simp
qed

text \<open>
  A handler that answers the rows of one page: \<open>page p ps\<close> are the rows of page \<open>p\<close> when pages have \<open>ps\<close> rows.
\<close>

locale paged =
  fixes page :: "int \<Rightarrow> int \<Rightarrow> 'a list"
    and rows :: "'a list"
  assumes page_of: "0 < p \<Longrightarrow> int64_range p \<Longrightarrow> 0 < ps \<Longrightarrow> ps \<le> 100 \<Longrightarrow> (p - 1) * ps < 2 ^ 63 \<Longrightarrow>
    page p ps = take (nat ps) (drop (nat ((p - 1) * ps)) rows)"
begin

text \<open>The number of pages the handlers announce.\<close>

definition page_count :: "int \<Rightarrow> int" where
  "page_count ps = (int (length rows) + ps - 1) div ps"

lemma page_in_range:
  assumes "0 < ps" "ps \<le> 100" "int (length rows) < 2 ^ 63" "i < nat (page_count ps)"
  shows "page (int i + 1) ps = take (nat ps) (drop (i * nat ps) rows)"
proof -
  have b: "int i * ps < int (length rows)"
    by (rule pages_bound [OF assms(1)]) (use assms(4) in \<open>simp_all add: page_count_def\<close>)
  have "int i \<le> int i * ps" using assms(1) by (simp add: mult_le_cancel_left1)
  with b assms(3) have "int64_range (int i + 1)" by (simp add: int64_range_def)
  with assms(1-3) b show ?thesis by (simp add: page_of nat_mult_distrib)
qed

lemma pages_cover:
  assumes "0 < ps" "ps \<le> 100" "int (length rows) < 2 ^ 63"
  shows "concat (map (\<lambda>p. page p ps) [1..page_count ps]) = rows"
proof -
  let ?m = "nat (page_count ps)"
  have "0 \<le> page_count ps" using assms(1) by (simp add: page_count_def pos_imp_zdiv_nonneg_iff)
  then have "[1..page_count ps] = map (\<lambda>i. int i + 1) [0..<?m]" using upto_upt [of ?m] by simp
  then have "concat (map (\<lambda>p. page p ps) [1..page_count ps]) = concat (map (\<lambda>i. take (nat ps) (drop (i * nat ps) rows)) [0..<?m])"
    using page_in_range [OF assms] by (simp add: comp_def) (intro arg_cong [where f = concat] map_cong; simp)
  also have "\<dots> = take (?m * nat ps) rows" by (rule chunks)
  also have "\<dots> = rows"
  proof -
    have "int (length rows) \<le> int ?m * ps" unfolding page_count_def by (rule pages_enough [OF assms(1)]) simp
    then have "int (length rows) \<le> int (?m * nat ps)" using assms(1) by simp
    then show ?thesis by (simp only: of_nat_le_iff take_all)
  qed
  finally show ?thesis .
qed

end

end
