(* ===== verification/Config_Store.thy ===== *)
theory Config_Store
  imports RC_Properties Session Go_Time Unique_Flag Paging
begin

text \<open>
  \<open>internal/configapi/config.route.go\<close> with the rows of
  \<open>internal/models/remote_config_revision.go\<close>: the revision store behind \<open>/v2/config\<close>. A
  handler is a function from the tables, the clock and the decoded request to the tables and
  the response. A request body is given as decoded (None when \<open>Decode\<close> fails), with
  \<open>json.RawMessage\<close> fields as their raw bytes. Database statements are numbered per handler;
  a handler that fails before \<open>Commit\<close> leaves the table as it was. Log lines, timing marks and
  the \<open>Cache-Control\<close> header are not modelled.
\<close>

section \<open>Revisions\<close>

datatype revision_status = Draft | Published | Superseded

definition status_name :: "revision_status \<Rightarrow> string" where
  "status_name s = (case s of Draft \<Rightarrow> ''draft'' | Published \<Rightarrow> ''published'' | Superseded \<Rightarrow> ''superseded'')"

record revision_row =
  rv_revision :: int
  rv_schema_version :: int
  rv_status :: revision_status
  rv_document :: string
  rv_etag :: string
  rv_notes :: "string ptr"
  rv_created_by :: "string ptr"
  rv_based_on :: "int ptr"
  rv_generated_at :: gotime
  rv_published_at :: "gotime ptr"
  rv_created_at :: gotime

type_synonym revisions = "revision_row list"

text \<open>Errors that carry the validator's problems, and plain responses.\<close>

datatype 'a config_reply = Reply "'a response" | Problems nat string "Problem list"

definition fetch_revision :: "int \<Rightarrow> revisions \<Rightarrow> revision_row option" where
  "fetch_revision n rs = find (\<lambda>r. rv_revision r = n) rs"

definition published_row :: "revisions \<Rightarrow> revision_row option" where
  "published_row rs = find (\<lambda>r. rv_status r = Published) rs"

definition max_revision :: "revisions \<Rightarrow> int option" where
  "max_revision rs = (if rs = [] then None else Some (fold max (map rv_revision rs) (rv_revision (hd rs))))"

definition next_revision :: "revisions \<Rightarrow> int" where
  "next_revision rs = (case max_revision rs of None \<Rightarrow> 1 | Some m \<Rightarrow> m + 1)"

text \<open>\<open>revision\<close> is the primary key, an \<open>INT UNSIGNED\<close>: an insert may fail on either account.\<close>

definition insert_revision :: "revision_row \<Rightarrow> revisions \<Rightarrow> revisions option" where
  "insert_revision r rs =
     (if rv_revision r \<in> set (map rv_revision rs) \<or> rv_revision r < 0 \<or> rv_revision r \<ge> 2 ^ 32 then None
      else Some (rs @ [r]))"

section \<open>Helpers\<close>

definition revisionEchoWarnings :: "golib \<Rightarrow> string \<Rightarrow> Problem list" where
  "revisionEchoWarnings L raw =
     (case Option.bind (json_parse L raw) dec_struct of
        None \<Rightarrow> []
      | Some kvs \<Rightarrow>
          (if field_get ''revision'' kvs \<noteq> JNull
           then [problemf ''/revision'' ''revision is assigned by the server; the submitted value was ignored'']
           else [])
        @ (if field_get ''generatedAt'' kvs \<noteq> JNull
           then [problemf ''/generatedAt'' ''generatedAt is assigned by the server; the submitted value was ignored'']
           else []))
   @ (case UnknownFieldPaths L raw of
        None \<Rightarrow> []
      | Some unknown \<Rightarrow> map (\<lambda>p. problemf p ''unknown field, dropped'') unknown)"

definition ifNoneMatchHits :: "string \<Rightarrow> string \<Rightarrow> bool" where
  "ifNoneMatchHits header etag =
     (if header = [] \<or> etag = [] then False
      else list_ex (\<lambda>part.
        let p = TrimChar (CHR 0x22) (TrimPrefix (TrimSpace part) ''W/'')
        in p = ''*'' \<or> p = etag) (Split (CHR '','') header))"

definition notesOrNil :: "string ptr \<Rightarrow> string ptr" where
  "notesOrNil s =
     (case s of
        None \<Rightarrow> None
      | Some x \<Rightarrow> let trimmed = TrimSpace x in if trimmed = [] then None else Some trimmed)"

text \<open>Statements 0 to 3 are the upsert's, 4 the revision update.\<close>

definition trackConfigFetch ::
  "collation \<Rightarrow> faults \<Rightarrow> gotime \<Rightarrow> updater_db \<Rightarrow> request \<Rightarrow> int \<Rightarrow> updater_db" where
  "trackConfigFetch ck f now udb r revision =
     (let idt = IdentityFromRequest r
      in if \<not> Identified idt then udb
         else case Upsert ck f now udb idt of
           (udb1, None) \<Rightarrow> udb1
         | (udb1, Some clientID) \<Rightarrow>
             if f 4 then udb1
             else udb1\<lparr>u_clients := map (\<lambda>c. if cl_id c = clientID
                 then c\<lparr>cl_config_revision := Some revision, cl_config_fetched_at := Some now\<rparr> else c)
                 (u_clients udb1)\<rparr>)"

text \<open>\<open>publishRevisionTx\<close>: statements 0 and 1, the new table or an error.\<close>

definition publishRevisionTx :: "faults \<Rightarrow> gotime \<Rightarrow> int \<Rightarrow> revisions \<Rightarrow> revisions option" where
  "publishRevisionTx f now revision rs =
     (if f 0 then None
      else let rs1 = clear_flag (\<lambda>r. rv_status r = Published) (\<lambda>r. r\<lparr>rv_status := Superseded\<rparr>) rs
           in if f 1 then None
              else if \<not> list_ex (\<lambda>r. rv_revision r = revision \<and> rv_status r = Draft) rs1 then None
              else Some (set_flag (\<lambda>r. rv_revision r = revision \<and> rv_status r = Draft)
                     (\<lambda>r. r\<lparr>rv_status := Published, rv_published_at := Some now\<rparr>) rs1))"

section \<open>Reading\<close>

text \<open>What \<open>GetConfig\<close> writes: the ETag and revision headers come with a 200 or a 304.\<close>

datatype config_get =
    GetNoContent
  | GetFailed
  | GetNotModified string string
  | GetServed string string string

definition GetConfig ::
  "collation \<Rightarrow> faults \<Rightarrow> gotime \<Rightarrow> revisions \<Rightarrow> updater_db \<Rightarrow> request \<Rightarrow> updater_db \<times> config_get" where
  "GetConfig ck f now rs udb r =
     (if f 0 then (udb, GetFailed)
      else case published_row rs of
        None \<Rightarrow> (udb, GetNoContent)
      | Some row \<Rightarrow>
          let etagHeader = CHR 0x22 # rv_etag row @ [CHR 0x22];
              revHeader = Itoa (rv_revision row);
              udb' = trackConfigFetch ck (shift_faults 1 f) now udb r (rv_revision row)
          in if ifNoneMatchHits (r_Header r ''If-None-Match'') (rv_etag row)
             then (udb', GetNotModified etagHeader revHeader)
             else (udb', GetServed etagHeader revHeader (rv_document row)))"

definition ValidateConfig :: "golib \<Rightarrow> string option \<Rightarrow> Problem list config_reply" where
  "ValidateConfig L body =
     (case body of
        None \<Rightarrow> Reply (Error 400 ''invalid JSON'')
      | Some document \<Rightarrow>
          if document = [] then Reply (Error 400 ''document is required'')
          else case Parse L document of
            (_, problems) \<Rightarrow>
              if problems \<noteq> [] then Problems 422 ''invalid document'' problems
              else Reply (OK (revisionEchoWarnings L document)))"

record revision_summary =
  rs_row :: revision_row
  rs_clients_on_revision :: int

record revision_page =
  pg_page :: int
  pg_page_size :: int
  pg_total :: int
  pg_revisions :: "revision_summary list"

definition query_int :: "string \<Rightarrow> (int \<Rightarrow> bool) \<Rightarrow> int \<Rightarrow> int" where
  "query_int s ok dflt = (if s = [] then dflt else case Atoi s of None \<Rightarrow> dflt | Some v \<Rightarrow> if ok v then v else dflt)"

text \<open>\<open>ORDER BY revision DESC\<close> on the primary key.\<close>

definition by_revision_desc :: "revisions \<Rightarrow> revisions" where
  "by_revision_desc rs = rev (sort_key rv_revision rs)"

definition ListConfigRevisions ::
  "faults \<Rightarrow> revisions \<Rightarrow> updater_db \<Rightarrow> string \<Rightarrow> string \<Rightarrow> string \<Rightarrow> revision_page response" where
  "ListConfigRevisions f rs udb pageQ sizeQ statusQ =
     (let page = query_int pageQ (\<lambda>v. v > 0) 1;
          pageSize = query_int sizeQ (\<lambda>v. v > 0 \<and> v \<le> 100) 20;
          offset = wrap64 ((page - 1) * pageSize)
      in if statusQ \<noteq> [] \<and> statusQ \<notin> set (map status_name [Draft, Published, Superseded])
         then Error 400 ''status must be one of: draft, published, superseded''
         else let sel = filter (\<lambda>r. statusQ = [] \<or> status_name (rv_status r) = statusQ) rs
              in if f 0 then Error 500 ''failed to count revisions''
                 else if f 1 \<or> offset < 0 then Error 500 ''failed to fetch revisions''
                 else OK \<lparr>pg_page = page, pg_page_size = pageSize, pg_total = int (length sel),
                    pg_revisions = map (\<lambda>r. \<lparr>rs_row = r, rs_clients_on_revision =
                        int (length (filter (\<lambda>c. cl_config_revision c = Some (rv_revision r)) (u_clients udb)))\<rparr>)
                      (take (nat pageSize) (drop (nat offset) (by_revision_desc sel)))\<rparr>)"

definition GetConfigRevision :: "faults \<Rightarrow> revisions \<Rightarrow> string \<Rightarrow> revision_row response" where
  "GetConfigRevision f rs param =
     (case Atoi param of
        None \<Rightarrow> Error 400 ''invalid revision''
      | Some n \<Rightarrow>
          if f 0 then Error 500 ''failed to fetch revision''
          else case fetch_revision n rs of
            None \<Rightarrow> Error 404 ''revision not found''
          | Some row \<Rightarrow> OK row)"

section \<open>Writing\<close>

definition mirror_error :: "string \<Rightarrow> string" where
  "mirror_error upstream = ''this instance mirrors '' @ upstream @ ''; publish there''"

definition DeleteConfigRevision ::
  "faults \<Rightarrow> string \<Rightarrow> revisions \<Rightarrow> string \<Rightarrow> revisions \<times> unit response" where
  "DeleteConfigRevision f upstream rs param =
     (if upstream \<noteq> [] then (rs, Error 405 (mirror_error upstream))
      else case Atoi param of
        None \<Rightarrow> (rs, Error 400 ''invalid revision'')
      | Some n \<Rightarrow>
          if f 0 then (rs, Error 500 ''failed to delete revision'')
          else if \<not> list_ex (\<lambda>r. rv_revision r = n \<and> rv_status r = Draft) rs then
            (if f 1 \<or> fetch_revision n rs = None then (rs, Error 404 ''revision not found'')
             else (rs, Error 409 ''only draft revisions can be deleted''))
          else (filter (\<lambda>r. \<not> (rv_revision r = n \<and> rv_status r = Draft)) rs, OK ()))"

record create_request =
  cr_Document :: string
  cr_Notes :: "string ptr"
  cr_Publish :: bool

record created_payload =
  cp_revision :: int
  cp_schema_version :: int
  cp_status :: revision_status
  cp_document :: Document
  cp_etag :: string
  cp_notes :: "string ptr"
  cp_created_by :: "string ptr"
  cp_generated_at :: gotime
  cp_published_at :: "gotime ptr"
  cp_warnings :: "Problem list"

text \<open>
  The allocated number, the stamped document and the draft row that \<open>CreateConfigRevision\<close> and
  \<open>RollbackConfig\<close> insert. \<open>generated_at\<close> is a \<open>TIMESTAMP\<close> column.
\<close>

definition stamped :: "int \<Rightarrow> gotime \<Rightarrow> Document \<Rightarrow> Document" where
  "stamped revision now doc = doc\<lparr>doc_Revision := revision, doc_GeneratedAt := FormatRFC3339 now\<rparr>"

definition draft_row ::
  "golib \<Rightarrow> int \<Rightarrow> gotime \<Rightarrow> Document \<Rightarrow> string ptr \<Rightarrow> string ptr \<Rightarrow> int ptr \<Rightarrow> revision_row" where
  "draft_row L revision now doc notes createdBy basedOn =
     (let (body, etag) = Canonical L doc
      in \<lparr>rv_revision = revision, rv_schema_version = doc_SchemaVersion doc, rv_status = Draft,
          rv_document = body, rv_etag = etag, rv_notes = notesOrNil notes, rv_created_by = createdBy,
          rv_based_on = basedOn, rv_generated_at = now, rv_published_at = None, rv_created_at = now\<rparr>)"

text \<open>
  Statements: 0 session lookup, 1 begin, 2 maximum, 3 insert, 4 and 5 publish, 6 commit.
  \<open>now\<close> is read once for the document and \<open>later\<close> for the publication time.
\<close>

definition CreateConfigRevision ::
  "golib \<Rightarrow> collation \<Rightarrow> faults \<Rightarrow> gotime \<Rightarrow> gotime \<Rightarrow> string \<Rightarrow> auth_db \<Rightarrow> revisions \<Rightarrow> request \<Rightarrow>
     create_request option \<Rightarrow> revisions \<times> created_payload config_reply" where
  "CreateConfigRevision L ck f now later upstream a rs r body =
     (if upstream \<noteq> [] then (rs, Reply (Error 405 (mirror_error upstream)))
      else case body of
        None \<Rightarrow> (rs, Reply (Error 400 ''invalid JSON''))
      | Some req \<Rightarrow>
          if cr_Document req = [] then (rs, Reply (Error 400 ''document is required''))
          else if int (length (cr_Document req)) > MaxDocumentBytes
            then (rs, Reply (Error 413 ''document exceeds the 1 MiB size cap''))
          else case Parse L (cr_Document req) of
            (None, problems) \<Rightarrow> (rs, Problems 422 ''invalid document'' problems)
          | (Some doc0, problems) \<Rightarrow>
            if problems \<noteq> [] then (rs, Problems 422 ''invalid document'' problems)
            else
              let warnings = revisionEchoWarnings L (cr_Document req);
                  createdBy = Username ck (f 0) now a r;
                  revision = next_revision rs;
                  doc = stamped revision now doc0;
                  row = draft_row L revision now doc (cr_Notes req) createdBy None
              in if f 1 then (rs, Reply (Error 500 ''failed to begin transaction''))
                 else if f 2 then (rs, Reply (Error 500 ''failed to allocate revision''))
                 else if f 3 then (rs, Reply (Error 500 ''failed to create revision''))
                 else case insert_revision row rs of
                   None \<Rightarrow> (rs, Reply (Error 500 ''failed to create revision''))
                 | Some rs1 \<Rightarrow>
                     (case (if cr_Publish req then publishRevisionTx (shift_faults 4 f) later revision rs1
                            else Some rs1) of
                        None \<Rightarrow> (rs, Reply (Error 500 ''failed to publish''))
                      | Some rs2 \<Rightarrow>
                          if f 6 then (rs, Reply (Error 500 ''failed to commit''))
                          else (rs2, Reply (Created
                            \<lparr>cp_revision = revision, cp_schema_version = doc_SchemaVersion doc,
                             cp_status = (if cr_Publish req then Published else Draft), cp_document = doc,
                             cp_etag = rv_etag row, cp_notes = cr_Notes req, cp_created_by = createdBy,
                             cp_generated_at = now,
                             cp_published_at = (if cr_Publish req then Some later else None),
                             cp_warnings = warnings\<rparr>))))"

text \<open>Statements: 0 begin, 1 status, 2 current, 3 and 4 publish, 5 commit, 6 read back.\<close>

definition PublishConfigRevision ::
  "faults \<Rightarrow> gotime \<Rightarrow> string \<Rightarrow> revisions \<Rightarrow> string \<Rightarrow> revisions \<times> revision_row response" where
  "PublishConfigRevision f now upstream rs param =
     (if upstream \<noteq> [] then (rs, Error 405 (mirror_error upstream))
      else case Atoi param of
        None \<Rightarrow> (rs, Error 400 ''invalid revision'')
      | Some n \<Rightarrow>
          if f 0 then (rs, Error 500 ''failed to begin transaction'')
          else if f 1 then (rs, Error 500 ''failed to fetch revision'')
          else case fetch_revision n rs of
            None \<Rightarrow> (rs, Error 404 ''revision not found'')
          | Some row \<Rightarrow>
              if rv_status row = Published then (rs, Error 409 ''already published'')
              else if rv_status row = Superseded
                then (rs, Error 409 ''superseded; use rollback to republish its content'')
              else if f 2 then (rs, Error 500 ''failed to check current published revision'')
              else if (case published_row rs of None \<Rightarrow> False | Some p \<Rightarrow> n \<le> rv_revision p)
                then (rs, Error 409 ''a newer revision has been published since; create a new draft'')
              else case publishRevisionTx (shift_faults 3 f) now n rs of
                None \<Rightarrow> (rs, Error 409 ''revision is not a draft'')
              | Some rs' \<Rightarrow>
                  if f 5 then (rs, Error 500 ''failed to commit'')
                  else if f 6 then (rs', Error 500 ''failed to fetch published revision'')
                  else case fetch_revision n rs' of
                    None \<Rightarrow> (rs', Error 500 ''failed to fetch published revision'')
                  | Some row' \<Rightarrow> (rs', OK row'))"

text \<open>
  Statements: 0 begin, 1 source, 2 maximum, 3 session lookup, 4 insert, 5 and 6 publish,
  7 commit, 8 read back.
\<close>

definition RollbackConfig ::
  "golib \<Rightarrow> collation \<Rightarrow> faults \<Rightarrow> gotime \<Rightarrow> gotime \<Rightarrow> string \<Rightarrow> auth_db \<Rightarrow> revisions \<Rightarrow> request \<Rightarrow>
     (int \<times> string ptr) option \<Rightarrow> revisions \<times> revision_row config_reply" where
  "RollbackConfig L ck f now later upstream a rs r body =
     (if upstream \<noteq> [] then (rs, Reply (Error 405 (mirror_error upstream)))
      else case body of
        None \<Rightarrow> (rs, Reply (Error 400 ''invalid JSON''))
      | Some (to, notes) \<Rightarrow>
          if to \<le> 0 then (rs, Reply (Error 400 ''to is required''))
          else if f 0 then (rs, Reply (Error 500 ''failed to begin transaction''))
          else if f 1 then (rs, Reply (Error 500 ''failed to fetch source revision''))
          else case find (\<lambda>x. rv_revision x = to \<and> rv_status x \<noteq> Draft) rs of
            None \<Rightarrow> (rs, Reply (Error 404 ''source revision not found (or is still a draft)''))
          | Some source \<Rightarrow>
            (case Parse L (rv_document source) of
               (None, problems) \<Rightarrow>
                 (rs, Problems 422 ''source revision no longer validates under the current rules'' problems)
             | (Some doc0, problems) \<Rightarrow>
               if problems \<noteq> [] then
                 (rs, Problems 422 ''source revision no longer validates under the current rules'' problems)
               else if f 2 then (rs, Reply (Error 500 ''failed to allocate revision''))
               else
                 let newRevision = next_revision rs;
                     createdBy = Username ck (f 3) now a r;
                     row = draft_row L newRevision now (stamped newRevision now doc0) notes createdBy (Some to)
                 in if f 4 then (rs, Reply (Error 500 ''failed to create rollback revision''))
                    else case insert_revision row rs of
                      None \<Rightarrow> (rs, Reply (Error 500 ''failed to create rollback revision''))
                    | Some rs1 \<Rightarrow>
                        (case publishRevisionTx (shift_faults 5 f) later newRevision rs1 of
                           None \<Rightarrow> (rs, Reply (Error 500 ''failed to publish rollback''))
                         | Some rs2 \<Rightarrow>
                             if f 7 then (rs, Reply (Error 500 ''failed to commit''))
                             else if f 8 then (rs2, Reply (Error 500 ''failed to fetch rolled-back revision''))
                             else case fetch_revision newRevision rs2 of
                               None \<Rightarrow> (rs2, Reply (Error 500 ''failed to fetch rolled-back revision''))
                             | Some row' \<Rightarrow> (rs2, Reply (Created row')))))"

section \<open>Preview\<close>

record preview_host =
  prh_HWID :: string
  prh_Hostname :: string
  prh_DC :: string
  prh_IPs :: "string list"
  prh_Domain :: string
  prh_Now :: "string ptr"

record preview_request =
  pr_Revision :: "int ptr"
  pr_Document :: "string ptr"
  pr_Host :: preview_host

record preview_payload =
  pp_revision :: int
  pp_effective :: Document
  pp_applied :: "string list"
  pp_matched_site :: "string ptr"
  pp_chain :: "string list"

text \<open>
  The document to preview: inline and validated, or stored and re-validated. Statement 0
  reads the stored one.
\<close>

definition preview_document ::
  "golib \<Rightarrow> faults \<Rightarrow> revisions \<Rightarrow> preview_request \<Rightarrow> preview_payload config_reply + Document" where
  "preview_document L f rs req =
     (case pr_Document req of
        Some document \<Rightarrow>
          (case Parse L document of
             (Some doc, []) \<Rightarrow> Inr doc
           | (_, problems) \<Rightarrow> Inl (Problems 422 ''invalid document'' problems))
      | None \<Rightarrow>
          if f 0 then Inl (Reply (Error 500 ''failed to fetch revision''))
          else case fetch_revision (case pr_Revision req of None \<Rightarrow> 0 | Some n \<Rightarrow> n) rs of
            None \<Rightarrow> Inl (Reply (Error 404 ''revision not found''))
          | Some row \<Rightarrow>
              (case Parse L (rv_document row) of
                 (Some doc, []) \<Rightarrow> Inr doc
               | _ \<Rightarrow> Inl (Reply (Error 500 ''stored revision failed to re-validate''))))"

text \<open>\<open>order\<close> gives the iteration order of the effective document's site map.\<close>

definition PreviewConfig ::
  "golib \<Rightarrow> faults \<Rightarrow> gotime \<Rightarrow> (Document \<Rightarrow> (string \<times> Site) list) \<Rightarrow> revisions \<Rightarrow>
     preview_request option \<Rightarrow> preview_payload config_reply" where
  "PreviewConfig L f clock order rs body =
     (case body of
        None \<Rightarrow> Reply (Error 400 ''invalid JSON'')
      | Some req \<Rightarrow>
          let hasRevision = (pr_Revision req \<noteq> None);
              hasDocument = (case pr_Document req of None \<Rightarrow> False | Some d \<Rightarrow> d \<noteq> [])
          in if hasRevision = hasDocument
             then Reply (Error 400 ''exactly one of revision or document is required'')
             else case preview_document L f rs
                    (if hasDocument then req else req\<lparr>pr_Document := None\<rparr>) of
               Inl err \<Rightarrow> err
             | Inr doc \<Rightarrow>
                 let ph = pr_Host req;
                     nowText = (case prh_Now ph of None \<Rightarrow> [] | Some s \<Rightarrow> s);
                     go = (\<lambda>t. let h = \<lparr>h_HWID = prh_HWID ph, h_Hostname = prh_Hostname ph, h_DC = prh_DC ph,
                                       h_Domain = prh_Domain ph, h_IPs = prh_IPs ph, h_Now = t\<rparr>;
                                   (effective, applied) = Effective clock doc h;
                                   (site, chain) = ResolveSite (order effective) effective h
                               in Reply (OK \<lparr>pp_revision = doc_Revision doc, pp_effective = effective,
                                    pp_applied = applied, pp_matched_site = site, pp_chain = chain\<rparr>))
                 in if nowText = [] then go 0
                    else case ParseRFC3339 nowText of
                      None \<Rightarrow> Reply (Error 400 ''host.now must be RFC3339'')
                    | Some t \<Rightarrow> go t)"

section \<open>The store invariant\<close>

interpretation published: exclusive_flag
  "\<lambda>r. rv_status r = Published" "\<lambda>r. r\<lparr>rv_status := Superseded\<rparr>"
  "\<lambda>r. r\<lparr>rv_status := Published, rv_published_at := Some now\<rparr>" for now
  by unfold_locales auto

text \<open>
  Revision numbers are unique, at most one revision is published, and a superseded revision
  has a published successor with a higher number.
\<close>

definition store_ok :: "revisions \<Rightarrow> bool" where
  "store_ok rs \<longleftrightarrow> distinct (map rv_revision rs) \<and> at_most_one (\<lambda>r. rv_status r = Published) rs \<and>
     (\<forall>r \<in> set rs. rv_status r = Superseded \<longrightarrow>
        (\<exists>p \<in> set rs. rv_status p = Published \<and> rv_revision r < rv_revision p))"

definition published_revision :: "revisions \<Rightarrow> int option" where
  "published_revision rs = map_option rv_revision (published_row rs)"

lemma store_ok_Nil [simp]: "store_ok []"
  by (simp add: store_ok_def at_most_one_def)

lemma published_row_Some:
  "published_row rs = Some p \<Longrightarrow> p \<in> set rs \<and> rv_status p = Published"
  by (auto simp: published_row_def dest: find_SomeD)

lemma published_row_None: "published_row rs = None \<longleftrightarrow> (\<forall>r \<in> set rs. rv_status r \<noteq> Published)"
  by (auto simp: published_row_def find_None_iff)

lemma published_row_unique:
  assumes "at_most_one (\<lambda>r. rv_status r = Published) rs" "p \<in> set rs" "rv_status p = Published"
  shows "published_row rs = Some p"
proof (cases "published_row rs")
  case None
  with assms show ?thesis by (auto simp: published_row_None)
next
  case (Some q)
  with published_row_Some [OF Some] at_most_one_unique [OF assms(1)] assms show ?thesis by metis
qed

lemma fold_max_ge:
  fixes x :: int
  shows "x \<le> fold max xs x \<and> (\<forall>y \<in> set xs. y \<le> fold max xs x)"
proof (induction xs arbitrary: x)
  case (Cons a xs)
  from Cons [of "max a x"] show ?case by auto
qed simp

lemma next_revision_gt: "r \<in> set rs \<Longrightarrow> rv_revision r < next_revision rs"
  using fold_max_ge [where xs = "map rv_revision rs" and x = "rv_revision (hd rs)"]
  by (fastforce simp: next_revision_def max_revision_def)

lemma insert_revision_ok:
  assumes "store_ok rs" "insert_revision r rs = Some rs1" "rv_status r = Draft"
  shows "store_ok rs1" "rs1 = rs @ [r]"
  using assms by (auto simp: store_ok_def insert_revision_def at_most_one_append split: if_splits)

lemma rv_revision_clear [simp]:
  "map rv_revision (clear_flag flag (\<lambda>r. r\<lparr>rv_status := st\<rparr>) rs) = map rv_revision rs"
  by (auto simp: clear_flag_def)

lemma rv_revision_set [simp]:
  "map rv_revision (set_flag sel (\<lambda>r. r\<lparr>rv_status := st, rv_published_at := u\<rparr>) rs) = map rv_revision rs"
  by (auto simp: set_flag_def)

text \<open>Publishing a draft newer than everything published so far keeps the invariant.\<close>

lemma publish_effect:
  assumes ok: "store_ok rs" and p: "publishRevisionTx f now n rs = Some rs'"
    and newer: "\<forall>q \<in> set rs. rv_status q = Published \<longrightarrow> rv_revision q < n"
  shows "store_ok rs'" "published_revision rs' = Some n" "map rv_revision rs' = map rv_revision rs"
proof -
  let ?rs1 = "clear_flag (\<lambda>r. rv_status r = Published) (\<lambda>r. r\<lparr>rv_status := Superseded\<rparr>) rs"
  let ?sel = "\<lambda>r. rv_revision r = n \<and> rv_status r = Draft"
  let ?put = "\<lambda>r. r\<lparr>rv_status := Published, rv_published_at := Some now\<rparr>"
  have rs': "rs' = set_flag ?sel ?put ?rs1" and ex: "\<exists>r \<in> set ?rs1. ?sel r"
    using p by (auto simp: publishRevisionTx_def Let_def list_ex_iff split: if_splits)
  have d: "distinct (map rv_revision ?rs1)" using ok by (simp add: store_ok_def)
  have one: "at_most_one (\<lambda>r. rv_status r = Published) rs'"
    unfolding rs' by (rule published.exclusive [OF at_most_one_key [OF d]])
  from ex obtain r where r: "r \<in> set ?rs1" "?sel r" by blast
  then have q: "?put r \<in> set rs'" unfolding rs' set_flag_def by force
  have lt: "rv_revision x < n" if "x \<in> set rs'" "rv_status x = Superseded" for x
  proof -
    from that obtain y where y: "y \<in> set rs" "rv_revision x = rv_revision y"
        "rv_status y = Published \<or> rv_status y = Superseded"
      unfolding rs' set_flag_def clear_flag_def by (auto split: if_splits)
    with newer ok show ?thesis by (auto simp: store_ok_def dest: order_less_trans)
  qed
  show "store_ok rs'" unfolding store_ok_def
  proof (intro conjI ballI impI)
    show "distinct (map rv_revision rs')" using d unfolding rs' by simp
    show "at_most_one (\<lambda>r. rv_status r = Published) rs'" by (rule one)
    show "\<exists>p \<in> set rs'. rv_status p = Published \<and> rv_revision x < rv_revision p"
      if "x \<in> set rs'" "rv_status x = Superseded" for x
      using lt [OF that] q r(2) by (intro bexI [of _ "?put r"]) auto
  qed
  show "published_revision rs' = Some n"
    using published_row_unique [OF one q] r(2) by (simp add: published_revision_def)
  show "map rv_revision rs' = map rv_revision rs" unfolding rs' by simp
qed

text \<open>The fleet never sees the published number go down.\<close>

definition not_older :: "revisions \<Rightarrow> revisions \<Rightarrow> bool" where
  "not_older rs rs' \<longleftrightarrow>
     (\<forall>m. published_revision rs = Some m \<longrightarrow> (\<exists>n. published_revision rs' = Some n \<and> m \<le> n))"

lemma not_older_refl [simp]: "not_older rs rs"
  by (simp add: not_older_def)

lemma not_older_trans: "not_older a b \<Longrightarrow> not_older b c \<Longrightarrow> not_older a c"
  unfolding not_older_def by (meson order_trans)

lemma publish_step:
  assumes "store_ok rs" "publishRevisionTx f now n rs = Some rs'"
    and "\<forall>q \<in> set rs. rv_status q = Published \<longrightarrow> rv_revision q < n"
  shows "store_ok rs' \<and> not_older rs rs'"
proof -
  have "m \<le> n" if "published_revision rs = Some m" for m
    using that assms(3) by (fastforce simp: published_revision_def dest: published_row_Some)
  with publish_effect [OF assms] show ?thesis by (simp add: not_older_def)
qed

lemma insert_publish_step:
  assumes ok: "store_ok rs" and i: "insert_revision row rs = Some rs1" and d: "rv_status row = Draft"
    and n: "rv_revision row = next_revision rs"
    and p: "publishRevisionTx f now (next_revision rs) rs1 = Some rs2"
  shows "store_ok rs2 \<and> not_older rs rs2"
proof -
  note i' = insert_revision_ok [OF ok i d]
  have "\<forall>q \<in> set rs1. rv_status q = Published \<longrightarrow> rv_revision q < next_revision rs"
    using i'(2) d next_revision_gt by auto
  with publish_step [OF i'(1) p] have "store_ok rs2" "not_older rs1 rs2" by blast+
  moreover have "published_revision rs1 = published_revision rs"
    using i'(2) d by (simp add: published_revision_def published_row_def find_append split: option.splits)
  ultimately show ?thesis by (simp add: not_older_def)
qed

lemma insert_draft_step:
  assumes "store_ok rs" "insert_revision row rs = Some rs1" "rv_status row = Draft"
  shows "store_ok rs1 \<and> not_older rs rs1"
  using insert_revision_ok [OF assms] assms(3)
  by (simp add: not_older_def published_revision_def published_row_def find_append split: option.splits)

lemma rv_draft_row [simp]:
  "rv_status (draft_row L n now d notes by b) = Draft" "rv_revision (draft_row L n now d notes by b) = n"
  by (simp_all add: draft_row_def case_prod_unfold Let_def)

lemma Delete_step: "store_ok rs \<Longrightarrow> store_ok (fst (DeleteConfigRevision f up rs n)) \<and>
    not_older rs (fst (DeleteConfigRevision f up rs n))"
proof -
  assume ok: "store_ok rs"
  have k: "store_ok (filter (\<lambda>r. \<not> (rv_revision r = m \<and> rv_status r = Draft)) rs)" for m
    using ok at_most_one_subset
    by (auto simp: store_ok_def distinct_map_filter simp del: de_Morgan_conj) force+
  have p: "published_row (filter (\<lambda>r. \<not> (rv_revision r = m \<and> rv_status r = Draft)) rs) = published_row rs" for m
    unfolding published_row_def by (induction rs) auto
  show ?thesis using ok k p
    by (auto simp: DeleteConfigRevision_def not_older_def published_revision_def split: option.splits)
qed

lemma Create_step:
  assumes ok: "store_ok rs"
  shows "store_ok (fst (CreateConfigRevision L ck f now later up a rs r body)) \<and>
    not_older rs (fst (CreateConfigRevision L ck f now later up a rs r body))"
proof -
  let ?n = "next_revision rs"
  have d: "store_ok rs1 \<and> not_older rs rs1"
    if "insert_revision (draft_row L ?n now d n' b c) rs = Some rs1" for d n' b c rs1
    using insert_draft_step [OF ok that] by simp
  have p: "store_ok rs2 \<and> not_older rs rs2"
    if "insert_revision (draft_row L ?n now d n' b c) rs = Some rs1" "publishRevisionTx g later ?n rs1 = Some rs2"
    for d n' b c rs1 g rs2
    using insert_publish_step [OF ok that(1) _ _ that(2)] by simp
  show ?thesis using ok d p
    by (auto simp: CreateConfigRevision_def Let_def split: option.splits prod.splits if_splits)
qed

lemma Publish_step:
  assumes ok: "store_ok rs"
  shows "store_ok (fst (PublishConfigRevision f now up rs n)) \<and>
    not_older rs (fst (PublishConfigRevision f now up rs n))"
proof -
  have p: "store_ok rs' \<and> not_older rs rs'"
    if pub: "publishRevisionTx g now m rs = Some rs'"
      and nw: "\<not> (case published_row rs of None \<Rightarrow> False | Some p \<Rightarrow> m \<le> rv_revision p)" for g m rs'
  proof (rule publish_step [OF ok pub])
    show "\<forall>q \<in> set rs. rv_status q = Published \<longrightarrow> rv_revision q < m"
      using nw ok published_row_unique by (force simp: store_ok_def published_row_None)
  qed
  show ?thesis
    unfolding PublishConfigRevision_def if_distrib [of fst] if_distrib [of store_ok] if_distrib [of "not_older rs"]
    using ok p by (simp del: option.case_distrib split: option.split)
qed

lemma Rollback_step:
  assumes ok: "store_ok rs"
  shows "store_ok (fst (RollbackConfig L ck f now later up a rs r body)) \<and>
    not_older rs (fst (RollbackConfig L ck f now later up a rs r body))"
proof -
  let ?n = "next_revision rs"
  have p: "store_ok rs2 \<and> not_older rs rs2"
    if "insert_revision (draft_row L ?n now d n' b c) rs = Some rs1" "publishRevisionTx g later ?n rs1 = Some rs2"
    for d n' b c rs1 g rs2
    using insert_publish_step [OF ok that(1) _ _ that(2)] by simp
  show ?thesis using ok p
    by (auto simp: RollbackConfig_def Let_def split: option.splits prod.splits if_splits)
qed

section \<open>Reachable stores\<close>

text \<open>Any sequence of write requests, with any pattern of database failures.\<close>

inductive store_step :: "revisions \<Rightarrow> revisions \<Rightarrow> bool" where
  Create: "store_step rs (fst (CreateConfigRevision L ck f now later up a rs r body))"
| Publish: "store_step rs (fst (PublishConfigRevision f now up rs n))"
| Rollback: "store_step rs (fst (RollbackConfig L ck f now later up a rs r rb))"
| Delete: "store_step rs (fst (DeleteConfigRevision f up rs n))"

inductive_cases store_stepE: "store_step rs rs'"

lemma store_step_ok: "store_step rs rs' \<Longrightarrow> store_ok rs \<Longrightarrow> store_ok rs' \<and> not_older rs rs'"
  by (erule store_stepE) (simp_all add: Create_step Publish_step Rollback_step Delete_step)

lemma store_steps_ok: "store_step\<^sup>*\<^sup>* rs rs' \<Longrightarrow> store_ok rs \<Longrightarrow> store_ok rs' \<and> not_older rs rs'"
  by (induction rule: rtranclp_induct) (auto dest: store_step_ok intro: not_older_trans)

section \<open>Stamping keeps a document valid\<close>

lemma dec_Document_iff:
  "dec_Document (JObj t) = Some d \<longleftrightarrow>
    dec_int (field_get ''schemaVersion'' t) = Some (doc_SchemaVersion d) \<and>
    dec_int (field_get ''revision'' t) = Some (doc_Revision d) \<and>
    dec_string (field_get ''generatedAt'' t) = Some (doc_GeneratedAt d) \<and>
    dec_ptr dec_Refresh (field_get ''refresh'' t) = Some (doc_Refresh d) \<and>
    dec_map dec_string (field_get ''servers'' t) = Some (doc_Servers d) \<and>
    dec_string (field_get ''defaultServer'' t) = Some (doc_DefaultServer d) \<and>
    dec_ptr dec_IPCProtocol (field_get ''ipcProtocol'' t) = Some (doc_IPCProtocol d) \<and>
    dec_map dec_Site (field_get ''dcLookupMap'' t) = Some (doc_DCLookupMap d) \<and>
    dec_ptr dec_HostIntegrity (field_get ''hostIntegrity'' t) = Some (doc_HostIntegrity d) \<and>
    dec_ptr dec_Control (field_get ''control'' t) = Some (doc_Control d) \<and>
    dec_ptr dec_UpdaterTuning (field_get ''updater'' t) = Some (doc_Updater d) \<and>
    dec_ptr dec_Logging (field_get ''logging'' t) = Some (doc_Logging d) \<and>
    dec_ptr dec_ToggleOnly (field_get ''clientWs'' t) = Some (doc_ClientWS d) \<and>
    dec_list dec_Override (field_get ''overrides'' t) = Some (doc_Overrides d)"
  (is "?l \<longleftrightarrow> ?r")
proof
  show "?l \<Longrightarrow> ?r" by (rule dec_Document_fields)
  show "?r \<Longrightarrow> ?l" by (cases d) (simp add: dec_Document_def)
qed

lemma stamped_fields [simp]:
  "doc_SchemaVersion (stamped n t d) = doc_SchemaVersion d" "doc_Revision (stamped n t d) = n"
  "doc_GeneratedAt (stamped n t d) = FormatRFC3339 t" "doc_Refresh (stamped n t d) = doc_Refresh d"
  "doc_Servers (stamped n t d) = doc_Servers d" "doc_DefaultServer (stamped n t d) = doc_DefaultServer d"
  "doc_IPCProtocol (stamped n t d) = doc_IPCProtocol d" "doc_DCLookupMap (stamped n t d) = doc_DCLookupMap d"
  "doc_HostIntegrity (stamped n t d) = doc_HostIntegrity d" "doc_Control (stamped n t d) = doc_Control d"
  "doc_Updater (stamped n t d) = doc_Updater d" "doc_Logging (stamped n t d) = doc_Logging d"
  "doc_ClientWS (stamped n t d) = doc_ClientWS d" "doc_Overrides (stamped n t d) = doc_Overrides d"
  by (simp_all add: stamped_def)

lemma doc_tree_stamped:
  "k \<notin> {''revision'', ''generatedAt''} \<Longrightarrow> map_of (doc_tree (stamped n now d)) k = map_of (doc_tree d) k"
  by (cases "doc_ClientWS d")
     (simp_all add: obj_of_def enc_Document_def stamped_def map_of_go_map_of)

lemma patch_fold_agree:
  assumes "\<And>k. k \<notin> S \<Longrightarrow> map_of t1 k = map_of t2 k" and "S \<inter> set AllowedPatchKeys = {}" and "k \<notin> S"
  shows "map_of (patch_fold p t1) k = map_of (patch_fold p t2) k"
  using assms
proof (induction p arbitrary: t1 t2)
  case (Cons e p)
  obtain a v where e: "e = (a, v)" by (cases e)
  show ?case
  proof (cases "a \<in> set AllowedPatchKeys")
    case True
    then have "a \<notin> S" using Cons.prems(2) by blast
    then have "obj_get a t1 = obj_get a t2" using Cons.prems(1) by (simp add: obj_get_def)
    then have "map_of (map_put a (mergePatch (obj_get a t1) v) t1) k =
        map_of (map_put a (mergePatch (obj_get a t2) v) t2) k" if "k \<notin> S" for k
      using Cons.prems(1) [OF that] by simp
    from Cons.IH [OF this Cons.prems(2,3)] True e show ?thesis by simp
  next
    case False
    with Cons.IH [OF Cons.prems] e show ?thesis by simp
  qed
qed simp

lemma applyPatch_stamped:
  assumes a: "applyPatchToDocument d p = Some d'" and ok: "ok_Document d" and n: "int64_range n"
  shows "applyPatchToDocument (stamped n now d) p = Some (stamped n now d')"
proof (cases "elems p = []")
  case True
  with a show ?thesis by (simp add: applyPatchToDocument_def)
next
  case False
  let ?s = "stamped n now d"
  let ?S = "{''revision'', ''generatedAt''}"
  let ?t = "patch_fold (elems p) (doc_tree d)" and ?u = "patch_fold (elems p) (doc_tree ?s)"
  have oks: "ok_Document ?s" using ok n by (simp add: ok_Document_def)
  have r: "applyPatchToDocument x p = dec_Document (JObj (patch_fold (elems p) (doc_tree x)))" for x
    using False by (simp add: applyPatchToDocument_def Let_def obj_of_def)
  have dt: "dec_Document (JObj ?t) = Some d'" using a r by simp
  have kt: "sorted_keys ?t" "fst ` set ?t \<subseteq> set doc_keys" "sorted_keys ?u" "fst ` set ?u \<subseteq> set doc_keys"
    using patch_fold_keys [OF doc_tree_facts(1,2)] by blast+
  have S: "?S \<inter> set AllowedPatchKeys = {}" by (simp add: AllowedPatchKeys_def)
  have same: "field_get k ?u = field_get k ?t" if "k \<in> set doc_keys" "k \<notin> ?S" for k
    using patch_fold_agree [where ?t1.0 = "doc_tree ?s" and ?t2.0 = "doc_tree d" and S = ?S, OF doc_tree_stamped S that(2)]
      field_get_doc [OF kt(1,2) that(1)] field_get_doc [OF kt(3,4) that(1)]
    by (simp add: obj_get_def)
  have own: "field_get k ?u = field_get k (doc_tree ?s)" if "k \<in> set doc_keys" "k \<in> ?S" for k
  proof -
    have "map_of ?u k = map_of (doc_tree ?s) k" using S that(2) by (intro patch_fold_other) auto
    with that(1) kt show ?thesis
      by (simp add: field_get_doc obj_get_def doc_tree_facts)
  qed
  have ds: "dec_Document (JObj (doc_tree ?s)) = Some ?s"
    using oks by (simp add: doc_tree_facts Document_codec.dec_norm)
  have "dec_Document (JObj ?u) = Some (stamped n now d')"
    using dt ds unfolding dec_Document_iff by (simp add: same own doc_keys_def)
  then show ?thesis using r by simp
qed

lemma doc_valid_stamped:
  assumes v: "doc_valid L d" and ok: "ok_Document d" and n: "0 \<le> n" "int64_range n" and t: "clock_time now"
  shows "doc_valid L (stamped n now d)"
proof -
  let ?s = "stamped n now d"
  have k: "known_server ?s = known_server d"
    by (simp add: fun_eq_iff known_server_def)
  have "patch_ok ?s ov" if p: "patch_ok d ov" for ov
  proof -
    obtain d' where d': "applyPatchToDocument d (ov_Patch ov) = Some d'"
      "doc_DefaultServer d' = [] \<or> known_server d (doc_DefaultServer d')"
      "control_ok (doc_Control d')" "updater_ok (doc_Updater d')" "logging_ok (doc_Logging d')"
      using p by (auto simp: patch_ok_def)
    with applyPatch_stamped [OF d'(1) ok n(2), of now] show ?thesis
      by (auto simp: patch_ok_def k)
  qed
  moreover have "site_ok ?s = site_ok d" by (simp add: fun_eq_iff site_ok_def k)
  ultimately show ?thesis
    using v n(1) Parse_Format [OF t] by (auto simp: doc_valid_def k)
qed

section \<open>What a created revision stores\<close>

text \<open>The JSON text layer reads back what it wrote for this document.\<close>

definition text_roundtrip :: "golib \<Rightarrow> Document \<Rightarrow> bool" where
  "text_roundtrip L d \<longleftrightarrow> json_parse L (json_print L (enc_Document d)) = Some (enc_Document d)"

lemma Canonical_reparses:
  assumes "doc_valid L d" "ok_Document d" "text_roundtrip L d"
    and "int (length (fst (Canonical L d))) \<le> MaxDocumentBytes"
  shows "Parse L (fst (Canonical L d)) = (Some d, [])"
  using assms by (simp add: Parse_accept Canonical_def Let_def text_roundtrip_def Document_codec.dec_enc)

lemma insert_in_range: "insert_revision r rs = Some rs' \<Longrightarrow> 0 \<le> rv_revision r \<and> int64_range (rv_revision r)"
  by (auto simp: insert_revision_def int64_range_def split: if_splits)

lemma set_flag_member:
  "x \<in> set (set_flag sel g (clear_flag flag h rows)) \<Longrightarrow>
     \<exists>y \<in> set rows. x \<in> {y, h y, g y, g (h y)}"
  by (auto simp: set_flag_def clear_flag_def split: if_splits)

lemma Create_row:
  assumes "CreateConfigRevision L ck f now later up a rs r (Some req) = (rs', Reply (Created pl))"
  shows "\<exists>doc. Parse L (cr_Document req) = (Some doc, []) \<and>
    cp_revision pl = next_revision rs \<and> cp_document pl = stamped (next_revision rs) now doc \<and>
    0 \<le> next_revision rs \<and> int64_range (next_revision rs) \<and>
    (\<exists>row \<in> set rs'. rv_revision row = next_revision rs \<and>
       rv_document row = fst (Canonical L (cp_document pl)) \<and> rv_etag row = snd (Canonical L (cp_document pl)) \<and>
       (cr_Publish req \<longrightarrow> rv_status row = Published))"
proof -
  obtain doc where doc: "Parse L (cr_Document req) = (Some doc, [])"
    using assms by (auto simp: CreateConfigRevision_def split: if_splits prod.splits option.splits)
  let ?n = "next_revision rs"
  let ?d = "stamped ?n now doc"
  let ?row = "draft_row L ?n now ?d (cr_Notes req) (Username ck (f 0) now a r) None"
  obtain rs1 where i: "insert_revision ?row rs = Some rs1"
    and pub: "(if cr_Publish req then publishRevisionTx (shift_faults 4 f) later ?n rs1 else Some rs1) = Some rs'"
    and pl: "cp_revision pl = ?n" "cp_document pl = ?d"
    using assms doc by (auto simp: CreateConfigRevision_def Let_def split: if_splits option.splits)
  have rs1: "rs1 = rs @ [?row]" using i by (auto simp: insert_revision_def split: if_splits)
  have row: "rv_document ?row = fst (Canonical L ?d)" "rv_etag ?row = snd (Canonical L ?d)"
    by (simp_all add: draft_row_def case_prod_unfold Let_def)
  have "\<exists>x \<in> set rs'. rv_revision x = ?n \<and> rv_document x = fst (Canonical L ?d) \<and> rv_etag x = snd (Canonical L ?d) \<and>
       (cr_Publish req \<longrightarrow> rv_status x = Published)"
  proof (cases "cr_Publish req")
    case False
    with pub rs1 row show ?thesis by (auto intro!: bexI [of _ ?row])
  next
    case True
    let ?put = "\<lambda>r. r\<lparr>rv_status := Published, rv_published_at := Some later\<rparr>"
    have "?put ?row \<in> set rs'"
      using pub True rs1 by (auto simp: publishRevisionTx_def Let_def set_flag_def clear_flag_def split: if_splits)
    with row show ?thesis by (auto intro!: bexI [of _ "?put ?row"])
  qed
  with doc pl insert_in_range [OF i] show ?thesis by auto
qed

section \<open>Conditional requests\<close>

lemma TrimChar_quoted:
  "c \<notin> set s \<Longrightarrow> s \<noteq> [] \<Longrightarrow> TrimChar c (c # s @ [c]) = s"
proof -
  assume c: "c \<notin> set s" "s \<noteq> []"
  have h: "hd s \<noteq> c" "hd (rev s) \<noteq> c" using c by (metis hd_in_set) (metis c hd_in_set rev_is_Nil_conv set_rev)
  have d: "dropWhile (\<lambda>x. x = c) s = s" "dropWhile (\<lambda>x. x = c) (rev s) = rev s"
    using h c(2) by (simp_all add: dropWhile_eq_self_iff)
  have "dropWhile (\<lambda>x. x = c) (s @ [c]) = s @ [c]" using h(1) c(2) by (cases s) auto
  with d show ?thesis by (simp add: TrimChar_def)
qed

lemma TrimSpace_id: "s \<noteq> [] \<Longrightarrow> \<not> is_space (hd s) \<Longrightarrow> \<not> is_space (last s) \<Longrightarrow> TrimSpace s = s"
proof -
  assume s: "s \<noteq> []" "\<not> is_space (hd s)" "\<not> is_space (last s)"
  have "dropWhile is_space s = s" "dropWhile is_space (rev s) = rev s"
    using s by (simp_all add: dropWhile_eq_self_iff hd_rev)
  then show ?thesis by (simp add: TrimSpace_def)
qed

lemma hex_not_special:
  assumes "list_all is_hex s"
  shows "CHR 0x22 \<notin> set s" "CHR '','' \<notin> set s"
  using assms by (auto simp: list_all_iff is_hex_def)

lemma etag_hits:
  assumes h: "list_all is_hex etag" and ne: "etag \<noteq> []"
  shows "ifNoneMatchHits (CHR 0x22 # etag @ [CHR 0x22]) etag"
proof -
  let ?q = "CHR 0x22 # etag @ [CHR 0x22]"
  have "Split (CHR '','') ?q = [?q]" using hex_not_special [OF h] by (intro Split_no_sep) auto
  moreover have "TrimSpace ?q = ?q" by (rule TrimSpace_id) (auto simp: is_space_def)
  moreover have "TrimPrefix ?q ''W/'' = ?q" by (simp add: TrimPrefix_def HasPrefix_def)
  ultimately show ?thesis
    using TrimChar_quoted [OF hex_not_special(1) [OF h] ne] ne by (simp add: ifNoneMatchHits_def)
qed

section \<open>Failed requests\<close>

text \<open>A refused request, as opposed to one whose result could not be read back.\<close>

definition refused :: "'a response \<Rightarrow> bool" where
  "refused r = (case r of Error c _ \<Rightarrow> c \<noteq> 500 | _ \<Rightarrow> False)"

definition refused_reply :: "'a config_reply \<Rightarrow> bool" where
  "refused_reply r = (case r of Reply x \<Rightarrow> refused x | Problems _ _ _ \<Rightarrow> True)"

lemma Create_refused:
  "CreateConfigRevision L ck f now later up a rs r body = (rs', rep) \<Longrightarrow> \<forall>pl. rep \<noteq> Reply (Created pl) \<Longrightarrow> rs' = rs"
  by (auto simp: CreateConfigRevision_def Let_def split: if_splits option.splits prod.splits)

lemma Publish_refused:
  "PublishConfigRevision f now up rs n = (rs', rep) \<Longrightarrow> refused rep \<Longrightarrow> rs' = rs"
  by (auto simp: PublishConfigRevision_def refused_def split: if_splits option.splits)

lemma Rollback_refused:
  "RollbackConfig L ck f now later up a rs r body = (rs', rep) \<Longrightarrow> refused_reply rep \<Longrightarrow> rs' = rs"
  by (auto simp: RollbackConfig_def refused_reply_def refused_def Let_def
      split: if_splits option.splits prod.splits)

lemma Delete_refused:
  "DeleteConfigRevision f up rs n = (rs', rep) \<Longrightarrow> rep \<noteq> OK () \<Longrightarrow> rs' = rs"
  by (auto simp: DeleteConfigRevision_def split: if_splits option.splits)

section \<open>Properties\<close>

definition store_lib :: golib where
  "store_lib = sample_lib\<lparr>json_parse := (\<lambda>s. if s = ''D'' then Some (enc_Document (sample_doc []))
      else Some (enc_Document (stamped 1 (64000000000 * second) (sample_doc [])))), json_print := (\<lambda>_. ''C'')\<rparr>"

definition no_auth :: auth_db where
  "no_auth = \<lparr>a_users = [], a_sessions = []\<rparr>"

definition plain_request :: request where
  "plain_request = \<lparr>r_Header = (\<lambda>_. []), r_RemoteAddr = ''10.0.0.1:80''\<rparr>"

definition sample_create :: "revisions \<times> created_payload config_reply" where
  "sample_create = CreateConfigRevision store_lib ToLower no_faults (64000000000 * second) (64000000000 * second)
     [] no_auth [] plain_request (Some \<lparr>cr_Document = ''D'', cr_Notes = None, cr_Publish = True\<rparr>)"

lemma sample_create_result:
  "\<exists>row pl. sample_create = ([row], Reply (Created pl)) \<and> rv_revision row = 1 \<and> rv_status row = Published \<and>
     rv_etag row = ''ab'' \<and> cp_document pl = stamped 1 (64000000000 * second) (sample_doc [])"
proof -
  have v: "doc_valid store_lib (sample_doc [])"
    using sample_valid(1) by (simp add: doc_valid_def store_lib_def server_ok_def)
  then have p: "Parse store_lib ''D'' = (Some (sample_doc []), [])"
    using sample_ok(1) by (simp add: Parse_accept MaxDocumentBytes_def store_lib_def Document_codec.dec_enc)
  have r: "next_revision [] = 1" by (simp add: next_revision_def max_revision_def)
  show ?thesis
    by (simp add: sample_create_def CreateConfigRevision_def p r Let_def MaxDocumentBytes_def insert_revision_def
        publishRevisionTx_def shift_faults_def clear_flag_def set_flag_def draft_row_def Canonical_def)
       (simp add: store_lib_def sample_lib_def)
qed

lemma sample_create_step: "store_step\<^sup>*\<^sup>* [] (fst sample_create)"
  unfolding sample_create_def by (rule r_into_rtranclp) (rule Create)

text \<open>C2: after any sequence of create, publish, rollback and delete requests, with any database
  failures among them, revision numbers are unique, at most one revision is published, and every
  superseded revision is older than the published one.\<close>

theorem reachable_store_is_consistent:
  assumes "store_step\<^sup>*\<^sup>* [] rs"
  shows "distinct (map rv_revision rs) \<and> length (filter (\<lambda>r. rv_status r = Published) rs) \<le> 1 \<and>
    (\<forall>r \<in> set rs. rv_status r = Superseded \<longrightarrow>
       (\<exists>p \<in> set rs. rv_status p = Published \<and> rv_revision r < rv_revision p))"
  using store_steps_ok [OF assms] by (simp add: store_ok_def at_most_one_def)

theorem reachable_store_is_consistent_witness:
  "length (filter (\<lambda>r. rv_status r = Published) (fst sample_create)) \<le> 1"
  using reachable_store_is_consistent [OF sample_create_step] by blast

text \<open>C3: once a revision is published there is always a published one, and its number never goes down,
  whatever requests follow: a lagging mirror cannot be handed an older revision.\<close>

theorem published_revision_never_decreases:
  assumes "store_step\<^sup>*\<^sup>* [] rs" and "store_step\<^sup>*\<^sup>* rs rs'" and "published_revision rs = Some m"
  shows "\<exists>n. published_revision rs' = Some n \<and> m \<le> n"
  using store_steps_ok [OF assms(1)] store_steps_ok [OF assms(2)] assms(3) by (simp add: not_older_def)

theorem published_revision_never_decreases_witness:
  "\<exists>n. published_revision (fst (DeleteConfigRevision no_faults [] (fst sample_create) ''1'')) = Some n \<and> 1 \<le> n"
proof -
  obtain row pl where s: "sample_create = ([row], Reply (Created pl))" "rv_revision row = 1" "rv_status row = Published"
    using sample_create_result by blast
  then have "published_revision (fst sample_create) = Some 1"
    unfolding s(1) by (simp add: published_revision_def published_row_def)
  from published_revision_never_decreases [OF sample_create_step r_into_rtranclp [where r = store_step, OF Delete] this]
  show ?thesis .
qed

text \<open>C6: a created revision gets a number above every existing one, and the bytes stored for it parse
  back, with no problems, to the document the response shows, provided the JSON layer reads back what
  it wrote and the canonical form is within the size cap. So a stored revision can always be
  previewed and rolled back to.\<close>

theorem created_revision_revalidates:
  assumes c: "CreateConfigRevision L ck f now later up a rs r (Some req) = (rs', Reply (Created pl))"
    and t: "clock_time now" and rt: "text_roundtrip L (cp_document pl)"
    and cap: "int (length (fst (Canonical L (cp_document pl)))) \<le> MaxDocumentBytes"
  shows "(\<forall>x \<in> set rs. rv_revision x < cp_revision pl) \<and>
    (\<exists>row \<in> set rs'. rv_revision row = cp_revision pl \<and>
       Parse L (rv_document row) = (Some (cp_document pl), []) \<and> rv_etag row = sha256_hex L (rv_document row))"
proof -
  obtain doc row where doc: "Parse L (cr_Document req) = (Some doc, [])"
    and pl: "cp_revision pl = next_revision rs" "cp_document pl = stamped (next_revision rs) now doc"
    and n: "0 \<le> next_revision rs" "int64_range (next_revision rs)"
    and row: "row \<in> set rs'" "rv_revision row = next_revision rs"
      "rv_document row = fst (Canonical L (cp_document pl))" "rv_etag row = snd (Canonical L (cp_document pl))"
    using Create_row [OF c] by blast
  have v: "doc_valid L doc" "ok_Document doc"
    using doc by (auto simp: Parse_accept bind_eq_Some_conv intro: Document_codec.dec_ok)
  have "doc_valid L (cp_document pl)" unfolding pl by (rule doc_valid_stamped [OF v n t])
  moreover have "ok_Document (cp_document pl)" using v(2) n(2) unfolding pl by (simp add: ok_Document_def)
  ultimately have "Parse L (rv_document row) = (Some (cp_document pl), [])"
    using Canonical_reparses rt cap row(3) by simp
  moreover have "rv_etag row = sha256_hex L (rv_document row)"
    using row(3,4) by (simp add: Canonical_def Let_def)
  ultimately show ?thesis using row(1,2) pl(1) next_revision_gt by auto
qed

theorem created_revision_revalidates_witness:
  "\<exists>row \<in> set (fst sample_create). \<exists>d. Parse store_lib (rv_document row) = (Some d, [])"
proof -
  obtain row pl where s: "sample_create = ([row], Reply (Created pl))"
    and d: "cp_document pl = stamped 1 (64000000000 * second) (sample_doc [])"
    using sample_create_result by blast
  have t: "clock_time (64000000000 * second)" by (simp add: clock_time_def)
  have rt: "text_roundtrip store_lib (cp_document pl)" unfolding d by (simp add: text_roundtrip_def store_lib_def)
  have "int (length (fst (Canonical store_lib (cp_document pl)))) \<le> MaxDocumentBytes"
    by (simp add: Canonical_def Let_def store_lib_def MaxDocumentBytes_def)
  from created_revision_revalidates [OF s [unfolded sample_create_def] t rt this]
  show ?thesis unfolding s fst_conv by blast
qed

text \<open>With a published revision the client gets that revision's exact stored bytes and its quoted
  ETag, and a client that sends this ETag back gets a 304 without a body; with nothing published it
  gets 204.\<close>

theorem GetConfig_conditional_requests:
  assumes "list_all is_hex (rv_etag row)" and "rv_etag row \<noteq> []"
    and "etag = CHR 0x22 # rv_etag row @ [CHR 0x22]"
  shows "(published_row rs = None \<longrightarrow> snd (GetConfig ck no_faults now rs udb r) = GetNoContent) \<and>
    (published_row rs = Some row \<longrightarrow> r_Header r ''If-None-Match'' = [] \<longrightarrow>
       snd (GetConfig ck no_faults now rs udb r) = GetServed etag (Itoa (rv_revision row)) (rv_document row)) \<and>
    (published_row rs = Some row \<longrightarrow> r_Header r ''If-None-Match'' = etag \<longrightarrow>
       snd (GetConfig ck no_faults now rs udb r) = GetNotModified etag (Itoa (rv_revision row)))"
  using etag_hits [OF assms(1,2)] assms(3)
  by (auto simp: GetConfig_def Let_def ifNoneMatchHits_def [of "[]"])

theorem GetConfig_conditional_requests_witness:
  "\<exists>e n d. snd (GetConfig ToLower no_faults 5 (fst sample_create) empty_updater_db plain_request) = GetServed e n d"
proof -
  obtain row pl where s: "sample_create = ([row], Reply (Created pl))"
    and p: "rv_status row = Published" and e: "rv_etag row = ''ab''"
    using sample_create_result by blast
  have "list_all is_hex (rv_etag row)" "rv_etag row \<noteq> []" unfolding e by code_simp+
  moreover have "published_row (fst sample_create) = Some row" unfolding s using p by (simp add: published_row_def)
  moreover have "r_Header plain_request ''If-None-Match'' = []" by (simp add: plain_request_def)
  ultimately show ?thesis using GetConfig_conditional_requests [OF _ _ refl] by blast
qed

text \<open>A write request that is refused, for a bad request, an unknown or wrong-state revision, an
  invalid document or because the instance is a mirror, changes nothing; a create that does not
  answer 201 and a delete that does not answer 200 change nothing even when the database failed.\<close>

theorem refused_writes_change_nothing:
  "(CreateConfigRevision L ck f now later up a rs r body = (rs1, rep1) \<longrightarrow> (\<forall>pl. rep1 \<noteq> Reply (Created pl)) \<longrightarrow> rs1 = rs) \<and>
   (PublishConfigRevision f now up rs n = (rs2, rep2) \<longrightarrow> refused rep2 \<longrightarrow> rs2 = rs) \<and>
   (RollbackConfig L ck f now later up a rs r rb = (rs3, rep3) \<longrightarrow> refused_reply rep3 \<longrightarrow> rs3 = rs) \<and>
   (DeleteConfigRevision f up rs n = (rs4, rep4) \<longrightarrow> rep4 \<noteq> OK () \<longrightarrow> rs4 = rs)"
  by (intro conjI impI) (erule Create_refused Publish_refused Rollback_refused Delete_refused, assumption)+

theorem refused_writes_change_nothing_witness:
  "fst (PublishConfigRevision no_faults 5 ''https://up'' (fst sample_create) ''1'') = fst sample_create"
proof -
  have "PublishConfigRevision no_faults 5 ''https://up'' (fst sample_create) ''1'' =
      (fst sample_create, Error 405 (mirror_error ''https://up''))" by (simp add: PublishConfigRevision_def)
  moreover have "refused (Error 405 (mirror_error ''https://up''))" by (simp add: refused_def)
  ultimately show ?thesis using refused_writes_change_nothing by (metis fst_conv)
qed

text \<open>Deleting the newest draft does free its number: the next revision created gets it again.\<close>

theorem deleted_draft_number_is_reused:
  "let draft = draft_row L 7 now doc None None None;
       rs' = fst (DeleteConfigRevision no_faults [] [draft_row L 6 now doc None None None, draft] ''7'')
   in rs' = [draft_row L 6 now doc None None None] \<and> next_revision rs' = rv_revision draft"
proof -
  have "Atoi ''7'' = Some 7" by code_simp
  then show ?thesis
    by (simp add: DeleteConfigRevision_def next_revision_def max_revision_def)
qed

end
