(* ===== verification/Config_Mirror.thy ===== *)
theory Config_Mirror
  imports Config_Store
begin

text \<open>
  \<open>internal/configmirror/configmirror.go\<close>: a site mirror replicates the published revision of
  its upstream. The upstream is a function from the \<open>If-None-Match\<close> header the mirror sends to
  what comes back; \<open>primary_upstream\<close> is that function when the upstream runs \<open>GetConfig\<close> of this
  API on its own store. The texts of library errors are not modelled.
\<close>

record mirror_state =
  ms_revision :: int
  ms_fetchedAt :: gotime
  ms_lastError :: string

record mirror_snapshot =
  sn_revision :: int
  sn_fetched_at :: "string ptr"
  sn_last_error :: "string ptr"

definition Snapshot :: "mirror_state \<Rightarrow> mirror_snapshot" where
  "Snapshot s =
     \<lparr>sn_revision = ms_revision s,
      sn_fetched_at = (if ms_fetchedAt s = 0 then None else Some (FormatRFC3339 (ms_fetchedAt s))),
      sn_last_error = (if ms_lastError s = [] then None else Some (ms_lastError s))\<rparr>"

definition recordSuccess :: "gotime \<Rightarrow> int \<Rightarrow> mirror_state \<Rightarrow> mirror_state" where
  "recordSuccess now revision s = s\<lparr>ms_revision := revision, ms_fetchedAt := now, ms_lastError := []\<rparr>"

definition recordNoChange :: "gotime \<Rightarrow> mirror_state \<Rightarrow> mirror_state" where
  "recordNoChange now s = s\<lparr>ms_fetchedAt := now, ms_lastError := []\<rparr>"

definition recordError :: "string \<Rightarrow> mirror_state \<Rightarrow> mirror_state" where
  "recordError err s = s\<lparr>ms_lastError := err\<rparr>"

text \<open>A failed exchange, or a status, an ETag header and a body (None when reading it fails).\<close>

datatype upstream_reply = Unreachable string | Replied nat string "string option"

type_synonym upstream = "string \<Rightarrow> upstream_reply"

definition normalizeETag :: "string \<Rightarrow> string" where
  "normalizeETag header = TrimChar (CHR 0x22) (TrimPrefix (TrimSpace header) ''W/'')"

definition currentPublishedETag :: "faults \<Rightarrow> revisions \<Rightarrow> string option" where
  "currentPublishedETag f rs =
     (if f 0 then None else Some (case published_row rs of None \<Rightarrow> [] | Some r \<Rightarrow> rv_etag r))"

text \<open>\<open>INSERT ... ON DUPLICATE KEY UPDATE\<close>: an existing revision keeps its schema version.\<close>

definition put_replicated :: "gotime \<Rightarrow> int \<Rightarrow> int \<Rightarrow> string \<Rightarrow> string \<Rightarrow> gotime \<Rightarrow> revisions \<Rightarrow> revisions option" where
  "put_replicated now revision schemaVersion document etag generatedAt rs =
     (if revision \<in> set (map rv_revision rs) then
        Some (set_flag (\<lambda>r. rv_revision r = revision)
          (\<lambda>r. r\<lparr>rv_status := Published, rv_document := document, rv_etag := etag,
                 rv_generated_at := generatedAt, rv_published_at := Some now\<rparr>) rs)
      else insert_revision
        \<lparr>rv_revision = revision, rv_schema_version = schemaVersion, rv_status = Published,
         rv_document = document, rv_etag = etag, rv_notes = None, rv_created_by = None, rv_based_on = None,
         rv_generated_at = generatedAt, rv_published_at = Some now, rv_created_at = now\<rparr> rs)"

text \<open>Statements: 0 begin, 1 count, 2 supersede, 3 insert, 4 commit. None is an error.\<close>

definition storeReplicatedRevision ::
  "faults \<Rightarrow> gotime \<Rightarrow> int \<Rightarrow> int \<Rightarrow> string \<Rightarrow> string \<Rightarrow> gotime \<Rightarrow> revisions \<Rightarrow> revisions option" where
  "storeReplicatedRevision f now revision schemaVersion document etag generatedAt rs =
     (if f 0 \<or> f 1 then None
      else if list_ex (\<lambda>r. rv_revision r = revision \<and> rv_status r = Published) rs
        then (if f 4 then None else Some rs)
      else if f 2 then None
      else let rs1 = clear_flag (\<lambda>r. rv_status r = Published) (\<lambda>r. r\<lparr>rv_status := Superseded\<rparr>) rs
           in if f 3 then None
              else case put_replicated now revision schemaVersion document etag generatedAt rs1 of
                None \<Rightarrow> None
              | Some rs2 \<Rightarrow> if f 4 then None else Some rs2)"

text \<open>
  The second half of \<open>syncOnce\<close>: what it does with the body of a 200. \<open>Parse\<close> never returns no
  document and no problem, so the second case does not arise.
\<close>

definition accept_document ::
  "golib \<Rightarrow> faults \<Rightarrow> gotime \<Rightarrow> string \<Rightarrow> string \<Rightarrow> revisions \<Rightarrow> mirror_state \<Rightarrow> revisions \<times> mirror_state" where
  "accept_document L f now etagHeader body rs st =
     (case Parse L body of
        (_, problem # _) \<Rightarrow> (rs, recordError (''upstream document failed validation: '' @ Message problem) st)
      | (None, []) \<Rightarrow> (rs, st)
      | (Some doc, []) \<Rightarrow>
          let upstreamETag = normalizeETag etagHeader;
              computedETag = snd (Canonical L doc);
              etag = (if upstreamETag = [] then computedETag else upstreamETag)
          in if upstreamETag \<noteq> [] \<and> upstreamETag \<noteq> computedETag
             then (rs, recordError (''hash mismatch: computed '' @ computedETag @ '' != upstream ETag ''
                     @ upstreamETag) st)
             else case ParseRFC3339 (doc_GeneratedAt doc) of
               None \<Rightarrow> (rs, recordError ''invalid generatedAt in upstream document'' st)
             | Some generatedAt \<Rightarrow>
               (case storeReplicatedRevision (shift_faults 1 f) now (doc_Revision doc)
                       (doc_SchemaVersion doc) body etag generatedAt rs of
                  None \<Rightarrow> (rs, recordError ''failed to store replicated revision'' st)
                | Some rs' \<Rightarrow> (rs', recordSuccess now (doc_Revision doc) st)))"

definition syncOnce ::
  "golib \<Rightarrow> faults \<Rightarrow> gotime \<Rightarrow> upstream \<Rightarrow> revisions \<Rightarrow> mirror_state \<Rightarrow> revisions \<times> mirror_state" where
  "syncOnce L f now up rs st =
     (case currentPublishedETag f rs of
        None \<Rightarrow> (rs, recordError ''failed to read local state'' st)
      | Some localETag \<Rightarrow>
        (case up (if localETag = [] then [] else CHR 0x22 # localETag @ [CHR 0x22]) of
           Unreachable err \<Rightarrow> (rs, recordError err st)
         | Replied code etagHeader body \<Rightarrow>
           if code = 304 \<or> code = 204 then (rs, recordNoChange now st)
           else if code \<noteq> 200 then (rs, recordError (''upstream returned '' @ Itoa (int code)) st)
           else case body of
             None \<Rightarrow> (rs, recordError ''failed to read body'' st)
           | Some whole \<Rightarrow>
               accept_document L f now etagHeader (take (nat (MaxDocumentBytes + 1)) whole) rs st))"

text \<open>
  \<open>Start\<close> and \<open>run\<close>: nothing on a primary; on a mirror one attempt at once, then one per tick
  until the context is done. The loop is driven by the list of what happens at each attempt.
\<close>

fun mirror_run ::
  "golib \<Rightarrow> (faults \<times> gotime \<times> upstream) list \<Rightarrow> revisions \<times> mirror_state \<Rightarrow> revisions \<times> mirror_state" where
  "mirror_run L [] s = s"
| "mirror_run L ((f, now, up) # ticks) (rs, st) = mirror_run L ticks (syncOnce L f now up rs st)"

definition mirror_Start ::
  "golib \<Rightarrow> string \<Rightarrow> (faults \<times> gotime \<times> upstream) list \<Rightarrow> revisions \<Rightarrow> revisions \<times> mirror_state" where
  "mirror_Start L upstreamURL ticks rs =
     (let st = \<lparr>ms_revision = 0, ms_fetchedAt = 0, ms_lastError = []\<rparr>
      in if upstreamURL = [] then (rs, st) else mirror_run L ticks (rs, st))"

text \<open>The upstream when it is an instance of this API with revisions \<open>prs\<close>.\<close>

definition primary_upstream :: "collation \<Rightarrow> gotime \<Rightarrow> revisions \<Rightarrow> updater_db \<Rightarrow> upstream" where
  "primary_upstream ck now prs udb header =
     (case snd (GetConfig ck no_faults now prs udb
             \<lparr>r_Header = (\<lambda>h. if h = ''If-None-Match'' then header else []), r_RemoteAddr = []\<rparr>) of
        GetNoContent \<Rightarrow> Replied 204 [] (Some [])
      | GetFailed \<Rightarrow> Replied 500 [] (Some [])
      | GetNotModified etag _ \<Rightarrow> Replied 304 etag (Some [])
      | GetServed etag _ document \<Rightarrow> Replied 200 etag (Some document))"

section \<open>What a mirror keeps\<close>

definition mirror_ok :: "revisions \<Rightarrow> bool" where
  "mirror_ok rs \<longleftrightarrow> distinct (map rv_revision rs) \<and> at_most_one (\<lambda>r. rv_status r = Published) rs"

interpretation replicated: exclusive_flag
  "\<lambda>r. rv_status r = Published" "\<lambda>r. r\<lparr>rv_status := Superseded\<rparr>"
  "\<lambda>r. r\<lparr>rv_status := Published, rv_document := d, rv_etag := e, rv_generated_at := g, rv_published_at := Some now\<rparr>"
  for d e g now
  by unfold_locales auto

lemma rv_revision_replicated [simp]:
  "map rv_revision (set_flag sel (\<lambda>r. r\<lparr>rv_status := st, rv_document := d, rv_etag := e, rv_generated_at := g,
      rv_published_at := u\<rparr>) rs) = map rv_revision rs"
  by (auto simp: set_flag_def)

lemma put_replicated_effect:
  assumes ok: "mirror_ok rs" and rs1: "rs1 = clear_flag (\<lambda>r. rv_status r = Published) (\<lambda>r. r\<lparr>rv_status := Superseded\<rparr>) rs"
    and p: "put_replicated now n sv d e g rs1 = Some rs2"
  shows "mirror_ok rs2 \<and> (\<exists>r. published_row rs2 = Some r \<and> rv_revision r = n \<and> rv_document r = d \<and> rv_etag r = e)"
proof -
  let ?pub = "\<lambda>r. rv_status r = Published"
  let ?put = "\<lambda>r. r\<lparr>rv_status := Published, rv_document := d, rv_etag := e, rv_generated_at := g, rv_published_at := Some now\<rparr>"
  have d1: "distinct (map rv_revision rs1)" using ok by (simp add: mirror_ok_def rs1)
  have none: "filter ?pub rs1 = []" unfolding rs1 by (rule published.clear_none)
  have "mirror_ok rs2 \<and> (\<exists>r \<in> set rs2. ?pub r \<and> rv_revision r = n \<and> rv_document r = d \<and> rv_etag r = e)"
  proof (cases "n \<in> set (map rv_revision rs1)")
    case True
    then obtain r where r: "r \<in> set rs1" "rv_revision r = n" by auto
    have rs2: "rs2 = set_flag (\<lambda>r. rv_revision r = n) ?put rs1" using p True by (simp add: put_replicated_def)
    have "at_most_one (\<lambda>r. rv_revision r = n) rs1" using at_most_one_key [OF d1, of n "\<lambda>_. True"] by simp
    then have "at_most_one ?pub rs2" unfolding rs2 rs1 by (rule replicated.exclusive)
    moreover have "distinct (map rv_revision rs2)" using d1 by (simp add: rs2)
    moreover have "?put r \<in> set rs2" using r unfolding rs2 set_flag_def by force
    ultimately show ?thesis using r(2) by (auto simp: mirror_ok_def intro!: bexI [of _ "?put r"])
  next
    case False
    with p d1 none show ?thesis
      by (auto simp: put_replicated_def insert_revision_def mirror_ok_def at_most_one_append split: if_splits)
  qed
  then show ?thesis using published_row_unique by (metis mirror_ok_def)
qed

lemma store_effect:
  assumes "mirror_ok rs" "storeReplicatedRevision f now n sv d e g rs = Some rs'"
  shows "mirror_ok rs' \<and>
    (\<exists>r. published_row rs' = Some r \<and> rv_revision r = n \<and>
       ((rv_document r = d \<and> rv_etag r = e) \<or> rs' = rs))"
proof (cases "list_ex (\<lambda>r. rv_revision r = n \<and> rv_status r = Published) rs")
  case True
  then obtain r where "r \<in> set rs" "rv_revision r = n" "rv_status r = Published" by (auto simp: list_ex_iff)
  moreover have "rs' = rs" using assms(2) True by (auto simp: storeReplicatedRevision_def split: if_splits)
  ultimately show ?thesis using assms(1) published_row_unique by (auto simp: mirror_ok_def)
next
  case False
  then show ?thesis
    using assms(2) put_replicated_effect [OF assms(1) refl, of now n sv d e g rs']
    by (auto simp: storeReplicatedRevision_def Let_def split: if_splits option.splits)
qed

lemma accept_document_ok:
  assumes "mirror_ok rs"
  shows "mirror_ok (fst (accept_document L f now h body rs st))"
proof -
  have s: "mirror_ok rs'" if "storeReplicatedRevision g now n sv d e ga rs = Some rs'" for g n sv d e ga rs'
    using store_effect [OF assms that] by blast
  show ?thesis
  proof (cases "\<exists>doc. Parse L body = (Some doc, [])")
    case True
    then obtain doc where "Parse L body = (Some doc, [])" by blast
    with assms s show ?thesis by (auto simp: accept_document_def Let_def split: option.splits)
  next
    case False
    then have "fst (accept_document L f now h body rs st) = rs"
      by (auto simp: accept_document_def split: prod.splits option.splits list.splits)
    with assms show ?thesis by simp
  qed
qed

lemma syncOnce_ok: "mirror_ok rs \<Longrightarrow> mirror_ok (fst (syncOnce L f now up rs st))"
  by (auto simp: syncOnce_def accept_document_ok split: option.splits upstream_reply.splits)

lemma mirror_run_ok: "mirror_ok (fst s) \<Longrightarrow> mirror_ok (fst (mirror_run L ticks s))"
proof (induction L ticks s rule: mirror_run.induct)
  case (2 L f now up ticks rs st)
  then show ?case using syncOnce_ok [of rs L f now up st] by simp
qed simp

section \<open>Convergence\<close>

lemma normalizeETag_quoted:
  assumes "list_all is_hex e" "e \<noteq> []"
  shows "normalizeETag (CHR 0x22 # e @ [CHR 0x22]) = e"
proof -
  have "TrimSpace (CHR 0x22 # e @ [CHR 0x22]) = CHR 0x22 # e @ [CHR 0x22]"
    by (rule TrimSpace_id) (auto simp: is_space_def)
  moreover have "TrimPrefix (CHR 0x22 # e @ [CHR 0x22]) ''W/'' = CHR 0x22 # e @ [CHR 0x22]"
    by (simp add: TrimPrefix_def HasPrefix_def)
  ultimately show ?thesis
    using TrimChar_quoted [OF hex_not_special(1) [OF assms(1)] assms(2)] by (simp add: normalizeETag_def)
qed

text \<open>A revision as this API publishes it: canonical bytes of a document that carries its number.\<close>

definition canonical_row :: "golib \<Rightarrow> revision_row \<Rightarrow> Document \<Rightarrow> bool" where
  "canonical_row L row doc \<longleftrightarrow> Parse L (rv_document row) = (Some doc, []) \<and> doc_Revision doc = rv_revision row \<and>
     rv_etag row = snd (Canonical L doc) \<and> list_all is_hex (rv_etag row) \<and> rv_etag row \<noteq> [] \<and>
     ParseRFC3339 (doc_GeneratedAt doc) \<noteq> None \<and> 0 \<le> rv_revision row \<and> rv_revision row < 2 ^ 32"

text \<open>The mirror does not already serve another document under the same number.\<close>

definition no_conflict :: "revisions \<Rightarrow> revision_row \<Rightarrow> bool" where
  "no_conflict rs row \<longleftrightarrow> (\<forall>r \<in> set rs. rv_status r = Published \<longrightarrow>
     rv_revision r = rv_revision row \<or> rv_etag r = rv_etag row \<longrightarrow>
     rv_revision r = rv_revision row \<and> rv_document r = rv_document row \<and> rv_etag r = rv_etag row)"

definition same_content :: "revision_row \<Rightarrow> revision_row \<Rightarrow> bool" where
  "same_content a b \<longleftrightarrow> rv_revision a = rv_revision b \<and> rv_document a = rv_document b \<and> rv_etag a = rv_etag b"

lemma shift_no_faults [simp]: "shift_faults n no_faults = no_faults"
  by (simp add: shift_faults_def fun_eq_iff)

lemma store_succeeds:
  assumes "mirror_ok rs" "0 \<le> n" "n < 2 ^ 32"
  shows "\<exists>rs'. storeReplicatedRevision no_faults now n sv d e g rs = Some rs'"
proof -
  have "put_replicated now n sv d e g rs1 \<noteq> None" for rs1
    using assms(2,3) by (simp add: put_replicated_def insert_revision_def)
  then obtain rs2 where "put_replicated now n sv d e g
      (clear_flag (\<lambda>r. rv_status r = Published) (\<lambda>r. r\<lparr>rv_status := Superseded\<rparr>) rs) = Some rs2" by blast
  then show ?thesis by (auto simp: storeReplicatedRevision_def Let_def)
qed

definition local_header :: "revisions \<Rightarrow> string" where
  "local_header rs = (let e = (case published_row rs of None \<Rightarrow> [] | Some r \<Rightarrow> rv_etag r)
     in if e = [] then [] else CHR 0x22 # e @ [CHR 0x22])"

lemma syncOnce_reply:
  "syncOnce L no_faults now up rs st =
     (case up (local_header rs) of
        Unreachable err \<Rightarrow> (rs, recordError err st)
      | Replied code etagHeader body \<Rightarrow>
        if code = 304 \<or> code = 204 then (rs, recordNoChange now st)
        else if code \<noteq> 200 then (rs, recordError (''upstream returned '' @ Itoa (int code)) st)
        else case body of
          None \<Rightarrow> (rs, recordError ''failed to read body'' st)
        | Some whole \<Rightarrow> accept_document L no_faults now etagHeader (take (nat (MaxDocumentBytes + 1)) whole) rs st)"
  by (simp add: syncOnce_def currentPublishedETag_def local_header_def Let_def)

lemma sync_served:
  assumes ok: "mirror_ok rs" and c: "canonical_row L row doc" and nc: "no_conflict rs row"
    and up: "up (local_header rs) = Replied 200 (CHR 0x22 # rv_etag row @ [CHR 0x22]) (Some (rv_document row))"
  shows "\<exists>rs' r. syncOnce L no_faults now up rs st = (rs', recordSuccess now (rv_revision row) st) \<and>
    mirror_ok rs' \<and> published_row rs' = Some r \<and> same_content r row"
proof -
  have hex: "list_all is_hex (rv_etag row)" "rv_etag row \<noteq> []"
    and p: "Parse L (rv_document row) = (Some doc, [])" and rev: "doc_Revision doc = rv_revision row"
    and e: "rv_etag row = snd (Canonical L doc)" and n: "0 \<le> rv_revision row" "rv_revision row < 2 ^ 32"
    using c unfolding canonical_row_def by blast+
  have len: "int (length (rv_document row)) \<le> MaxDocumentBytes" using p by (simp add: Parse_accept)
  then have body: "take (nat (MaxDocumentBytes + 1)) (rv_document row) = rv_document row" by simp
  obtain g where g: "ParseRFC3339 (doc_GeneratedAt doc) = Some g" using c by (auto simp: canonical_row_def)
  obtain rs' where s: "storeReplicatedRevision no_faults now (rv_revision row) (doc_SchemaVersion doc)
      (rv_document row) (rv_etag row) g rs = Some rs'" using store_succeeds [OF ok n] by blast
  have sync: "syncOnce L no_faults now up rs st = (rs', recordSuccess now (rv_revision row) st)"
    using p rev s g hex
    by (simp add: syncOnce_reply up body accept_document_def Let_def normalizeETag_quoted [OF hex] e [symmetric])
  from store_effect [OF ok s] obtain r where r: "mirror_ok rs'" "published_row rs' = Some r"
      "rv_revision r = rv_revision row" "(rv_document r = rv_document row \<and> rv_etag r = rv_etag row) \<or> rs' = rs"
    by blast
  have "same_content r row"
    using r nc published_row_Some [OF r(2)] by (auto simp: same_content_def no_conflict_def)
  with sync r show ?thesis by blast
qed

lemma published_etag_hits:
  assumes "canonical_row L row doc" "published_row prs = Some row"
  shows "primary_upstream ck t prs udb (CHR 0x22 # rv_etag row @ [CHR 0x22]) = Replied 304 (CHR 0x22 # rv_etag row @ [CHR 0x22]) (Some [])"
proof -
  have "list_all is_hex (rv_etag row)" "rv_etag row \<noteq> []" using assms(1) unfolding canonical_row_def by blast+
  from etag_hits [OF this] assms(2) show ?thesis by (simp add: primary_upstream_def GetConfig_def Let_def)
qed

lemma ifNoneMatch_other:
  assumes "list_all is_hex e" "e \<noteq> []" "e \<noteq> x" "x \<noteq> []"
  shows "\<not> ifNoneMatchHits (CHR 0x22 # e @ [CHR 0x22]) x"
proof -
  let ?q = "CHR 0x22 # e @ [CHR 0x22]"
  have "Split (CHR '','') ?q = [?q]" using hex_not_special [OF assms(1)] by (intro Split_no_sep) auto
  moreover have "TrimChar (CHR 0x22) (TrimPrefix (TrimSpace ?q) ''W/'') = e"
    using normalizeETag_quoted [OF assms(1,2)] by (simp add: normalizeETag_def)
  moreover have "e \<noteq> ''*''" using assms(1) by (auto simp: is_hex_def)
  ultimately show ?thesis using assms by (simp add: ifNoneMatchHits_def)
qed

lemma primary_miss:
  assumes "published_row prs = Some row" "\<not> ifNoneMatchHits h (rv_etag row)"
  shows "primary_upstream ck t prs udb h =
    Replied 200 (CHR 0x22 # rv_etag row @ [CHR 0x22]) (Some (rv_document row))"
  using assms by (simp add: primary_upstream_def GetConfig_def Let_def)

text \<open>What a client can see of a store is decided by the content of its published row.\<close>

lemma GetConfig_same_content:
  assumes "published_row rs = Some r" "published_row prs = Some row" "same_content r row"
  shows "GetConfig ck f now rs udb req = GetConfig ck f now prs udb req"
  using assms by (simp add: GetConfig_def same_content_def Let_def)

lemma sync_converges:
  assumes ok: "mirror_ok rs" and prs: "published_row prs = Some row" and c: "canonical_row L row doc"
    and nc: "no_conflict rs row" and hex: "\<forall>r \<in> set rs. list_all is_hex (rv_etag r)"
  shows "\<exists>rs' st' r. syncOnce L no_faults now (primary_upstream ck t prs udb) rs st = (rs', st') \<and>
    mirror_ok rs' \<and> published_row rs' = Some r \<and> same_content r row \<and> ms_fetchedAt st' = now \<and> ms_lastError st' = []"
proof (cases "ifNoneMatchHits (local_header rs) (rv_etag row)")
  case True
  have ne: "rv_etag row \<noteq> []" using c unfolding canonical_row_def by blast
  obtain r where r: "published_row rs = Some r" "rv_etag r \<noteq> []"
    using True by (cases "published_row rs") (auto simp: local_header_def ifNoneMatchHits_def Let_def split: if_splits)
  then have rin: "r \<in> set rs" "rv_status r = Published" using published_row_Some by blast+
  have h: "local_header rs = CHR 0x22 # rv_etag r @ [CHR 0x22]" using r by (simp add: local_header_def)
  have e: "rv_etag r = rv_etag row" using ifNoneMatch_other [OF _ r(2) _ ne] True hex rin(1) h by auto
  have "same_content r row" using nc rin e by (auto simp: no_conflict_def same_content_def)
  moreover have "syncOnce L no_faults now (primary_upstream ck t prs udb) rs st = (rs, recordNoChange now st)"
    using published_etag_hits [OF c prs] by (simp add: syncOnce_reply h e)
  ultimately show ?thesis using ok r by (auto simp: recordNoChange_def)
next
  case False
  from sync_served [where up = "primary_upstream ck t prs udb", OF ok c nc primary_miss [OF prs False]]
  show ?thesis
    by (fastforce simp: recordSuccess_def)
qed

lemma sync_settled:
  assumes "published_row rs = Some r" "same_content r row" "published_row prs = Some row" "canonical_row L row doc"
  shows "syncOnce L no_faults now (primary_upstream ck t prs udb) rs st = (rs, recordNoChange now st)"
proof -
  have "local_header rs = CHR 0x22 # rv_etag row @ [CHR 0x22]"
    using assms unfolding canonical_row_def same_content_def local_header_def by (auto simp: Let_def)
  then show ?thesis using published_etag_hits [OF assms(4,3)] by (simp add: syncOnce_reply)
qed

section \<open>Properties\<close>

lemma sample_row_canonical:
  assumes s1: "sample_create = ([row], Reply (Created pl))"
  shows "canonical_row store_lib row (stamped 1 (64000000000 * second) (sample_doc []))"
proof -
  let ?d = "stamped 1 (64000000000 * second) (sample_doc [])"
  have s: "rv_revision row = 1" "rv_etag row = ''ab''" "cp_document pl = ?d"
    using sample_create_result unfolding s1 by blast+
  have t: "clock_time (64000000000 * second)" by (simp add: clock_time_def)
  from Create_row [OF s1 [unfolded sample_create_def]] obtain doc where
    doc: "Parse store_lib ''D'' = (Some doc, [])" "cp_document pl = stamped 1 (64000000000 * second) doc"
    and row: "rv_document row = fst (Canonical store_lib ?d)" "rv_etag row = snd (Canonical store_lib ?d)"
    using s(1,3) by (auto simp: next_revision_def max_revision_def)
  have v: "doc_valid store_lib doc" "ok_Document doc"
    using doc(1) by (auto simp: Parse_accept bind_eq_Some_conv intro: Document_codec.dec_ok)
  have "doc_valid store_lib ?d" using doc_valid_stamped [OF v _ _ t, of 1] s(3) doc(2) by (simp add: int64_range_def)
  moreover have "ok_Document ?d" using sample_ok(1) by (simp add: ok_Document_def int64_range_def)
  moreover have "text_roundtrip store_lib ?d" by (simp add: text_roundtrip_def store_lib_def)
  moreover have "int (length (fst (Canonical store_lib ?d))) \<le> MaxDocumentBytes"
    by (simp add: Canonical_def Let_def store_lib_def MaxDocumentBytes_def)
  ultimately have "Parse store_lib (rv_document row) = (Some ?d, [])" using Canonical_reparses row(1) by simp
  moreover have "list_all is_hex ''ab''" by code_simp
  moreover have "ParseRFC3339 (doc_GeneratedAt ?d) \<noteq> None"
    using Parse_Format [OF t] by (simp add: stamped_def)
  ultimately show ?thesis using s(1,2) row(2) by (simp add: canonical_row_def)
qed



text \<open>C8: whatever a mirror's upstream answers and whichever database statements fail, after any
  number of attempts the mirror's revision numbers are unique and at most one revision is published;
  and an answer that does not validate, or whose hash differs from its ETag, changes no row.\<close>

theorem mirror_survives_any_upstream:
  assumes "mirror_ok rs"
  shows "mirror_ok (fst (mirror_Start L upstreamURL ticks rs)) \<and>
    (\<forall>f now h body st. snd (Parse L body) \<noteq> [] \<longrightarrow> fst (accept_document L f now h body rs st) = rs) \<and>
    (\<forall>f now h body st doc. Parse L body = (Some doc, []) \<and> normalizeETag h \<noteq> [] \<and>
       normalizeETag h \<noteq> snd (Canonical L doc) \<longrightarrow> fst (accept_document L f now h body rs st) = rs)"
proof (intro conjI allI impI)
  show "mirror_ok (fst (mirror_Start L upstreamURL ticks rs))"
    using assms mirror_run_ok by (simp add: mirror_Start_def Let_def)
qed (auto simp: accept_document_def Let_def split: prod.splits option.splits list.splits)

theorem mirror_survives_any_upstream_witness:
  "mirror_ok (fst (mirror_Start store_lib ''https://up'' [(no_faults, 5, \<lambda>_. Replied 200 [] (Some ''junk''))] []))"
  using mirror_survives_any_upstream [of "[]"] by (simp add: mirror_ok_def at_most_one_def)

end
