(* ===== verification/Presence_Hub.thy ===== *)
theory Presence_Hub
  imports Go_Prelude "HOL-Library.Word"
begin

text \<open>
  \<open>internal/presencehub/presencehub.go\<close>: which clients hold an open WebSocket. The hub's
  methods run under its lock, but a grace timer's function starts on its own goroutine and
  may already be waiting for that lock when \<open>Stop\<close> is called, so a timer is first armed,
  then running, and only then takes effect. Closing a closed channel panics; channels are
  references, so each entry's channel has an identity of its own.
\<close>

record Token =
  tok_clientID :: int
  tok_gen :: "64 word"

record entry =
  pe_gen :: "64 word"
  pe_supersede :: nat
  pe_graceTimer :: "nat ptr"

record timer =
  t_id :: nat
  t_client :: int
  t_gen :: "64 word"
  t_due :: gotime

record presence =
  ph_grace :: duration
  ph_entries :: "int \<Rightarrow> entry option"
  ph_nextGen :: "64 word"
  ph_closed :: "nat list"
  ph_nextChan :: nat
  ph_armed :: "timer list"
  ph_running :: "timer list"
  ph_nextTimer :: nat

definition ph_New :: "duration \<Rightarrow> presence" where
  "ph_New grace = \<lparr>ph_grace = grace, ph_entries = (\<lambda>_. None), ph_nextGen = 0, ph_closed = [],
     ph_nextChan = 0, ph_armed = [], ph_running = [], ph_nextTimer = 0\<rparr>"

text \<open>\<open>Connect\<close> on a non-nil hub; None is the panic of closing a closed channel.\<close>

definition connect :: "presence \<Rightarrow> int \<Rightarrow> (presence \<times> Token \<times> nat) option" where
  "connect h c =
     (let armed = (case ph_entries h c of
                     None \<Rightarrow> ph_armed h
                   | Some old \<Rightarrow> filter (\<lambda>t. Some (t_id t) \<noteq> pe_graceTimer old) (ph_armed h));
          gen = ph_nextGen h + 1;
          e = \<lparr>pe_gen = gen, pe_supersede = ph_nextChan h, pe_graceTimer = None\<rparr>;
          h' = h\<lparr>ph_entries := (ph_entries h)(c \<mapsto> e), ph_nextGen := gen, ph_nextChan := Suc (ph_nextChan h),
                 ph_armed := armed\<rparr>;
          res = (\<lparr>tok_clientID = c, tok_gen = gen\<rparr>, ph_nextChan h)
      in case ph_entries h c of
           None \<Rightarrow> Some (h', res)
         | Some old \<Rightarrow>
             if pe_supersede old \<in> set (ph_closed h) then None
             else Some (h'\<lparr>ph_closed := pe_supersede old # ph_closed h\<rparr>, res))"

definition Connect :: "presence ptr \<Rightarrow> int \<Rightarrow> (presence ptr \<times> Token \<times> nat ptr) option" where
  "Connect p c =
     (case p of
        None \<Rightarrow> Some (None, \<lparr>tok_clientID = 0, tok_gen = 0\<rparr>, None)
      | Some h \<Rightarrow> map_option (\<lambda>(h', tok, ch). (Some h', tok, Some ch)) (connect h c))"

definition disconnect :: "presence \<Rightarrow> Token \<Rightarrow> gotime \<Rightarrow> presence" where
  "disconnect h tok now =
     (case ph_entries h (tok_clientID tok) of
        None \<Rightarrow> h
      | Some e \<Rightarrow>
          if pe_gen e \<noteq> tok_gen tok then h
          else (let t = \<lparr>t_id = ph_nextTimer h, t_client = tok_clientID tok, t_gen = tok_gen tok,
                         t_due = now + ph_grace h\<rparr>
                in h\<lparr>ph_entries := (ph_entries h)(tok_clientID tok \<mapsto> e\<lparr>pe_graceTimer := Some (t_id t)\<rparr>),
                     ph_armed := t # ph_armed h, ph_nextTimer := Suc (ph_nextTimer h)\<rparr>))"

definition Disconnect :: "presence ptr \<Rightarrow> Token \<Rightarrow> gotime \<Rightarrow> presence ptr" where
  "Disconnect p tok now = map_option (\<lambda>h. disconnect h tok now) p"

text \<open>The runtime starts a timer's function once it is due; the function then takes the lock.\<close>

definition expire :: "nat \<Rightarrow> gotime \<Rightarrow> presence \<Rightarrow> presence" where
  "expire i now h =
     (let (go, stay) = partition (\<lambda>t. t_id t = i \<and> t_due t \<le> now) (ph_armed h)
      in h\<lparr>ph_armed := stay, ph_running := go @ ph_running h\<rparr>)"

definition grace_expired :: "timer \<Rightarrow> presence \<Rightarrow> presence" where
  "grace_expired t h =
     (case ph_entries h (t_client t) of
        None \<Rightarrow> h
      | Some cur \<Rightarrow>
          if pe_gen cur = t_gen t then h\<lparr>ph_entries := (ph_entries h)(t_client t := None)\<rparr> else h)"

definition fire :: "nat \<Rightarrow> presence \<Rightarrow> presence" where
  "fire i h =
     fold grace_expired (filter (\<lambda>t. t_id t = i) (ph_running h))
       (h\<lparr>ph_running := filter (\<lambda>t. t_id t \<noteq> i) (ph_running h)\<rparr>)"

definition Online :: "presence ptr \<Rightarrow> int \<Rightarrow> bool" where
  "Online p c = (case p of None \<Rightarrow> False | Some h \<Rightarrow> ph_entries h c \<noteq> None)"

section \<open>Reachable states\<close>

datatype presence_op = Conn int | Disc Token gotime | Expire nat gotime | Fire nat

text \<open>The relation between a state and the number of connections made so far.\<close>

inductive reached :: "duration \<Rightarrow> nat \<Rightarrow> presence \<Rightarrow> bool" for g where
  reached_New: "reached g 0 (ph_New g)"
| reached_Conn: "reached g n h \<Longrightarrow> connect h c = Some (h', tok, ch) \<Longrightarrow> reached g (Suc n) h'"
| reached_Disc: "reached g n h \<Longrightarrow> reached g n (disconnect h tok now)"
| reached_Expire: "reached g n h \<Longrightarrow> reached g n (expire i now h)"
| reached_Fire: "reached g n h \<Longrightarrow> reached g n (fire i h)"

abbreviation timers :: "presence \<Rightarrow> timer list" where
  "timers h \<equiv> ph_armed h @ ph_running h"

text \<open>Channel discipline: live entries hold distinct channels that are still open.\<close>

definition chan_inv :: "presence \<Rightarrow> bool" where
  "chan_inv h \<longleftrightarrow>
     (\<forall>c e. ph_entries h c = Some e \<longrightarrow> pe_supersede e < ph_nextChan h \<and> pe_supersede e \<notin> set (ph_closed h)) \<and>
     (\<forall>c d e f. ph_entries h c = Some e \<longrightarrow> ph_entries h d = Some f \<longrightarrow>
        pe_supersede e = pe_supersede f \<longrightarrow> c = d) \<and>
     (\<forall>ch \<in> set (ph_closed h). ch < ph_nextChan h) \<and> distinct (ph_closed h)"

text \<open>Generations never exceed the counter, as long as the counter has not wrapped.\<close>

definition gen_inv :: "nat \<Rightarrow> presence \<Rightarrow> bool" where
  "gen_inv n h \<longleftrightarrow> ph_nextGen h = of_nat n \<and>
     (n < 2 ^ 64 \<longrightarrow>
       (\<forall>c e. ph_entries h c = Some e \<longrightarrow> unat (pe_gen e) \<le> n) \<and>
       (\<forall>t \<in> set (timers h). unat (t_gen t) \<le> n))"

named_theorems ph_ops

lemmas ph_op_defs [ph_ops] = connect_def disconnect_def expire_def fire_def grace_expired_def

lemma fold_grace_expired_frame [simp]:
  "ph_nextGen (fold grace_expired ts h) = ph_nextGen h"
  "ph_closed (fold grace_expired ts h) = ph_closed h"
  "ph_nextChan (fold grace_expired ts h) = ph_nextChan h"
  "ph_armed (fold grace_expired ts h) = ph_armed h"
  "ph_running (fold grace_expired ts h) = ph_running h"
  by (induction ts arbitrary: h) (auto simp: grace_expired_def split: option.splits)

lemma fold_grace_expired_entries:
  "ph_entries (fold grace_expired ts h) c =
     (case ph_entries h c of None \<Rightarrow> None
      | Some e \<Rightarrow> if \<exists>t \<in> set ts. t_client t = c \<and> t_gen t = pe_gen e then None else Some e)"
  by (induction ts arbitrary: h) (auto simp: grace_expired_def split: option.splits)

lemma connect_effect:
  assumes "connect h c = Some (h', tok, ch)"
  shows "tok = \<lparr>tok_clientID = c, tok_gen = ph_nextGen h + 1\<rparr>" "ch = ph_nextChan h"
    "ph_entries h' = (ph_entries h)(c \<mapsto>
       \<lparr>pe_gen = ph_nextGen h + 1, pe_supersede = ph_nextChan h, pe_graceTimer = None\<rparr>)"
    "ph_nextGen h' = ph_nextGen h + 1" "ph_nextChan h' = Suc (ph_nextChan h)"
    "set (ph_armed h') \<subseteq> set (ph_armed h)" "ph_running h' = ph_running h"
    "ph_closed h' = (case ph_entries h c of None \<Rightarrow> ph_closed h | Some old \<Rightarrow> pe_supersede old # ph_closed h)"
  using assms by (auto simp: connect_def Let_def split: option.splits if_splits)

lemma chan_inv_connect:
  assumes i: "chan_inv h" and c: "connect h c = Some (h', tok, ch)"
  shows "chan_inv h'"
proof -
  note e = connect_effect [OF c]
  let ?n = "ph_nextChan h"
  have old: "pe_supersede f < ?n" "pe_supersede f \<notin> set (ph_closed h)" if "ph_entries h d = Some f" for d f
    using i that by (auto simp: chan_inv_def)
  have cl: "\<forall>x \<in> set (ph_closed h'). x < ?n" "distinct (ph_closed h')"
    using i old by (auto simp: e chan_inv_def split: option.splits)
  have kept: "pe_supersede f < ?n \<and> pe_supersede f \<notin> set (ph_closed h')"
    if "ph_entries h d = Some f" "d \<noteq> c" for d f
    using old [OF that(1)] that i by (auto simp: e chan_inv_def split: option.splits)
  have 1: "pe_supersede f < Suc ?n \<and> pe_supersede f \<notin> set (ph_closed h')"
    if "ph_entries h' d = Some f" for d f
    using that kept cl(1) by (auto simp: e(3) split: if_splits intro: less_SucI)
  have 2: "d = d'" if "ph_entries h' d = Some f" "ph_entries h' d' = Some f'" "pe_supersede f = pe_supersede f'"
    for d d' f f'
  proof (cases "d = c \<or> d' = c")
    case True
    with that kept show ?thesis by (fastforce simp: e(3) split: if_splits)
  next
    case False
    with that i show ?thesis by (auto simp: e(3) chan_inv_def)
  qed
  show ?thesis unfolding chan_inv_def using 1 2 cl by (auto simp: e(5) intro: less_SucI)
qed

lemma chan_inv_entries:
  assumes "chan_inv h" and "ph_closed h' = ph_closed h" "ph_nextChan h' = ph_nextChan h"
    and "\<And>c e. ph_entries h' c = Some e \<Longrightarrow>
           \<exists>f. ph_entries h c = Some f \<and> pe_supersede f = pe_supersede e"
  shows "chan_inv h'"
  using assms unfolding chan_inv_def by metis

lemma chan_inv_disconnect: "chan_inv h \<Longrightarrow> chan_inv (disconnect h tok now)"
  by (erule chan_inv_entries) (auto simp: disconnect_def Let_def split: option.splits if_splits)

lemma chan_inv_expire: "chan_inv h \<Longrightarrow> chan_inv (expire i now h)"
  by (erule chan_inv_entries) (auto simp: expire_def)

lemma chan_inv_fire: "chan_inv h \<Longrightarrow> chan_inv (fire i h)"
  by (erule chan_inv_entries)
     (auto simp: fire_def fold_grace_expired_entries split: option.splits if_splits)

lemma chan_inv_reached: "reached g n h \<Longrightarrow> chan_inv h"
  by (induction rule: reached.induct)
     (auto simp: chan_inv_connect chan_inv_disconnect chan_inv_expire chan_inv_fire,
      simp add: chan_inv_def ph_New_def)

text \<open>Closing never panics.\<close>

lemma connect_total: "reached g n h \<Longrightarrow> connect h c \<noteq> None"
  using chan_inv_reached [of g n h]
  by (auto simp: connect_def chan_inv_def Let_def split: option.splits)

lemma unat_of_nat64: "n < 2 ^ 64 \<Longrightarrow> unat (of_nat n :: 64 word) = n"
  by (simp add: unat_of_nat take_bit_nat_eq_self)

lemma gen_inv_connect:
  assumes i: "gen_inv n h" and c: "connect h c = Some (h', tok, ch)"
  shows "gen_inv (Suc n) h'"
proof -
  note e = connect_effect [OF c]
  have g: "ph_nextGen h' = of_nat (Suc n)" using i by (simp add: gen_inv_def e ac_simps)
  moreover have "unat (pe_gen f) \<le> Suc n" if "Suc n < 2 ^ 64" "ph_entries h' d = Some f" for d f
    using that i g unat_of_nat64 [OF that(1)] by (auto simp: e(3,4) gen_inv_def add.commute split: if_splits intro: le_SucI)
  moreover have "unat (t_gen t) \<le> Suc n" if "Suc n < 2 ^ 64" "t \<in> set (timers h')" for t
  proof -
    have "t \<in> set (timers h)" using that(2) e(6,7) by auto
    with i that(1) show ?thesis by (auto simp: gen_inv_def intro: le_SucI)
  qed
  ultimately show ?thesis unfolding gen_inv_def by blast
qed

lemma gen_inv_reached: "reached g n h \<Longrightarrow> gen_inv n h"
proof (induction rule: reached.induct)
  case (reached_Disc n h tok now)
  then have "unat (tok_gen tok) \<le> n"
    if "n < 2 ^ 64" "ph_entries h c = Some e" "pe_gen e = tok_gen tok" for c e
    using that by (force simp: gen_inv_def)
  with reached_Disc show ?case
    by (auto simp: gen_inv_def disconnect_def Let_def split: option.splits if_splits)
next
  case (reached_Fire n h i)
  then show ?case
    by (auto simp: gen_inv_def fire_def fold_grace_expired_entries split: option.splits if_splits)
qed (auto simp: gen_inv_connect, auto simp: gen_inv_def ph_New_def expire_def)

section \<open>Presence of a connection\<close>

text \<open>The token's connection is the current one and no grace timer of it exists.\<close>

definition attached :: "presence \<Rightarrow> Token \<Rightarrow> bool" where
  "attached h tok \<longleftrightarrow>
     (\<exists>e. ph_entries h (tok_clientID tok) = Some e \<and> pe_gen e = tok_gen tok) \<and>
     (\<forall>t \<in> set (timers h). \<not> (t_client t = tok_clientID tok \<and> t_gen t = tok_gen tok))"

lemma connect_attached:
  assumes "reached g n h" "Suc n < 2 ^ 64" "connect h c = Some (h', tok, ch)"
  shows "attached h' tok \<and> tok_clientID tok = c"
proof -
  have g: "gen_inv n h" using assms(1) by (rule gen_inv_reached)
  have u: "unat (1 + of_nat n :: 64 word) = Suc n" using unat_of_nat64 [OF assms(2)] by simp
  have "t_gen t \<noteq> 1 + of_nat n" if "t \<in> set (timers h)" for t
  proof
    assume "t_gen t = 1 + of_nat n"
    with u have "unat (t_gen t) = Suc n" by simp
    moreover have "unat (t_gen t) \<le> n" using g that assms(2) by (auto simp: gen_inv_def)
    ultimately show False by simp
  qed
  moreover have "ph_nextGen h = of_nat n" using g by (simp add: gen_inv_def)
  moreover note e = connect_effect [OF assms(3)]
  ultimately show ?thesis
    using e(6,7) by (auto simp: attached_def e(1,3) add.commute)
qed

lemma attached_connect_other:
  "attached h tok \<Longrightarrow> connect h c = Some (h', tok', ch) \<Longrightarrow> c \<noteq> tok_clientID tok \<Longrightarrow> attached h' tok"
  by (frule connect_effect(3), frule connect_effect(6), frule connect_effect(7)) (auto simp: attached_def)

lemma attached_disconnect_other:
  "attached h tok \<Longrightarrow> tok' \<noteq> tok \<Longrightarrow> attached (disconnect h tok' now) tok"
  by (cases tok; cases tok') (auto simp: attached_def disconnect_def Let_def split: option.splits if_splits)

lemma attached_expire: "attached h tok \<Longrightarrow> attached (expire i now h) tok"
  by (auto simp: attached_def expire_def)

lemma attached_fire: "attached h tok \<Longrightarrow> attached (fire i h) tok"
  by (auto simp: attached_def fire_def fold_grace_expired_entries)

lemma attached_Online: "attached h tok \<Longrightarrow> Online (Some h) (tok_clientID tok)"
  by (auto simp: attached_def Online_def)

text \<open>Runs of operations, stopping at a panic.\<close>

fun presence_run :: "presence_op list \<Rightarrow> presence \<Rightarrow> presence option" where
  "presence_run [] h = Some h"
| "presence_run (Conn c # ops) h =
     (case connect h c of None \<Rightarrow> None | Some (h', _) \<Rightarrow> presence_run ops h')"
| "presence_run (Disc tok now # ops) h = presence_run ops (disconnect h tok now)"
| "presence_run (Expire i now # ops) h = presence_run ops (expire i now h)"
| "presence_run (Fire i # ops) h = presence_run ops (fire i h)"

lemma presence_run_total: "reached g n h \<Longrightarrow> \<exists>h'. presence_run ops h = Some h'"
proof (induction ops h arbitrary: n rule: presence_run.induct)
  case (2 c ops h)
  obtain h' r where c: "connect h c = Some (h', r)" using connect_total [OF "2.prems", of c] by auto
  obtain tok ch where r: "r = (tok, ch)" by (cases r)
  with c "2.prems" have "reached g (Suc n) h'" by (auto intro: reached_Conn)
  with c r "2.IH" show ?case by fastforce
qed (auto intro: reached.intros)

definition leaves :: "Token \<Rightarrow> presence_op \<Rightarrow> bool" where
  "leaves tok op = (case op of Conn c \<Rightarrow> c = tok_clientID tok | Disc t _ \<Rightarrow> t = tok | _ \<Rightarrow> False)"

lemma attached_run:
  "attached h tok \<Longrightarrow> \<forall>op \<in> set ops. \<not> leaves tok op \<Longrightarrow> presence_run ops h = Some h' \<Longrightarrow> attached h' tok"
proof (induction ops h rule: presence_run.induct)
  case (2 c ops h)
  from "2.prems" obtain h1 tk ch where c: "connect h c = Some (h1, tk, ch)"
    by (auto split: option.splits)
  with "2.prems" have "attached h1 tok"
    by (auto simp: leaves_def intro: attached_connect_other)
  with 2 c show ?case by simp
qed (auto simp: leaves_def attached_disconnect_other attached_expire attached_fire)

text \<open>After a disconnect the entry goes exactly when its timer runs.\<close>

lemma disconnect_grace:
  assumes "attached h tok"
  shows "\<exists>t. ph_armed (disconnect h tok now) = t # ph_armed h \<and> t_client t = tok_clientID tok \<and>
    t_gen t = tok_gen tok \<and> t_due t = now + ph_grace h \<and> t_id t = ph_nextTimer h"
  using assms by (auto simp: attached_def disconnect_def Let_def)

lemma expired_offline:
  assumes "attached h tok" "ph_armed h = []" "ph_running h = []" "now + ph_grace h \<le> later"
  shows "\<not> Online (Some (fire (ph_nextTimer h) (expire (ph_nextTimer h) later (disconnect h tok now))))
    (tok_clientID tok)"
  using assms
  by (auto simp: attached_def disconnect_def expire_def fire_def grace_expired_def Online_def Let_def)

section \<open>Properties\<close>

text \<open>No sequence of connects, disconnects and timers, in any interleaving, ever closes a supersede
  channel twice, so \<open>Connect\<close> never panics.\<close>

theorem Connect_never_panics:
  assumes "reached g n h"
  shows "connect h c \<noteq> None \<and> (\<exists>h'. presence_run ops h = Some h')"
  using connect_total [OF assms] presence_run_total [OF assms] by blast

theorem Connect_never_panics_witness:
  "\<exists>h'. presence_run [Conn 4, Conn 4, Fire 0, Conn 4] (ph_New 15) = Some h'"
  using Connect_never_panics [OF reached_New] by blast

text \<open>A client stays online while its latest connection is neither closed nor superseded. Grace
  timers of earlier connections, even ones already running when it reconnected, and disconnects with
  stale tokens have no effect, as long as fewer than 2^64 connections were made.\<close>

theorem connection_survives_stale_timers:
  assumes "reached g n h" and "Suc n < 2 ^ 64" and "connect h c = Some (h', tok, ch)"
    and "\<forall>op \<in> set ops. \<not> leaves tok op" and "presence_run ops h' = Some h''"
  shows "Online (Some h'') c"
  using connect_attached [OF assms(1-3)] attached_run [OF _ assms(4,5)] attached_Online by metis

theorem connection_survives_stale_timers_witness:
  "\<exists>h''. presence_run [Expire 0 99, Fire 0]
       (fst (the (connect (disconnect (fst (the (connect (ph_New 15) 4)))
          \<lparr>tok_clientID = 4, tok_gen = 1\<rparr> 3) 4))) = Some h'' \<and> Online (Some h'') 4"
proof -
  obtain h1 t1 c1 where 1: "connect (ph_New 15) 4 = Some (h1, t1, c1)"
    using connect_total [OF reached_New] by (metis not_Some_eq prod_cases3)
  let ?d = "disconnect h1 \<lparr>tok_clientID = 4, tok_gen = 1\<rparr> 3"
  have r: "reached 15 1 ?d" using reached_Disc [OF reached_Conn [OF reached_New 1]] by simp
  obtain h2 t2 c2 where 2: "connect ?d 4 = Some (h2, t2, c2)"
    using connect_total [OF r] by (metis not_Some_eq prod_cases3)
  have "\<exists>h''. presence_run [Expire 0 99, Fire 0] h2 = Some h''"
    using presence_run_total [OF reached_Conn [OF r 2]] by blast
  then obtain h3 where 3: "presence_run [Expire 0 99, Fire 0] h2 = Some h3" by blast
  have "Online (Some h3) 4"
    by (rule connection_survives_stale_timers [OF r _ 2 _ 3]) (simp_all add: leaves_def)
  with 1 2 3 show ?thesis by simp
qed

text \<open>A client whose only connection is closed stays online for the grace period and goes offline
  when its timer runs after it.\<close>

theorem grace_period_ends_presence:
  assumes "attached h tok" and "ph_armed h = []" and "ph_running h = []"
  shows "Online (Some (fire (ph_nextTimer h) (expire (ph_nextTimer h) later (disconnect h tok now)))) (tok_clientID tok)
    \<longleftrightarrow> later < now + ph_grace h"
  using assms
  by (cases "now + ph_grace h \<le> later")
     (auto simp: attached_def disconnect_def expire_def fire_def grace_expired_def Online_def Let_def)

theorem grace_period_ends_presence_witness:
  "\<not> Online (Some (fire 0 (expire 0 18 (disconnect (fst (the (connect (ph_New 15) 4)))
      \<lparr>tok_clientID = 4, tok_gen = 1\<rparr> 3)))) 4"
proof -
  let ?h = "fst (the (connect (ph_New 15) 4))"
  have a: "attached ?h \<lparr>tok_clientID = 4, tok_gen = 1\<rparr>" "ph_armed ?h = []" "ph_running ?h = []"
    and n: "ph_nextTimer ?h = 0" "ph_grace ?h = 15"
    by (simp_all add: connect_def ph_New_def attached_def)
  from grace_period_ends_presence [OF a, of 18 3] n show ?thesis by simp
qed

end
