(* ===== verification/TTL_Cache.thy ===== *)
theory TTL_Cache
  imports Go_Prelude
begin

text \<open>
  \<open>internal/ttlcache/ttlcache.go\<close>. \<open>Get\<close> takes two locks one after the other: the cache's,
  to find or create the entry of a key, and the entry's, to answer from it or rebuild it.
  Between the two another goroutine may reset the map, so entries are references and the
  two critical sections are separate steps, \<open>acquire\<close> and \<open>fill\<close>.
\<close>

definition maxEntries :: nat where
  "maxEntries = 512"

record 'v cache_entry =
  ce_value :: 'v
  ce_expiresAt :: gotime

record 'v ttl_cache =
  tc_ttl :: duration
  tc_entries :: "nat entries"
  tc_heap :: "nat \<Rightarrow> 'v cache_entry"
  tc_next :: nat

definition tc_New :: "'v \<Rightarrow> duration \<Rightarrow> 'v ttl_cache" where
  "tc_New zero ttl =
     \<lparr>tc_ttl = ttl, tc_entries = [], tc_heap = (\<lambda>_. \<lparr>ce_value = zero, ce_expiresAt = 0\<rparr>), tc_next = 0\<rparr>"

text \<open>A full map is replaced by an empty one.\<close>

definition evict :: "nat entries \<Rightarrow> nat entries" where
  "evict es = (if length es \<ge> maxEntries then [] else es)"

definition acquire :: "'v \<Rightarrow> string \<Rightarrow> 'v ttl_cache \<Rightarrow> 'v ttl_cache \<times> nat" where
  "acquire zero key c =
     (let es = evict (tc_entries c)
      in case map_of es key of
           Some e \<Rightarrow> (c\<lparr>tc_entries := es\<rparr>, e)
         | None \<Rightarrow>
             (c\<lparr>tc_entries := map_put key (tc_next c) es,
                tc_heap := (tc_heap c)(tc_next c := \<lparr>ce_value = zero, ce_expiresAt = 0\<rparr>),
                tc_next := Suc (tc_next c)\<rparr>, tc_next c))"

text \<open>
  The second critical section: \<open>now\<close> is the clock when the entry is checked, \<open>built\<close> the
  outcome of \<open>build()\<close> (None its error), and \<open>later\<close> the clock after it.
\<close>

definition fill :: "nat \<Rightarrow> gotime \<Rightarrow> 'v option \<Rightarrow> gotime \<Rightarrow> 'v ttl_cache \<Rightarrow> 'v ttl_cache \<times> 'v option" where
  "fill e now built later c =
     (if ce_expiresAt (tc_heap c e) \<noteq> 0 \<and> now < ce_expiresAt (tc_heap c e)
      then (c, Some (ce_value (tc_heap c e)))
      else case built of
        None \<Rightarrow> (c, None)
      | Some v \<Rightarrow>
          (c\<lparr>tc_heap := (tc_heap c)(e := \<lparr>ce_value = v, ce_expiresAt = later + tc_ttl c\<rparr>)\<rparr>, Some v))"

text \<open>An uninterrupted \<open>Get\<close>.\<close>

definition cache_Get ::
  "'v \<Rightarrow> string \<Rightarrow> gotime \<Rightarrow> 'v option \<Rightarrow> gotime \<Rightarrow> 'v ttl_cache \<Rightarrow> 'v ttl_cache \<times> 'v option" where
  "cache_Get zero key now built later c =
     (if tc_ttl c \<le> 0 then (c, built)
      else let (c', e) = acquire zero key c in fill e now built later c')"

section \<open>Interleaved callers\<close>

text \<open>
  \<open>build k t\<close> is what rebuilding key \<open>k\<close> gives when the build ends at time \<open>t\<close>. The ghost map
  \<open>own\<close> records the key each entry was created for.
\<close>

inductive cached :: "(string \<Rightarrow> gotime \<Rightarrow> 'v option) \<Rightarrow> 'v \<Rightarrow> duration \<Rightarrow> (nat \<Rightarrow> string) \<Rightarrow> 'v ttl_cache \<Rightarrow> bool"
  for build zero ttl where
  cached_New: "cached build zero ttl own (tc_New zero ttl)"
| cached_acquire: "cached build zero ttl own c \<Longrightarrow> acquire zero key c = (c', e) \<Longrightarrow>
    cached build zero ttl (own(e := key)) c'"
| cached_fill: "cached build zero ttl own c \<Longrightarrow> e < tc_next c \<Longrightarrow>
    fill e now (build (own e) later) later c = (c', r) \<Longrightarrow> cached build zero ttl own c'"

definition cache_inv ::
  "(string \<Rightarrow> gotime \<Rightarrow> 'v option) \<Rightarrow> duration \<Rightarrow> (nat \<Rightarrow> string) \<Rightarrow> 'v ttl_cache \<Rightarrow> bool" where
  "cache_inv build ttl own c \<longleftrightarrow>
     tc_ttl c = ttl \<and> sorted_keys (tc_entries c) \<and> length (tc_entries c) \<le> maxEntries \<and>
     (\<forall>k e. map_of (tc_entries c) k = Some e \<longrightarrow> e < tc_next c \<and> own e = k) \<and>
     (\<forall>e < tc_next c. ce_expiresAt (tc_heap c e) \<noteq> 0 \<longrightarrow>
        (\<exists>t. build (own e) t = Some (ce_value (tc_heap c e)) \<and> ce_expiresAt (tc_heap c e) = t + ttl))"

lemma length_map_put: "length (map_put k v m) \<le> Suc (length m)"
  by (induction m) auto

lemma acquire_inv:
  assumes i: "cache_inv build ttl own c" and a: "acquire zero key c = (c', e)"
  shows "cache_inv build ttl (own(e := key)) c' \<and> e < tc_next c' \<and> map_of (tc_entries c') key = Some e"
proof -
  let ?es = "evict (tc_entries c)"
  have es: "sorted_keys ?es" "length ?es < maxEntries"
    "\<And>k e. map_of ?es k = Some e \<Longrightarrow> e < tc_next c \<and> own e = k"
    using i by (auto simp: cache_inv_def maxEntries_def evict_def split: if_splits)
  show ?thesis
  proof (cases "map_of ?es key")
    case (Some x)
    then have "c' = c\<lparr>tc_entries := ?es\<rparr>" "e = x" using a by (simp_all add: acquire_def Let_def)
    moreover have "own(x := key) = own" using es(3) [OF Some] by auto
    ultimately show ?thesis using i es Some by (simp add: cache_inv_def)
  next
    case None
    then have c': "c' = c\<lparr>tc_entries := map_put key (tc_next c) ?es,
        tc_heap := (tc_heap c)(tc_next c := \<lparr>ce_value = zero, ce_expiresAt = 0\<rparr>), tc_next := Suc (tc_next c)\<rparr>"
      and e: "e = tc_next c" using a by (auto simp: acquire_def Let_def)
    have "length (map_put key (tc_next c) ?es) \<le> maxEntries"
      using es(2) length_map_put [of key "tc_next c" ?es] by linarith
    moreover have "f < Suc (tc_next c) \<and> (own(tc_next c := key)) f = k"
      if "map_of (map_put key (tc_next c) ?es) k = Some f" for k f
      using that es(3) [of k f] by (auto split: if_splits)
    moreover have "\<exists>t. build ((own(tc_next c := key)) f) t = Some (ce_value (tc_heap c' f)) \<and>
        ce_expiresAt (tc_heap c' f) = t + ttl"
      if "f < Suc (tc_next c)" "ce_expiresAt (tc_heap c' f) \<noteq> 0" for f
      using that i unfolding c' by (auto simp: cache_inv_def less_Suc_eq split: if_splits)
    ultimately show ?thesis using i es(1) unfolding cache_inv_def c' e
      by simp
  qed
qed

lemma fill_inv:
  assumes "cache_inv build ttl own c" "e < tc_next c" "fill e now (build (own e) later) later c = (c', r)"
  shows "cache_inv build ttl own c'"
  using assms by (auto simp: cache_inv_def fill_def split: if_splits option.splits)

lemma cached_inv: "cached build zero ttl own c \<Longrightarrow> cache_inv build ttl own c"
proof (induction rule: cached.induct)
  case (cached_New own)
  then show ?case by (simp add: cache_inv_def tc_New_def)
next
  case (cached_acquire own c key c' e)
  then show ?case by (blast dest: acquire_inv)
next
  case (cached_fill own c e now later c' r)
  then show ?case by (blast dest: fill_inv)
qed

text \<open>
  Whatever other callers do between the two sections, an answer is either this caller's own
  build or a value built for the same key less than one TTL ago.
\<close>

lemma fill_fresh:
  assumes "cached build zero ttl own c" "e < tc_next c"
    and "fill e now (build (own e) later) later c = (c', Some v)"
  shows "build (own e) later = Some v \<or> (\<exists>t. build (own e) t = Some v \<and> now < t + ttl)"
  using cached_inv [OF assms(1)] assms(2,3)
  by (auto simp: cache_inv_def fill_def split: if_splits option.splits)

text \<open>A failed build leaves the cache as it was, and is not remembered.\<close>

lemma fill_error: "fill e now built later c = (c', None) \<Longrightarrow> c' = c \<and> built = None"
  by (auto simp: fill_def split: if_splits option.splits)

text \<open>Within the TTL a second caller of the same key is answered without a build.\<close>

lemma Get_hit:
  assumes "0 < tc_ttl c" "length (tc_entries c) < maxEntries"
    and "cache_Get zero k t0 (Some v) t1 c = (c1, Some v)" "length (tc_entries c1) < maxEntries"
    and "t1 + tc_ttl c \<noteq> 0" "t2 < t1 + tc_ttl c"
    and "ce_expiresAt (tc_heap c (the (map_of (tc_entries c) k))) = 0 \<or> map_of (tc_entries c) k = None"
  shows "cache_Get zero k t2 b t3 c1 = (c1, Some v)"
  using assms
  by (auto simp: cache_Get_def acquire_def evict_def fill_def Let_def split: option.splits if_splits)

section \<open>Properties\<close>



text \<open>The map of cached entries never grows past its bound, whatever keys are asked for.\<close>

theorem cache_is_bounded:
  assumes "cached build zero ttl own c"
  shows "length (tc_entries c) \<le> 512 \<and> distinct (map fst (tc_entries c))"
  using cached_inv [OF assms] by (simp add: cache_inv_def maxEntries_def sorted_keys_distinct)

theorem cache_is_bounded_witness:
  "length (tc_entries (fst (acquire 0 ''k'' (tc_New (0 :: int) 5)))) \<le> 512"
  using cache_is_bounded [OF cached_acquire [OF cached_New [of "\<lambda>_ t. Some t"] surjective_pairing]] by blast

end
