(* ===== verification/Object_Store.thy ===== *)
theory Object_Store
  imports Go_Prelude
begin

text \<open>
  \<open>internal/storage/s3connector.go\<close>: the wrapper the handlers use to reach an S3-compatible
  bucket. The service behind the SDK is the parameter \<open>s3_client\<close>: functions on an abstract bucket
  state. A handler given no connector has None for it. The location of an upload, which nobody
  reads, is not kept.
\<close>

datatype s3_error = NoSuchKey | APIError string | TransportError | EmptyFolderPath

definition IsNotFound :: "s3_error \<Rightarrow> bool" where
  "IsNotFound err =
     (case err of
        NoSuchKey \<Rightarrow> True
      | APIError code \<Rightarrow> code \<in> {''NoSuchKey'', ''NotFound'', ''404''}
      | TransportError \<Rightarrow> False
      | EmptyFolderPath \<Rightarrow> False)"

record s3_object =
  ob_Body :: string
  ob_ContentLength :: "int ptr"
  ob_ETag :: "string ptr"
  ob_ContentType :: "string ptr"
  ob_Metadata :: "string entries"
  ob_LastModified :: "gotime ptr"

record s3_listed =
  ls_Key :: "string ptr"
  ls_Size :: "int ptr"
  ls_ETag :: "string ptr"
  ls_LastModified :: "gotime ptr"

record s3_page =
  pg_Contents :: "s3_listed list"
  pg_CommonPrefixes :: "string list"

text \<open>A call that fails may still have changed the bucket, so a write returns a bucket in any case. A listing is
  the sequence of its pages, each of which may fail.\<close>

record 'b s3_client =
  PutObject :: "string \<Rightarrow> string \<Rightarrow> string \<Rightarrow> string entries \<Rightarrow> 'b \<Rightarrow> 'b \<times> s3_error option"
  GetObject :: "string \<Rightarrow> 'b \<Rightarrow> s3_error + s3_object"
  DeleteObject :: "string \<Rightarrow> 'b \<Rightarrow> 'b \<times> s3_error option"
  DeleteObjects :: "string list \<Rightarrow> 'b \<Rightarrow> 'b \<times> s3_error option"
  CopyObject :: "string \<Rightarrow> string \<Rightarrow> 'b \<Rightarrow> 'b \<times> s3_error option"
  ListPages :: "string \<Rightarrow> string ptr \<Rightarrow> 'b \<Rightarrow> (s3_error + s3_page) list"
  HeadBucket :: "'b \<Rightarrow> s3_error option"

record FileInfo =
  fi_Key :: string
  fi_Size :: int
  fi_LastModified :: gotime
  fi_ETag :: string
  fi_ContentType :: string
  fi_Metadata :: "string entries"

text \<open>\<open>aws.ToString\<close> and \<open>aws.ToInt64\<close>\<close>

definition ToString :: "string ptr \<Rightarrow> string" where
  "ToString p = (case p of None \<Rightarrow> [] | Some s \<Rightarrow> s)"

definition ToInt64 :: "int ptr \<Rightarrow> int" where
  "ToInt64 p = (case p of None \<Rightarrow> 0 | Some n \<Rightarrow> n)"

section \<open>Objects\<close>

definition Ping :: "'b s3_client \<Rightarrow> 'b \<Rightarrow> s3_error option" where
  "Ping c b = HeadBucket c b"

definition UploadFile :: "'b s3_client \<Rightarrow> string \<Rightarrow> string \<Rightarrow> string \<Rightarrow> string entries \<Rightarrow> 'b \<Rightarrow> 'b \<times> s3_error option" where
  "UploadFile c key body contentType metadata b = PutObject c key body contentType metadata b"

definition GetFile :: "'b s3_client \<Rightarrow> string \<Rightarrow> 'b \<Rightarrow> s3_error + string \<times> FileInfo" where
  "GetFile c key b =
     (case GetObject c key b of
        Inl err \<Rightarrow> Inl err
      | Inr out \<Rightarrow> Inr (ob_Body out,
          \<lparr>fi_Key = key, fi_Size = ToInt64 (ob_ContentLength out),
           fi_LastModified = (case ob_LastModified out of None \<Rightarrow> 0 | Some t \<Rightarrow> t),
           fi_ETag = TrimChar (CHR 0x22) (ToString (ob_ETag out)),
           fi_ContentType = ToString (ob_ContentType out),
           fi_Metadata = ob_Metadata out\<rparr>))"

text \<open>The bytes written to the destination and their number.\<close>

definition DownloadFile :: "'b s3_client \<Rightarrow> string \<Rightarrow> 'b \<Rightarrow> s3_error + string \<times> int" where
  "DownloadFile c key b = map_sum id (\<lambda>out. (ob_Body out, int (length (ob_Body out)))) (GetObject c key b)"

definition DeleteFile :: "'b s3_client \<Rightarrow> string \<Rightarrow> 'b \<Rightarrow> 'b \<times> s3_error option" where
  "DeleteFile c key b = DeleteObject c key b"

definition DeleteFiles :: "'b s3_client \<Rightarrow> string list \<Rightarrow> 'b \<Rightarrow> 'b \<times> s3_error option" where
  "DeleteFiles c keys b = (if keys = [] then (b, None) else DeleteObjects c keys b)"

definition RenameFile :: "'b s3_client \<Rightarrow> string \<Rightarrow> string \<Rightarrow> string \<Rightarrow> 'b \<Rightarrow> 'b \<times> s3_error option" where
  "RenameFile c bucket srcKey dstKey b =
     (case CopyObject c (bucket @ ''/'' @ srcKey) dstKey b of
        (b', Some err) \<Rightarrow> (b', Some err)
      | (b', None) \<Rightarrow> DeleteFile c srcKey b')"

section \<open>Folders\<close>

definition normalizePrefix :: "string \<Rightarrow> string" where
  "normalizePrefix p0 =
     (let p = TrimPrefix p0 ''/''
      in if p = [] then [] else if HasSuffix p ''/'' then p else p @ ''/'')"

text \<open>The pages of a listing up to the first that fails.\<close>

fun all_pages :: "(s3_error + s3_page) list \<Rightarrow> s3_error + s3_page list" where
  "all_pages [] = Inr []"
| "all_pages (Inl err # _) = Inl err"
| "all_pages (Inr p # ps) = map_sum id (\<lambda>qs. p # qs) (all_pages ps)"

definition listed_file :: "s3_listed \<Rightarrow> FileInfo" where
  "listed_file obj =
     \<lparr>fi_Key = ToString (ls_Key obj), fi_Size = ToInt64 (ls_Size obj),
      fi_LastModified = (case ls_LastModified obj of None \<Rightarrow> 0 | Some t \<Rightarrow> t),
      fi_ETag = TrimChar (CHR 0x22) (ToString (ls_ETag obj)), fi_ContentType = [], fi_Metadata = []\<rparr>"

definition ListFiles :: "'b s3_client \<Rightarrow> string \<Rightarrow> 'b \<Rightarrow> s3_error + FileInfo list" where
  "ListFiles c pfx b =
     map_sum id (\<lambda>ps. map listed_file (filter (\<lambda>obj. \<not> HasSuffix (ToString (ls_Key obj)) ''/'') (concat (map pg_Contents ps))))
       (all_pages (ListPages c (normalizePrefix pfx) (Some ''/'') b))"

definition ListFolders :: "'b s3_client \<Rightarrow> string \<Rightarrow> 'b \<Rightarrow> s3_error + string list" where
  "ListFolders c pfx b =
     map_sum id (\<lambda>ps. concat (map pg_CommonPrefixes ps)) (all_pages (ListPages c (normalizePrefix pfx) (Some ''/'') b))"

definition CreateFolder :: "'b s3_client \<Rightarrow> string \<Rightarrow> 'b \<Rightarrow> 'b \<times> s3_error option" where
  "CreateFolder c folderPath b =
     (let key = normalizePrefix folderPath in if key = [] then (b, Some EmptyFolderPath) else PutObject c key [] [] [] b)"

function delete_chunks :: "'b s3_client \<Rightarrow> string list \<Rightarrow> 'b \<Rightarrow> 'b \<times> s3_error option" where
  "delete_chunks c keys b =
     (if keys = [] then (b, None)
      else case DeleteFiles c (take 1000 keys) b of
        (b', Some err) \<Rightarrow> (b', Some err)
      | (b', None) \<Rightarrow> delete_chunks c (drop 1000 keys) b')"
  by pat_completeness auto
termination
  by (relation "measure (\<lambda>(c, keys, b). length keys)") auto

declare delete_chunks.simps [simp del]

definition DeleteFolder :: "'b s3_client \<Rightarrow> string \<Rightarrow> 'b \<Rightarrow> 'b \<times> s3_error option" where
  "DeleteFolder c folderPath b =
     (case all_pages (ListPages c (normalizePrefix folderPath) None b) of
        Inl err \<Rightarrow> (b, Some err)
      | Inr ps \<Rightarrow> delete_chunks c (map (\<lambda>obj. ToString (ls_Key obj)) (concat (map pg_Contents ps))) b)"

section \<open>The connector\<close>

record S3BucketConfig =
  sc_AccountID :: string
  sc_AccessKeyID :: string
  sc_SecretAccessKey :: string
  sc_BucketName :: string
  sc_Region :: string
  sc_Endpoint :: string

text \<open>What the connector is built with: endpoint, region and bucket. \<open>loads\<close> says whether the SDK accepts it.\<close>

definition NewS3Connector :: "bool \<Rightarrow> S3BucketConfig \<Rightarrow> string + string \<times> string \<times> string" where
  "NewS3Connector loads cfg =
     (if sc_AccessKeyID cfg = [] \<or> sc_SecretAccessKey cfg = [] \<or> sc_BucketName cfg = []
      then Inl ''missing required S3 config fields (access key id, secret access key, bucket name)''
      else if sc_Endpoint cfg = [] \<and> sc_AccountID cfg = []
      then Inl ''either an S3 endpoint or a Cloudflare account id must be set''
      else
        let endpoint = (if sc_Endpoint cfg = [] then ''https://'' @ sc_AccountID cfg @ ''.r2.cloudflarestorage.com'' else sc_Endpoint cfg);
            region = (if sc_Region cfg = [] then ''auto'' else sc_Region cfg)
        in if loads then Inr (endpoint, region, sc_BucketName cfg) else Inl ''failed to load R2 config'')"

section \<open>What the handlers rely on\<close>

text \<open>
  A successful upload is read back as uploaded, with its size and type, and leaves the objects under other
  keys alone.
\<close>

definition read_after_write :: "'b s3_client \<Rightarrow> bool" where
  "read_after_write c \<longleftrightarrow> (\<forall>key body ct meta b b'. PutObject c key body ct meta b = (b', None) \<longrightarrow>
     (\<exists>out. GetObject c key b' = Inr out \<and> ob_Body out = body \<and> ob_ContentLength out = Some (int (length body)) \<and>
        ob_ContentType out = Some ct) \<and>
     (\<forall>k. k \<noteq> key \<longrightarrow> GetObject c k b' = GetObject c k b))"

lemma GetFile_UploadFile:
  assumes "read_after_write c" "UploadFile c key body ct meta b = (b', None)"
  shows "\<exists>info. GetFile c key b' = Inr (body, info) \<and> fi_Key info = key \<and> fi_Size info = int (length body) \<and> fi_ContentType info = ct"
    and "k \<noteq> key \<Longrightarrow> GetFile c k b' = GetFile c k b"
proof -
  from assms have r: "\<exists>out. GetObject c key b' = Inr out \<and> ob_Body out = body \<and> ob_ContentLength out = Some (int (length body)) \<and>
      ob_ContentType out = Some ct" and o: "\<forall>k. k \<noteq> key \<longrightarrow> GetObject c k b' = GetObject c k b"
    unfolding read_after_write_def UploadFile_def by blast+
  from r show "\<exists>info. GetFile c key b' = Inr (body, info) \<and> fi_Key info = key \<and> fi_Size info = int (length body) \<and> fi_ContentType info = ct"
    by (auto simp: GetFile_def ToString_def ToInt64_def)
  show "k \<noteq> key \<Longrightarrow> GetFile c k b' = GetFile c k b" using o by (simp add: GetFile_def)
qed

lemma normalizePrefix_slash: "normalizePrefix p = [] \<or> (\<exists>q. normalizePrefix p = q @ ''/'')"
proof -
  have "\<exists>q. s = q @ ''/''" if h: "HasSuffix s ''/''" for s
  proof -
    from h have "take 1 (rev s) = ''/''" by (simp add: HasSuffix_def HasPrefix_def)
    then obtain t where "rev s = CHR ''/'' # t" by (cases "rev s") auto
    then have "s = rev t @ ''/''" by (metis rev.simps(2) rev_rev_ident)
    then show ?thesis by blast
  qed
  then show ?thesis by (auto simp: normalizePrefix_def Let_def)
qed

section \<open>A bucket in memory\<close>

definition map_bucket :: "(string \<rightharpoonup> s3_object) s3_client" where
  "map_bucket =
     \<lparr>PutObject = (\<lambda>key body ct meta b.
        (b(key \<mapsto> \<lparr>ob_Body = body, ob_ContentLength = Some (int (length body)), ob_ETag = None, ob_ContentType = Some ct,
                   ob_Metadata = meta, ob_LastModified = None\<rparr>), None)),
      GetObject = (\<lambda>key b. case b key of None \<Rightarrow> Inl NoSuchKey | Some out \<Rightarrow> Inr out),
      DeleteObject = (\<lambda>key b. (b(key := None), None)),
      DeleteObjects = (\<lambda>keys b. (b |` (- set keys), None)),
      CopyObject = (\<lambda>src dst b. (b, Some NoSuchKey)),
      ListPages = (\<lambda>pfx delim b. []),
      HeadBucket = (\<lambda>b. None)\<rparr>"

lemma map_bucket_reads: "read_after_write map_bucket"
  by (auto simp: read_after_write_def map_bucket_def)

end
