(* ===== verification/Releases.thy ===== *)
theory Releases
  imports Unique_Flag Object_Store Session Go_Time RC_Parse
begin

text \<open>
  \<open>internal/updates/updates.route.go\<close> with the rows of \<open>internal/models/release.go\<close>: the releases
  of the EMLy client, their channel flags, and the update manifest built from them. Versions are
  compared in a column whose collation key is \<open>ck\<close>. A handler's statements (database and bucket)
  are numbered in program order; library error texts are not modelled.
\<close>

section \<open>Rows\<close>

record release =
  rel_id :: int
  rel_version :: string
  rel_is_stable :: bool
  rel_is_beta :: bool
  rel_download_filename :: string
  rel_sha256_checksum :: string
  rel_short_note :: string
  rel_severity_type :: string
  rel_description_en :: "string ptr"
  rel_description_it :: "string ptr"
  rel_is_critical :: bool
  rel_critical_version :: "string ptr"
  rel_min_required_version :: "string ptr"
  rel_released_at :: gotime
  rel_created_at :: gotime

type_synonym releases = "release list"

definition validSeverity :: "string \<Rightarrow> bool" where
  "validSeverity s \<longleftrightarrow> s \<in> {''none'', ''security'', ''bugfix'', ''feature''}"

definition severity_error :: string where
  "severity_error = ''severity_type must be one of: none, security, bugfix, feature''"

definition fetch_release :: "collation \<Rightarrow> string \<Rightarrow> releases \<Rightarrow> release option" where
  "fetch_release ck version rels = find (\<lambda>r. ck (rel_version r) = ck version) rels"

text \<open>\<open>ORDER BY released_at DESC\<close>.\<close>

definition newest_first :: "releases \<Rightarrow> releases" where
  "newest_first rels = sort_key (\<lambda>r. - rel_released_at r) rels"

section \<open>Demotion\<close>

definition clearStableFlag :: "collation \<Rightarrow> string \<Rightarrow> releases \<Rightarrow> releases" where
  "clearStableFlag ck exceptVersion rels =
     clear_flag (\<lambda>r. rel_is_stable r \<and> ck (rel_version r) \<noteq> ck exceptVersion) (\<lambda>r. r\<lparr>rel_is_stable := False\<rparr>) rels"

definition clearBetaFlag :: "collation \<Rightarrow> string \<Rightarrow> releases \<Rightarrow> releases" where
  "clearBetaFlag ck exceptVersion rels =
     clear_flag (\<lambda>r. rel_is_beta r \<and> ck (rel_version r) \<noteq> ck exceptVersion) (\<lambda>r. r\<lparr>rel_is_beta := False\<rparr>) rels"

text \<open>The critical flag goes with its version.\<close>

definition clearCritical :: "collation \<Rightarrow> string \<Rightarrow> releases \<Rightarrow> releases" where
  "clearCritical ck exceptVersion rels =
     clear_flag (\<lambda>r. rel_is_critical r \<and> ck (rel_version r) \<noteq> ck exceptVersion)
       (\<lambda>r. r\<lparr>rel_is_critical := False, rel_critical_version := None\<rparr>) rels"

text \<open>\<open>UPDATE ... WHERE version = ?\<close> and \<open>RowsAffected\<close>, which counts the rows that changed.\<close>

definition update_release :: "collation \<Rightarrow> string \<Rightarrow> (release \<Rightarrow> release) \<Rightarrow> releases \<Rightarrow> releases \<times> nat" where
  "update_release ck version put rels =
     (set_flag (\<lambda>r. ck (rel_version r) = ck version) put rels,
      length (filter (\<lambda>r. ck (rel_version r) = ck version \<and> put r \<noteq> r) rels))"

section \<open>Manifest\<close>

text \<open>What \<open>requestBaseURL\<close> reads of a request: whether it came over TLS, and its host.\<close>

record web_request = request +
  r_TLS :: bool
  r_Host :: string

definition requestBaseURL :: "web_request \<Rightarrow> string" where
  "requestBaseURL r =
     (let scheme = (if r_TLS r then ''https'' else ''http'');
          proto = r_Header r ''X-Forwarded-Proto'';
          scheme = (if proto \<noteq> [] then proto else scheme);
          fwHost = r_Header r ''X-Forwarded-Host'';
          host = (if fwHost \<noteq> [] then fwHost else r_Host r)
      in scheme @ ''://'' @ host)"

record detailed_note =
  dn_SeverityType :: string
  dn_Description :: "(string \<times> string) list"

record update_manifest =
  mf_StableVersion :: string
  mf_BetaVersion :: string
  mf_StableDownload :: string
  mf_BetaDownload :: string
  mf_IsCritical :: bool
  mf_CriticalVersion :: string
  mf_MinRequiredVersion :: string
  mf_SHA256Checksums :: "(string \<times> string) list"
  mf_ReleaseNotes :: "(string \<times> string) list"
  mf_DetailedReleaseNotes :: "(string \<times> detailed_note) list option"

definition empty_manifest :: update_manifest where
  "empty_manifest = \<lparr>mf_StableVersion = [], mf_BetaVersion = [], mf_StableDownload = [], mf_BetaDownload = [],
     mf_IsCritical = False, mf_CriticalVersion = [], mf_MinRequiredVersion = [], mf_SHA256Checksums = [],
     mf_ReleaseNotes = [], mf_DetailedReleaseNotes = Some []\<rparr>"

definition download_url :: "string \<Rightarrow> string \<Rightarrow> string" where
  "download_url base version = base @ ''/v2/updates/releases/'' @ version @ ''/download''"

definition release_note :: "release \<Rightarrow> detailed_note" where
  "release_note rel =
     \<lparr>dn_SeverityType = rel_severity_type rel,
      dn_Description =
        (let d = (case rel_description_en rel of None \<Rightarrow> [] | Some x \<Rightarrow> map_put ''en'' x [])
         in case rel_description_it rel of None \<Rightarrow> d | Some x \<Rightarrow> map_put ''it'' x d)\<rparr>"

text \<open>One iteration of the loop of \<open>buildManifest\<close>: notes first, then the critical flag and the slots.\<close>

definition add_notes :: "release \<Rightarrow> update_manifest \<Rightarrow> update_manifest" where
  "add_notes rel m =
     (let m = (if rel_sha256_checksum rel \<noteq> []
               then m\<lparr>mf_SHA256Checksums := map_put (rel_version rel) (rel_sha256_checksum rel) (mf_SHA256Checksums m)\<rparr>
               else m);
          m = (if rel_short_note rel \<noteq> []
               then m\<lparr>mf_ReleaseNotes := map_put (rel_version rel) (rel_short_note rel) (mf_ReleaseNotes m)\<rparr>
               else m)
      in if rel_severity_type rel \<noteq> ''none''
         then m\<lparr>mf_DetailedReleaseNotes := map_option (map_put (rel_version rel) (release_note rel)) (mf_DetailedReleaseNotes m)\<rparr>
         else m)"

definition add_slots :: "string \<Rightarrow> release \<Rightarrow> update_manifest \<Rightarrow> update_manifest" where
  "add_slots apiBaseURL rel m =
     (let m = (if rel_is_critical rel
               then m\<lparr>mf_IsCritical := True,
                      mf_CriticalVersion := (case rel_critical_version rel of Some v \<Rightarrow> v | None \<Rightarrow> rel_version rel)\<rparr>
               else m);
          m = (if rel_is_stable rel
               then m\<lparr>mf_StableVersion := rel_version rel, mf_StableDownload := download_url apiBaseURL (rel_version rel),
                      mf_MinRequiredVersion := (case rel_min_required_version rel of
                        Some v \<Rightarrow> v | None \<Rightarrow> mf_MinRequiredVersion m)\<rparr>
               else m)
      in if rel_is_beta rel
         then m\<lparr>mf_BetaVersion := rel_version rel, mf_BetaDownload := download_url apiBaseURL (rel_version rel)\<rparr>
         else m)"

definition buildManifest :: "releases \<Rightarrow> string \<Rightarrow> update_manifest" where
  "buildManifest rels apiBaseURL =
     (let m = fold (\<lambda>rel m. add_slots apiBaseURL rel (add_notes rel m)) rels empty_manifest
      in if mf_DetailedReleaseNotes m = Some [] then m\<lparr>mf_DetailedReleaseNotes := None\<rparr> else m)"

text \<open>The manifest is answered first and the check recorded after; statement 0 is the query.\<close>

definition GetUpdateManifest ::
  "collation \<Rightarrow> faults \<Rightarrow> gotime \<Rightarrow> releases \<Rightarrow> updater_db \<Rightarrow> hub_event stats_hub ptr \<Rightarrow> web_request \<Rightarrow>
     (updater_db \<times> hub_event stats_hub ptr) \<times> update_manifest response" where
  "GetUpdateManifest ck f now rels udb hub r =
     (if f 0 then ((udb, hub), Error 500 ''failed to fetch releases'')
      else let manifest = buildManifest (newest_first rels) (requestBaseURL r);
               uaVersion = fst (ParseUserAgent (UserAgent (request.truncate r)))
           in (RecordEvent ck (shift_faults 1 f) now udb hub (request.truncate r) ''manifest_check'' ''emly'' uaVersion,
               OK manifest))"

definition ListReleases :: "faults \<Rightarrow> releases \<Rightarrow> string \<Rightarrow> releases response" where
  "ListReleases f rels channel =
     (let answer = (\<lambda>P. if f 0 then Error 500 ''failed to fetch releases'' else OK (newest_first (filter P rels)))
      in if channel = [] then answer (\<lambda>_. True)
         else if channel = ''stable'' then answer rel_is_stable
         else if channel = ''beta'' then answer rel_is_beta
         else if channel = ''archived'' then answer (\<lambda>r. \<not> rel_is_stable r \<and> \<not> rel_is_beta r)
         else Error 400 ''channel must be one of: stable, beta, archived'')"

section \<open>Creating, downloading, deleting\<close>

definition s3Key :: "string \<Rightarrow> string \<Rightarrow> string" where
  "s3Key pfx filename = (if pfx = [] then filename else pfx @ ''/'' @ filename)"

text \<open>
  A parsed multipart form: \<open>FormValue\<close> (empty when absent) and the uploaded file's name with its
  bytes, None when reading it fails.
\<close>

record form =
  FormValue :: "string \<Rightarrow> string"
  FormFile :: "(string \<times> string option) option"

definition form_flag :: "form \<Rightarrow> string \<Rightarrow> bool" where
  "form_flag frm name \<longleftrightarrow> FormValue frm name = ''true'' \<or> FormValue frm name = ''1''"

record created_release =
  cre_version :: string
  cre_is_stable :: bool
  cre_is_beta :: bool
  cre_download_filename :: string
  cre_sha256_checksum :: string

text \<open>The row \<open>CreateRelease\<close> inserts; \<open>newID\<close> and \<open>now\<close> are what the database fills in.\<close>

definition new_release :: "int \<Rightarrow> gotime \<Rightarrow> form \<Rightarrow> string \<Rightarrow> string \<Rightarrow> release" where
  "new_release newID now frm filename checksum =
     (let severity = TrimSpace (FormValue frm ''severity_type'');
          releasedAtStr = TrimSpace (FormValue frm ''released_at'')
      in \<lparr>rel_id = newID,
          rel_version = TrimSpace (FormValue frm ''version''),
          rel_is_stable = form_flag frm ''is_stable'',
          rel_is_beta = form_flag frm ''is_beta'',
          rel_download_filename = filename,
          rel_sha256_checksum = checksum,
          rel_short_note = FormValue frm ''short_note'',
          rel_severity_type = (if severity = [] then ''none'' else severity),
          rel_description_en = NullString (TrimSpace (FormValue frm ''description_en'')),
          rel_description_it = NullString (TrimSpace (FormValue frm ''description_it'')),
          rel_is_critical = form_flag frm ''is_critical'',
          rel_critical_version = NullString (TrimSpace (FormValue frm ''critical_version'')),
          rel_min_required_version = NullString (TrimSpace (FormValue frm ''min_required_version'')),
          rel_released_at = to_timestamp (if releasedAtStr = [] then now
             else case ParseRFC3339 releasedAtStr of None \<Rightarrow> now | Some t \<Rightarrow> t),
          rel_created_at = to_timestamp now\<rparr>)"

text \<open>\<open>version\<close> is a unique key.\<close>

definition insert_release :: "collation \<Rightarrow> release \<Rightarrow> releases \<Rightarrow> releases option" where
  "insert_release ck rel rels =
     (if ck (rel_version rel) \<in> set (map (\<lambda>r. ck (rel_version r)) rels) then None else Some (rels @ [rel]))"

text \<open>Statements: 0 begin, 1 clear critical, 2 clear stable, 3 clear beta, 4 insert, 5 commit.\<close>

definition insert_release_tx :: "collation \<Rightarrow> faults \<Rightarrow> release \<Rightarrow> releases \<Rightarrow> string + releases" where
  "insert_release_tx ck f rel rels =
     (if f 0 then Inl ''failed to begin transaction''
      else if rel_is_critical rel \<and> f 1 then Inl ''failed to clear existing critical flag''
      else if rel_is_stable rel \<and> f 2 then Inl ''failed to clear existing stable release''
      else if rel_is_beta rel \<and> f 3 then Inl ''failed to clear existing beta release''
      else
        let rels1 = (if rel_is_critical rel
                then clear_flag rel_is_critical (\<lambda>r. r\<lparr>rel_is_critical := False, rel_critical_version := None\<rparr>) rels
                else rels);
            rels2 = (if rel_is_stable rel then clearStableFlag ck (rel_version rel) rels1 else rels1);
            rels3 = (if rel_is_beta rel then clearBetaFlag ck (rel_version rel) rels2 else rels2)
        in if f 4 then Inl ''failed to create release''
           else case insert_release ck rel rels3 of
             None \<Rightarrow> Inl ''failed to create release''
           | Some rels4 \<Rightarrow> if f 5 then Inl ''failed to commit'' else Inr rels4)"

definition CreateRelease ::
  "golib \<Rightarrow> collation \<Rightarrow> faults \<Rightarrow> gotime \<Rightarrow> int \<Rightarrow> 'b s3_client option \<Rightarrow> string \<Rightarrow> 'b \<Rightarrow> releases \<Rightarrow>
     form option \<Rightarrow> ('b \<times> releases) \<times> created_release response" where
  "CreateRelease L ck f now newID s3conn s3Prefix b rels body =
     (case s3conn of
        None \<Rightarrow> ((b, rels), Error 503 ''S3 storage is not configured'')
      | Some c \<Rightarrow>
        (case body of
           None \<Rightarrow> ((b, rels), Error 400 ''invalid multipart form'')
         | Some frm \<Rightarrow>
           let severity = TrimSpace (FormValue frm ''severity_type'')
           in if TrimSpace (FormValue frm ''version'') = [] then ((b, rels), Error 400 ''version is required'')
              else if \<not> validSeverity (if severity = [] then ''none'' else severity)
              then ((b, rels), Error 400 severity_error)
              else case FormFile frm of
                None \<Rightarrow> ((b, rels), Error 400 ''missing file field'')
              | Some (filename, None) \<Rightarrow> ((b, rels), Error 500 ''failed to read file'')
              | Some (filename, Some data) \<Rightarrow>
                let checksum = sha256_hex L data
                in case UploadFile c (s3Key s3Prefix filename) data ''application/octet-stream'' [] b of
                     (b', Some err) \<Rightarrow> ((b', rels), Error 500 ''upload failed'')
                   | (b', None) \<Rightarrow>
                     let rel = new_release newID now frm filename checksum
                     in case insert_release_tx ck f rel rels of
                          Inl msg \<Rightarrow> ((b', rels), Error 500 msg)
                        | Inr rels' \<Rightarrow> ((b', rels'), Created
                            \<lparr>cre_version = rel_version rel, cre_is_stable = rel_is_stable rel, cre_is_beta = rel_is_beta rel,
                             cre_download_filename = filename, cre_sha256_checksum = checksum\<rparr>)))"

text \<open>A file answer: its headers, and the bytes the copy loop is given.\<close>

record served_file =
  sf_ContentType :: string
  sf_ContentDisposition :: string
  sf_ContentLength :: "int option"
  sf_Body :: string

definition serve_file :: "string \<Rightarrow> string \<times> FileInfo \<Rightarrow> served_file" where
  "serve_file filename got =
     (case got of (body, info) \<Rightarrow>
        \<lparr>sf_ContentType = (if fi_ContentType info = [] then ''application/octet-stream'' else fi_ContentType info),
         sf_ContentDisposition = ''attachment; filename='' @ CHR 0x22 # filename @ [CHR 0x22],
         sf_ContentLength = (if 0 < fi_Size info then Some (fi_Size info) else None),
         sf_Body = body\<rparr>)"

text \<open>The download is recorded after the body is sent. A failed query is answered 404 too.\<close>

definition DownloadRelease ::
  "collation \<Rightarrow> faults \<Rightarrow> gotime \<Rightarrow> 'b s3_client option \<Rightarrow> string \<Rightarrow> 'b \<Rightarrow> releases \<Rightarrow> updater_db \<Rightarrow>
     hub_event stats_hub ptr \<Rightarrow> request \<Rightarrow> string \<Rightarrow> (updater_db \<times> hub_event stats_hub ptr) \<times> served_file response" where
  "DownloadRelease ck f now s3conn s3Prefix b rels udb hub r version =
     (case s3conn of
        None \<Rightarrow> ((udb, hub), Error 503 ''S3 storage is not configured'')
      | Some c \<Rightarrow>
        (case (if f 0 then None else fetch_release ck version rels) of
           None \<Rightarrow> ((udb, hub), Error 404 ''release not found'')
         | Some rel \<Rightarrow>
           let filename = rel_download_filename rel
           in case GetFile c (s3Key s3Prefix filename) b of
                Inl err \<Rightarrow> ((udb, hub), if IsNotFound err then Error 404 ''installer file not found in storage''
                                   else Error 500 ''failed to retrieve file'')
              | Inr got \<Rightarrow>
                  (RecordEvent ck (shift_faults 1 f) now udb hub r ''download'' ''emly'' version,
                   OK (serve_file filename got))))"

definition DeleteRelease ::
  "collation \<Rightarrow> faults \<Rightarrow> 'b s3_client option \<Rightarrow> string \<Rightarrow> 'b \<Rightarrow> releases \<Rightarrow> string \<Rightarrow> ('b \<times> releases) \<times> unit response" where
  "DeleteRelease ck f s3conn s3Prefix b rels version =
     (case s3conn of
        None \<Rightarrow> ((b, rels), Error 503 ''S3 storage is not configured'')
      | Some c \<Rightarrow>
        (case (if f 0 then None else fetch_release ck version rels) of
           None \<Rightarrow> ((b, rels), Error 404 ''release not found'')
         | Some rel \<Rightarrow>
           (case DeleteFile c (s3Key s3Prefix (rel_download_filename rel)) b of
              (b', err) \<Rightarrow>
                if (case err of None \<Rightarrow> False | Some e \<Rightarrow> \<not> IsNotFound e)
                then ((b', rels), Error 500 ''failed to delete file from storage'')
                else if f 1 then ((b', rels), Error 500 ''failed to delete release'')
                else if \<not> list_ex (\<lambda>r. ck (rel_version r) = ck version) rels
                then ((b', rels), Error 404 ''release not found'')
                else ((b', filter (\<lambda>r. ck (rel_version r) \<noteq> ck version) rels), OK ()))))"

section \<open>Updating\<close>

definition demote_others :: "collation \<Rightarrow> string \<Rightarrow> bool \<Rightarrow> bool \<Rightarrow> bool \<Rightarrow> releases \<Rightarrow> releases" where
  "demote_others ck version toStable toBeta toCritical rels =
     (let rels1 = (if toStable then clearStableFlag ck version rels else rels);
          rels2 = (if toBeta then clearBetaFlag ck version rels1 else rels1)
      in if toCritical then clearCritical ck version rels2 else rels2)"

text \<open>
  The transaction the three update handlers share. Statements: 0 begin, 1 to 3 the demotions the
  request asks for, 4 the update, 5 commit, 6 reading the row back.
\<close>

definition update_release_tx ::
  "collation \<Rightarrow> faults \<Rightarrow> string \<Rightarrow> string \<Rightarrow> bool \<Rightarrow> bool \<Rightarrow> bool \<Rightarrow> (release \<Rightarrow> release) \<Rightarrow> releases \<Rightarrow>
     releases \<times> release response" where
  "update_release_tx ck f failure version toStable toBeta toCritical put rels =
     (if f 0 then (rels, Error 500 ''failed to begin transaction'')
      else if toStable \<and> f 1 then (rels, Error 500 ''failed to clear existing stable release'')
      else if toBeta \<and> f 2 then (rels, Error 500 ''failed to clear existing beta release'')
      else if toCritical \<and> f 3 then (rels, Error 500 ''failed to clear existing critical flag'')
      else
        let (rels1, n) = update_release ck version put (demote_others ck version toStable toBeta toCritical rels)
        in if f 4 then (rels, Error 500 failure)
           else if n = 0 then (rels, Error 404 ''release not found'')
           else if f 5 then (rels, Error 500 ''failed to commit'')
           else if f 6 then (rels1, Error 500 ''failed to fetch updated release'')
           else case fetch_release ck version rels1 of
             None \<Rightarrow> (rels1, Error 500 ''failed to fetch updated release'')
           | Some updated \<Rightarrow> (rels1, OK updated))"

record channels_request =
  pch_IsStable :: "bool ptr"
  pch_IsBeta :: "bool ptr"

record put_release_request =
  pu_IsStable :: bool
  pu_IsBeta :: bool
  pu_ShortNote :: string
  pu_SeverityType :: string
  pu_DescriptionEN :: "string ptr"
  pu_DescriptionIT :: "string ptr"
  pu_IsCritical :: bool
  pu_CriticalVersion :: "string ptr"
  pu_MinRequiredVersion :: "string ptr"
  pu_ReleasedAt :: string

record patch_release_request =
  pa_IsStable :: "bool ptr"
  pa_IsBeta :: "bool ptr"
  pa_ShortNote :: "string ptr"
  pa_SeverityType :: "string ptr"
  pa_DescriptionEN :: "string ptr"
  pa_DescriptionIT :: "string ptr"
  pa_IsCritical :: "bool ptr"
  pa_CriticalVersion :: "string ptr"
  pa_MinRequiredVersion :: "string ptr"
  pa_ReleasedAt :: "string ptr"

text \<open>A nullable field of a request: absent keeps the column.\<close>

definition given :: "'a ptr \<Rightarrow> 'a \<Rightarrow> 'a" where
  "given p x = (case p of None \<Rightarrow> x | Some y \<Rightarrow> y)"

definition given_null :: "'a ptr \<Rightarrow> 'a ptr \<Rightarrow> 'a ptr" where
  "given_null p x = (case p of None \<Rightarrow> x | Some y \<Rightarrow> Some y)"

definition PatchReleaseChannels ::
  "collation \<Rightarrow> faults \<Rightarrow> releases \<Rightarrow> string \<Rightarrow> channels_request option \<Rightarrow> releases \<times> release response" where
  "PatchReleaseChannels ck f rels version body =
     (case body of
        None \<Rightarrow> (rels, Error 400 ''invalid JSON'')
      | Some req \<Rightarrow>
          if pch_IsStable req = None \<and> pch_IsBeta req = None
          then (rels, Error 400 ''is_stable and/or is_beta required'')
          else update_release_tx ck f ''failed to update channels'' version
            (pch_IsStable req = Some True) (pch_IsBeta req = Some True) False
            (\<lambda>r. r\<lparr>rel_is_stable := given (pch_IsStable req) (rel_is_stable r),
                   rel_is_beta := given (pch_IsBeta req) (rel_is_beta r)\<rparr>) rels)"

definition PutRelease ::
  "collation \<Rightarrow> faults \<Rightarrow> gotime \<Rightarrow> releases \<Rightarrow> string \<Rightarrow> put_release_request option \<Rightarrow> releases \<times> release response" where
  "PutRelease ck f now rels version body =
     (case body of
        None \<Rightarrow> (rels, Error 400 ''invalid JSON'')
      | Some req \<Rightarrow>
          let severity = (if pu_SeverityType req = [] then ''none'' else pu_SeverityType req);
              releasedAt = (if pu_ReleasedAt req = [] then now
                 else case ParseRFC3339 (pu_ReleasedAt req) of None \<Rightarrow> now | Some t \<Rightarrow> t)
          in if \<not> validSeverity severity then (rels, Error 400 severity_error)
             else update_release_tx ck f ''failed to update release'' version
               (pu_IsStable req) (pu_IsBeta req) (pu_IsCritical req)
               (\<lambda>r. r\<lparr>rel_is_stable := pu_IsStable req, rel_is_beta := pu_IsBeta req,
                      rel_short_note := pu_ShortNote req, rel_severity_type := severity,
                      rel_description_en := pu_DescriptionEN req, rel_description_it := pu_DescriptionIT req,
                      rel_is_critical := pu_IsCritical req, rel_critical_version := pu_CriticalVersion req,
                      rel_min_required_version := pu_MinRequiredVersion req,
                      rel_released_at := to_timestamp releasedAt\<rparr>) rels)"

definition patched_release :: "patch_release_request \<Rightarrow> gotime ptr \<Rightarrow> release \<Rightarrow> release" where
  "patched_release req releasedAt r =
     r\<lparr>rel_is_stable := given (pa_IsStable req) (rel_is_stable r),
       rel_is_beta := given (pa_IsBeta req) (rel_is_beta r),
       rel_short_note := given (pa_ShortNote req) (rel_short_note r),
       rel_severity_type := given (pa_SeverityType req) (rel_severity_type r),
       rel_description_en := given_null (pa_DescriptionEN req) (rel_description_en r),
       rel_description_it := given_null (pa_DescriptionIT req) (rel_description_it r),
       rel_is_critical := given (pa_IsCritical req) (rel_is_critical r),
       rel_critical_version := given_null (pa_CriticalVersion req) (rel_critical_version r),
       rel_min_required_version := given_null (pa_MinRequiredVersion req) (rel_min_required_version r),
       rel_released_at := (case releasedAt of None \<Rightarrow> rel_released_at r | Some t \<Rightarrow> to_timestamp t)\<rparr>"

definition empty_patch :: patch_release_request where
  "empty_patch = \<lparr>pa_IsStable = None, pa_IsBeta = None, pa_ShortNote = None, pa_SeverityType = None,
     pa_DescriptionEN = None, pa_DescriptionIT = None, pa_IsCritical = None, pa_CriticalVersion = None,
     pa_MinRequiredVersion = None, pa_ReleasedAt = None\<rparr>"

definition PatchRelease ::
  "collation \<Rightarrow> faults \<Rightarrow> releases \<Rightarrow> string \<Rightarrow> patch_release_request option \<Rightarrow> releases \<times> release response" where
  "PatchRelease ck f rels version body =
     (case body of
        None \<Rightarrow> (rels, Error 400 ''invalid JSON'')
      | Some req \<Rightarrow>
          if (case pa_SeverityType req of None \<Rightarrow> False | Some s \<Rightarrow> \<not> validSeverity s)
          then (rels, Error 400 severity_error)
          else
            let go = (\<lambda>releasedAt.
                  if req = empty_patch then (rels, Error 400 ''no fields to update'')
                  else update_release_tx ck f ''failed to update release'' version
                    (pa_IsStable req = Some True) (pa_IsBeta req = Some True) (pa_IsCritical req = Some True)
                    (patched_release req releasedAt) rels)
            in case pa_ReleasedAt req of
                 None \<Rightarrow> go None
               | Some s \<Rightarrow> (case ParseRFC3339 s of
                   None \<Rightarrow> (rels, Error 400 ''released_at must be RFC3339'')
                 | Some t \<Rightarrow> go (Some t)))"

section \<open>The channel slots\<close>

definition version_key :: "collation \<Rightarrow> release \<Rightarrow> string" where
  "version_key ck r = ck (rel_version r)"

definition releases_ok :: "collation \<Rightarrow> releases \<Rightarrow> bool" where
  "releases_ok ck rels \<longleftrightarrow> distinct (map (version_key ck) rels) \<and>
     at_most_one rel_is_stable rels \<and> at_most_one rel_is_beta rels \<and> at_most_one rel_is_critical rels"

interpretation stable_slot: promotable_flag rel_is_stable "\<lambda>r. r\<lparr>rel_is_stable := False\<rparr>" "version_key ck" for ck
  by unfold_locales (simp_all add: version_key_def)

interpretation beta_slot: promotable_flag rel_is_beta "\<lambda>r. r\<lparr>rel_is_beta := False\<rparr>" "version_key ck" for ck
  by unfold_locales (simp_all add: version_key_def)

interpretation critical_slot: promotable_flag rel_is_critical
    "\<lambda>r. r\<lparr>rel_is_critical := False, rel_critical_version := None\<rparr>" "version_key ck" for ck
  by unfold_locales (simp_all add: version_key_def)

text \<open>The demotion statements and the update as functions of one row.\<close>

definition stable_off :: "collation \<Rightarrow> string \<Rightarrow> bool \<Rightarrow> release \<Rightarrow> release" where
  "stable_off ck v p r = (if p \<and> rel_is_stable r \<and> version_key ck r \<noteq> ck v then r\<lparr>rel_is_stable := False\<rparr> else r)"

definition beta_off :: "collation \<Rightarrow> string \<Rightarrow> bool \<Rightarrow> release \<Rightarrow> release" where
  "beta_off ck v p r = (if p \<and> rel_is_beta r \<and> version_key ck r \<noteq> ck v then r\<lparr>rel_is_beta := False\<rparr> else r)"

definition critical_off :: "collation \<Rightarrow> string \<Rightarrow> bool \<Rightarrow> release \<Rightarrow> release" where
  "critical_off ck v p r = (if p \<and> rel_is_critical r \<and> version_key ck r \<noteq> ck v
     then r\<lparr>rel_is_critical := False, rel_critical_version := None\<rparr> else r)"

definition demoted :: "collation \<Rightarrow> string \<Rightarrow> bool \<Rightarrow> bool \<Rightarrow> bool \<Rightarrow> release \<Rightarrow> release" where
  "demoted ck v st be cr r = critical_off ck v cr (beta_off ck v be (stable_off ck v st r))"

lemma demotions:
  "(if p then clearStableFlag ck v rels else rels) = map (stable_off ck v p) rels"
  "(if p then clearBetaFlag ck v rels else rels) = map (beta_off ck v p) rels"
  "(if p then clearCritical ck v rels else rels) = map (critical_off ck v p) rels"
  by (auto simp: clearStableFlag_def clearBetaFlag_def clearCritical_def clear_flag_def stable_off_def
      beta_off_def critical_off_def version_key_def intro!: map_idI [symmetric])

lemma off_fields [simp]:
  "rel_version (stable_off ck v p r) = rel_version r" "rel_version (beta_off ck v p r) = rel_version r"
  "rel_version (critical_off ck v p r) = rel_version r" "rel_version (demoted ck v st be cr r) = rel_version r"
  "rel_is_beta (stable_off ck v p r) = rel_is_beta r" "rel_is_critical (stable_off ck v p r) = rel_is_critical r"
  "rel_is_stable (beta_off ck v p r) = rel_is_stable r" "rel_is_critical (beta_off ck v p r) = rel_is_critical r"
  "rel_is_stable (critical_off ck v p r) = rel_is_stable r" "rel_is_beta (critical_off ck v p r) = rel_is_beta r"
  by (simp_all add: stable_off_def beta_off_def critical_off_def demoted_def)

lemma demoted_self: "version_key ck r = ck v \<Longrightarrow> demoted ck v st be cr r = r"
  by (simp add: demoted_def stable_off_def beta_off_def critical_off_def)

lemma demoted_flags:
  "rel_is_stable (demoted ck v st be cr r) \<longleftrightarrow> rel_is_stable r \<and> \<not> (st \<and> version_key ck r \<noteq> ck v)"
  "rel_is_beta (demoted ck v st be cr r) \<longleftrightarrow> rel_is_beta r \<and> \<not> (be \<and> version_key ck r \<noteq> ck v)"
  "rel_is_critical (demoted ck v st be cr r) \<longleftrightarrow> rel_is_critical r \<and> \<not> (cr \<and> version_key ck r \<noteq> ck v)"
  by (auto simp: demoted_def stable_off_def beta_off_def critical_off_def version_key_def)

text \<open>What the update transaction leaves when it commits.\<close>

definition committed :: "collation \<Rightarrow> string \<Rightarrow> bool \<Rightarrow> bool \<Rightarrow> bool \<Rightarrow> (release \<Rightarrow> release) \<Rightarrow> releases \<Rightarrow> releases" where
  "committed ck v st be cr put rels = map (\<lambda>r. if version_key ck r = ck v then put r else demoted ck v st be cr r) rels"

lemma demote_others_map: "demote_others ck v st be cr rels = map (demoted ck v st be cr) rels"
  unfolding demote_others_def Let_def demotions by (simp add: demoted_def)

lemma update_tx_rows:
  "set_flag (\<lambda>r. ck (rel_version r) = ck v) put (demote_others ck v st be cr rels) = committed ck v st be cr put rels"
  unfolding demote_others_map by (simp add: set_flag_def committed_def demoted_self version_key_def)

lemma update_tx_effect:
  "fst (update_release_tx ck f msg v st be cr put rels) \<in> {rels, committed ck v st be cr put rels}"
  by (simp add: update_release_tx_def update_release_def update_tx_rows split: option.splits)

lemma update_tx_ok:
  assumes "update_release_tx ck f msg v st be cr put rels = (rels', OK updated)"
  shows "rels' = committed ck v st be cr put rels \<and> fetch_release ck v rels' = Some updated"
  using assms by (simp add: update_release_tx_def update_release_def update_tx_rows split: option.splits if_splits)

lemma committed_slots:
  assumes ok: "releases_ok ck rels" and v: "\<And>r. rel_version (put r) = rel_version r"
    and up: "\<And>r. rel_is_stable (put r) \<Longrightarrow> rel_is_stable r \<or> st" "\<And>r. rel_is_beta (put r) \<Longrightarrow> rel_is_beta r \<or> be"
      "\<And>r. rel_is_critical (put r) \<Longrightarrow> rel_is_critical r \<or> cr"
  shows "releases_ok ck (committed ck v st be cr put rels)"
proof -
  let ?S = "\<lambda>r. if version_key ck r = ck v then put r else r"
  let ?A = "stable_off ck v st" and ?B = "beta_off ck v be" and ?C = "critical_off ck v cr"
  have eq: "committed ck v st be cr put rels = map ?S (map ?C (map ?B (map ?A rels)))"
    by (simp add: committed_def demoted_def [symmetric] demoted_self version_key_def)
  have k: "version_key ck (?S r) = version_key ck r" "version_key ck (?A r) = version_key ck r"
    "version_key ck (?B r) = version_key ck r" "version_key ck (?C r) = version_key ck r"
    "version_key ck (put r) = version_key ck r" for r
    using v by (simp_all add: version_key_def)
  have d: "distinct (map (version_key ck) rels)" and one: "at_most_one rel_is_stable rels"
    "at_most_one rel_is_beta rels" "at_most_one rel_is_critical rels" using ok by (simp_all add: releases_ok_def)
  have "at_most_one rel_is_stable (map (?S \<circ> ?C \<circ> ?B) (if st then clearStableFlag ck v rels else rels))"
    unfolding clearStableFlag_def version_key_def [symmetric]
    by (rule stable_slot.promoted [OF d one(1)]) (auto simp: k comp_def dest: up(1) split: if_splits)
  moreover have "at_most_one rel_is_beta (map (?S \<circ> ?C) (if be then clearBetaFlag ck v (map ?A rels) else map ?A rels))"
    unfolding clearBetaFlag_def version_key_def [symmetric]
    by (rule beta_slot.promoted [OF _ at_most_one_map [OF one(2)]])
       (use d in \<open>auto simp: k comp_def dest: up(2) split: if_splits\<close>)
  moreover have "at_most_one rel_is_critical (map ?S (if cr then clearCritical ck v (map ?B (map ?A rels)) else map ?B (map ?A rels)))"
    unfolding clearCritical_def version_key_def [symmetric]
    by (rule critical_slot.promoted [OF _ at_most_one_map [OF at_most_one_map [OF one(3)]]])
       (use d in \<open>auto simp: k comp_def dest: up(3) split: if_splits\<close>)
  moreover have "distinct (map (version_key ck) (committed ck v st be cr put rels))"
  proof -
    have "map (version_key ck) (map f xs) = map (version_key ck) xs" if "\<And>r. version_key ck (f r) = version_key ck r"
      for f xs using that by simp
    from this [of ?S] this [of ?A] this [of ?B] this [of ?C] show ?thesis unfolding eq using d k by (simp only:)
  qed
  ultimately show ?thesis unfolding releases_ok_def eq demotions by (simp add: comp_assoc)
qed

text \<open>Before an insert, the demotions leave no holder of the slots the new row takes.\<close>

definition cleared_for :: "collation \<Rightarrow> release \<Rightarrow> releases \<Rightarrow> releases" where
  "cleared_for ck rel rels =
     map (beta_off ck (rel_version rel) (rel_is_beta rel))
       (map (stable_off ck (rel_version rel) (rel_is_stable rel))
         (if rel_is_critical rel
          then clear_flag rel_is_critical (\<lambda>r. r\<lparr>rel_is_critical := False, rel_critical_version := None\<rparr>) rels else rels))"

lemma insert_tx_rows:
  "insert_release_tx ck f rel rels = Inr rels' \<Longrightarrow>
     rels' = cleared_for ck rel rels @ [rel] \<and> version_key ck rel \<notin> set (map (version_key ck) rels)"
proof -
  assume i: "insert_release_tx ck f rel rels = Inr rels'"
  then have "insert_release ck rel (cleared_for ck rel rels) = Some rels'"
    unfolding insert_release_tx_def demotions by (simp add: cleared_for_def Let_def split: if_splits option.splits)
  moreover have "map (version_key ck) (cleared_for ck rel rels) = map (version_key ck) rels"
  proof -
    have "version_key ck (beta_off ck v p r) = version_key ck r" "version_key ck (stable_off ck v p r) = version_key ck r"
      for v p r by (simp_all add: version_key_def)
    then show ?thesis by (auto simp: cleared_for_def comp_def critical_slot.keys_clear)
  qed
  moreover have "rels' = cleared_for ck rel rels @ [rel]" "version_key ck rel \<notin> set (map (version_key ck) (cleared_for ck rel rels))"
    if "insert_release ck rel (cleared_for ck rel rels) = Some rels'"
    using that by (auto simp: insert_release_def version_key_def split: if_splits)
  ultimately show ?thesis by metis
qed

lemma insert_tx_ok:
  assumes ok: "releases_ok ck rels" and i: "insert_release_tx ck f rel rels = Inr rels'"
  shows "releases_ok ck rels' \<and> rel \<in> set rels'"
proof -
  let ?c = "cleared_for ck rel rels"
  have rels': "rels' = ?c @ [rel]" and new: "version_key ck rel \<notin> set (map (version_key ck) rels)"
    using insert_tx_rows [OF i] by blast+
  let ?K = "\<lambda>r. if rel_is_critical rel \<and> rel_is_critical r
      then r\<lparr>rel_is_critical := False, rel_critical_version := None\<rparr> else r"
  let ?h = "\<lambda>r. beta_off ck (rel_version rel) (rel_is_beta rel) (stable_off ck (rel_version rel) (rel_is_stable rel) (?K r))"
  have c: "?c = map ?h rels" by (auto simp: cleared_for_def clear_flag_def)
  have k: "version_key ck (?h r) = version_key ck r" for r by (simp add: version_key_def)
  have d: "distinct (map (version_key ck) ?c)" "version_key ck rel \<notin> set (map (version_key ck) ?c)"
    using ok new unfolding c by (simp_all add: releases_ok_def k comp_def image_image)
  have down: "rel_is_stable (?h r) \<Longrightarrow> rel_is_stable r \<and> \<not> (rel_is_stable rel \<and> version_key ck r \<noteq> ck (rel_version rel))"
    "rel_is_beta (?h r) \<Longrightarrow> rel_is_beta r \<and> \<not> (rel_is_beta rel \<and> version_key ck r \<noteq> ck (rel_version rel))"
    "rel_is_critical (?h r) \<Longrightarrow> rel_is_critical r \<and> \<not> rel_is_critical rel" for r
    by (auto simp: stable_off_def beta_off_def version_key_def split: if_splits)
  have key: "version_key ck r \<noteq> ck (rel_version rel)" if "r \<in> set rels" for r
    using new that by (metis image_eqI set_map version_key_def)
  have one: "at_most_one flag rels'"
    if "at_most_one flag rels" "\<And>r. flag (?h r) \<Longrightarrow> flag r" "flag rel \<Longrightarrow> \<forall>r \<in> set rels. \<not> flag (?h r)" for flag
    using at_most_one_map [of flag rels ?h, OF that(1,2)] that(3)
    unfolding rels' at_most_one_append c by (simp add: filter_empty_conv)
  have "at_most_one rel_is_stable rels'" by (rule one) (use ok [unfolded releases_ok_def] down(1) key in blast)+
  moreover have "at_most_one rel_is_beta rels'" by (rule one) (use ok [unfolded releases_ok_def] down(2) key in blast)+
  moreover have "at_most_one rel_is_critical rels'" by (rule one) (use ok [unfolded releases_ok_def] down(3) in blast)+
  ultimately show ?thesis using d by (simp add: releases_ok_def rels')
qed

end
