(* ===== verification/Release_Properties.thy ===== *)
theory Release_Properties
  imports Releases
begin

text \<open>
  What the release endpoints guarantee: the channel slots have one holder at most, the manifest
  names those holders, and an uploaded build is served with the checksum of its bytes.
\<close>

section \<open>Reachable tables\<close>

text \<open>One write request, on the bucket and the table, with any statement failures.\<close>

inductive release_step :: "collation \<Rightarrow> 'b \<times> releases \<Rightarrow> 'b \<times> releases \<Rightarrow> bool" for ck where
  Create: "release_step ck (b, rels) (fst (CreateRelease L ck f now newID s3conn pfx b rels body))"
| Delete: "release_step ck (b, rels) (fst (DeleteRelease ck f s3conn pfx b rels version))"
| Channels: "release_step ck (b, rels) (b, fst (PatchReleaseChannels ck f rels version chreq))"
| Put: "release_step ck (b, rels) (b, fst (PutRelease ck f now rels version preq))"
| Patch: "release_step ck (b, rels) (b, fst (PatchRelease ck f rels version req))"

lemma Create_ok:
  assumes "releases_ok ck rels"
  shows "releases_ok ck (snd (fst (CreateRelease L ck f now newID s3conn pfx b rels body)))"
  using assms insert_tx_ok
  by (auto simp: CreateRelease_def Let_def split: option.splits prod.splits sum.splits)

lemma Delete_ok:
  assumes "releases_ok ck rels"
  shows "releases_ok ck (snd (fst (DeleteRelease ck f s3conn pfx b rels version)))"
proof -
  have "releases_ok ck (filter P rels)" for P
    using assms by (simp add: releases_ok_def at_most_one_subset distinct_map_filter)
  with assms show ?thesis
    by (simp add: DeleteRelease_def split: option.splits prod.splits)
qed

lemma update_tx_slots:
  assumes "releases_ok ck rels" "\<And>r. rel_version (put r) = rel_version r"
    "\<And>r. rel_is_stable (put r) \<Longrightarrow> rel_is_stable r \<or> st" "\<And>r. rel_is_beta (put r) \<Longrightarrow> rel_is_beta r \<or> be"
    "\<And>r. rel_is_critical (put r) \<Longrightarrow> rel_is_critical r \<or> cr"
  shows "releases_ok ck (fst (update_release_tx ck f msg v st be cr put rels))"
  using update_tx_effect [of ck f msg v st be cr put rels] committed_slots [OF assms] assms(1) by auto

lemma given_True: "given p x \<Longrightarrow> x \<or> p = Some True"
  by (auto simp: given_def split: option.splits)

lemma Channels_ok: "releases_ok ck rels \<Longrightarrow> releases_ok ck (fst (PatchReleaseChannels ck f rels v body))"
  by (auto simp: PatchReleaseChannels_def split: option.splits intro!: update_tx_slots dest: given_True)

lemma Put_ok: "releases_ok ck rels \<Longrightarrow> releases_ok ck (fst (PutRelease ck f now rels v body))"
  by (auto simp: PutRelease_def Let_def split: option.splits intro!: update_tx_slots)

lemma patched_release_flags:
  "rel_version (patched_release req t r) = rel_version r"
  "rel_is_stable (patched_release req t r) \<Longrightarrow> rel_is_stable r \<or> pa_IsStable req = Some True"
  "rel_is_beta (patched_release req t r) \<Longrightarrow> rel_is_beta r \<or> pa_IsBeta req = Some True"
  "rel_is_critical (patched_release req t r) \<Longrightarrow> rel_is_critical r \<or> pa_IsCritical req = Some True"
  by (auto simp: patched_release_def dest: given_True)

lemma Patch_ok: "releases_ok ck rels \<Longrightarrow> releases_ok ck (fst (PatchRelease ck f rels v body))"
  by (auto simp: PatchRelease_def Let_def split: option.splits intro!: update_tx_slots patched_release_flags
      dest: patched_release_flags(2-4))

lemma release_step_ok: "release_step ck s s' \<Longrightarrow> releases_ok ck (snd s) \<Longrightarrow> releases_ok ck (snd s')"
  by (induction rule: release_step.induct) (simp_all add: Create_ok Delete_ok Channels_ok Put_ok Patch_ok)

section \<open>The manifest\<close>

text \<open>A field that one release at most may set holds that release's value at the end of the loop.\<close>

definition pick :: "('r \<Rightarrow> bool) \<Rightarrow> ('r \<Rightarrow> 'v) \<Rightarrow> 'r list \<Rightarrow> 'v \<Rightarrow> 'v" where
  "pick P g rows v0 = fold (\<lambda>r v. if P r then g r else v) rows v0"

lemma pick_simps [simp]: "pick P g [] v = v" "pick P g (r # rows) v = pick P g rows (if P r then g r else v)"
  by (simp_all add: pick_def)

lemma pick_none: "\<forall>r \<in> set rows. \<not> P r \<Longrightarrow> pick P g rows v = v"
  by (induction rows arbitrary: v) auto

lemma pick_single:
  assumes "at_most_one P rows" "r \<in> set rows" "P r"
  shows "pick P g rows v = g r"
  using assms
proof (induction rows arbitrary: v)
  case (Cons x rows)
  show ?case
  proof (cases "P x")
    case True
    then have "\<forall>r \<in> set rows. \<not> P r" using Cons.prems(1) by (auto simp: at_most_one_def filter_empty_conv)
    with True show ?thesis using Cons.prems by (auto simp: pick_none)
  next
    case False
    then show ?thesis using Cons by (auto simp: at_most_one_def)
  qed
qed simp

definition raises_minimum :: "release \<Rightarrow> bool" where
  "raises_minimum r \<longleftrightarrow> rel_is_stable r \<and> rel_min_required_version r \<noteq> None"

definition critical_of :: "release \<Rightarrow> string" where
  "critical_of r = (case rel_critical_version r of Some v \<Rightarrow> v | None \<Rightarrow> rel_version r)"

lemma find_unique: "at_most_one P xs \<Longrightarrow> r \<in> set xs \<Longrightarrow> P r \<Longrightarrow> find P xs = Some r"
  by (cases "find P xs") (auto simp: find_None_iff dest: find_SomeD at_most_one_unique)

definition manifest_loop :: "string \<Rightarrow> releases \<Rightarrow> update_manifest \<Rightarrow> update_manifest" where
  "manifest_loop base rels m = fold (\<lambda>rel m. add_slots base rel (add_notes rel m)) rels m"

lemma manifest_loop_simps [simp]:
  "manifest_loop base [] m = m"
  "manifest_loop base (r # rels) m = manifest_loop base rels (add_slots base r (add_notes r m))"
  by (simp_all add: manifest_loop_def)

lemma add_fields [simp]:
  "mf_StableVersion (add_slots base r (add_notes r m)) = (if rel_is_stable r then rel_version r else mf_StableVersion m)"
  "mf_StableDownload (add_slots base r (add_notes r m)) = (if rel_is_stable r then download_url base (rel_version r) else mf_StableDownload m)"
  "mf_MinRequiredVersion (add_slots base r (add_notes r m)) =
     (if rel_is_stable r \<and> rel_min_required_version r \<noteq> None then the (rel_min_required_version r) else mf_MinRequiredVersion m)"
  "mf_BetaVersion (add_slots base r (add_notes r m)) = (if rel_is_beta r then rel_version r else mf_BetaVersion m)"
  "mf_BetaDownload (add_slots base r (add_notes r m)) = (if rel_is_beta r then download_url base (rel_version r) else mf_BetaDownload m)"
  "mf_IsCritical (add_slots base r (add_notes r m)) \<longleftrightarrow> mf_IsCritical m \<or> rel_is_critical r"
  "mf_CriticalVersion (add_slots base r (add_notes r m)) =
     (if rel_is_critical r then (case rel_critical_version r of Some v \<Rightarrow> v | None \<Rightarrow> rel_version r) else mf_CriticalVersion m)"
  "mf_SHA256Checksums (add_slots base r (add_notes r m)) =
     (if rel_sha256_checksum r \<noteq> [] then map_put (rel_version r) (rel_sha256_checksum r) (mf_SHA256Checksums m) else mf_SHA256Checksums m)"
  "mf_ReleaseNotes (add_slots base r (add_notes r m)) =
     (if rel_short_note r \<noteq> [] then map_put (rel_version r) (rel_short_note r) (mf_ReleaseNotes m) else mf_ReleaseNotes m)"
  by (auto simp: add_slots_def add_notes_def Let_def split: option.splits)

lemma loop_fields:
  "mf_StableVersion (manifest_loop base rels m) = pick rel_is_stable rel_version rels (mf_StableVersion m)"
  "mf_StableDownload (manifest_loop base rels m) =
     pick rel_is_stable (\<lambda>r. download_url base (rel_version r)) rels (mf_StableDownload m)"
  "mf_MinRequiredVersion (manifest_loop base rels m) =
     pick raises_minimum (\<lambda>r. the (rel_min_required_version r)) rels (mf_MinRequiredVersion m)"
  "mf_BetaVersion (manifest_loop base rels m) = pick rel_is_beta rel_version rels (mf_BetaVersion m)"
  "mf_BetaDownload (manifest_loop base rels m) =
     pick rel_is_beta (\<lambda>r. download_url base (rel_version r)) rels (mf_BetaDownload m)"
  "mf_IsCritical (manifest_loop base rels m) \<longleftrightarrow> mf_IsCritical m \<or> list_ex rel_is_critical rels"
  "mf_CriticalVersion (manifest_loop base rels m) = pick rel_is_critical critical_of rels (mf_CriticalVersion m)"
  by (induction rels arbitrary: m) (simp_all add: raises_minimum_def critical_of_def)

lemma loop_checksums:
  assumes "distinct (map rel_version rels)"
  shows "map_of (mf_SHA256Checksums (manifest_loop base rels m)) v =
     (case find (\<lambda>r. rel_version r = v \<and> rel_sha256_checksum r \<noteq> []) rels of
        None \<Rightarrow> map_of (mf_SHA256Checksums m) v | Some r \<Rightarrow> Some (rel_sha256_checksum r))"
  using assms
proof (induction rels arbitrary: m)
  case (Cons r rels)
  have "find (\<lambda>r. rel_version r = v \<and> rel_sha256_checksum r \<noteq> []) rels = None" if "rel_version r = v"
    using Cons.prems that unfolding find_None_iff by (auto simp: image_iff)
  with Cons show ?case by (auto simp: map_of_map_put split: option.splits)
qed simp

lemma buildManifest_fields:
  "mf_StableVersion (buildManifest rels base) = mf_StableVersion (manifest_loop base rels empty_manifest)"
  "mf_StableDownload (buildManifest rels base) = mf_StableDownload (manifest_loop base rels empty_manifest)"
  "mf_MinRequiredVersion (buildManifest rels base) = mf_MinRequiredVersion (manifest_loop base rels empty_manifest)"
  "mf_BetaVersion (buildManifest rels base) = mf_BetaVersion (manifest_loop base rels empty_manifest)"
  "mf_BetaDownload (buildManifest rels base) = mf_BetaDownload (manifest_loop base rels empty_manifest)"
  "mf_IsCritical (buildManifest rels base) = mf_IsCritical (manifest_loop base rels empty_manifest)"
  "mf_CriticalVersion (buildManifest rels base) = mf_CriticalVersion (manifest_loop base rels empty_manifest)"
  "mf_SHA256Checksums (buildManifest rels base) = mf_SHA256Checksums (manifest_loop base rels empty_manifest)"
  by (simp_all add: buildManifest_def manifest_loop_def Let_def)

lemma newest_first_facts [simp]:
  "set (newest_first rels) = set rels"
  "at_most_one P (newest_first rels) \<longleftrightarrow> at_most_one P rels"
  "distinct (map key (newest_first rels)) \<longleftrightarrow> distinct (map key rels)"
  by (simp_all add: newest_first_def at_most_one_def filter_sort distinct_map)

lemma releases_ok_versions: "releases_ok ck rels \<Longrightarrow> distinct (map rel_version rels)"
proof -
  assume "releases_ok ck rels"
  then have "distinct (map ck (map rel_version rels))" by (simp add: releases_ok_def version_key_def [abs_def] comp_def)
  then show ?thesis by (simp only: distinct_map [of ck])
qed

text \<open>How a slot shows in the manifest: the fields computed from its holder, or their empty values.\<close>

lemma slot_value:
  assumes "at_most_one P rels" "r \<in> set rels" "P r"
  shows "pick P g (newest_first rels) v0 = g r"
  using assms by (simp add: pick_single)

lemma slot_empty: "\<forall>r \<in> set rels. \<not> P r \<Longrightarrow> pick P g (newest_first rels) v0 = v0"
  by (simp add: pick_none)

lemma empty_manifest_fields [simp]:
  "mf_StableVersion empty_manifest = []" "mf_StableDownload empty_manifest = []" "mf_MinRequiredVersion empty_manifest = []"
  "mf_BetaVersion empty_manifest = []" "mf_BetaDownload empty_manifest = []" "\<not> mf_IsCritical empty_manifest"
  "mf_CriticalVersion empty_manifest = []" "mf_SHA256Checksums empty_manifest = []"
  by (simp_all add: empty_manifest_def)

abbreviation manifest_of :: "releases \<Rightarrow> string \<Rightarrow> update_manifest" where
  "manifest_of rels base \<equiv> buildManifest (newest_first rels) base"

lemmas manifest_fields = buildManifest_fields loop_fields

lemma manifest_stable:
  assumes "releases_ok ck rels" "rel \<in> set rels" "rel_is_stable rel"
  shows "mf_StableVersion (manifest_of rels base) = rel_version rel \<and>
    mf_StableDownload (manifest_of rels base) = download_url base (rel_version rel) \<and>
    mf_MinRequiredVersion (manifest_of rels base) = (case rel_min_required_version rel of None \<Rightarrow> [] | Some v \<Rightarrow> v)"
proof -
  have one: "at_most_one rel_is_stable rels" using assms(1) by (simp add: releases_ok_def)
  have m: "r = rel" if "r \<in> set rels" "rel_is_stable r" for r using at_most_one_unique [OF one] assms(2,3) that by blast
  have "filter raises_minimum rels = filter raises_minimum (filter rel_is_stable rels)"
    by (auto simp: raises_minimum_def intro: filter_cong)
  then have one': "at_most_one raises_minimum rels"
    using at_most_one_subset [OF one] by (metis at_most_one_def filter_filter length_filter_le le_trans one)
  have "mf_MinRequiredVersion (manifest_of rels base) = (case rel_min_required_version rel of None \<Rightarrow> [] | Some v \<Rightarrow> v)"
  proof (cases "rel_min_required_version rel")
    case None
    then have "\<forall>r \<in> set rels. \<not> raises_minimum r" using m by (auto simp: raises_minimum_def)
    with None show ?thesis by (simp add: manifest_fields slot_empty)
  next
    case (Some v)
    then have "raises_minimum rel" using assms(3) by (simp add: raises_minimum_def)
    with Some show ?thesis by (simp add: manifest_fields slot_value [OF one' assms(2)])
  qed
  then show ?thesis by (simp add: manifest_fields slot_value [OF one assms(2,3)])
qed

lemma manifest_no_stable:
  assumes "\<forall>rel \<in> set rels. \<not> rel_is_stable rel"
  shows "mf_StableVersion (manifest_of rels base) = [] \<and> mf_StableDownload (manifest_of rels base) = [] \<and>
    mf_MinRequiredVersion (manifest_of rels base) = []"
proof -
  have "\<forall>rel \<in> set rels. \<not> raises_minimum rel" using assms by (simp add: raises_minimum_def)
  then show ?thesis using assms by (simp add: manifest_fields slot_empty)
qed

lemma manifest_beta:
  assumes "releases_ok ck rels"
  shows "rel \<in> set rels \<Longrightarrow> rel_is_beta rel \<Longrightarrow> mf_BetaVersion (manifest_of rels base) = rel_version rel \<and>
      mf_BetaDownload (manifest_of rels base) = download_url base (rel_version rel)"
    and "\<forall>rel \<in> set rels. \<not> rel_is_beta rel \<Longrightarrow> mf_BetaVersion (manifest_of rels base) = [] \<and>
      mf_BetaDownload (manifest_of rels base) = []"
  using assms by (simp_all add: manifest_fields releases_ok_def slot_value slot_empty)

lemma manifest_critical:
  assumes "releases_ok ck rels"
  shows "mf_IsCritical (manifest_of rels base) \<longleftrightarrow> (\<exists>rel \<in> set rels. rel_is_critical rel)"
    and "rel \<in> set rels \<Longrightarrow> rel_is_critical rel \<Longrightarrow> mf_CriticalVersion (manifest_of rels base) = critical_of rel"
  using assms by (simp_all add: manifest_fields releases_ok_def list_ex_iff slot_value)

lemma manifest_checksums:
  assumes "releases_ok ck rels"
  shows "rel \<in> set rels \<Longrightarrow> rel_sha256_checksum rel \<noteq> [] \<Longrightarrow>
      map_of (mf_SHA256Checksums (manifest_of rels base)) (rel_version rel) = Some (rel_sha256_checksum rel)"
    and "v \<notin> rel_version ` set rels \<Longrightarrow> map_of (mf_SHA256Checksums (manifest_of rels base)) v = None"
proof -
  have d: "distinct (map rel_version (newest_first rels))" using releases_ok_versions [OF assms] by simp
  have one: "at_most_one (\<lambda>r. rel_version r = w \<and> rel_sha256_checksum r \<noteq> []) (newest_first rels)" for w
    by (rule at_most_one_key [OF d])
  show "map_of (mf_SHA256Checksums (manifest_of rels base)) (rel_version rel) = Some (rel_sha256_checksum rel)"
    if "rel \<in> set rels" "rel_sha256_checksum rel \<noteq> []"
    using find_unique [OF one, of rel "rel_version rel"] that by (simp add: buildManifest_fields loop_checksums [OF d])
  show "map_of (mf_SHA256Checksums (manifest_of rels base)) v = None" if "v \<notin> rel_version ` set rels"
  proof -
    have "find (\<lambda>r. rel_version r = v \<and> rel_sha256_checksum r \<noteq> []) (newest_first rels) = None"
      using that by (auto simp: find_None_iff)
    then show ?thesis by (simp add: buildManifest_fields loop_checksums [OF d])
  qed
qed

section \<open>Uploads\<close>

lemma Created_parts:
  assumes "CreateRelease L ck f now newID (Some c) pfx b rels (Some frm) = ((b', rels'), Created cre)"
  shows "\<exists>filename data. FormFile frm = Some (filename, Some data) \<and>
    UploadFile c (s3Key pfx filename) data ''application/octet-stream'' [] b = (b', None) \<and>
    insert_release_tx ck f (new_release newID now frm filename (sha256_hex L data)) rels = Inr rels' \<and>
    cre_version cre = TrimSpace (FormValue frm ''version'') \<and> cre_sha256_checksum cre = sha256_hex L data"
proof -
  obtain filename data where frm: "FormFile frm = Some (filename, Some data)"
    using assms by (auto simp: CreateRelease_def Let_def split: if_splits option.splits)
  moreover obtain b1 err where up: "UploadFile c (s3Key pfx filename) data ''application/octet-stream'' [] b = (b1, err)"
    by fastforce
  ultimately show ?thesis using assms
    by (auto simp: CreateRelease_def Let_def new_release_def split: if_splits option.splits sum.splits)
qed

lemma fetch_release_unique:
  assumes "releases_ok ck rels" "rel \<in> set rels" "ck (rel_version rel) = ck v"
  shows "fetch_release ck v rels = Some rel"
proof -
  have "at_most_one (\<lambda>r. version_key ck r = ck v \<and> True) rels"
    using assms(1) by (intro at_most_one_key) (simp add: releases_ok_def)
  then have "at_most_one (\<lambda>r. ck (rel_version r) = ck v) rels" by (simp add: version_key_def)
  from find_unique [OF this assms(2,3)] show ?thesis by (simp add: fetch_release_def)
qed

section \<open>Updates\<close>

lemma fetch_committed:
  assumes "\<And>r. rel_version (put r) = rel_version r"
  shows "fetch_release ck v (committed ck v st be cr put rels) = map_option put (fetch_release ck v rels)"
  using assms by (induction rels) (auto simp: fetch_release_def committed_def version_key_def)

lemma Patch_cases:
  assumes "PatchRelease ck f rels v (Some req) = (rels', resp)"
  shows "(rels' = rels \<and> (\<exists>code msg. resp = Error code msg)) \<or>
    (\<exists>t. update_release_tx ck f ''failed to update release'' v (pa_IsStable req = Some True)
       (pa_IsBeta req = Some True) (pa_IsCritical req = Some True) (patched_release req t) rels = (rels', resp))"
  using assms by (auto simp: PatchRelease_def Let_def split: if_splits option.splits)

lemma update_tx_failed:
  assumes "update_release_tx ck f msg v st be cr put rels = (rels', Error code err)"
    and "err \<noteq> ''failed to fetch updated release''"
  shows "rels' = rels"
  using assms by (auto simp: update_release_tx_def Let_def split: if_splits option.splits prod.splits)

lemma update_tx_noop:
  assumes "st \<longrightarrow> \<not> f 1" "be \<longrightarrow> \<not> f 2" "cr \<longrightarrow> \<not> f 3" "\<not> f 0" "\<not> f 4"
    and "\<forall>r \<in> set rels. ck (rel_version r) = ck v \<longrightarrow> put r = r"
  shows "update_release_tx ck f msg v st be cr put rels = (rels, Error 404 ''release not found'')"
proof -
  have "length (filter (\<lambda>r. ck (rel_version r) = ck v \<and> put r \<noteq> r) (demote_others ck v st be cr rels)) = 0"
    using assms(6) by (auto simp: demote_others_map filter_empty_conv demoted_self version_key_def)
  then show ?thesis using assms by (simp add: update_release_tx_def update_release_def)
qed

section \<open>Properties\<close>

definition upload_lib :: golib where
  "upload_lib = \<lparr>url_Parse = (\<lambda>_. None), json_parse = (\<lambda>_. None), json_print = (\<lambda>_. []), sha256_hex = (\<lambda>d. ''h'' @ d)\<rparr>"

definition upload_form :: "string \<Rightarrow> string \<Rightarrow> string \<Rightarrow> form" where
  "upload_form version filename data =
     \<lparr>FormValue = (\<lambda>n. if n = ''version'' then version else if n = ''is_stable'' then ''true'' else []),
      FormFile = Some (filename, Some data)\<rparr>"

definition upload :: "int \<Rightarrow> string \<Rightarrow> string \<Rightarrow> string \<Rightarrow> (string \<rightharpoonup> s3_object) \<times> releases \<Rightarrow>
    ((string \<rightharpoonup> s3_object) \<times> releases) \<times> created_release response" where
  "upload i version filename data s = CreateRelease upload_lib ToLower no_faults (64000000000 * second) i (Some map_bucket)
     ''emly'' (fst s) (snd s) (Some (upload_form version filename data))"

definition sample_releases :: releases where
  "sample_releases = snd (fst (upload 1 ''1.0'' ''a.exe'' ''X'' (Map.empty, [])))"

definition sample_web_request :: web_request where
  "sample_web_request = \<lparr>r_Header = (\<lambda>_. []), r_RemoteAddr = ''10.0.0.1:80'', r_TLS = True, r_Host = ''api''\<rparr>"

lemma sample_upload:
  "\<exists>b' cre. CreateRelease upload_lib ToLower no_faults (64000000000 * second) 1 (Some map_bucket) ''emly'' Map.empty []
     (Some (upload_form ''1.0'' ''a.exe'' ''X'')) = ((b', sample_releases), Created cre) \<and> cre_version cre = ''1.0''"
proof -
  have "case snd (upload 1 ''1.0'' ''a.exe'' ''X'' (Map.empty, [])) of Created cre \<Rightarrow> cre_version cre = ''1.0'' | _ \<Rightarrow> False"
    by code_simp
  then obtain cre where "snd (upload 1 ''1.0'' ''a.exe'' ''X'' (Map.empty, [])) = Created cre" "cre_version cre = ''1.0''"
    by (auto split: response.splits)
  then show ?thesis unfolding sample_releases_def upload_def by (metis fst_conv prod.collapse snd_conv)
qed

lemma sample_releases_ok: "releases_ok ToLower sample_releases"
  by code_simp

text \<open>C9: whatever create, update, channel and delete requests arrive, and whichever of their statements
  fail, the release table never holds two rows of one version, nor two stable, two beta or two critical
  releases.\<close>

theorem release_slots_stay_exclusive:
  assumes "(release_step ck)\<^sup>*\<^sup>* (b, rels) (b', rels')" and "releases_ok ck rels"
  shows "releases_ok ck rels'"
proof -
  have "(release_step ck)\<^sup>*\<^sup>* s s' \<Longrightarrow> releases_ok ck (snd s) \<Longrightarrow> releases_ok ck (snd s')" for s s' :: "'a \<times> releases"
    by (induction rule: rtranclp_induct) (auto intro: release_step_ok)
  from this [OF assms(1)] assms(2) show ?thesis by simp
qed

theorem release_slots_stay_exclusive_witness:
  "releases_ok ToLower (snd (fst (upload 2 ''2.0'' ''b.exe'' ''Y'' (fst (upload 1 ''1.0'' ''a.exe'' ''X'' (Map.empty, []))))))"
proof -
  have u: "release_step ToLower s (fst (upload i v fn d s))" for i v fn d s
    unfolding upload_def by (cases s) (simp add: release_step.Create)
  let ?s1 = "fst (upload 1 ''1.0'' ''a.exe'' ''X'' (Map.empty, []))"
  have "(release_step ToLower)\<^sup>*\<^sup>* (Map.empty, []) (fst (upload 2 ''2.0'' ''b.exe'' ''Y'' ?s1))"
    by (rule rtranclp.rtrancl_into_rtrancl [OF r_into_rtranclp [where r = "release_step ToLower", OF u] u])
  then have "(release_step ToLower)\<^sup>*\<^sup>* (Map.empty, [])
      (fst (fst (upload 2 ''2.0'' ''b.exe'' ''Y'' ?s1)), snd (fst (upload 2 ''2.0'' ''b.exe'' ''Y'' ?s1)))" by simp
  from release_slots_stay_exclusive [OF this] show ?thesis
    by (simp add: releases_ok_def at_most_one_def)
qed

text \<open>C10: the update manifest names exactly the holders of the slots, whatever the order of the rows: the
  stable release with its link and minimum version, the beta release, the critical version, each empty
  when the slot is; and it lists the checksum of every release that has one and of nothing else.\<close>

theorem manifest_describes_the_slots:
  assumes "releases_ok ck rels" and "GetUpdateManifest ck f now rels udb hub r = (eff, OK m)"
  shows "(\<forall>rel \<in> set rels. rel_is_stable rel \<longrightarrow> mf_StableVersion m = rel_version rel \<and>
       mf_StableDownload m = download_url (requestBaseURL r) (rel_version rel) \<and>
       mf_MinRequiredVersion m = (case rel_min_required_version rel of None \<Rightarrow> [] | Some v \<Rightarrow> v)) \<and>
    ((\<forall>rel \<in> set rels. \<not> rel_is_stable rel) \<longrightarrow>
       mf_StableVersion m = [] \<and> mf_StableDownload m = [] \<and> mf_MinRequiredVersion m = []) \<and>
    (\<forall>rel \<in> set rels. rel_is_beta rel \<longrightarrow> mf_BetaVersion m = rel_version rel \<and>
       mf_BetaDownload m = download_url (requestBaseURL r) (rel_version rel)) \<and>
    ((\<forall>rel \<in> set rels. \<not> rel_is_beta rel) \<longrightarrow> mf_BetaVersion m = [] \<and> mf_BetaDownload m = []) \<and>
    (mf_IsCritical m \<longleftrightarrow> (\<exists>rel \<in> set rels. rel_is_critical rel)) \<and>
    (\<forall>rel \<in> set rels. rel_is_critical rel \<longrightarrow>
       mf_CriticalVersion m = (case rel_critical_version rel of Some v \<Rightarrow> v | None \<Rightarrow> rel_version rel)) \<and>
    (\<forall>rel \<in> set rels. rel_sha256_checksum rel \<noteq> [] \<longrightarrow>
       map_of (mf_SHA256Checksums m) (rel_version rel) = Some (rel_sha256_checksum rel)) \<and>
    (\<forall>v. v \<notin> rel_version ` set rels \<longrightarrow> map_of (mf_SHA256Checksums m) v = None)"
proof -
  have m: "m = manifest_of rels (requestBaseURL r)"
    using assms(2) by (auto simp: GetUpdateManifest_def Let_def split: if_splits)
  show ?thesis unfolding m critical_of_def [symmetric]
    using manifest_stable [OF assms(1)] manifest_no_stable manifest_beta [OF assms(1)] manifest_critical [OF assms(1)]
      manifest_checksums [OF assms(1)] by (intro conjI ballI allI impI) auto
qed

theorem manifest_describes_the_slots_witness:
  "case snd (GetUpdateManifest ToLower no_faults 9 sample_releases empty_updater_db None sample_web_request) of
     OK m \<Rightarrow> mf_StableVersion m = ''1.0'' \<and> mf_StableDownload m = ''https://api/v2/updates/releases/1.0/download'' | _ \<Rightarrow> False"
proof -
  obtain eff m where m: "GetUpdateManifest ToLower no_faults 9 sample_releases empty_updater_db None sample_web_request = (eff, OK m)"
    by (simp add: GetUpdateManifest_def Let_def)
  have "list_ex (\<lambda>r. rel_is_stable r \<and> rel_version r = ''1.0'') sample_releases" by code_simp
  moreover have "download_url (requestBaseURL sample_web_request) ''1.0'' = ''https://api/v2/updates/releases/1.0/download''"
    by code_simp
  ultimately show ?thesis
    using manifest_describes_the_slots [OF sample_releases_ok m] m by (auto simp: list_ex_iff)
qed

text \<open>C11: an upload answered 201 is served back: for that version the download endpoint sends the uploaded
  bytes with their length, and the manifest lists the hash of those bytes, provided the object store reads
  back what was written.\<close>

theorem uploaded_release_is_served_with_its_checksum:
  assumes "CreateRelease L ck f now newID (Some c) pfx b rels (Some frm) = ((b', rels'), Created cre)"
    and "read_after_write c" and "releases_ok ck rels" and "\<not> g 0"
    and "FormFile frm = Some (filename, Some data)" and "sha256_hex L data \<noteq> []"
  shows "(\<exists>eff served. DownloadRelease ck g later (Some c) pfx b' rels' udb hub r (cre_version cre) = (eff, OK served) \<and>
       sf_Body served = data \<and> (data \<noteq> [] \<longrightarrow> sf_ContentLength served = Some (int (length data)))) \<and>
    map_of (mf_SHA256Checksums (buildManifest (newest_first rels') base)) (cre_version cre) = Some (sha256_hex L data)"
proof -
  from Created_parts [OF assms(1)] assms(5) obtain
    up: "UploadFile c (s3Key pfx filename) data ''application/octet-stream'' [] b = (b', None)"
    and i: "insert_release_tx ck f (new_release newID now frm filename (sha256_hex L data)) rels = Inr rels'"
    and v: "cre_version cre = TrimSpace (FormValue frm ''version'')" by auto
  let ?rel = "new_release newID now frm filename (sha256_hex L data)"
  have rel: "rel_version ?rel = cre_version cre" "rel_download_filename ?rel = filename"
    "rel_sha256_checksum ?rel = sha256_hex L data" using v by (simp_all add: new_release_def Let_def)
  from insert_tx_ok [OF assms(3) i] have ok: "releases_ok ck rels'" and "?rel \<in> set rels'" by blast+
  then have "fetch_release ck (cre_version cre) rels' = Some ?rel" using fetch_release_unique rel(1) by metis
  moreover have "map_of (mf_SHA256Checksums (manifest_of rels' base)) (rel_version ?rel) = Some (rel_sha256_checksum ?rel)"
    using manifest_checksums(1) [OF ok \<open>?rel \<in> set rels'\<close>] assms(6) rel(3) by simp
  ultimately show ?thesis
    using GetFile_UploadFile(1) [OF assms(2) up] assms(4) rel
    by (auto simp: DownloadRelease_def serve_file_def)
qed

theorem uploaded_release_is_served_with_its_checksum_witness:
  "map_of (mf_SHA256Checksums (buildManifest (newest_first sample_releases) [])) ''1.0'' = Some ''hX''"
proof -
  obtain b' cre where c: "CreateRelease upload_lib ToLower no_faults (64000000000 * second) 1 (Some map_bucket) ''emly'' Map.empty []
      (Some (upload_form ''1.0'' ''a.exe'' ''X'')) = ((b', sample_releases), Created cre)" "cre_version cre = ''1.0''"
    using sample_upload by blast
  from uploaded_release_is_served_with_its_checksum [OF c(1) map_bucket_reads, of no_faults "''a.exe''" "''X''"] c(2)
  show ?thesis by (simp add: releases_ok_def at_most_one_def upload_form_def upload_lib_def)
qed

text \<open>Two uploads that share a file name both succeed, and the second replaces the file of the
  first: the first version is then served with bytes whose hash is not the one the manifest lists for it.\<close>

theorem shared_file_name_breaks_checksum:
  "case upload 2 ''2.0'' ''a.exe'' ''Y'' (fst (upload 1 ''1.0'' ''a.exe'' ''X'' (Map.empty, []))) of
     ((b, rels), Created cre) \<Rightarrow>
       (case snd (DownloadRelease ToLower no_faults 9 (Some map_bucket) ''emly'' b rels empty_updater_db None
               (request.truncate sample_web_request) ''1.0'') of
          OK served \<Rightarrow> sf_Body served = ''Y''
        | _ \<Rightarrow> False) \<and>
       map_of (mf_SHA256Checksums (buildManifest (newest_first rels) [])) ''1.0'' = Some (sha256_hex upload_lib ''X'') \<and>
       sha256_hex upload_lib ''X'' \<noteq> sha256_hex upload_lib ''Y''
   | _ \<Rightarrow> False"
  by code_simp



end
