(* ===== verification/Updater_Releases.thy ===== *)
theory Updater_Releases
  imports Releases
begin

text \<open>
  \<open>internal/updates/updater.route.go\<close> with the rows of \<open>internal/models/updater_release.go\<close>: the
  builds of the updater itself. One slot, no channels; emptying the slot is the kill-switch.
\<close>

section \<open>Rows and names\<close>

record updater_release =
  ur_id :: int
  ur_version :: string
  ur_is_current :: bool
  ur_download_filename :: string
  ur_sha256_checksum :: string
  ur_file_size :: int
  ur_notes_it :: "string ptr"
  ur_notes_en :: "string ptr"
  ur_published_at :: gotime
  ur_created_at :: gotime

type_synonym updater_releases = "updater_release list"

text \<open>
  The pattern \<open>^[0-9]+(\.[0-9]+){1,3}(-[0-9A-Za-z.\-]+)?$\<close>: two to four numbers separated by dots,
  then, from the first hyphen on, a suffix that is not empty. \<open>semver_char\<close> is the suffix's class.
\<close>

definition updaterVersionPattern :: "string \<Rightarrow> bool" where
  "updaterVersionPattern s =
     (let numbers = takeWhile (\<lambda>c. c \<noteq> CHR ''-'') s; rest = dropWhile (\<lambda>c. c \<noteq> CHR ''-'') s;
          fields = Split (CHR ''.'') numbers
      in 2 \<le> length fields \<and> length fields \<le> 4 \<and> list_all (\<lambda>x. x \<noteq> [] \<and> list_all is_digit x) fields \<and>
         (rest = [] \<or> tl rest \<noteq> [] \<and> list_all semver_char (tl rest)))"

text \<open>\<open>path.Base\<close>: the last element of a path without its trailing slashes.\<close>

definition path_Base :: "string \<Rightarrow> string" where
  "path_Base p =
     (if p = [] then ''.''
      else let stripped = rev (dropWhile (\<lambda>c. c = CHR ''/'') (rev p));
               base = rev (takeWhile (\<lambda>c. c \<noteq> CHR ''/'') (rev stripped))
           in if base = [] then ''/'' else base)"

text \<open>Byte 92 is the backslash.\<close>

definition updaterInstallerFilename :: "string \<Rightarrow> string \<Rightarrow> string" where
  "updaterInstallerFilename uploaded version =
     (let name = path_Base (map (\<lambda>c. if c = CHR 92 then CHR ''/'' else c) (TrimSpace uploaded))
      in if name = [] \<or> name = ''.'' \<or> name = ''/'' then ''EMLyUpdater_Installer_'' @ version @ ''.exe'' else name)"

definition fetch_updater :: "collation \<Rightarrow> string \<Rightarrow> updater_releases \<Rightarrow> updater_release option" where
  "fetch_updater ck version rels = find (\<lambda>r. ck (ur_version r) = ck version) rels"

definition clearCurrentUpdaterFlag :: "collation \<Rightarrow> string \<Rightarrow> updater_releases \<Rightarrow> updater_releases" where
  "clearCurrentUpdaterFlag ck exceptVersion rels =
     clear_flag (\<lambda>r. ur_is_current r \<and> ck (ur_version r) \<noteq> ck exceptVersion) (\<lambda>r. r\<lparr>ur_is_current := False\<rparr>) rels"

section \<open>The self-update manifest\<close>

record updater_manifest =
  um_Version :: string
  um_Download :: string
  um_SHA256 :: string
  um_Size :: int
  um_PublishedAt :: string
  um_ReleaseNotes :: "(string \<times> string) list option"

definition no_update :: updater_manifest where
  "no_update = \<lparr>um_Version = [], um_Download = [], um_SHA256 = [], um_Size = 0, um_PublishedAt = [], um_ReleaseNotes = None\<rparr>"

definition updater_manifest_of :: "string \<Rightarrow> updater_release \<Rightarrow> updater_manifest" where
  "updater_manifest_of base rel =
     (let notes = (case ur_notes_it rel of None \<Rightarrow> [] | Some x \<Rightarrow> if x = [] then [] else map_put ''it'' x []);
          notes = (case ur_notes_en rel of None \<Rightarrow> notes | Some x \<Rightarrow> if x = [] then notes else map_put ''en'' x notes)
      in \<lparr>um_Version = ur_version rel,
          um_Download = base @ ''/v2/updates/download/updater/'' @ ur_version rel,
          um_SHA256 = ur_sha256_checksum rel,
          um_Size = ur_file_size rel,
          um_PublishedAt = FormatRFC3339 (ur_published_at rel),
          um_ReleaseNotes = (if notes = [] then None else Some notes)\<rparr>)"

text \<open>An empty answer is not recorded as a check.\<close>

definition GetUpdaterManifest ::
  "collation \<Rightarrow> faults \<Rightarrow> gotime \<Rightarrow> updater_releases \<Rightarrow> updater_db \<Rightarrow> hub_event stats_hub ptr \<Rightarrow> web_request \<Rightarrow>
     (updater_db \<times> hub_event stats_hub ptr) \<times> updater_manifest response" where
  "GetUpdaterManifest ck f now rels udb hub r =
     (if f 0 then ((udb, hub), Error 500 ''failed to fetch updater release'')
      else case find ur_is_current rels of
        None \<Rightarrow> ((udb, hub), OK no_update)
      | Some rel \<Rightarrow>
          (RecordEvent ck (shift_faults 1 f) now udb hub (request.truncate r) ''manifest_check'' ''updater''
             (fst (ParseUserAgent (UserAgent (request.truncate r)))),
           OK (updater_manifest_of (requestBaseURL r) rel)))"

definition DownloadUpdater ::
  "collation \<Rightarrow> faults \<Rightarrow> gotime \<Rightarrow> 'b s3_client option \<Rightarrow> string \<Rightarrow> 'b \<Rightarrow> updater_releases \<Rightarrow> updater_db \<Rightarrow>
     hub_event stats_hub ptr \<Rightarrow> request \<Rightarrow> string \<Rightarrow> (updater_db \<times> hub_event stats_hub ptr) \<times> served_file response" where
  "DownloadUpdater ck f now s3conn s3Prefix b rels udb hub r version =
     (case s3conn of
        None \<Rightarrow> ((udb, hub), Error 503 ''S3 storage is not configured'')
      | Some c \<Rightarrow>
        (case (if f 0 then None else fetch_updater ck version rels) of
           None \<Rightarrow> ((udb, hub), Error 404 ''updater release not found'')
         | Some rel \<Rightarrow>
           let filename = ur_download_filename rel
           in case GetFile c (s3Key s3Prefix filename) b of
                Inl err \<Rightarrow> ((udb, hub), if IsNotFound err then Error 404 ''installer file not found in storage''
                                   else Error 500 ''failed to retrieve file'')
              | Inr got \<Rightarrow>
                  (RecordEvent ck (shift_faults 1 f) now udb hub r ''download'' ''updater'' version,
                   OK (serve_file filename got))))"

definition ListUpdaterReleases :: "faults \<Rightarrow> updater_releases \<Rightarrow> updater_releases response" where
  "ListUpdaterReleases f rels =
     (if f 0 then Error 500 ''failed to fetch updater releases''
      else OK (sort_key (\<lambda>r. - ur_published_at r) rels))"

section \<open>Writing\<close>

record created_updater =
  cu_version :: string
  cu_is_current :: bool
  cu_download_filename :: string
  cu_sha256_checksum :: string
  cu_file_size :: int

definition new_updater :: "int \<Rightarrow> gotime \<Rightarrow> gotime \<Rightarrow> form \<Rightarrow> string \<Rightarrow> string \<Rightarrow> string \<Rightarrow> updater_release" where
  "new_updater newID now publishedAt frm filename checksum data =
     \<lparr>ur_id = newID,
      ur_version = TrimSpace (FormValue frm ''version''),
      ur_is_current = form_flag frm ''is_current'',
      ur_download_filename = filename,
      ur_sha256_checksum = checksum,
      ur_file_size = int (length data),
      ur_notes_it = NullString (TrimSpace (FormValue frm ''notes_it'')),
      ur_notes_en = NullString (TrimSpace (FormValue frm ''notes_en'')),
      ur_published_at = to_timestamp publishedAt,
      ur_created_at = to_timestamp now\<rparr>"

text \<open>Statements: 0 begin, 1 demotion, 2 insert, 3 commit.\<close>

definition insert_updater_tx :: "collation \<Rightarrow> faults \<Rightarrow> updater_release \<Rightarrow> updater_releases \<Rightarrow> string + updater_releases" where
  "insert_updater_tx ck f rel rels =
     (if f 0 then Inl ''failed to begin transaction''
      else if ur_is_current rel \<and> f 1 then Inl ''failed to clear existing current release''
      else
        let rels1 = (if ur_is_current rel then clearCurrentUpdaterFlag ck (ur_version rel) rels else rels)
        in if f 2 \<or> ck (ur_version rel) \<in> set (map (\<lambda>r. ck (ur_version r)) rels1)
           then Inl ''failed to create updater release''
           else if f 3 then Inl ''failed to commit''
           else Inr (rels1 @ [rel]))"

definition publish_time :: "gotime \<Rightarrow> form \<Rightarrow> gotime option" where
  "publish_time now frm =
     (let s = TrimSpace (FormValue frm ''published_at'') in if s = [] then Some now else ParseRFC3339 s)"

definition CreateUpdaterRelease ::
  "golib \<Rightarrow> collation \<Rightarrow> faults \<Rightarrow> gotime \<Rightarrow> int \<Rightarrow> 'b s3_client option \<Rightarrow> string \<Rightarrow> 'b \<Rightarrow> updater_releases \<Rightarrow>
     form option \<Rightarrow> ('b \<times> updater_releases) \<times> created_updater response" where
  "CreateUpdaterRelease L ck f now newID s3conn s3Prefix b rels body =
     (case s3conn of
        None \<Rightarrow> ((b, rels), Error 503 ''S3 storage is not configured'')
      | Some c \<Rightarrow>
        (case body of
           None \<Rightarrow> ((b, rels), Error 400 ''invalid multipart form'')
         | Some frm \<Rightarrow>
           let version = TrimSpace (FormValue frm ''version'')
           in if version = [] then ((b, rels), Error 400 ''version is required'')
              else if \<not> updaterVersionPattern version
              then ((b, rels), Error 400 ''version must be semver without a leading 'v' (e.g. 1.5.0)'')
              else case publish_time now frm of
                None \<Rightarrow> ((b, rels), Error 400 ''published_at must be RFC3339'')
              | Some publishedAt \<Rightarrow>
                (case FormFile frm of
                   None \<Rightarrow> ((b, rels), Error 400 ''missing file field'')
                 | Some (uploaded, None) \<Rightarrow> ((b, rels), Error 500 ''failed to read file'')
                 | Some (uploaded, Some data) \<Rightarrow>
                   let checksum = sha256_hex L data;
                       filename = updaterInstallerFilename uploaded version
                   in case UploadFile c (s3Key s3Prefix filename) data ''application/octet-stream'' [] b of
                        (b', Some err) \<Rightarrow> ((b', rels), Error 500 ''upload failed'')
                      | (b', None) \<Rightarrow>
                        let rel = new_updater newID now publishedAt frm filename checksum data
                        in case insert_updater_tx ck f rel rels of
                             Inl msg \<Rightarrow> ((b', rels), Error 500 msg)
                           | Inr rels' \<Rightarrow> ((b', rels'), Created
                               \<lparr>cu_version = version, cu_is_current = ur_is_current rel, cu_download_filename = filename,
                                cu_sha256_checksum = checksum, cu_file_size = int (length data)\<rparr>))))"

record patch_updater_request =
  pur_IsCurrent :: "bool ptr"
  pur_NotesIT :: "string ptr"
  pur_NotesEN :: "string ptr"
  pur_PublishedAt :: "string ptr"

definition given_notes :: "string ptr \<Rightarrow> string ptr \<Rightarrow> string ptr" where
  "given_notes p x = (case p of None \<Rightarrow> x | Some s \<Rightarrow> NullString (TrimSpace s))"

definition patched_updater :: "patch_updater_request \<Rightarrow> gotime ptr \<Rightarrow> updater_release \<Rightarrow> updater_release" where
  "patched_updater req publishedAt r =
     r\<lparr>ur_is_current := given (pur_IsCurrent req) (ur_is_current r),
       ur_notes_it := given_notes (pur_NotesIT req) (ur_notes_it r),
       ur_notes_en := given_notes (pur_NotesEN req) (ur_notes_en r),
       ur_published_at := (case publishedAt of None \<Rightarrow> ur_published_at r | Some t \<Rightarrow> to_timestamp t)\<rparr>"

text \<open>Statements: 0 begin, 1 demotion, 2 update, 3 commit, 4 reading the row back.\<close>

definition update_updater_tx ::
  "collation \<Rightarrow> faults \<Rightarrow> string \<Rightarrow> bool \<Rightarrow> (updater_release \<Rightarrow> updater_release) \<Rightarrow> updater_releases \<Rightarrow>
     updater_releases \<times> updater_release response" where
  "update_updater_tx ck f version promote put rels =
     (if f 0 then (rels, Error 500 ''failed to begin transaction'')
      else if promote \<and> f 1 then (rels, Error 500 ''failed to clear existing current release'')
      else
        let rels1 = (if promote then clearCurrentUpdaterFlag ck version rels else rels);
            rels2 = set_flag (\<lambda>r. ck (ur_version r) = ck version) put rels1;
            n = length (filter (\<lambda>r. ck (ur_version r) = ck version \<and> put r \<noteq> r) rels1)
        in if f 2 then (rels, Error 500 ''failed to update updater release'')
           else if n = 0 then (rels, Error 404 ''updater release not found'')
           else if f 3 then (rels, Error 500 ''failed to commit'')
           else if f 4 then (rels2, Error 500 ''failed to fetch updated updater release'')
           else case fetch_updater ck version rels2 of
             None \<Rightarrow> (rels2, Error 500 ''failed to fetch updated updater release'')
           | Some updated \<Rightarrow> (rels2, OK updated))"

definition PatchUpdaterRelease ::
  "collation \<Rightarrow> faults \<Rightarrow> updater_releases \<Rightarrow> string \<Rightarrow> patch_updater_request option \<Rightarrow>
     updater_releases \<times> updater_release response" where
  "PatchUpdaterRelease ck f rels version body =
     (case body of
        None \<Rightarrow> (rels, Error 400 ''invalid JSON'')
      | Some req \<Rightarrow>
          let go = (\<lambda>publishedAt.
                if pur_IsCurrent req = None \<and> pur_NotesIT req = None \<and> pur_NotesEN req = None \<and> pur_PublishedAt req = None
                then (rels, Error 400 ''no fields to update'')
                else update_updater_tx ck f version (pur_IsCurrent req = Some True) (patched_updater req publishedAt) rels)
          in case pur_PublishedAt req of
               None \<Rightarrow> go None
             | Some s \<Rightarrow> (case ParseRFC3339 s of
                 None \<Rightarrow> (rels, Error 400 ''published_at must be RFC3339'')
               | Some t \<Rightarrow> go (Some t)))"

definition DeleteUpdaterRelease ::
  "collation \<Rightarrow> faults \<Rightarrow> 'b s3_client option \<Rightarrow> string \<Rightarrow> 'b \<Rightarrow> updater_releases \<Rightarrow> string \<Rightarrow>
     ('b \<times> updater_releases) \<times> unit response" where
  "DeleteUpdaterRelease ck f s3conn s3Prefix b rels version =
     (case s3conn of
        None \<Rightarrow> ((b, rels), Error 503 ''S3 storage is not configured'')
      | Some c \<Rightarrow>
        (case (if f 0 then None else fetch_updater ck version rels) of
           None \<Rightarrow> ((b, rels), Error 404 ''updater release not found'')
         | Some rel \<Rightarrow>
           (case DeleteFile c (s3Key s3Prefix (ur_download_filename rel)) b of
              (b', err) \<Rightarrow>
                if (case err of None \<Rightarrow> False | Some e \<Rightarrow> \<not> IsNotFound e)
                then ((b', rels), Error 500 ''failed to delete file from storage'')
                else if f 1 then ((b', rels), Error 500 ''failed to delete updater release'')
                else if \<not> list_ex (\<lambda>r. ck (ur_version r) = ck version) rels
                then ((b', rels), Error 404 ''updater release not found'')
                else ((b', filter (\<lambda>r. ck (ur_version r) \<noteq> ck version) rels), OK ()))))"

section \<open>The current slot\<close>

definition updater_key :: "collation \<Rightarrow> updater_release \<Rightarrow> string" where
  "updater_key ck r = ck (ur_version r)"

definition updaters_ok :: "collation \<Rightarrow> updater_releases \<Rightarrow> bool" where
  "updaters_ok ck rels \<longleftrightarrow> distinct (map (updater_key ck) rels) \<and> at_most_one ur_is_current rels"

interpretation current_slot: promotable_flag ur_is_current "\<lambda>r. r\<lparr>ur_is_current := False\<rparr>" "updater_key ck" for ck
  by unfold_locales (simp_all add: updater_key_def)

text \<open>A write request, on the bucket and the table.\<close>

inductive updater_step :: "collation \<Rightarrow> 'b \<times> updater_releases \<Rightarrow> 'b \<times> updater_releases \<Rightarrow> bool" for ck where
  Create: "updater_step ck (b, rels) (fst (CreateUpdaterRelease L ck f now newID s3conn pfx b rels body))"
| Delete: "updater_step ck (b, rels) (fst (DeleteUpdaterRelease ck f s3conn pfx b rels version))"
| Patch: "updater_step ck (b, rels) (b, fst (PatchUpdaterRelease ck f rels version req))"

lemma insert_updater_ok:
  assumes ok: "updaters_ok ck rels" and i: "insert_updater_tx ck f rel rels = Inr rels'"
  shows "updaters_ok ck rels' \<and> rel \<in> set rels'"
proof -
  let ?c = "if ur_is_current rel then clearCurrentUpdaterFlag ck (ur_version rel) rels else rels"
  have c: "?c = (if ur_is_current rel
      then clear_flag (\<lambda>r. ur_is_current r \<and> updater_key ck r \<noteq> ck (ur_version rel)) (\<lambda>r. r\<lparr>ur_is_current := False\<rparr>) rels else rels)"
    by (simp add: clearCurrentUpdaterFlag_def updater_key_def)
  have rels': "rels' = ?c @ [rel]" and new: "updater_key ck rel \<notin> set (map (updater_key ck) ?c)"
    using i by (auto simp: insert_updater_tx_def updater_key_def Let_def split: if_splits)
  have d: "distinct (map (updater_key ck) ?c)" using ok unfolding c by (simp add: updaters_ok_def)
  have "filter ur_is_current ?c = []" if "ur_is_current rel"
  proof -
    have "only_at ur_is_current (updater_key ck) (ck (ur_version rel)) ?c"
      unfolding c using that current_slot.demoted by simp
    with new show ?thesis unfolding only_at_def filter_empty_conv updater_key_def set_map by (metis image_eqI)
  qed
  with ok have "at_most_one ur_is_current rels'" unfolding rels' at_most_one_append by (simp add: updaters_ok_def)
  with d new show ?thesis by (simp add: updaters_ok_def rels')
qed

lemma update_updater_ok:
  assumes ok: "updaters_ok ck rels" and v: "\<And>r. ur_version (put r) = ur_version r"
    and up: "\<And>r. ur_is_current (put r) \<Longrightarrow> ur_is_current r \<or> promote"
  shows "updaters_ok ck (fst (update_updater_tx ck f version promote put rels))"
proof -
  let ?S = "\<lambda>r. if updater_key ck r = ck version then put r else r"
  let ?c = "if promote then clear_flag (\<lambda>r. ur_is_current r \<and> updater_key ck r \<noteq> ck version) (\<lambda>r. r\<lparr>ur_is_current := False\<rparr>) rels else rels"
  have k: "updater_key ck (?S r) = updater_key ck r" for r using v by (simp add: updater_key_def)
  have "at_most_one ur_is_current (map ?S ?c)"
    using ok up by (intro current_slot.promoted k) (auto simp: updaters_ok_def split: if_splits)
  moreover have "map (updater_key ck) (map ?S ?c) = map (updater_key ck) rels"
  proof -
    have "map (updater_key ck) (map ?S xs) = map (updater_key ck) xs" for xs using k by simp
    moreover have "map (updater_key ck) ?c = map (updater_key ck) rels" by simp
    ultimately show ?thesis by metis
  qed
  ultimately have "updaters_ok ck (map ?S ?c)" using ok by (simp only: updaters_ok_def)
  moreover have "fst (update_updater_tx ck f version promote put rels) \<in> {rels, map ?S ?c}"
    by (simp add: update_updater_tx_def set_flag_def clearCurrentUpdaterFlag_def updater_key_def Let_def split: option.splits)
  ultimately show ?thesis using ok by auto
qed

lemma Create_updater_ok:
  "updaters_ok ck rels \<Longrightarrow> updaters_ok ck (snd (fst (CreateUpdaterRelease L ck f now newID s3conn pfx b rels body)))"
  using insert_updater_ok
  by (auto simp: CreateUpdaterRelease_def Let_def split: option.splits prod.splits sum.splits)

lemma Delete_updater_ok:
  assumes "updaters_ok ck rels"
  shows "updaters_ok ck (snd (fst (DeleteUpdaterRelease ck f s3conn pfx b rels version)))"
proof -
  have "updaters_ok ck (filter P rels)" for P
    using assms by (simp add: updaters_ok_def at_most_one_subset distinct_map_filter)
  with assms show ?thesis by (simp add: DeleteUpdaterRelease_def split: option.splits prod.splits)
qed

lemma patched_updater_facts:
  "ur_version (patched_updater req t r) = ur_version r"
  "ur_is_current (patched_updater req t r) \<Longrightarrow> ur_is_current r \<or> pur_IsCurrent req = Some True"
  by (auto simp: patched_updater_def given_def split: option.splits)

lemma Patch_updater_ok: "updaters_ok ck rels \<Longrightarrow> updaters_ok ck (fst (PatchUpdaterRelease ck f rels version body))"
  by (auto simp: PatchUpdaterRelease_def Let_def split: option.splits intro!: update_updater_ok patched_updater_facts(1)
      dest: patched_updater_facts(2))

lemma updater_step_ok: "updater_step ck s s' \<Longrightarrow> updaters_ok ck (snd s) \<Longrightarrow> updaters_ok ck (snd s')"
  by (induction rule: updater_step.induct) (simp_all add: Create_updater_ok Delete_updater_ok Patch_updater_ok)

lemma updater_steps_ok: "(updater_step ck)\<^sup>*\<^sup>* s s' \<Longrightarrow> updaters_ok ck (snd s) \<Longrightarrow> updaters_ok ck (snd s')"
  by (induction rule: rtranclp_induct) (auto intro: updater_step_ok)

section \<open>The kill-switch\<close>

lemma find_current: "updaters_ok ck rels \<Longrightarrow> r \<in> set rels \<Longrightarrow> ur_is_current r \<Longrightarrow> find ur_is_current rels = Some r"
  by (cases "find ur_is_current rels")
    (auto simp: updaters_ok_def find_None_iff dest: find_SomeD at_most_one_unique)

lemma Patch_updater_off:
  assumes "PatchUpdaterRelease ck f rels v (Some req) = (rels', OK updated)" "pur_IsCurrent req = Some False"
  shows "\<exists>t. rels' = set_flag (\<lambda>r. ck (ur_version r) = ck v) (patched_updater req t) rels"
  using assms by (auto simp: PatchUpdaterRelease_def update_updater_tx_def Let_def split: if_splits option.splits)

lemma killed:
  assumes ok: "updaters_ok ck rels" and cur: "find ur_is_current rels = Some rel" and v: "ck (ur_version rel) = ck v"
    and p: "PatchUpdaterRelease ck f rels v (Some req) = (rels', OK updated)" "pur_IsCurrent req = Some False"
  shows "find ur_is_current rels' = None"
proof -
  have one: "at_most_one ur_is_current rels" and rel: "rel \<in> set rels" "ur_is_current rel"
    using ok find_SomeD [OF cur] by (simp_all add: updaters_ok_def)
  obtain t where t: "rels' = set_flag (\<lambda>r. ck (ur_version r) = ck v) (patched_updater req t) rels"
    using Patch_updater_off [OF p] by blast
  have "\<not> ur_is_current (if ck (ur_version r) = ck v then patched_updater req t r else r)" if r: "r \<in> set rels" for r
  proof (cases "ck (ur_version r) = ck v")
    case True
    then show ?thesis using p(2) by (simp add: patched_updater_def given_def)
  next
    case False
    then have "r \<noteq> rel" using v by blast
    then show ?thesis using at_most_one_unique [OF one r rel(1)] rel(2) False by auto
  qed
  then show ?thesis unfolding t set_flag_def find_None_iff by (metis (no_types, lifting) image_iff list.set_map)
qed

section \<open>File names\<close>

lemma path_Base_plain: "CHR ''/'' \<notin> set (path_Base p) \<or> path_Base p = ''/''"
proof -
  have "CHR ''/'' \<notin> set (takeWhile (\<lambda>c. c \<noteq> CHR ''/'') xs)" for xs by (auto dest: set_takeWhileD)
  then show ?thesis by (auto simp: path_Base_def Let_def)
qed

lemma path_Base_chars: "set (path_Base p) \<subseteq> insert (CHR ''.'') (insert (CHR ''/'') (set p))"
  by (auto simp: path_Base_def Let_def split: if_splits dest!: set_takeWhileD set_dropWhileD)

lemma installer_name_plain:
  assumes "CHR ''/'' \<notin> set version" "CHR 92 \<notin> set version"
  shows "let name = updaterInstallerFilename uploaded version
    in CHR ''/'' \<notin> set name \<and> CHR 92 \<notin> set name \<and> name \<noteq> [] \<and> name \<noteq> ''.''"
proof -
  let ?p = "map (\<lambda>c. if c = CHR 92 then CHR ''/'' else c) (TrimSpace uploaded)"
  have "CHR 92 \<notin> set ?p" by auto
  then have "CHR 92 \<notin> set (path_Base ?p)" using path_Base_chars [of ?p] by auto
  then show ?thesis using assms path_Base_plain [of ?p] by (auto simp: updaterInstallerFilename_def Let_def)
qed

lemma Split_covers: "x \<in> set s \<Longrightarrow> x = c \<or> (\<exists>t \<in> set (Split c s). x \<in> set t)"
  by (induction s) (auto split: list.splits if_splits)

lemma semver_digit: "is_digit c \<Longrightarrow> semver_char c"
  by (auto simp: is_digit_def semver_char_def Let_def)

lemma version_plain:
  assumes "updaterVersionPattern v" "c \<in> set v"
  shows "semver_char c"
proof -
  let ?n = "takeWhile (\<lambda>c. c \<noteq> CHR ''-'') v" and ?r = "dropWhile (\<lambda>c. c \<noteq> CHR ''-'') v"
  have hyp: "list_all (\<lambda>x. x \<noteq> [] \<and> list_all is_digit x) (Split (CHR ''.'') ?n)"
    "?r = [] \<or> tl ?r \<noteq> [] \<and> list_all semver_char (tl ?r)"
    using assms(1) by (simp_all add: updaterVersionPattern_def Let_def)
  have "c \<in> set ?n \<or> c \<in> set ?r" using assms(2) by (metis Un_iff set_append takeWhile_dropWhile_id)
  then show ?thesis
  proof
    assume "c \<in> set ?n"
    then have "c = CHR ''.'' \<or> (\<exists>x \<in> set (Split (CHR ''.'') ?n). c \<in> set x)" using Split_covers by metis
    moreover have "semver_char (CHR ''.'')" by (simp add: semver_char_def Let_def)
    ultimately show ?thesis using hyp(1) semver_digit by (auto simp: list_all_iff)
  next
    assume r: "c \<in> set ?r"
    have "?r \<noteq> []" using r by (metis empty_iff empty_set)
    then have "hd ?r = CHR ''-''" using hd_dropWhile by blast
    then have "c = CHR ''-'' \<or> c \<in> set (tl ?r)" using r by (metis list.collapse set_ConsD \<open>?r \<noteq> []\<close>)
    then show ?thesis using hyp(2) \<open>?r \<noteq> []\<close> by (auto simp: list_all_iff semver_char_def)
  qed
qed

section \<open>Properties\<close>

text \<open>In any table reachable by requests and failures the manifest is that of the one current build, or
  empty when there is none; and once a patch that clears the flag of the current build is answered 200,
  the manifest is the empty one for every later request, until another write.\<close>

theorem kill_switch_empties_the_manifest:
  assumes "(updater_step ck)\<^sup>*\<^sup>* (b, []) (b', rels)"
  shows "(\<forall>f now udb hub r eff m rel. GetUpdaterManifest ck f now rels udb hub r = (eff, OK m) \<and>
        rel \<in> set rels \<and> ur_is_current rel \<longrightarrow> m = updater_manifest_of (requestBaseURL r) rel) \<and>
    (\<forall>f now udb hub r eff m. GetUpdaterManifest ck f now rels udb hub r = (eff, OK m) \<and>
        (\<forall>rel \<in> set rels. \<not> ur_is_current rel) \<longrightarrow> m = no_update \<and> eff = (udb, hub)) \<and>
    (\<forall>rel \<in> set rels. \<forall>g req rels' updated. ur_is_current rel \<and> pur_IsCurrent req = Some False \<and>
        PatchUpdaterRelease ck g rels (ur_version rel) (Some req) = (rels', OK updated) \<longrightarrow>
        (\<forall>f now udb hub r. \<not> f 0 \<longrightarrow> GetUpdaterManifest ck f now rels' udb hub r = ((udb, hub), OK no_update)))"
proof -
  have ok: "updaters_ok ck rels" using updater_steps_ok [OF assms] by (simp add: updaters_ok_def at_most_one_def)
  have none: "find ur_is_current rels = None" if "\<forall>rel \<in> set rels. \<not> ur_is_current rel"
    using that by (simp add: find_None_iff)
  show ?thesis
    using find_current [OF ok] none killed [OF ok find_current [OF ok] refl]
    by (auto simp: GetUpdaterManifest_def split: if_splits)
qed

definition updater_lib :: golib where
  "updater_lib = \<lparr>url_Parse = (\<lambda>_. None), json_parse = (\<lambda>_. None), json_print = (\<lambda>_. []), sha256_hex = (\<lambda>_. ''ab'')\<rparr>"

definition sample_updater :: "((string \<rightharpoonup> s3_object) \<times> updater_releases) \<times> created_updater response" where
  "sample_updater = CreateUpdaterRelease updater_lib ToLower no_faults (64000000000 * second) 1 (Some map_bucket) ''updater''
     Map.empty [] (Some \<lparr>FormValue = (\<lambda>n. if n = ''version'' then ''1.5.0'' else if n = ''is_current'' then ''1'' else []),
       FormFile = Some (''setup.exe'', Some ''MZ'')\<rparr>)"

definition kill_request :: patch_updater_request where
  "kill_request = \<lparr>pur_IsCurrent = Some False, pur_NotesIT = None, pur_NotesEN = None, pur_PublishedAt = None\<rparr>"

theorem kill_switch_empties_the_manifest_witness:
  "snd (GetUpdaterManifest ToLower no_faults 9
      (fst (PatchUpdaterRelease ToLower no_faults (snd (fst sample_updater)) ''1.5.0'' (Some kill_request)))
      empty_updater_db None \<lparr>r_Header = (\<lambda>_. []), r_RemoteAddr = [], r_TLS = True, r_Host = ''api''\<rparr>) = OK no_update"
proof -
  have "(updater_step ToLower)\<^sup>*\<^sup>* (Map.empty, []) (fst sample_updater)"
    unfolding sample_updater_def by (rule r_into_rtranclp) (rule Create)
  then have s: "(updater_step ToLower)\<^sup>*\<^sup>* (Map.empty, []) (fst (fst sample_updater), snd (fst sample_updater))" by simp
  have "list_ex (\<lambda>r. ur_is_current r \<and> ur_version r = ''1.5.0'') (snd (fst sample_updater))" by code_simp
  then obtain rel where rel: "rel \<in> set (snd (fst sample_updater))" "ur_is_current rel" "ur_version rel = ''1.5.0''"
    by (auto simp: list_ex_iff)
  have "case snd (PatchUpdaterRelease ToLower no_faults (snd (fst sample_updater)) ''1.5.0'' (Some kill_request)) of
      OK _ \<Rightarrow> True | _ \<Rightarrow> False" by code_simp
  then obtain rels' updated where p: "PatchUpdaterRelease ToLower no_faults (snd (fst sample_updater)) ''1.5.0''
      (Some kill_request) = (rels', OK updated)"
    by (cases "PatchUpdaterRelease ToLower no_faults (snd (fst sample_updater)) ''1.5.0'' (Some kill_request)")
      (auto split: response.splits)
  have k: "pur_IsCurrent kill_request = Some False" by (simp add: kill_request_def)
  from kill_switch_empties_the_manifest [OF s] rel k p show ?thesis by fastforce
qed

text \<open>Whatever name an installer is uploaded under, it is stored directly under the configured prefix:
  the name kept has no slash or backslash and is neither empty nor a dot. The name \<open>..\<close> is kept as it is.\<close>

theorem installer_name_has_no_separator:
  assumes "updaterVersionPattern version"
  shows "\<exists>name. s3Key pfx (updaterInstallerFilename uploaded version) = (if pfx = [] then name else pfx @ ''/'' @ name) \<and>
    CHR ''/'' \<notin> set name \<and> CHR 92 \<notin> set name \<and> name \<noteq> [] \<and> name \<noteq> ''.'' \<and>
    updaterInstallerFilename ''..'' version = ''..''"
proof -
  have "CHR ''/'' \<notin> set version" "CHR 92 \<notin> set version"
    using version_plain [OF assms] by (force simp: semver_char_def)+
  from installer_name_plain [OF this, of uploaded]
  have "CHR ''/'' \<notin> set (updaterInstallerFilename uploaded version) \<and> CHR 92 \<notin> set (updaterInstallerFilename uploaded version) \<and>
    updaterInstallerFilename uploaded version \<noteq> [] \<and> updaterInstallerFilename uploaded version \<noteq> ''.''" by (simp add: Let_def)
  moreover have "path_Base (map (\<lambda>c. if c = CHR 92 then CHR ''/'' else c) (TrimSpace ''..'')) = ''..''" by code_simp
  ultimately show ?thesis
    by (intro exI [of _ "updaterInstallerFilename uploaded version"]) (simp add: s3Key_def updaterInstallerFilename_def Let_def)
qed

theorem installer_name_has_no_separator_witness:
  "\<exists>name. s3Key ''updater'' (updaterInstallerFilename ''C:/tmp/setup.exe'' ''1.5.0-rc.1'') = ''updater/'' @ name \<and> CHR ''/'' \<notin> set name"
proof -
  have "updaterVersionPattern ''1.5.0-rc.1''" by code_simp
  from installer_name_has_no_separator [OF this, of "''updater''" "''C:/tmp/setup.exe''"] show ?thesis by auto
qed

end
