(* ===== verification/Rate_Limiter.thy ===== *)
theory Rate_Limiter
  imports Http_Request Go_Std
begin

text \<open>
  \<open>internal/middleware/ratelimit.ban.go\<close>: the two-tier limiter in front of every route, with its
  automatic bans, and the exemption of \<open>ratelimit.route.go\<close>. The maps are functions from addresses;
  the handler is split where it takes and releases its locks, and composed as it composes them.
\<close>

section \<open>Addresses\<close>

definition privateCIDRs :: "string list" where
  "privateCIDRs = [''127.0.0.0/8'', ''10.0.0.0/8'', ''172.16.0.0/12'', ''192.168.0.0/16'', ''::1/128'', ''fc00::/7'']"

definition privateRanges :: "ipnet list" where
  "privateRanges = List.map_filter (\<lambda>c. map_option snd (ParseCIDR c)) privateCIDRs"

definition isPrivateIP :: "string \<Rightarrow> bool" where
  "isPrivateIP ipStr =
     (case ParseIP ipStr of None \<Rightarrow> False | Some ip \<Rightarrow> list_ex (\<lambda>r. Contains r ip) privateRanges)"

definition getIP :: "request \<Rightarrow> string" where
  "getIP r =
     (let real = r_Header r ''X-Real-IP''; fwd = r_Header r ''X-Forwarded-For''
      in if real \<noteq> [] then real
         else if fwd \<noteq> [] then (case SplitHostPort fwd of Some (h, _) \<Rightarrow> h | None \<Rightarrow> fwd)
         else (case SplitHostPort (r_RemoteAddr r) of Some (host, _) \<Rightarrow> host | None \<Rightarrow> []))"

definition isAuthenticated :: "request \<Rightarrow> bool" where
  "isAuthenticated r \<longleftrightarrow> r_Header r ''X-API-Key'' \<noteq> [] \<or> r_Header r ''X-Admin-Key'' \<noteq> []"

section \<open>State\<close>

record limit_config =
  maxReqs :: int
  window :: duration
  maxFails :: int
  banDur :: duration

record ip_state =
  st_count :: int
  st_windowStart :: gotime
  st_failures :: int
  st_lastSeen :: gotime

type_synonym visitors = "string \<Rightarrow> ip_state option"

record rate_limiter =
  unauthVisitors :: visitors
  authVisitors :: visitors
  banned :: "string \<Rightarrow> gotime option"
  unauthCfg :: limit_config
  authCfg :: limit_config
  cleanEvery :: duration
  dashboardKey :: string

definition NewRateLimiter :: "limit_config \<Rightarrow> limit_config \<Rightarrow> string \<Rightarrow> rate_limiter" where
  "NewRateLimiter unauth authc key =
     \<lparr>unauthVisitors = (\<lambda>_. None), authVisitors = (\<lambda>_. None), banned = (\<lambda>_. None),
      unauthCfg = unauth, authCfg = authc, cleanEvery = 10 * minute, dashboardKey = key\<rparr>"

definition cfg_of :: "bool \<Rightarrow> rate_limiter \<Rightarrow> limit_config" where
  "cfg_of auth rl = (if auth then authCfg rl else unauthCfg rl)"

definition visitors_of :: "bool \<Rightarrow> rate_limiter \<Rightarrow> visitors" where
  "visitors_of auth rl = (if auth then authVisitors rl else unauthVisitors rl)"

definition set_visitor :: "bool \<Rightarrow> string \<Rightarrow> ip_state option \<Rightarrow> rate_limiter \<Rightarrow> rate_limiter" where
  "set_visitor auth ip v rl =
     (if auth then rl\<lparr>authVisitors := (authVisitors rl)(ip := v)\<rparr>
      else rl\<lparr>unauthVisitors := (unauthVisitors rl)(ip := v)\<rparr>)"

text \<open>
  \<open>record\<close>, under the lock. \<open>created\<close> and \<open>now\<close> are its two clock readings. The result is whether the
  limit was exceeded, the failures so far, whether to ban, and for how long.
\<close>

definition bump_visitor :: "limit_config \<Rightarrow> gotime \<Rightarrow> gotime \<Rightarrow> ip_state option \<Rightarrow> ip_state" where
  "bump_visitor cfg created now entry =
     (let v = (case entry of
            None \<Rightarrow> \<lparr>st_count = 0, st_windowStart = created, st_failures = 0, st_lastSeen = 0\<rparr>
          | Some v \<Rightarrow> v);
          v = v\<lparr>st_lastSeen := now\<rparr>;
          v = (if window cfg \<le> now - st_windowStart v then v\<lparr>st_count := 0, st_windowStart := now\<rparr> else v)
      in v\<lparr>st_count := st_count v + 1\<rparr>)"

definition record_request ::
  "gotime \<Rightarrow> gotime \<Rightarrow> string \<Rightarrow> bool \<Rightarrow> rate_limiter \<Rightarrow> rate_limiter \<times> bool \<times> int \<times> bool \<times> duration" where
  "record_request created now ip auth rl =
     (let cfg = cfg_of auth rl;
          v = bump_visitor cfg created now (visitors_of auth rl ip)
      in if maxReqs cfg < st_count v
         then let v = v\<lparr>st_failures := st_failures v + 1\<rparr>
              in (set_visitor auth ip (Some v) rl, True, st_failures v, maxFails cfg \<le> st_failures v, banDur cfg)
         else (set_visitor auth ip (Some (v\<lparr>st_failures := 0\<rparr>)) rl, False, 0, False, 0))"

section \<open>The handler\<close>

datatype limiter_reply = PassOn | Dropped | BannedUntil gotime | TooManyRequests

text \<open>The ban check: drop the request while the ban lasts, forget the ban afterwards.\<close>

definition check_ban :: "gotime \<Rightarrow> string \<Rightarrow> rate_limiter \<Rightarrow> rate_limiter \<times> bool" where
  "check_ban now ip rl =
     (case banned rl ip of
        None \<Rightarrow> (rl, False)
      | Some unbanAt \<Rightarrow> if now < unbanAt then (rl, True) else (rl\<lparr>banned := (banned rl)(ip := None)\<rparr>, False))"

text \<open>The clock is read at the ban check, twice in \<open>record\<close>, and when a ban is set.\<close>

definition limiter_Handler ::
  "gotime \<Rightarrow> gotime \<Rightarrow> gotime \<Rightarrow> gotime \<Rightarrow> request \<Rightarrow> rate_limiter \<Rightarrow> rate_limiter \<times> limiter_reply" where
  "limiter_Handler t0 created now t3 r rl =
     (if dashboardKey rl \<noteq> [] \<and> r_Header r ''X-Dashboard-Key'' = dashboardKey rl then (rl, PassOn)
      else
        let ip = getIP r
        in if isPrivateIP ip then (rl, PassOn)
           else case check_ban t0 ip rl of
             (rl1, True) \<Rightarrow> (rl1, Dropped)
           | (rl1, False) \<Rightarrow>
             (case record_request created now ip (isAuthenticated r) rl1 of
                (rl2, exceeded, failures, shouldBan, dur) \<Rightarrow>
                  if exceeded
                  then if shouldBan
                       then (rl2\<lparr>banned := (banned rl2)(ip := Some (t3 + dur))\<rparr>, BannedUntil (t3 + dur))
                       else (rl2, TooManyRequests)
                  else (rl2, PassOn)))"

definition sweep :: "gotime \<Rightarrow> limit_config \<Rightarrow> visitors \<Rightarrow> visitors" where
  "sweep now cfg vs = (\<lambda>ip. case vs ip of
       None \<Rightarrow> None
     | Some v \<Rightarrow> if window cfg * 2 < now - st_lastSeen v then None else Some v)"

text \<open>One tick of \<open>cleanupLoop\<close>.\<close>

definition cleanup :: "gotime \<Rightarrow> gotime \<Rightarrow> rate_limiter \<Rightarrow> rate_limiter" where
  "cleanup now now' rl =
     rl\<lparr>unauthVisitors := sweep now (unauthCfg rl) (unauthVisitors rl),
        authVisitors := sweep now (authCfg rl) (authVisitors rl),
        banned := (\<lambda>ip. case banned rl ip of None \<Rightarrow> None | Some t \<Rightarrow> if t < now' then None else Some t)\<rparr>"

text \<open>
  \<open>routeLimitByIP\<close>: the per-route limiter of a third-party package, skipped for the dashboard's key.
  \<open>next\<close> and \<open>limited\<close> are what the two handlers answer.
\<close>

definition routeLimitByIP :: "string \<Rightarrow> (request \<Rightarrow> 'a) \<Rightarrow> (request \<Rightarrow> 'a) \<Rightarrow> request \<Rightarrow> 'a" where
  "routeLimitByIP key limited served r =
     (if key \<noteq> [] \<and> r_Header r ''X-Dashboard-Key'' = key then served r else limited r)"

section \<open>Runs\<close>

text \<open>
  What happens to the limiter over time: requests, each with one clock reading, and ticks of the
  cleanup loop. \<open>passed\<close> counts the requests of an address in a tier that are let through at times
  from \<open>lo\<close> up to but not including \<open>hi\<close>; those with the dashboard's key are not counted.
\<close>

datatype limiter_event = Request gotime request | Tick gotime

fun event_time :: "limiter_event \<Rightarrow> gotime" where
  "event_time (Request t r) = t"
| "event_time (Tick t) = t"

fun limiter_step :: "limiter_event \<Rightarrow> rate_limiter \<Rightarrow> rate_limiter \<times> limiter_reply option" where
  "limiter_step (Request t r) rl = (case limiter_Handler t t t t r rl of (rl', reply) \<Rightarrow> (rl', Some reply))"
| "limiter_step (Tick t) rl = (cleanup t t rl, None)"

definition has_dashboard_key :: "rate_limiter \<Rightarrow> request \<Rightarrow> bool" where
  "has_dashboard_key rl r \<longleftrightarrow> dashboardKey rl \<noteq> [] \<and> r_Header r ''X-Dashboard-Key'' = dashboardKey rl"

fun from_visitor :: "string \<Rightarrow> bool \<Rightarrow> rate_limiter \<Rightarrow> limiter_event \<Rightarrow> bool" where
  "from_visitor ip auth rl (Request t r) \<longleftrightarrow> getIP r = ip \<and> isAuthenticated r = auth \<and> \<not> has_dashboard_key rl r"
| "from_visitor ip auth rl (Tick t) \<longleftrightarrow> False"

fun passed :: "string \<Rightarrow> bool \<Rightarrow> gotime \<Rightarrow> gotime \<Rightarrow> limiter_event list \<Rightarrow> rate_limiter \<Rightarrow> int" where
  "passed ip auth lo hi [] rl = 0"
| "passed ip auth lo hi (e # es) rl =
     (let (rl', reply) = limiter_step e rl
      in (if from_visitor ip auth rl e \<and> reply = Some PassOn \<and> lo \<le> event_time e \<and> event_time e < hi then 1 else 0)
         + passed ip auth lo hi es rl')"

fun limiter_run :: "limiter_event list \<Rightarrow> rate_limiter \<Rightarrow> rate_limiter" where
  "limiter_run [] rl = rl"
| "limiter_run (e # es) rl = limiter_run es (fst (limiter_step e rl))"

section \<open>One address in one tier\<close>

lemma set_visitor_facts [simp]:
  "visitors_of a (set_visitor auth ip v rl) x = (if a = auth \<and> x = ip then v else visitors_of a rl x)"
  "cfg_of a (set_visitor auth ip v rl) = cfg_of a rl" "dashboardKey (set_visitor auth ip v rl) = dashboardKey rl"
  "banned (set_visitor auth ip v rl) = banned rl"
  by (auto simp: visitors_of_def set_visitor_def cfg_of_def)

lemma banned_update_facts [simp]:
  "visitors_of a (rl\<lparr>banned := b\<rparr>) = visitors_of a rl" "cfg_of a (rl\<lparr>banned := b\<rparr>) = cfg_of a rl"
  by (simp_all add: visitors_of_def cfg_of_def)

lemma check_ban_facts:
  assumes "check_ban t ip rl = (rl1, dr)"
  shows "visitors_of a rl1 = visitors_of a rl \<and> cfg_of a rl1 = cfg_of a rl \<and> dashboardKey rl1 = dashboardKey rl"
  using assms by (auto simp: check_ban_def split: option.splits if_splits)

lemma record_facts:
  assumes "record_request c n ip auth rl = (rl', ex, fl, sb, d)"
  shows "cfg_of a rl' = cfg_of a rl \<and> dashboardKey rl' = dashboardKey rl \<and> banned rl' = banned rl \<and>
    (\<exists>v. visitors_of auth rl' ip = Some v \<and> st_count v = st_count (bump_visitor (cfg_of auth rl) c n (visitors_of auth rl ip)) \<and>
       st_windowStart v = st_windowStart (bump_visitor (cfg_of auth rl) c n (visitors_of auth rl ip)) \<and>
       st_lastSeen v = n \<and> (ex \<longleftrightarrow> maxReqs (cfg_of auth rl) < st_count v)) \<and>
    (\<forall>b x. (b, x) \<noteq> (auth, ip) \<longrightarrow> visitors_of b rl' x = visitors_of b rl x)"
proof -
  have "st_lastSeen (bump_visitor cfg c n e) = n" for cfg e by (simp add: bump_visitor_def Let_def split: option.splits)
  then show ?thesis using assms by (auto simp: record_request_def Let_def split: if_splits)
qed

lemma step_config [simp]:
  "cfg_of a (fst (limiter_step e rl)) = cfg_of a rl \<and> dashboardKey (fst (limiter_step e rl)) = dashboardKey rl"
proof (cases e)
  case (Tick t)
  show ?thesis
    by (simp_all add: Tick cleanup_def cfg_of_def)
next
  case (Request t r)
  obtain rl1 d where c: "check_ban t (getIP r) rl = (rl1, d)" by fastforce
  obtain rl2 ex fl sb du where rr: "record_request t t (getIP r) (isAuthenticated r) rl1 = (rl2, ex, fl, sb, du)"
    by (cases "record_request t t (getIP r) (isAuthenticated r) rl1") auto
  show ?thesis
    using check_ban_facts [OF c, of a] record_facts [OF rr, of a]
    by (auto simp: Request limiter_Handler_def Let_def c rr split: bool.splits)
qed

text \<open>A request either leaves the visitor alone and is not let through on its account, or is counted.\<close>

lemma request_entry:
  assumes h: "limiter_Handler t t t t r rl = (rl', reply)" and pub: "\<not> isPrivateIP ip"
  shows "(visitors_of a rl' ip = visitors_of a rl ip \<and> \<not> (from_visitor ip a rl (Request t r) \<and> reply = PassOn)) \<or>
    (\<exists>v. visitors_of a rl' ip = Some v \<and> st_count v = st_count (bump_visitor (cfg_of a rl) t t (visitors_of a rl ip)) \<and>
       st_windowStart v = st_windowStart (bump_visitor (cfg_of a rl) t t (visitors_of a rl ip)) \<and> st_lastSeen v = t \<and>
       (reply = PassOn \<longrightarrow> st_count v \<le> maxReqs (cfg_of a rl)))"
proof -
  obtain rl1 d where c: "check_ban t (getIP r) rl = (rl1, d)" by fastforce
  obtain rl2 ex fl sb du where rr: "record_request t t (getIP r) (isAuthenticated r) rl1 = (rl2, ex, fl, sb, du)"
    by (cases "record_request t t (getIP r) (isAuthenticated r) rl1") auto
  show ?thesis
  proof (cases "has_dashboard_key rl r \<or> isPrivateIP (getIP r) \<or> d")
    case True
    then have "visitors_of a rl' ip = visitors_of a rl ip" "\<not> (from_visitor ip a rl (Request t r) \<and> reply = PassOn)"
      using h pub check_ban_facts [OF c, of a]
      by (auto simp: limiter_Handler_def has_dashboard_key_def Let_def c split: if_splits)
    then show ?thesis by simp
  next
    case False
    then have h': "visitors_of a rl' ip = visitors_of a rl2 ip" "reply = PassOn \<longrightarrow> \<not> ex"
      using h by (auto simp: limiter_Handler_def has_dashboard_key_def Let_def c rr split: if_splits)
    have v: "visitors_of a rl1 = visitors_of a rl" "cfg_of a rl1 = cfg_of a rl" using check_ban_facts [OF c, of a] by auto
    show ?thesis
    proof (cases "(a, ip) = (isAuthenticated r, getIP r)")
      case True
      then have a: "isAuthenticated r = a" "getIP r = ip" by simp_all
      obtain w where w: "visitors_of a rl2 ip = Some w"
        "st_count w = st_count (bump_visitor (cfg_of a rl) t t (visitors_of a rl ip))"
        "st_windowStart w = st_windowStart (bump_visitor (cfg_of a rl) t t (visitors_of a rl ip))"
        "st_lastSeen w = t" "ex \<longleftrightarrow> maxReqs (cfg_of a rl) < st_count w"
        using record_facts [OF rr, of a] unfolding a v by blast
      have "reply = PassOn \<longrightarrow> st_count w \<le> maxReqs (cfg_of a rl)" using h'(2) w(5) by linarith
      with w h'(1) show ?thesis by simp
    next
      case False
      then have "visitors_of a rl2 ip = visitors_of a rl1 ip" using record_facts [OF rr, of a] by blast
      with False h'(1) v show ?thesis by auto
    qed
  qed
qed

definition entry_ok :: "gotime \<Rightarrow> ip_state option \<Rightarrow> bool" where
  "entry_ok T e = (case e of None \<Rightarrow> True
     | Some v \<Rightarrow> 1 \<le> st_count v \<and> st_windowStart v \<le> st_lastSeen v \<and> st_lastSeen v \<le> T)"

lemma step_entry_ok:
  assumes "entry_ok T (visitors_of a rl ip)" "T \<le> event_time e" "\<not> isPrivateIP ip"
  shows "entry_ok (event_time e) (visitors_of a (fst (limiter_step e rl)) ip)"
proof (cases e)
  case (Tick t)
  then show ?thesis using assms
    by (cases a) (auto simp: entry_ok_def cleanup_def visitors_of_def sweep_def split: option.splits)
next
  case (Request t r)
  obtain rl' reply where h: "limiter_Handler t t t t r rl = (rl', reply)" by fastforce
  from request_entry [OF h assms(3), of a] assms(1,2) Request show ?thesis
    by (auto simp: h entry_ok_def bump_visitor_def Let_def split: option.splits if_splits)
qed

text \<open>
  How many more requests can pass before \<open>lo + window\<close>: what is left of the current window, and a
  whole further one when the current window began before \<open>lo\<close>.
\<close>

definition allowance :: "limit_config \<Rightarrow> gotime \<Rightarrow> ip_state option \<Rightarrow> int" where
  "allowance cfg lo e = (case e of None \<Rightarrow> max 0 (maxReqs cfg)
     | Some v \<Rightarrow> max 0 (maxReqs cfg - st_count v) + (if lo \<le> st_windowStart v then 0 else max 0 (maxReqs cfg)))"

lemma allowance_bounds: "entry_ok T e \<Longrightarrow> 0 \<le> allowance cfg lo e \<and> allowance cfg lo e \<le> max 0 (2 * maxReqs cfg - 1)"
  by (auto simp: allowance_def entry_ok_def split: option.splits)

lemma step_allowance:
  assumes ok: "entry_ok T (visitors_of a rl ip)" and t: "T \<le> event_time e" "lo \<le> event_time e" "event_time e < lo + window (cfg_of a rl)"
    and pub: "\<not> isPrivateIP ip"
  shows "(if from_visitor ip a rl e \<and> snd (limiter_step e rl) = Some PassOn then 1 else 0) +
      allowance (cfg_of a rl) lo (visitors_of a (fst (limiter_step e rl)) ip)
    \<le> allowance (cfg_of a rl) lo (visitors_of a rl ip)"
proof (cases e)
  case (Tick u)
  have "visitors_of a (cleanup u u rl) ip = sweep u (cfg_of a rl) (visitors_of a rl) ip"
    by (simp add: cleanup_def visitors_of_def cfg_of_def)
  with Tick ok t show ?thesis
    by (auto simp: sweep_def allowance_def entry_ok_def split: option.splits)
next
  case (Request u r)
  obtain rl' reply where h: "limiter_Handler u u u u r rl = (rl', reply)" by fastforce
  from request_entry [OF h pub, of a] show ?thesis
  proof
    assume "visitors_of a rl' ip = visitors_of a rl ip \<and> \<not> (from_visitor ip a rl (Request u r) \<and> reply = PassOn)"
    then show ?thesis using Request h by auto
  next
    assume "\<exists>v. visitors_of a rl' ip = Some v \<and> st_count v = st_count (bump_visitor (cfg_of a rl) u u (visitors_of a rl ip)) \<and>
       st_windowStart v = st_windowStart (bump_visitor (cfg_of a rl) u u (visitors_of a rl ip)) \<and> st_lastSeen v = u \<and>
       (reply = PassOn \<longrightarrow> st_count v \<le> maxReqs (cfg_of a rl))"
    then obtain v where v: "visitors_of a rl' ip = Some v"
      "st_count v = st_count (bump_visitor (cfg_of a rl) u u (visitors_of a rl ip))"
      "st_windowStart v = st_windowStart (bump_visitor (cfg_of a rl) u u (visitors_of a rl ip))"
      "reply = PassOn \<longrightarrow> st_count v \<le> maxReqs (cfg_of a rl)" by blast
    show ?thesis
      using v ok t Request h
      by (auto simp: allowance_def entry_ok_def bump_visitor_def Let_def split: option.splits if_splits)
  qed
qed

lemma passed_late: "\<forall>e \<in> set es. hi \<le> event_time e \<Longrightarrow> passed ip a lo hi es rl = 0"
  by (induction es arbitrary: rl) (auto simp: case_prod_unfold)

lemma passed_allowance:
  assumes "entry_ok T (visitors_of a rl ip)" "sorted (map event_time es)" "\<forall>e \<in> set es. T \<le> event_time e \<and> lo \<le> event_time e"
    "\<not> isPrivateIP ip"
  shows "passed ip a lo (lo + window (cfg_of a rl)) es rl \<le> allowance (cfg_of a rl) lo (visitors_of a rl ip)"
  using assms
proof (induction es arbitrary: rl T)
  case Nil
  then show ?case using allowance_bounds by fastforce
next
  case (Cons e es)
  show ?case
  proof (cases "event_time e < lo + window (cfg_of a rl)")
    case True
    have "passed ip a lo (lo + window (cfg_of a (fst (limiter_step e rl)))) es (fst (limiter_step e rl))
        \<le> allowance (cfg_of a (fst (limiter_step e rl))) lo (visitors_of a (fst (limiter_step e rl)) ip)"
      using Cons.prems step_entry_ok [OF Cons.prems(1) _ Cons.prems(4), of e]
      by (intro Cons.IH [of "event_time e"]) auto
    moreover have "(if from_visitor ip a rl e \<and> snd (limiter_step e rl) = Some PassOn then 1 else 0) +
        allowance (cfg_of a rl) lo (visitors_of a (fst (limiter_step e rl)) ip) \<le> allowance (cfg_of a rl) lo (visitors_of a rl ip)"
      using Cons.prems True by (intro step_allowance [OF Cons.prems(1)]) auto
    ultimately show ?thesis using True by (auto simp: case_prod_unfold split: if_splits)
  next
    case False
    then have "\<forall>x \<in> set (e # es). lo + window (cfg_of a rl) \<le> event_time x" using Cons.prems(2) by auto
    then show ?thesis using passed_late [of "e # es"] allowance_bounds [OF Cons.prems(1)] by (metis)
  qed
qed

lemma passed_bound:
  assumes "entry_ok T (visitors_of a rl ip)" "sorted (map event_time es)" "\<forall>e \<in> set es. T \<le> event_time e" "\<not> isPrivateIP ip"
  shows "passed ip a lo (lo + window (cfg_of a rl)) es rl \<le> max 0 (2 * maxReqs (cfg_of a rl) - 1)"
  using assms
proof (induction es arbitrary: rl T)
  case (Cons e es)
  show ?case
  proof (cases "lo \<le> event_time e")
    case True
    then have "\<forall>x \<in> set (e # es). T \<le> event_time x \<and> lo \<le> event_time x" using Cons.prems(2,3) by auto
    from passed_allowance [OF Cons.prems(1,2) this Cons.prems(4)] allowance_bounds [OF Cons.prems(1)] show ?thesis
      by (meson order_trans)
  next
    case False
    have "passed ip a lo (lo + window (cfg_of a (fst (limiter_step e rl)))) es (fst (limiter_step e rl))
        \<le> max 0 (2 * maxReqs (cfg_of a (fst (limiter_step e rl))) - 1)"
      using Cons.prems step_entry_ok [OF Cons.prems(1) _ Cons.prems(4), of e]
      by (intro Cons.IH [of "event_time e"]) auto
    with False show ?thesis by (simp add: case_prod_unfold)
  qed
qed simp

section \<open>Bans\<close>

lemma ban_step:
  assumes b: "banned rl ip = Some u" and t: "event_time e < u" and pub: "\<not> isPrivateIP ip"
  shows "banned (fst (limiter_step e rl)) ip = Some u"
proof (cases e)
  case (Tick t)
  with assms show ?thesis by (simp add: cleanup_def)
next
  case (Request t r)
  obtain rl1 d where c: "check_ban t (getIP r) rl = (rl1, d)" by fastforce
  obtain rl2 ex fl sb du where rr: "record_request t t (getIP r) (isAuthenticated r) rl1 = (rl2, ex, fl, sb, du)"
    by (cases "record_request t t (getIP r) (isAuthenticated r) rl1") auto
  have d: "getIP r = ip \<Longrightarrow> rl1 = rl \<and> d" and b1: "banned rl1 ip = Some u"
    using c b t Request by (auto simp: check_ban_def split: option.splits if_splits)
  have "banned rl2 = banned rl1" using record_facts [OF rr] by blast
  then show ?thesis using d b1 b
    by (auto simp: Request limiter_Handler_def Let_def c rr split: bool.splits)
qed

lemma ban_run:
  assumes "banned rl ip = Some u" "\<forall>e \<in> set es. event_time e < u" "\<not> isPrivateIP ip"
  shows "banned (limiter_run es rl) ip = Some u \<and> dashboardKey (limiter_run es rl) = dashboardKey rl"
  using assms
proof (induction es arbitrary: rl)
  case (Cons e es)
  then show ?case using ban_step [OF Cons.prems(1) _ Cons.prems(3), of e] by auto
qed simp

lemma banned_is_dropped:
  assumes "banned rl (getIP r) = Some u" "t < u" "\<not> isPrivateIP (getIP r)" "\<not> has_dashboard_key rl r"
  shows "limiter_Handler t c n t3 r rl = (rl, Dropped)"
  using assms by (auto simp: limiter_Handler_def check_ban_def has_dashboard_key_def Let_def)

lemma ban_outcome:
  assumes h: "limiter_Handler t0 c n t3 r rl = (rl', BannedUntil u)"
  shows "banned rl' (getIP r) = Some u \<and> u = t3 + banDur (cfg_of (isAuthenticated r) rl) \<and>
    \<not> isPrivateIP (getIP r) \<and> dashboardKey rl' = dashboardKey rl \<and>
    (\<exists>v. visitors_of (isAuthenticated r) rl' (getIP r) = Some v \<and> maxFails (cfg_of (isAuthenticated r) rl) \<le> st_failures v \<and>
       st_failures v = 1 + (case visitors_of (isAuthenticated r) rl (getIP r) of None \<Rightarrow> 0 | Some w \<Rightarrow> st_failures w))"
proof -
  obtain rl1 d where ch: "check_ban t0 (getIP r) rl = (rl1, d)" by fastforce
  obtain rl2 ex fl sb du where rr: "record_request c n (getIP r) (isAuthenticated r) rl1 = (rl2, ex, fl, sb, du)"
    by (cases "record_request c n (getIP r) (isAuthenticated r) rl1") auto
  have k: "visitors_of (isAuthenticated r) rl1 = visitors_of (isAuthenticated r) rl"
    "cfg_of (isAuthenticated r) rl1 = cfg_of (isAuthenticated r) rl" "dashboardKey rl1 = dashboardKey rl"
    using check_ban_facts [OF ch] by auto
  have o: "\<not> isPrivateIP (getIP r)" "ex" "sb" "rl' = rl2\<lparr>banned := (banned rl2)(getIP r := Some (t3 + du))\<rparr>" "u = t3 + du"
    using h by (auto simp: limiter_Handler_def Let_def ch rr split: if_splits bool.splits)
  have f: "st_failures (bump_visitor cfg c n e) = (case e of None \<Rightarrow> 0 | Some w \<Rightarrow> st_failures w)" for cfg e
    by (simp add: bump_visitor_def Let_def split: option.splits)
  have "dashboardKey rl2 = dashboardKey rl" using record_facts [OF rr] k(3) by simp
  then show ?thesis using o rr by (auto simp: record_request_def Let_def k f split: if_splits)
qed

section \<open>Properties\<close>


definition public_request :: request where
  "public_request = \<lparr>r_Header = (\<lambda>_. []), r_RemoteAddr = ''8.8.8.8:443''\<rparr>"

definition two_per_ten :: limit_config where
  "two_per_ten = \<lparr>maxReqs = 2, window = 10, maxFails = 2, banDur = 100\<rparr>"



definition after_three :: rate_limiter where
  "after_three = limiter_run (map (\<lambda>t. Request t public_request) [0, 1, 2]) (NewRateLimiter two_per_ten two_per_ten [])"


end
