(* ===== verification/Ban_List.thy ===== *)
theory Ban_List
  imports Session Go_Std
begin

text \<open>
  The permanent block list: \<open>internal/middleware/ban.go\<close> (the snapshot every request is matched
  against), \<open>internal/bans/bans.route.go\<close> (the routes that edit it) and \<open>internal/models/ban.go\<close>.
  The table compares values in a collation whose key is \<open>ck\<close>; the snapshot compares bytes.
\<close>

section \<open>Rows\<close>

record ban =
  ban_id :: int
  ban_type :: string
  ban_value :: string
  ban_reason :: "string ptr"
  ban_created_by :: "string ptr"
  ban_created_at :: gotime

type_synonym bans = "ban list"

definition BanTypeIP :: string where "BanTypeIP = ''ip''"
definition BanTypeHWID :: string where "BanTypeHWID = ''hwid''"
definition BanTypeHostname :: string where "BanTypeHostname = ''hostname''"

lemmas ban_types = BanTypeIP_def BanTypeHWID_def BanTypeHostname_def

definition ValidBanType :: "string \<Rightarrow> bool" where
  "ValidBanType t \<longleftrightarrow> t \<in> {BanTypeIP, BanTypeHWID, BanTypeHostname}"

section \<open>Printing an address\<close>

text \<open>
  \<open>net.IP.String\<close>: dotted for IPv4; otherwise groups in hexadecimal, the first longest run of at
  least two zero groups written as two colons.
\<close>

definition hex_char :: "int \<Rightarrow> char" where
  "hex_char n = (if n < 10 then char_of (48 + n) else char_of (87 + n))"

definition hex_group :: "int \<Rightarrow> string" where
  "hex_group g =
     (if g < 16 then [hex_char g]
      else if g < 256 then [hex_char (g div 16), hex_char (g mod 16)]
      else if g < 4096 then [hex_char (g div 256), hex_char (g div 16 mod 16), hex_char (g mod 16)]
      else [hex_char (g div 4096), hex_char (g div 256 mod 16), hex_char (g div 16 mod 16), hex_char (g mod 16)])"

definition v6_groups :: "ip \<Rightarrow> int list" where
  "v6_groups a = map (\<lambda>i. a div 65536 ^ (7 - i) mod 65536) [0..<8]"

definition zero_run :: "int list \<Rightarrow> nat \<times> nat" where
  "zero_run gs = fold (\<lambda>i (s, l). let n = length (takeWhile (\<lambda>g. g = 0) (drop i gs)) in if 2 \<le> n \<and> l < n then (i, n) else (s, l))
     [0..<8] (0, 0)"

definition dotted :: "int \<Rightarrow> string" where
  "dotted v = join ''.'' (map Itoa [v div 2 ^ 24, v div 2 ^ 16 mod 256, v div 2 ^ 8 mod 256, v mod 256])"

definition IP_String :: "ip \<Rightarrow> string" where
  "IP_String a =
     (case To4 a of
        Some v \<Rightarrow> dotted v
      | None \<Rightarrow>
          let gs = v6_groups a
          in case zero_run gs of (s, l) \<Rightarrow>
               if l = 0 then join '':'' (map hex_group gs)
               else join '':'' (map hex_group (take s gs)) @ ''::'' @ join '':'' (map hex_group (drop (s + l) gs)))"

text \<open>The value stored for a ban, or the message of the error.\<close>

definition normalizeBanValue :: "string \<Rightarrow> string \<Rightarrow> string + string" where
  "normalizeBanValue t raw =
     (let v = TrimSpace raw
      in if v = [] then Inl ''value is required''
         else if 255 < length v then Inl ''value is longer than 255 characters''
         else if t = BanTypeIP
              then (case ParseIP v of None \<Rightarrow> Inl ''value is not a valid IP address'' | Some ip \<Rightarrow> Inr (IP_String ip))
         else if t = BanTypeHostname then Inr (ToLower v)
         else Inr v)"

section \<open>The snapshot\<close>

record ban_list =
  bl_ips :: "string \<Rightarrow> ban option"
  bl_hwids :: "string \<Rightarrow> ban option"
  bl_hostnames :: "string \<Rightarrow> ban option"
  bl_loaded :: bool
  bl_adminKey :: string

text \<open>The three maps after the loop of \<open>Reload\<close>; a later row replaces an earlier one.\<close>

definition load_row :: "ban \<Rightarrow> ban_list \<Rightarrow> ban_list" where
  "load_row row b =
     (if ban_type row = BanTypeIP then b\<lparr>bl_ips := (bl_ips b)(ban_value row := Some row)\<rparr>
      else if ban_type row = BanTypeHWID then b\<lparr>bl_hwids := (bl_hwids b)(ban_value row := Some row)\<rparr>
      else if ban_type row = BanTypeHostname then b\<lparr>bl_hostnames := (bl_hostnames b)(ToLower (ban_value row) := Some row)\<rparr>
      else b)"

definition load_rows :: "bans \<Rightarrow> ban_list \<Rightarrow> ban_list" where
  "load_rows rows b = fold load_row rows
     (b\<lparr>bl_ips := (\<lambda>_. None), bl_hwids := (\<lambda>_. None), bl_hostnames := (\<lambda>_. None), bl_loaded := True\<rparr>)"

text \<open>\<open>Reload\<close>: the flag says whether the query fails; the result whether it returned an error.\<close>

definition Reload :: "bool \<Rightarrow> bans \<Rightarrow> ban_list \<Rightarrow> ban_list \<times> bool" where
  "Reload fails rows b = (if fails then (b, True) else (load_rows rows b, False))"

definition NewBanList :: "bool \<Rightarrow> bans \<Rightarrow> string \<Rightarrow> ban_list" where
  "NewBanList fails rows adminKey =
     fst (Reload fails rows \<lparr>bl_ips = (\<lambda>_. None), bl_hwids = (\<lambda>_. None), bl_hostnames = (\<lambda>_. None),
       bl_loaded = False, bl_adminKey = adminKey\<rparr>)"

text \<open>\<open>Run\<close>: a refresh per tick, each with the rows it reads, until the context is done.\<close>

fun ban_Run :: "(bool \<times> bans) list \<Rightarrow> ban_list \<Rightarrow> ban_list" where
  "ban_Run [] b = b"
| "ban_Run ((fails, rows) # ticks) b = ban_Run ticks (fst (Reload fails rows b))"

definition ban_match :: "ban_list \<Rightarrow> string \<Rightarrow> string \<Rightarrow> string \<Rightarrow> ban option" where
  "ban_match b ip hwid hostname =
     (if ip \<noteq> [] \<and> bl_ips b ip \<noteq> None then bl_ips b ip
      else if hwid \<noteq> [] \<and> bl_hwids b hwid \<noteq> None then bl_hwids b hwid
      else if hostname \<noteq> [] then bl_hostnames b (ToLower hostname)
      else None)"

definition clientIP :: "request \<Rightarrow> string" where
  "clientIP r =
     (let real = r_Header r ''X-Real-IP''; fwd = r_Header r ''X-Forwarded-For''
      in if real \<noteq> [] then real
         else if fwd \<noteq> [] then TrimSpace (case IndexByte (CHR '','') fwd of None \<Rightarrow> fwd | Some i \<Rightarrow> take i fwd)
         else (case SplitHostPort (r_RemoteAddr r) of None \<Rightarrow> r_RemoteAddr r | Some (host, _) \<Rightarrow> host))"

datatype ban_reply = Allowed | Forbidden ban

definition ban_Handler :: "ban_list \<Rightarrow> request \<Rightarrow> ban_reply" where
  "ban_Handler b r =
     (if bl_adminKey b \<noteq> [] \<and> r_Header r ''X-Admin-Key'' = bl_adminKey b then Allowed
      else case ban_match b (clientIP r) (r_Header r ''X-EMLy-HWID'') (r_Header r ''X-EMLy-Hostname'') of
        None \<Rightarrow> Allowed
      | Some ban \<Rightarrow> Forbidden ban)"

section \<open>The routes\<close>

definition ListBans :: "faults \<Rightarrow> bans \<Rightarrow> bans response" where
  "ListBans f rows = (if f 0 then Error 500 ''failed to list bans'' else OK (sort_key (\<lambda>b. - ban_created_at b) rows))"

text \<open>
  \<open>INSERT ... ON DUPLICATE KEY UPDATE id = LAST_INSERT_ID(id)\<close> over the unique key
  \<open>(ban_type, value)\<close>: the new rows, the id, and whether a row was inserted.
\<close>

definition insert_ban :: "collation \<Rightarrow> ban \<Rightarrow> bans \<Rightarrow> bans \<times> int \<times> bool" where
  "insert_ban ck row rows =
     (case find (\<lambda>b. ban_type b = ban_type row \<and> ck (ban_value b) = ck (ban_value row)) rows of
        Some b \<Rightarrow> (rows, ban_id b, False)
      | None \<Rightarrow> (rows @ [row], ban_id row, True))"

record ban_request =
  br_BanType :: string
  br_Value :: string
  br_Reason :: string

text \<open>
  \<open>BanReloader\<close>: what the routes call after a write, on a snapshot of any type. None is the nil
  reloader. Its query is the last statement of a handler.
\<close>

type_synonym 's ban_reloader = "bool \<Rightarrow> bans \<Rightarrow> 's \<Rightarrow> 's \<times> bool"

definition reloadBans :: "'s ban_reloader option \<Rightarrow> bool \<Rightarrow> bans \<Rightarrow> 's \<Rightarrow> 's" where
  "reloadBans reloader fails rows s = (case reloader of None \<Rightarrow> s | Some reload \<Rightarrow> fst (reload fails rows s))"

text \<open>Statements: 0 the session query, 1 insert, 2 reading back, 3 the reload.\<close>

definition CreateBan ::
  "collation \<Rightarrow> faults \<Rightarrow> gotime \<Rightarrow> int \<Rightarrow> auth_db \<Rightarrow> 's ban_reloader option \<Rightarrow> bans \<Rightarrow> 's \<Rightarrow> request \<Rightarrow>
     ban_request option \<Rightarrow> (bans \<times> 's) \<times> ban response" where
  "CreateBan ck f now newID a reloader rows s r body =
     (case body of
        None \<Rightarrow> ((rows, s), Error 400 ''invalid JSON'')
      | Some req \<Rightarrow>
          if \<not> ValidBanType (br_BanType req)
          then ((rows, s), Error 400 (''ban_type must be 'ip', 'hwid' or 'hostname'' @ [CHR 39]))
          else case normalizeBanValue (br_BanType req) (br_Value req) of
            Inl err \<Rightarrow> ((rows, s), Error 400 err)
          | Inr v \<Rightarrow>
              let row = \<lparr>ban_id = newID, ban_type = br_BanType req, ban_value = v,
                         ban_reason = NullString (TrimSpace (br_Reason req)),
                         ban_created_by = Username ck (f 0) now a r, ban_created_at = now\<rparr>
              in if f 1 then ((rows, s), Error 500 ''failed to create ban'')
                 else case insert_ban ck row rows of
                   (rows', i, inserted) \<Rightarrow>
                     (case (if f 2 then None else find (\<lambda>b. ban_id b = i) rows') of
                        None \<Rightarrow> ((rows', s), Error 500 ''ban stored but could not be read back'')
                      | Some ban \<Rightarrow>
                          ((rows', reloadBans reloader (f 3) rows' s), if inserted then Created ban else OK ban)))"

text \<open>Statements: 0 the query, 1 the delete, 2 the reload.\<close>

definition DeleteBan ::
  "faults \<Rightarrow> 's ban_reloader option \<Rightarrow> bans \<Rightarrow> 's \<Rightarrow> string \<Rightarrow> (bans \<times> 's) \<times> unit response" where
  "DeleteBan f reloader rows s param =
     (case Atoi param of
        None \<Rightarrow> ((rows, s), Error 400 ''invalid ban id'')
      | Some i \<Rightarrow>
          if f 0 then ((rows, s), Error 500 ''failed to fetch ban'')
          else if \<not> list_ex (\<lambda>b. ban_id b = i) rows then ((rows, s), Error 404 ''ban not found'')
          else if f 1 then ((rows, s), Error 500 ''failed to delete ban'')
          else let rows' = filter (\<lambda>b. ban_id b \<noteq> i) rows
               in ((rows', reloadBans reloader (f 2) rows' s), OK ()))"

section \<open>What the snapshot promises\<close>

text \<open>The reference: a scan of the rows for one that names the request's address, hwid or host name.\<close>

definition ban_matches :: "string \<Rightarrow> string \<Rightarrow> string \<Rightarrow> ban \<Rightarrow> bool" where
  "ban_matches ip hwid hostname b \<longleftrightarrow>
     (ban_type b = BanTypeIP \<and> ip \<noteq> [] \<and> ban_value b = ip) \<or>
     (ban_type b = BanTypeHWID \<and> hwid \<noteq> [] \<and> ban_value b = hwid) \<or>
     (ban_type b = BanTypeHostname \<and> hostname \<noteq> [] \<and> ToLower (ban_value b) = ToLower hostname)"

text \<open>
  The contract behind \<open>BanReloader\<close>, on the provider's snapshot and its matcher: a reload that
  succeeds makes the matcher agree with the scan of the rows, one that fails changes nothing.
\<close>

locale ban_snapshot =
  fixes reload :: "bool \<Rightarrow> bans \<Rightarrow> 's \<Rightarrow> 's \<times> bool"
    and matcher :: "'s \<Rightarrow> string \<Rightarrow> string \<Rightarrow> string \<Rightarrow> ban option"
  assumes failed: "reload True rows s = (s, True)"
    and loaded: "\<exists>s'. reload False rows s = (s', False) \<and>
      (\<forall>ip hwid host. case matcher s' ip hwid host of
         None \<Rightarrow> (\<forall>b \<in> set rows. \<not> ban_matches ip hwid host b)
       | Some b \<Rightarrow> b \<in> set rows \<and> ban_matches ip hwid host b)"
begin

definition enforces :: "bans \<Rightarrow> 's \<Rightarrow> bool" where
  "enforces rows s \<longleftrightarrow> (\<forall>ip hwid host. matcher s ip hwid host = None \<longleftrightarrow> (\<forall>b \<in> set rows. \<not> ban_matches ip hwid host b))"

lemma reload_enforces: "enforces rows (fst (reload False rows s))"
proof -
  obtain s' where s': "reload False rows s = (s', False)" and m: "\<And>ip hwid host. case matcher s' ip hwid host of
      None \<Rightarrow> (\<forall>b \<in> set rows. \<not> ban_matches ip hwid host b) | Some b \<Rightarrow> b \<in> set rows \<and> ban_matches ip hwid host b"
    using loaded by blast
  have "matcher s' ip hwid host = None \<longleftrightarrow> (\<forall>b \<in> set rows. \<not> ban_matches ip hwid host b)" for ip hwid host
    using m [of ip hwid host] by (cases "matcher s' ip hwid host") auto
  then show ?thesis by (simp add: enforces_def s')
qed

lemma reloadBans_enforces: "enforces rows (reloadBans (Some reload) False rows s)"
  using reload_enforces by (simp add: reloadBans_def)

lemma reloadBans_failed: "reloadBans (Some reload) True rows s = s"
  by (simp add: reloadBans_def failed)

text \<open>After a ban route answered success, the snapshot enforces the new rows, if its reload went through.\<close>

lemma Create_enforced:
  assumes "CreateBan ck f now newID a (Some reload) rows s r body = ((rows', s'), resp)"
    and "\<forall>c e. resp \<noteq> Error c e" and "\<not> f 3"
  shows "enforces rows' s'"
  using assms reloadBans_enforces
  by (auto simp: CreateBan_def Let_def split: option.splits if_splits sum.splits prod.splits)

lemma Delete_enforced:
  assumes "DeleteBan f (Some reload) rows s param = ((rows', s'), OK ())" and "\<not> f 2"
  shows "enforces rows' s'"
  using assms reloadBans_enforces by (auto simp: DeleteBan_def Let_def split: option.splits if_splits)

end

text \<open>A map of the snapshot holds, for each key, a row with that key, and every row is under its key.\<close>

definition indexes :: "(ban \<Rightarrow> bool) \<Rightarrow> (ban \<Rightarrow> string) \<Rightarrow> bans \<Rightarrow> (string \<Rightarrow> ban option) \<Rightarrow> bool" where
  "indexes P key rows m \<longleftrightarrow> (\<forall>k. case m k of
     None \<Rightarrow> (\<forall>x \<in> set rows. \<not> (P x \<and> key x = k)) | Some x \<Rightarrow> x \<in> set rows \<and> P x \<and> key x = k)"

lemma indexes_iff: "indexes P key rows m \<longleftrightarrow>
    (\<forall>k. m k = None \<longrightarrow> (\<forall>x \<in> set rows. P x \<longrightarrow> key x \<noteq> k)) \<and> (\<forall>k x. m k = Some x \<longrightarrow> x \<in> set rows \<and> P x \<and> key x = k)"
  unfolding indexes_def by (rule iffI; (intro conjI allI impI)?) (fastforce split: option.splits)+

lemma indexes_put: "indexes P key rows m \<Longrightarrow> P x \<Longrightarrow> indexes P key (rows @ [x]) (m(key x := Some x))"
  unfolding indexes_iff by (auto split: if_splits)

lemma indexes_skip: "indexes P key rows m \<Longrightarrow> \<not> P x \<Longrightarrow> indexes P key (rows @ [x]) m"
  unfolding indexes_iff by auto

lemma indexes_None: "indexes P key rows m \<Longrightarrow> m k = None \<longleftrightarrow> (\<forall>x \<in> set rows. \<not> (P x \<and> key x = k))"
  by (cases "m k") (auto simp: indexes_def dest!: spec [of _ k])

lemma indexes_Some: "indexes P key rows m \<Longrightarrow> m k = Some x \<Longrightarrow> x \<in> set rows \<and> P x \<and> key x = k"
  by (auto simp: indexes_def dest!: spec [of _ k])

definition snapshot_of :: "bans \<Rightarrow> ban_list \<Rightarrow> bool" where
  "snapshot_of rows b \<longleftrightarrow>
     indexes (\<lambda>x. ban_type x = BanTypeIP) ban_value rows (bl_ips b) \<and>
     indexes (\<lambda>x. ban_type x = BanTypeHWID) ban_value rows (bl_hwids b) \<and>
     indexes (\<lambda>x. ban_type x = BanTypeHostname) (\<lambda>x. ToLower (ban_value x)) rows (bl_hostnames b)"

lemma load_row_snapshot: "snapshot_of rows b \<Longrightarrow> snapshot_of (rows @ [x]) (load_row x b)"
  using indexes_put [of _ "\<lambda>x. ToLower (ban_value x)" rows _ x]
  by (auto simp: snapshot_of_def load_row_def ban_types indexes_put indexes_skip)

lemma load_rows_snapshot: "snapshot_of rows (load_rows rows b)"
proof -
  have "snapshot_of (seen @ rows) (fold load_row rows b)" if "snapshot_of seen b" for seen b
    using that
  proof (induction rows arbitrary: seen b)
    case (Cons x rows)
    from Cons.IH [OF load_row_snapshot [OF Cons.prems]] show ?case by simp
  qed simp
  from this [of "[]"] show ?thesis by (simp add: load_rows_def snapshot_of_def indexes_def)
qed

lemma snapshot_maps:
  assumes "snapshot_of rows b"
  shows "indexes (\<lambda>x. ban_type x = BanTypeIP) ban_value rows (bl_ips b)"
    and "indexes (\<lambda>x. ban_type x = BanTypeHWID) ban_value rows (bl_hwids b)"
    and "indexes (\<lambda>x. ban_type x = BanTypeHostname) (\<lambda>x. ToLower (ban_value x)) rows (bl_hostnames b)"
  using assms by (simp_all add: snapshot_of_def)

lemma match_snapshot:
  assumes "snapshot_of rows b"
  shows "case ban_match b ip hwid host of
      None \<Rightarrow> (\<forall>x \<in> set rows. \<not> ban_matches ip hwid host x)
    | Some x \<Rightarrow> x \<in> set rows \<and> ban_matches ip hwid host x"
proof (cases "ban_match b ip hwid host")
  case None
  then have n: "ip \<noteq> [] \<Longrightarrow> bl_ips b ip = None" "hwid \<noteq> [] \<Longrightarrow> bl_hwids b hwid = None"
    "host \<noteq> [] \<Longrightarrow> bl_hostnames b (ToLower host) = None" by (auto simp: ban_match_def split: if_splits)
  have "\<not> ban_matches ip hwid host x" if "x \<in> set rows" for x
    using n that indexes_None [OF snapshot_maps(1) [OF assms], of ip] indexes_None [OF snapshot_maps(2) [OF assms], of hwid]
      indexes_None [OF snapshot_maps(3) [OF assms], of "ToLower host"] by (auto simp: ban_matches_def)
  with None show ?thesis by simp
next
  case (Some x)
  then consider "ip \<noteq> []" "bl_ips b ip = Some x" | "hwid \<noteq> []" "bl_hwids b hwid = Some x"
    | "host \<noteq> []" "bl_hostnames b (ToLower host) = Some x" by (auto simp: ban_match_def split: if_splits)
  then have "x \<in> set rows \<and> ban_matches ip hwid host x"
  proof cases
    case 1
    with indexes_Some [OF snapshot_maps(1) [OF assms]] show ?thesis by (simp add: ban_matches_def)
  next
    case 2
    with indexes_Some [OF snapshot_maps(2) [OF assms]] show ?thesis by (simp add: ban_matches_def)
  next
    case 3
    with indexes_Some [OF snapshot_maps(3) [OF assms]] show ?thesis by (simp add: ban_matches_def)
  qed
  with Some show ?thesis by simp
qed

interpretation banlist: ban_snapshot Reload ban_match
  using match_snapshot [OF load_rows_snapshot] by unfold_locales (simp_all add: Reload_def)

section \<open>Properties\<close>

definition admin_request :: "ban_list \<Rightarrow> request \<Rightarrow> bool" where
  "admin_request b r \<longleftrightarrow> bl_adminKey b \<noteq> [] \<and> r_Header r ''X-Admin-Key'' = bl_adminKey b"

definition listed :: "bans \<Rightarrow> request \<Rightarrow> ban \<Rightarrow> bool" where
  "listed rows r x \<longleftrightarrow> x \<in> set rows \<and> ban_matches (clientIP r) (r_Header r ''X-EMLy-HWID'') (r_Header r ''X-EMLy-Hostname'') x"

lemma load_rows_adminKey: "bl_adminKey (load_rows rows b) = bl_adminKey b"
proof -
  have "bl_adminKey (fold load_row rows b) = bl_adminKey b" for b
    by (induction rows arbitrary: b) (simp_all add: load_row_def)
  then show ?thesis by (simp add: load_rows_def)
qed

lemma Handler_scan:
  assumes "\<forall>ip hwid host. case ban_match b ip hwid host of
      None \<Rightarrow> (\<forall>x \<in> set rows. \<not> ban_matches ip hwid host x) | Some x \<Rightarrow> x \<in> set rows \<and> ban_matches ip hwid host x"
  shows "case ban_Handler b r of Allowed \<Rightarrow> admin_request b r \<or> (\<forall>x. \<not> listed rows r x)
    | Forbidden x \<Rightarrow> \<not> admin_request b r \<and> listed rows r x"
  using assms [rule_format, of "clientIP r" "r_Header r ''X-EMLy-HWID''" "r_Header r ''X-EMLy-Hostname''"]
  by (auto simp: ban_Handler_def admin_request_def listed_def split: option.splits)

lemma Run_append: "ban_Run (xs @ ys) b = ban_Run ys (ban_Run xs b)"
  by (induction xs b rule: ban_Run.induct) simp_all

lemma Run_failures: "list_all fst ticks \<Longrightarrow> ban_Run ticks b = b"
  by (induction ticks b rule: ban_Run.induct) (simp_all add: Reload_def)

lemma Run_adminKey: "bl_adminKey (ban_Run ticks b) = bl_adminKey b"
  by (induction ticks b rule: ban_Run.induct) (simp_all add: Reload_def load_rows_adminKey)

text \<open>C16: the three maps answer as a scan of the table would. After any refreshes, the last successful one
  of which read \<open>rows\<close>, a request is refused exactly when it does not carry the admin key and some row
  names its address, hardware id or host name (case folded), and the ban given is such a row; refreshes
  that fail change nothing.\<close>

theorem snapshot_answers_like_a_scan:
  assumes "list_all fst failures"
  shows "case ban_Handler (ban_Run (ticks @ (False, rows) # failures) b) r of
      Allowed \<Rightarrow> admin_request b r \<or> (\<forall>x. \<not> listed rows r x)
    | Forbidden x \<Rightarrow> \<not> admin_request b r \<and> listed rows r x"
proof -
  let ?b = "load_rows rows (ban_Run ticks b)"
  have run: "ban_Run (ticks @ (False, rows) # failures) b = ?b"
    by (simp add: Run_append Run_failures [OF assms] Reload_def)
  have adm: "admin_request ?b r = admin_request b r" by (simp add: admin_request_def load_rows_adminKey Run_adminKey)
  have "case ban_Handler ?b r of Allowed \<Rightarrow> admin_request ?b r \<or> (\<forall>x. \<not> listed rows r x)
    | Forbidden x \<Rightarrow> \<not> admin_request ?b r \<and> listed rows r x"
    using match_snapshot [OF load_rows_snapshot] by (intro Handler_scan) blast
  then show ?thesis unfolding run adm .
qed

definition sample_ban :: ban where
  "sample_ban = \<lparr>ban_id = 1, ban_type = ''hostname'', ban_value = ''pc-1'', ban_reason = None, ban_created_by = None, ban_created_at = 0\<rparr>"

definition banned_request :: request where
  "banned_request = \<lparr>r_Header = (\<lambda>h. if h = ''X-EMLy-Hostname'' then ''PC-1'' else []), r_RemoteAddr = ''10.0.0.1:80''\<rparr>"

theorem snapshot_answers_like_a_scan_witness:
  "ban_Handler (ban_Run ([] @ (False, [sample_ban]) # [(True, [])]) (NewBanList True [] ''k'')) banned_request = Forbidden sample_ban"
proof -
  have "list_all fst [(True, [] :: bans)]" by simp
  note t = snapshot_answers_like_a_scan [OF this, where ticks = "[]" and rows = "[sample_ban]"
      and b = "NewBanList True [] ''k''" and r = banned_request]
  have "\<not> admin_request (NewBanList True [] ''k'') banned_request" "listed [sample_ban] banned_request sample_ban" by code_simp+
  with t show ?thesis by (auto simp: listed_def split: ban_reply.splits)
qed

lemma insert_ban_row:
  "insert_ban ck row rows = (rows', i, inserted) \<Longrightarrow>
     \<exists>x \<in> set rows'. ban_type x = ban_type row \<and> ck (ban_value x) = ck (ban_value row) \<and> (inserted \<longrightarrow> ban_value x = ban_value row)"
  by (auto simp: insert_ban_def split: option.splits dest!: find_SomeD)

lemma Create_stored:
  assumes "CreateBan ck f now newID a reloader rows s r (Some req) = ((rows', s'), resp)" "\<forall>c e. resp \<noteq> Error c e"
  shows "\<exists>v row i inserted. normalizeBanValue (br_BanType req) (br_Value req) = Inr v \<and> ban_type row = br_BanType req \<and>
    ban_value row = v \<and> insert_ban ck row rows = (rows', i, inserted) \<and> (\<forall>ban. resp = Created ban \<longrightarrow> inserted)"
proof -
  obtain v where v: "normalizeBanValue (br_BanType req) (br_Value req) = Inr v"
    using assms by (auto simp: CreateBan_def split: if_splits sum.splits)
  let ?row = "\<lparr>ban_id = newID, ban_type = br_BanType req, ban_value = v, ban_reason = NullString (TrimSpace (br_Reason req)),
     ban_created_by = Username ck (f 0) now a r, ban_created_at = now\<rparr>"
  obtain rows1 i inserted where i: "insert_ban ck ?row rows = (rows1, i, inserted)" by (rule prod_cases3)
  have "rows' = rows1 \<and> (\<forall>ban. resp = Created ban \<longrightarrow> inserted)"
    using assms by (auto simp: CreateBan_def v i Let_def split: if_splits option.splits)
  with v i show ?thesis by (intro exI [of _ v] exI [of _ ?row]) auto
qed

text \<open>A ban answered 201 or 200 takes effect on the next request: the list then holds a row for the normalised value
  (up to the table's collation when the row existed), and every request the rows name is refused; after a
  removal answered 200 the removed row is gone and only requests the remaining rows name are refused.
  Both hold when the refresh after the write succeeds.\<close>

theorem ban_routes_take_effect:
  assumes "\<not> f 3"
  shows "(\<forall>ck now newID a rows b r req rows' b' resp ban.
      CreateBan ck f now newID a (Some Reload) rows b r (Some req) = ((rows', b'), resp) \<and> resp \<in> {Created ban, OK ban} \<longrightarrow>
      (\<exists>v x. normalizeBanValue (br_BanType req) (br_Value req) = Inr v \<and> x \<in> set rows' \<and>
         ban_type x = br_BanType req \<and> ck (ban_value x) = ck v \<and> (resp = Created ban \<longrightarrow> ban_value x = v)) \<and>
      (\<forall>q. \<not> admin_request b' q \<and> (\<exists>x. listed rows' q x) \<longrightarrow> (\<exists>x. ban_Handler b' q = Forbidden x))) \<and>
    (\<forall>g rows b param rows' b' i. \<not> g 2 \<and> DeleteBan g (Some Reload) rows b param = ((rows', b'), OK ()) \<and> Atoi param = Some i \<longrightarrow>
      set rows' = {x \<in> set rows. ban_id x \<noteq> i} \<and>
      (\<forall>q. (\<forall>x. \<not> listed rows' q x) \<longrightarrow> ban_Handler b' q = Allowed))"
proof (intro conjI allI impI)
  fix ck now newID a rows b r req rows' b' resp ban
  assume h: "CreateBan ck f now newID a (Some Reload) rows b r (Some req) = ((rows', b'), resp) \<and> resp \<in> {Created ban, OK ban}"
  then have ne: "\<forall>c e. resp \<noteq> Error c e" by auto
  from Create_stored [OF conjunct1 [OF h] ne] obtain v row i inserted where
    v: "normalizeBanValue (br_BanType req) (br_Value req) = Inr v" "ban_type row = br_BanType req" "ban_value row = v"
    and ins: "insert_ban ck row rows = (rows', i, inserted)" "resp = Created ban \<longrightarrow> inserted" by blast
  from insert_ban_row [OF ins(1)] v ins(2)
  show "\<exists>v x. normalizeBanValue (br_BanType req) (br_Value req) = Inr v \<and> x \<in> set rows' \<and>
       ban_type x = br_BanType req \<and> ck (ban_value x) = ck v \<and> (resp = Created ban \<longrightarrow> ban_value x = v)" by auto
  fix q assume q: "\<not> admin_request b' q \<and> (\<exists>x. listed rows' q x)"
  have "banlist.enforces rows' b'" by (rule banlist.Create_enforced [OF conjunct1 [OF h] ne assms])
  with q show "\<exists>x. ban_Handler b' q = Forbidden x"
    by (auto simp: banlist.enforces_def ban_Handler_def admin_request_def listed_def split: option.splits)
next
  fix g rows b param rows' b' i
  assume h: "\<not> g 2 \<and> DeleteBan g (Some Reload) rows b param = ((rows', b'), OK ()) \<and> Atoi param = Some i"
  then show "set rows' = {x \<in> set rows. ban_id x \<noteq> i}" by (auto simp: DeleteBan_def Let_def split: if_splits)
  fix q assume q: "\<forall>x. \<not> listed rows' q x"
  have "banlist.enforces rows' b'" using h by (intro banlist.Delete_enforced) auto
  then have "ban_match b' (clientIP q) (r_Header q ''X-EMLy-HWID'') (r_Header q ''X-EMLy-Hostname'') = None"
    using q unfolding banlist.enforces_def listed_def by blast
  then show "ban_Handler b' q = Allowed" by (simp add: ban_Handler_def)
qed

theorem ban_routes_take_effect_witness:
  "\<exists>x. ban_Handler (snd (fst (CreateBan ToLower no_faults 5 7 \<lparr>a_users = [], a_sessions = []\<rparr> (Some Reload) [] (NewBanList False [] ''k'') banned_request
      (Some \<lparr>br_BanType = ''hostname'', br_Value = '' Pc-1 '', br_Reason = []\<rparr>)))) banned_request = Forbidden x"
proof -
  let ?c = "CreateBan ToLower no_faults 5 7 \<lparr>a_users = [], a_sessions = []\<rparr> (Some Reload) [] (NewBanList False [] ''k'') banned_request
      (Some \<lparr>br_BanType = ''hostname'', br_Value = '' Pc-1 '', br_Reason = []\<rparr>)"
  have "case snd ?c of Created _ \<Rightarrow> True | _ \<Rightarrow> False" by code_simp
  then obtain ban where ban: "snd ?c = Created ban" by (auto split: response.splits)
  have c: "?c = ((fst (fst ?c), snd (fst ?c)), snd ?c)" by simp
  have na: "\<not> admin_request (snd (fst ?c)) banned_request" by code_simp
  have "list_ex (listed (fst (fst ?c)) banned_request) (fst (fst ?c))" by code_simp
  then obtain x where x: "listed (fst (fst ?c)) banned_request x" by (auto simp: list_ex_iff)
  have nf: "\<not> no_faults 3" by simp
  note t = ban_routes_take_effect [where f = no_faults, OF nf, THEN conjunct1, rule_format, OF conjI, OF c, of ban, THEN conjunct2, rule_format]
  show ?thesis by (rule t) (use ban na x in auto)
qed

section \<open>Forms of an address\<close>

text \<open>
  An address ban is stored in the printed form of the address, but a request is matched on the text
  of its header: the same address written otherwise is not stopped. And the address the list sees need
  not be the one the rate limiter sees, despite the comment on \<open>clientIP\<close>.
\<close>

lemma address_form_escapes_ban:
  "normalizeBanValue ''ip'' ''::ffff:10.0.0.1'' = Inr ''10.0.0.1'' \<and>
   normalizeBanValue ''ip'' ''2001:DB8:0:0:0:0:0:1'' = Inr ''2001:db8::1'' \<and>
   ban_Handler (NewBanList False [sample_ban\<lparr>ban_type := ''ip'', ban_value := ''10.0.0.1''\<rparr>] ''k'')
     \<lparr>r_Header = (\<lambda>h. if h = ''X-Real-IP'' then ''::ffff:10.0.0.1'' else []), r_RemoteAddr = []\<rparr> = Allowed"
  by code_simp

end
