(* ===== verification/Go_Encoding.thy ===== *)
theory Go_Encoding
  imports Go_Std DB_Value
begin

text \<open>
  The parts of \<open>encoding/hex\<close>, \<open>encoding/base64\<close> and \<open>fmt\<close> the admin handlers use: hexadecimal of a
  byte slice, the raw standard base64 alphabet, and scanning of three decimal numbers.
\<close>

section \<open>Hexadecimal\<close>

definition hex_digit :: "int \<Rightarrow> char" where
  "hex_digit n = (if n < 10 then char_of (48 + n) else char_of (87 + n))"

definition hex_EncodeToString :: "string \<Rightarrow> string" where
  "hex_EncodeToString bs = concat (map (\<lambda>c. let n = of_char c in [hex_digit (n div 16), hex_digit (n mod 16)]) bs)"

lemma length_hex [simp]: "length (hex_EncodeToString bs) = 2 * length bs"
  by (induction bs) (auto simp: hex_EncodeToString_def Let_def)

section \<open>Base64\<close>

definition b64_char :: "int \<Rightarrow> char" where
  "b64_char n =
     (if n < 26 then char_of (65 + n) else if n < 52 then char_of (71 + n) else if n < 62 then char_of (n - 4)
      else if n = 62 then CHR ''+'' else CHR ''/'')"

definition b64_val :: "char \<Rightarrow> int option" where
  "b64_val c =
     (let n = (of_char c :: int)
      in if 65 \<le> n \<and> n \<le> 90 then Some (n - 65)
         else if 97 \<le> n \<and> n \<le> 122 then Some (n - 71)
         else if 48 \<le> n \<and> n \<le> 57 then Some (n + 4)
         else if n = 43 then Some 62
         else if n = 47 then Some 63
         else None)"

fun b64_encode :: "string \<Rightarrow> string" where
  "b64_encode [] = []"
| "b64_encode [a] = (let a = of_char a in [b64_char (a div 4), b64_char (a mod 4 * 16)])"
| "b64_encode [a, b] = (let a = of_char a; b = of_char b
     in [b64_char (a div 4), b64_char (a mod 4 * 16 + b div 16), b64_char (b mod 16 * 4)])"
| "b64_encode (a # b # c # rest) = (let a = of_char a; b = of_char b; c = of_char c
     in [b64_char (a div 4), b64_char (a mod 4 * 16 + b div 16), b64_char (b mod 16 * 4 + c div 64), b64_char (c mod 64)]
        @ b64_encode rest)"

fun b64_groups :: "int list \<Rightarrow> string option" where
  "b64_groups [] = Some []"
| "b64_groups [w] = None"
| "b64_groups [w, x] = Some [char_of (w * 4 + x div 16)]"
| "b64_groups [w, x, y] = Some [char_of (w * 4 + x div 16), char_of (x mod 16 * 16 + y div 4)]"
| "b64_groups (w # x # y # z # rest) =
     map_option (\<lambda>bs. char_of (w * 4 + x div 16) # char_of (x mod 16 * 16 + y div 4) # char_of (y mod 4 * 64 + z) # bs) (b64_groups rest)"

text \<open>The decoder skips line breaks and, not being strict, ignores left-over bits.\<close>

definition b64_decode :: "string \<Rightarrow> string option" where
  "b64_decode s = Option.bind (those (map b64_val (filter (\<lambda>c. c \<noteq> CHR 10 \<and> c \<noteq> CHR 13) s))) b64_groups"

lemma b64_val_char:
  assumes "0 \<le> n" "n < 64"
  shows "b64_val (b64_char n) = Some n" "b64_char n \<noteq> CHR 10" "b64_char n \<noteq> CHR 13" "b64_char n \<noteq> CHR ''$''"
proof -
  have "n \<in> set (map int [0..<64])" using assms by (auto simp: image_iff intro!: bexI [of _ "nat n"])
  moreover have "\<forall>n \<in> set (map int [0..<64]). b64_val (b64_char n) = Some n \<and> b64_char n \<noteq> CHR 10 \<and> b64_char n \<noteq> CHR 13 \<and>
      b64_char n \<noteq> CHR ''$''" by code_simp
  ultimately show "b64_val (b64_char n) = Some n" "b64_char n \<noteq> CHR 10" "b64_char n \<noteq> CHR 13" "b64_char n \<noteq> CHR ''$''"
    by blast+
qed

fun b64_ints :: "string \<Rightarrow> int list" where
  "b64_ints [] = []"
| "b64_ints [a] = (let a = of_char a in [a div 4, a mod 4 * 16])"
| "b64_ints [a, b] = (let a = of_char a; b = of_char b in [a div 4, a mod 4 * 16 + b div 16, b mod 16 * 4])"
| "b64_ints (a # b # c # rest) = (let a = of_char a; b = of_char b; c = of_char c
     in [a div 4, a mod 4 * 16 + b div 16, b mod 16 * 4 + c div 64, c mod 64] @ b64_ints rest)"

lemma b64_encode_ints: "b64_encode s = map b64_char (b64_ints s)"
  by (induction s rule: b64_ints.induct) (simp_all add: Let_def)

lemma digit_split: "0 \<le> y \<Longrightarrow> y < k \<Longrightarrow> (x * k + y) div k = x \<and> (x * k + y) mod k = (y :: int)"
  by simp

lemma div_range:
  assumes "0 \<le> (x :: int)" "x < m * k" "0 < k"
  shows "0 \<le> x div k \<and> x div k < m"
proof -
  have "x div k * k \<le> x" using div_mult_mod_eq [of x k] pos_mod_sign [OF assms(3), of x] by linarith
  with assms(2) have "x div k * k < m * k" by linarith
  with assms(3) have "x div k < m" by (simp add: mult_less_cancel_right)
  with assms show ?thesis by (simp add: pos_imp_zdiv_nonneg_iff)
qed

lemma byte_parts:
  fixes a b c :: int
  assumes "0 \<le> a" "a < 256" "0 \<le> b" "b < 256" "0 \<le> c" "c < 256"
  shows "a div 4 * 4 + (a mod 4 * 16 + b div 16) div 16 = a"
    "(a mod 4 * 16 + b div 16) mod 16 * 16 + (b mod 16 * 4 + c div 64) div 4 = b"
    "(b mod 16 * 4 + c div 64) mod 4 * 64 + c mod 64 = c"
    "(a mod 4 * 16 + b div 16) mod 16 * 16 + b mod 16 * 4 div 4 = b"
    "0 \<le> a div 4" "a div 4 < 64"
    "0 \<le> a mod 4 * 16 + b div 16" "a mod 4 * 16 + b div 16 < 64"
    "0 \<le> b mod 16 * 4 + c div 64" "b mod 16 * 4 + c div 64 < 64"
proof -
  have b: "0 \<le> b div 16 \<and> b div 16 < 16" and c: "0 \<le> c div 64 \<and> c div 64 < 4" and a: "0 \<le> a div 4 \<and> a div 4 < 64"
    using assms by (intro div_range; simp)+
  have m: "0 \<le> a mod 4" "a mod 4 < 4" "0 \<le> b mod 16" "b mod 16 < 16" by simp_all
  show "a div 4 * 4 + (a mod 4 * 16 + b div 16) div 16 = a" using b digit_split [of "b div 16" 16 "a mod 4"] by simp
  show "(a mod 4 * 16 + b div 16) mod 16 * 16 + (b mod 16 * 4 + c div 64) div 4 = b"
    using b c digit_split [of "b div 16" 16 "a mod 4"] digit_split [of "c div 64" 4 "b mod 16"] by simp
  show "(b mod 16 * 4 + c div 64) mod 4 * 64 + c mod 64 = c" using c digit_split [of "c div 64" 4 "b mod 16"] by simp
  show "(a mod 4 * 16 + b div 16) mod 16 * 16 + b mod 16 * 4 div 4 = b"
    using b digit_split [of "b div 16" 16 "a mod 4"] by simp
  show "0 \<le> a div 4" "a div 4 < 64" using a by simp_all
  show "0 \<le> a mod 4 * 16 + b div 16" "a mod 4 * 16 + b div 16 < 64" using b m by linarith+
  show "0 \<le> b mod 16 * 4 + c div 64" "b mod 16 * 4 + c div 64 < 64" using c m by linarith+
qed

lemmas char_parts = byte_parts [OF of_char_int_bounds of_char_int_bounds of_char_int_bounds]

lemma char_first:
  "0 \<le> (of_char a :: int) div 4" "(of_char a :: int) div 4 < 64" "(of_char a :: int) mod 4 * 16 < 64"
  "(of_char a :: int) mod 16 * 4 < 64" "(of_char a :: int) mod 64 < 64"
proof -
  show "0 \<le> (of_char a :: int) div 4" "(of_char a :: int) div 4 < 64"
    using div_range [of "of_char a" 64 4] of_char_int_bounds [of a] by simp_all
  have "(of_char a :: int) mod 4 < 4" "(of_char a :: int) mod 16 < 16" by simp_all
  then show "(of_char a :: int) mod 4 * 16 < 64" "(of_char a :: int) mod 16 * 4 < 64" by linarith+
qed simp

lemma b64_ints_range: "list_all (\<lambda>n. 0 \<le> n \<and> n < 64) (b64_ints s)"
  by (induction s rule: b64_ints.induct) (simp_all add: Let_def char_parts char_first)

lemma char_small:
  "(of_char a :: int) div 16 div 16 = 0" "(of_char a :: int) div 16 mod 16 = of_char a div 16"
  "(of_char a :: int) div 64 div 4 = 0" "(of_char a :: int) div 64 mod 4 = of_char a div 64"
  using div_range [of "of_char a" 16 16] div_range [of "of_char a" 4 64] of_char_int_bounds [of a] by simp_all

lemma b64_groups_ints: "b64_groups (b64_ints s) = Some s"
  by (induction s rule: b64_ints.induct) (simp_all add: Let_def char_small)

lemma b64_roundtrip: "b64_decode (b64_encode s) = Some s"
proof -
  have "filter (\<lambda>c. c \<noteq> CHR 10 \<and> c \<noteq> CHR 13) (map b64_char ns) = map b64_char ns \<and> those (map b64_val (map b64_char ns)) = Some ns"
    if "list_all (\<lambda>n. 0 \<le> n \<and> n < 64) ns" for ns
    using that by (induction ns) (simp_all add: b64_val_char)
  from this [OF b64_ints_range [of s]] show ?thesis
    by (simp add: b64_decode_def b64_encode_ints b64_groups_ints)
qed

lemma b64_no_dollar: "CHR ''$'' \<notin> set (b64_encode s)"
  using b64_ints_range [of s] b64_val_char(4) by (force simp: b64_encode_ints list_all_iff)

section \<open>Scanning\<close>

text \<open>
  \<open>fmt.Sscanf\<close> for an unsigned decimal of a bounded type: leading white space other than a line
  break is skipped, at least one digit must follow, and the value must fit.
\<close>

definition scan_uint :: "int \<Rightarrow> string \<Rightarrow> (int \<times> string) option" where
  "scan_uint bound s =
     (let s = dropWhile (\<lambda>c. is_space c \<and> c \<noteq> CHR 10) s; ds = takeWhile is_digit s
      in if ds = [] \<or> bound \<le> digits_val ds then None else Some (digits_val ds, dropWhile is_digit s))"

definition scan_lit :: "string \<Rightarrow> string \<Rightarrow> string option" where
  "scan_lit p s = (if HasPrefix s p then Some (drop (length p) s) else None)"

text \<open>\<open>Sscanf(s, "m=%d,t=%d,p=%d", ...)\<close> into a \<open>uint32\<close>, a \<open>uint32\<close> and a \<open>uint8\<close>; what follows is ignored.\<close>

definition scan_params :: "string \<Rightarrow> (int \<times> int \<times> int) option" where
  "scan_params s = do {
     s \<leftarrow> scan_lit ''m='' s; (m, s) \<leftarrow> scan_uint (2 ^ 32) s;
     s \<leftarrow> scan_lit '',t='' s; (t, s) \<leftarrow> scan_uint (2 ^ 32) s;
     s \<leftarrow> scan_lit '',p='' s; (p, s) \<leftarrow> scan_uint (2 ^ 8) s;
     Some (m, t, p) }"

end
