(* ===== verification/Admin_Password.thy ===== *)
theory Admin_Password
  imports Go_Encoding
begin

unbundle bit_operations_syntax

text \<open>
  The password, identifier and session-token functions of \<open>internal/admin/auth.route.go\<close>.

  \<open>argon2.IDKey\<close> (password, salt, time, memory, threads, key length) is a parameter; None is its
  panic on a zero time or thread count. \<open>rand.Read\<close> is a parameter too: a buffer's length to an
  error or the bytes that fill it.
\<close>

type_synonym argon2 = "string \<Rightarrow> string \<Rightarrow> int \<Rightarrow> int \<Rightarrow> int \<Rightarrow> int \<Rightarrow> string option"
type_synonym reader = "nat \<Rightarrow> string + string"

datatype 'a outcome = Returned 'a | Failed string | Panics

definition argonMemory :: int where "argonMemory = 19456"
definition argonTime :: int where "argonTime = 2"
definition argonKeyLen :: int where "argonKeyLen = 32"
definition argonParallelism :: int where "argonParallelism = 1"
definition argonSaltLen :: nat where "argonSaltLen = 16"
definition sessionExpiryDays :: int where "sessionExpiryDays = 30"

definition phc_params :: string where
  "phc_params = ''m='' @ Itoa argonMemory @ '',t='' @ Itoa argonTime @ '',p='' @ Itoa argonParallelism"

definition hashPassword :: "argon2 \<Rightarrow> reader \<Rightarrow> string \<Rightarrow> string outcome" where
  "hashPassword IDKey Read password =
     (case Read argonSaltLen of
        Inl err \<Rightarrow> Failed err
      | Inr salt \<Rightarrow>
          (case IDKey password salt argonTime argonMemory argonParallelism argonKeyLen of
             None \<Rightarrow> Panics
           | Some hash \<Rightarrow>
               Returned (''$argon2id$v=19$'' @ phc_params @ ''$'' @ b64_encode salt @ ''$'' @ b64_encode hash)))"

definition verifyPassword :: "argon2 \<Rightarrow> string \<Rightarrow> string \<Rightarrow> bool outcome" where
  "verifyPassword IDKey phc password =
     (let parts = Split (CHR ''$'') phc
      in if length parts \<noteq> 6 \<or> parts ! 1 \<noteq> ''argon2id'' then Failed ''invalid hash format''
         else case scan_params (parts ! 3) of
           None \<Rightarrow> Failed ''invalid params''
         | Some (memory, timeCost, parallelism) \<Rightarrow>
             (case b64_decode (parts ! 4) of
                None \<Rightarrow> Failed ''invalid salt''
              | Some salt \<Rightarrow>
                  (case b64_decode (parts ! 5) of
                     None \<Rightarrow> Failed ''invalid hash''
                   | Some hashBytes \<Rightarrow>
                       (case IDKey password salt timeCost memory parallelism (int (length hashBytes) mod 2 ^ 32) of
                          None \<Rightarrow> Panics
                        | Some computed \<Rightarrow> Returned (computed = hashBytes)))))"

definition generateUUID :: "reader \<Rightarrow> string + string" where
  "generateUUID Read =
     (case Read 16 of
        Inl err \<Rightarrow> Inl err
      | Inr b0 \<Rightarrow>
          let b = b0[6 := char_of ((of_char (b0 ! 6) AND 15) OR 64 :: int), 8 := char_of ((of_char (b0 ! 8) AND 63) OR 128 :: int)];
              hex = (\<lambda>i j. hex_EncodeToString (take (j - i) (drop i b)))
          in Inr (hex 0 4 @ ''-'' @ hex 4 6 @ ''-'' @ hex 6 8 @ ''-'' @ hex 8 10 @ ''-'' @ hex 10 16))"

definition generateSessionID :: "reader \<Rightarrow> string + string" where
  "generateSessionID Read = map_sum id hex_EncodeToString (Read 32)"

section \<open>A stored hash\<close>

lemma Split_append: "c \<notin> set s \<Longrightarrow> Split c (s @ c # t) = s # Split c t"
  by (induction s) auto

lemma Split_head: "Split c (c # t) = [] # Split c t"
  by simp

lemma phc_params_eq: "phc_params = ''m=19456,t=2,p=1''"
  by (simp add: phc_params_def argonMemory_def argonTime_def argonParallelism_def Itoa_def nat_digits.simps digit_char_def char_of_def)

lemma scan_phc_params: "scan_params phc_params = Some (argonMemory, argonTime, argonParallelism)"
  unfolding phc_params_eq argonMemory_def argonTime_def argonParallelism_def by code_simp

lemma phc_no_dollar: "CHR ''$'' \<notin> set phc_params" "CHR ''$'' \<notin> set ''argon2id''" "CHR ''$'' \<notin> set ''v=19''"
  unfolding phc_params_eq by simp_all

lemma Split_phc:
  "Split (CHR ''$'') (''$argon2id$v=19$'' @ phc_params @ ''$'' @ b64_encode salt @ ''$'' @ b64_encode hash)
   = [[], ''argon2id'', ''v=19'', phc_params, b64_encode salt, b64_encode hash]"
proof -
  have "''$argon2id$v=19$'' @ phc_params @ ''$'' @ b64_encode salt @ ''$'' @ b64_encode hash
    = [] @ CHR ''$'' # ''argon2id'' @ CHR ''$'' # ''v=19'' @ CHR ''$'' # phc_params @ CHR ''$'' # b64_encode salt @ CHR ''$'' # b64_encode hash"
    by simp
  then show ?thesis
    by (simp only: append_Nil Split_head Split_append [OF phc_no_dollar(1)] Split_append [OF phc_no_dollar(2)]
        Split_append [OF phc_no_dollar(3)] Split_append [OF b64_no_dollar] Split_no_sep [OF b64_no_dollar])
qed

text \<open>Checking a password against a stored hash recomputes the key from the salt that was drawn.\<close>

lemma verify_hashed:
  assumes "hashPassword IDKey Read p = Returned phc"
  obtains salt hash where "Read argonSaltLen = Inr salt"
    and "IDKey p salt argonTime argonMemory argonParallelism argonKeyLen = Some hash"
    and "length hash = nat argonKeyLen \<Longrightarrow> verifyPassword IDKey phc q =
      (case IDKey q salt argonTime argonMemory argonParallelism argonKeyLen of
         None \<Rightarrow> Panics | Some h \<Rightarrow> Returned (h = hash))"
proof -
  obtain salt hash where r: "Read argonSaltLen = Inr salt"
    and k: "IDKey p salt argonTime argonMemory argonParallelism argonKeyLen = Some hash"
    and phc: "phc = ''$argon2id$v=19$'' @ phc_params @ ''$'' @ b64_encode salt @ ''$'' @ b64_encode hash"
    using assms by (auto simp: hashPassword_def split: sum.splits option.splits)
  have "verifyPassword IDKey phc q =
      (case IDKey q salt argonTime argonMemory argonParallelism argonKeyLen of
         None \<Rightarrow> Panics | Some h \<Rightarrow> Returned (h = hash))" if "length hash = nat argonKeyLen"
  proof -
    have "int (length hash) mod 2 ^ 32 = argonKeyLen" using that by (simp add: argonKeyLen_def)
    then show ?thesis
      by (simp add: verifyPassword_def phc Split_phc [simplified] Let_def scan_phc_params b64_roundtrip)
  qed
  with r k that show ?thesis by blast
qed

text \<open>A hash made by \<open>hashPassword\<close> is accepted by \<open>verifyPassword\<close> for the same password, and for
  another password exactly when argon2 maps both to the same key under the stored salt: the string format,
  the base64 fields and the scanned parameters lose nothing.\<close>

theorem stored_hash_checks_the_password:
  assumes "hashPassword IDKey Read p = Returned phc"
    and "\<And>pw salt h. IDKey pw salt argonTime argonMemory argonParallelism argonKeyLen = Some h \<Longrightarrow> length h = nat argonKeyLen"
    and "\<And>pw salt. IDKey pw salt argonTime argonMemory argonParallelism argonKeyLen \<noteq> None"
  shows "verifyPassword IDKey phc p = Returned True \<and>
    (\<exists>salt. Read argonSaltLen = Inr salt \<and>
       (verifyPassword IDKey phc q = Returned True \<longleftrightarrow>
          IDKey q salt argonTime argonMemory argonParallelism argonKeyLen
            = IDKey p salt argonTime argonMemory argonParallelism argonKeyLen) \<and>
       (verifyPassword IDKey phc q = Returned True \<or> verifyPassword IDKey phc q = Returned False))"
proof -
  obtain salt hash where s: "Read argonSaltLen = Inr salt"
    "IDKey p salt argonTime argonMemory argonParallelism argonKeyLen = Some hash"
    using assms(1) by (rule verify_hashed [where q = p])
  have v: "verifyPassword IDKey phc q = (case IDKey q salt argonTime argonMemory argonParallelism argonKeyLen of
      None \<Rightarrow> Panics | Some h \<Rightarrow> Returned (h = hash))" for q
    using verify_hashed [OF assms(1), of q] s assms(2) by (metis Inr_inject option.inject)
  from assms(3) obtain h where "IDKey q salt argonTime argonMemory argonParallelism argonKeyLen = Some h" by blast
  with v [of p] v [of q] s show ?thesis by auto
qed

text \<open>A sample key function: it mixes the password into the salt and pads to the length asked for.\<close>

definition sample_IDKey :: argon2 where
  "sample_IDKey pw salt t m p n = Some (take (nat n) (pw @ salt @ replicate (nat n) (CHR ''x'')))"

definition sample_Read :: reader where
  "sample_Read n = Inr (map (\<lambda>i. char_of (7 * i + 200)) [0..<n])"

lemma sample_IDKey_length: "sample_IDKey pw salt t m p n = Some h \<Longrightarrow> length h = nat n"
  by (auto simp: sample_IDKey_def)

lemma sample_hash: "\<exists>phc. hashPassword sample_IDKey sample_Read ''secret'' = Returned phc"
  by (simp add: hashPassword_def sample_Read_def sample_IDKey_def)

lemma sample_keys_differ: "sample_IDKey ''Secret'' salt t m p argonKeyLen \<noteq> sample_IDKey ''secret'' salt t m p argonKeyLen"
  by (simp add: sample_IDKey_def argonKeyLen_def)

theorem stored_hash_checks_the_password_witness:
  "\<exists>phc. hashPassword sample_IDKey sample_Read ''secret'' = Returned phc \<and>
     verifyPassword sample_IDKey phc ''secret'' = Returned True \<and>
     verifyPassword sample_IDKey phc ''Secret'' = Returned False"
proof -
  obtain phc where phc: "hashPassword sample_IDKey sample_Read ''secret'' = Returned phc"
    using sample_hash by blast
  have "sample_IDKey pw salt argonTime argonMemory argonParallelism argonKeyLen \<noteq> None" for pw salt
    by (simp add: sample_IDKey_def)
  from stored_hash_checks_the_password [OF phc _ this, where q = "''Secret''"] sample_keys_differ phc sample_IDKey_length
  show ?thesis by metis
qed

section \<open>Identifiers\<close>

lemma hex_append: "hex_EncodeToString (xs @ ys) = hex_EncodeToString xs @ hex_EncodeToString ys"
  by (simp add: hex_EncodeToString_def)

lemma hex_two: "hex_EncodeToString (a # s) = hex_digit (of_char a div 16) # hex_digit (of_char a mod 16) # hex_EncodeToString s"
  by (simp add: hex_EncodeToString_def Let_def)

lemma hex_Nil: "hex_EncodeToString [] = []"
  by (simp add: hex_EncodeToString_def)

lemma session_id_length:
  assumes "generateSessionID Read = Inr sid" "\<And>n b. Read n = Inr b \<Longrightarrow> length b = n"
  shows "length sid = 64"
  using assms(1) assms(2) [of 32] by (cases "Read 32") (auto simp: generateSessionID_def)

lemma UUID_bytes:
  "hex_digit ((of_char (char_of ((of_char x AND 15) OR 64 :: int)) :: int) div 16) = CHR ''4''"
  "hex_digit ((of_char (char_of ((of_char x AND 63) OR 128 :: int)) :: int) div 16) \<in> set ''89ab''"
proof -
  let ?x = "of_char x :: int"
  have "?x AND 15 < 16" "?x AND 63 < 64" using AND_upper2 [of 15 ?x] AND_upper2 [of 63 ?x] by simp_all
  moreover have "0 \<le> ?x AND 15" "0 \<le> ?x AND 63" by simp_all
  moreover have or: "(?x AND 15) OR 64 = (?x AND 15) + 64" "(?x AND 63) OR 128 = (?x AND 63) + 128"
    using plus_and_or [of "?x AND 15" 64] plus_and_or [of "?x AND 63" 128] by (simp_all add: and.assoc)
  moreover have "(y + 64) div 16 = 4" if "0 \<le> y" "y < 16" for y :: int using that by arith
  ultimately have small: "((?x AND 15) + 64) mod 256 = (?x AND 15) + 64" "((?x AND 63) + 128) mod 256 = (?x AND 63) + 128"
    "((?x AND 15) + 64) div 16 = 4" "((?x AND 63) + 128) div 16 = 8 + (?x AND 63) div 16" by auto
  have "(?x AND 63) div 16 = 0 \<or> (?x AND 63) div 16 = 1 \<or> (?x AND 63) div 16 = 2 \<or> (?x AND 63) div 16 = 3"
    using \<open>?x AND 63 < 64\<close> \<open>0 \<le> ?x AND 63\<close> by arith
  then show "hex_digit ((of_char (char_of ((?x AND 63) OR 128)) :: int) div 16) \<in> set ''89ab''"
    unfolding or of_char_of small by (elim disjE) (simp_all add: hex_digit_def char_of_def)
  show "hex_digit ((of_char (char_of ((?x AND 15) OR 64)) :: int) div 16) = CHR ''4''"
    unfolding or of_char_of small by (simp add: hex_digit_def char_of_def)
qed

text \<open>An identifier is a UUID of version 4: five groups of hexadecimal digits, the version digit and the variant digit in place.\<close>

lemma generateUUID_v4:
  assumes "generateUUID Read = Inr u" and "\<And>b. Read 16 = Inr b \<Longrightarrow> length b = 16"
  shows "length u = 36 \<and> u ! 8 = CHR ''-'' \<and> u ! 13 = CHR ''-'' \<and> u ! 14 = CHR ''4'' \<and> u ! 18 = CHR ''-'' \<and>
    u ! 19 \<in> set ''89ab'' \<and> u ! 23 = CHR ''-''"
proof -
  obtain b where b: "Read 16 = Inr b" using assms(1) by (auto simp: generateUUID_def split: sum.splits)
  obtain b0 b1 b2 b3 b4 b5 b6 b7 b8 b9 b10 b11 b12 b13 b14 b15
    where l: "b = [b0, b1, b2, b3, b4, b5, b6, b7, b8, b9, b10, b11, b12, b13, b14, b15]"
    using assms(2) [OF b] by (auto simp: eval_nat_numeral length_Suc_conv)
  have "u = hex_EncodeToString [b0, b1, b2, b3] @ ''-'' @ hex_EncodeToString [b4, b5] @ ''-'' @
      hex_EncodeToString [char_of ((of_char b6 AND 15) OR 64 :: int), b7] @ ''-'' @
      hex_EncodeToString [char_of ((of_char b8 AND 63) OR 128 :: int), b9] @ ''-'' @ hex_EncodeToString [b10, b11, b12, b13, b14, b15]"
    using assms(1) b by (simp add: generateUUID_def l Let_def)
  then show ?thesis using UUID_bytes [of b6] UUID_bytes [of b8] by (simp add: hex_two hex_Nil)
qed

end
