(* ===== verification/Admin.thy ===== *)
theory Admin
  imports Admin_Password Session Json_Tree
begin

text \<open>
  \<open>internal/admin\<close>: login, session validation and logout (\<open>auth.route.go\<close>) and the administration
  of users (\<open>users.route.go\<close>), over the tables \<open>user\<close> and \<open>session\<close>. Ids and user names are compared
  in the tables' collation \<open>ck\<close>; \<open>session.user_id\<close> is a foreign key with \<open>ON DELETE CASCADE\<close>. A request
  body that is not valid JSON for its struct is None. Random bytes are read by the \<open>n\<close>-th call of a handler.
\<close>

type_synonym random = "nat \<Rightarrow> reader"

record auth_user =
  au_ID :: string
  au_Username :: string
  au_Displayname :: string
  au_Role :: string
  au_Enabled :: bool

definition auth_user_of :: "user_row \<Rightarrow> auth_user" where
  "auth_user_of u = \<lparr>au_ID = usr_id u, au_Username = usr_username u, au_Displayname = usr_displayname u,
     au_Role = usr_role u, au_Enabled = usr_enabled u\<rparr>"

section \<open>Statements\<close>

definition has_id :: "collation \<Rightarrow> string \<Rightarrow> user_row \<Rightarrow> bool" where
  "has_id ck i u \<longleftrightarrow> ck (usr_id u) = ck i"

definition has_name :: "collation \<Rightarrow> string \<Rightarrow> user_row \<Rightarrow> bool" where
  "has_name ck n u \<longleftrightarrow> ck (usr_username u) = ck n"

definition has_token :: "collation \<Rightarrow> string \<Rightarrow> session_row \<Rightarrow> bool" where
  "has_token ck t s \<longleftrightarrow> ck (ses_id s) = ck t"

definition owned_by :: "collation \<Rightarrow> user_row \<Rightarrow> session_row \<Rightarrow> bool" where
  "owned_by ck u s \<longleftrightarrow> ck (usr_id u) = ck (ses_user_id s)"

text \<open>\<open>INSERT\<close> refuses a duplicate key and a session of no user.\<close>

definition insert_session :: "collation \<Rightarrow> session_row \<Rightarrow> auth_db \<Rightarrow> auth_db option" where
  "insert_session ck s a =
     (if list_ex (has_token ck (ses_id s)) (a_sessions a) \<or> \<not> list_ex (\<lambda>u. owned_by ck u s) (a_users a) then None
      else Some (a\<lparr>a_sessions := a_sessions a @ [s]\<rparr>))"

definition delete_session :: "collation \<Rightarrow> string \<Rightarrow> auth_db \<Rightarrow> auth_db" where
  "delete_session ck t a = a\<lparr>a_sessions := filter (\<lambda>s. \<not> has_token ck t s) (a_sessions a)\<rparr>"

definition insert_user :: "collation \<Rightarrow> user_row \<Rightarrow> auth_db \<Rightarrow> auth_db option" where
  "insert_user ck u a =
     (if list_ex (\<lambda>x. has_id ck (usr_id u) x \<or> has_name ck (usr_username u) x) (a_users a) then None
      else Some (a\<lparr>a_users := a_users a @ [u]\<rparr>))"

text \<open>An update reports the number of rows it changed, which is not the number it matched.\<close>

definition update_user :: "collation \<Rightarrow> string \<Rightarrow> (user_row \<Rightarrow> user_row) \<Rightarrow> auth_db \<Rightarrow> auth_db \<times> nat" where
  "update_user ck i g a =
     (a\<lparr>a_users := map (\<lambda>u. if has_id ck i u then g u else u) (a_users a)\<rparr>,
      length (filter (\<lambda>u. has_id ck i u \<and> g u \<noteq> u) (a_users a)))"

definition delete_user :: "collation \<Rightarrow> string \<Rightarrow> auth_db \<Rightarrow> auth_db \<times> nat" where
  "delete_user ck i a =
     (let gone = filter (has_id ck i) (a_users a)
      in (a\<lparr>a_users := filter (\<lambda>u. \<not> has_id ck i u) (a_users a),
            a_sessions := filter (\<lambda>s. \<not> list_ex (\<lambda>u. owned_by ck u s) gone) (a_sessions a)\<rparr>,
          length gone))"

section \<open>auth.route.go\<close>

record login_request =
  lr_Username :: string
  lr_Password :: string

text \<open>Statements: 0 the query, 1 the insert. The log line slices the first eight bytes of the token.\<close>

definition LoginUser ::
  "collation \<Rightarrow> argon2 \<Rightarrow> faults \<Rightarrow> random \<Rightarrow> gotime \<Rightarrow> auth_db \<Rightarrow> login_request option \<Rightarrow>
     auth_db \<times> (string \<times> auth_user) response" where
  "LoginUser ck IDKey f rnd now a body =
     (case body of
        None \<Rightarrow> (a, Error 400 ''invalid JSON'')
      | Some req \<Rightarrow>
          if lr_Username req = [] \<or> lr_Password req = [] then (a, Error 400 ''username and password are required'')
          else case (if f 0 then None else find (has_name ck (lr_Username req)) (a_users a)) of
            None \<Rightarrow> (a, Error 401 ''invalid credentials'')
          | Some row \<Rightarrow>
              (case verifyPassword IDKey (usr_password_hash row) (lr_Password req) of
                 Panics \<Rightarrow> (a, Panicked)
               | Failed _ \<Rightarrow> (a, Error 401 ''invalid credentials'')
               | Returned valid \<Rightarrow>
                   if \<not> valid then (a, Error 401 ''invalid credentials'')
                   else if \<not> usr_enabled row then (a, Error 403 ''account disabled'')
                   else case generateSessionID (rnd 0) of
                     Inl err \<Rightarrow> (a, Error 500 (''failed to generate session: '' @ err))
                   | Inr sessionID \<Rightarrow>
                       let s = \<lparr>ses_id = sessionID, ses_user_id = usr_id row,
                                ses_expires_at = to_timestamp (now + sessionExpiryDays * 24 * hour)\<rparr>
                       in case (if f 1 then None else insert_session ck s a) of
                            None \<Rightarrow> (a, Error 500 ''database error'')
                          | Some a' \<Rightarrow>
                              (a', if length sessionID < 8 then Panicked else OK (sessionID, auth_user_of row))))"

text \<open>Statements: 0 the query, 1 the delete of an expired session, whose error is dropped.\<close>

definition ValidateSession ::
  "collation \<Rightarrow> faults \<Rightarrow> gotime \<Rightarrow> auth_db \<Rightarrow> request \<Rightarrow> auth_db \<times> auth_user response" where
  "ValidateSession ck f now a r =
     (let sessionID = r_Header r session_Header
      in if sessionID = [] then (a, Error 401 (''missing '' @ session_Header @ '' header''))
         else case (if f 0 then None else session_join ck a sessionID) of
           None \<Rightarrow> (a, Error 500 ''internal server error'')
         | Some (s, u) \<Rightarrow>
             if ses_expires_at s < now
             then (if f 1 then a else delete_session ck sessionID a, Error 401 ''session expired'')
             else if \<not> usr_enabled u then (a, Error 403 ''account disabled'')
             else (a, OK (auth_user_of u)))"

definition LogoutSession :: "collation \<Rightarrow> faults \<Rightarrow> auth_db \<Rightarrow> request \<Rightarrow> auth_db \<times> unit response" where
  "LogoutSession ck f a r =
     (let sessionID = r_Header r session_Header
      in if sessionID = [] then (a, Error 400 (''missing '' @ session_Header @ '' header''))
         else if f 0 then (a, Error 500 ''database error'')
         else (delete_session ck sessionID a, if length sessionID < 8 then Panicked else OK ()))"

section \<open>users.route.go\<close>

text \<open>The queries do not select the hash, so the field keeps its zero value.\<close>

definition public_row :: "user_row \<Rightarrow> user_row" where
  "public_row u = u\<lparr>usr_password_hash := []\<rparr>"

definition ListUsers :: "faults \<Rightarrow> auth_db \<Rightarrow> user_row slice response" where
  "ListUsers f a =
     (if f 0 then Error 500 ''database error''
      else OK (if a_users a = [] then None else Some (map public_row (sort_key usr_created_at (a_users a)))))"

record create_user_request =
  cu_Username :: string
  cu_Displayname :: string
  cu_Password :: string
  cu_Role :: string

definition UserRoleAdmin :: string where "UserRoleAdmin = ''admin''"
definition UserRoleUser :: string where "UserRoleUser = ''user''"

text \<open>Statements: 0 the count, 1 the insert, 2 reading back. \<open>CURRENT_TIMESTAMP\<close> is in whole seconds.\<close>

definition CreateUser ::
  "collation \<Rightarrow> argon2 \<Rightarrow> faults \<Rightarrow> random \<Rightarrow> gotime \<Rightarrow> auth_db \<Rightarrow> create_user_request option \<Rightarrow>
     auth_db \<times> user_row response" where
  "CreateUser ck IDKey f rnd now a body =
     (case body of
        None \<Rightarrow> (a, Error 400 ''invalid JSON'')
      | Some req \<Rightarrow>
          if cu_Username req = [] \<or> cu_Password req = [] then (a, Error 400 ''username and password are required'')
          else if cu_Role req \<noteq> UserRoleAdmin \<and> cu_Role req \<noteq> UserRoleUser
          then (a, Error 400 (''role must be '' @ [CHR 39] @ ''admin'' @ [CHR 39] @ '' or '' @ [CHR 39] @ ''user'' @ [CHR 39]))
          else if f 0 then (a, Error 500 ''database error'')
          else if list_ex (has_name ck (cu_Username req)) (a_users a) then (a, Error 409 ''username already exists'')
          else case hashPassword IDKey (rnd 0) (cu_Password req) of
            Panics \<Rightarrow> (a, Panicked)
          | Failed err \<Rightarrow> (a, Error 500 (''failed to hash password: '' @ err))
          | Returned passwordHash \<Rightarrow>
              (case generateUUID (rnd 1) of
                 Inl err \<Rightarrow> (a, Error 500 (''failed to generate id: '' @ err))
               | Inr i \<Rightarrow>
                   let row = \<lparr>usr_id = i, usr_username = cu_Username req, usr_displayname = cu_Displayname req,
                              usr_password_hash = passwordHash, usr_role = cu_Role req, usr_enabled = True,
                              usr_created_at = now div second * second\<rparr>
                   in case (if f 1 then None else insert_user ck row a) of
                        None \<Rightarrow> (a, Error 500 ''database error'')
                      | Some a' \<Rightarrow>
                          (a', case (if f 2 then None else find (has_id ck i) (a_users a')) of
                                 None \<Rightarrow> Error 500 ''database error''
                               | Some u \<Rightarrow> Created (public_row u))))"

definition GetUserByID :: "collation \<Rightarrow> faults \<Rightarrow> auth_db \<Rightarrow> string \<Rightarrow> user_row response" where
  "GetUserByID ck f a i =
     (if i = [] then Error 400 ''missing id parameter''
      else if f 0 then Error 500 ''database error''
      else case find (has_id ck i) (a_users a) of
        None \<Rightarrow> Error 404 ''user not found''
      | Some u \<Rightarrow> OK (public_row u))"

text \<open>Decoding into \<open>map[string]json.RawMessage\<close>: null leaves the map nil, a repeated key overwrites.\<close>

fun raw_fields :: "json \<Rightarrow> (string \<times> json) list option" where
  "raw_fields JNull = Some []"
| "raw_fields (JObj kvs) = Some kvs"
| "raw_fields _ = None"

definition raw_field :: "string \<Rightarrow> (string \<times> json) list \<Rightarrow> (json \<Rightarrow> 'a option) \<Rightarrow> 'a ptr option" where
  "raw_field k kvs d = (case map_of (rev kvs) k of None \<Rightarrow> Some None | Some raw \<Rightarrow> map_option Some (d raw))"

definition set_user_fields :: "string ptr \<Rightarrow> bool ptr \<Rightarrow> user_row \<Rightarrow> user_row" where
  "set_user_fields dn en u =
     u\<lparr>usr_displayname := (case dn of None \<Rightarrow> usr_displayname u | Some v \<Rightarrow> v),
       usr_enabled := (case en of None \<Rightarrow> usr_enabled u | Some v \<Rightarrow> v)\<rparr>"

text \<open>The end of the writing handlers. Statements: 0 the write, 1 its row count.\<close>

definition rows_affected :: "faults \<Rightarrow> auth_db \<Rightarrow> auth_db \<times> nat \<Rightarrow> auth_db \<times> unit response" where
  "rows_affected f a res =
     (if f 0 then (a, Error 500 ''database error'')
      else if f 1 then (fst res, Error 500 ''database error'')
      else if snd res = 0 then (fst res, Error 404 ''user not found'')
      else (fst res, OK ()))"

definition UpdateUser :: "collation \<Rightarrow> faults \<Rightarrow> auth_db \<Rightarrow> string \<Rightarrow> json option \<Rightarrow> auth_db \<times> unit response" where
  "UpdateUser ck f a i body =
     (if i = [] then (a, Error 400 ''missing id parameter'')
      else case Option.bind body raw_fields of
        None \<Rightarrow> (a, Error 400 ''invalid JSON'')
      | Some kvs \<Rightarrow>
          (case raw_field ''displayname'' kvs dec_string of
             None \<Rightarrow> (a, Error 400 ''invalid displayname value'')
           | Some dn \<Rightarrow>
               (case raw_field ''enabled'' kvs dec_bool of
                  None \<Rightarrow> (a, Error 400 ''invalid enabled value'')
                | Some en \<Rightarrow>
                    if dn = None \<and> en = None then (a, Error 400 ''no updatable fields provided'')
                    else rows_affected f a (update_user ck i (set_user_fields dn en) a))))"

definition ResetPassword ::
  "collation \<Rightarrow> argon2 \<Rightarrow> faults \<Rightarrow> random \<Rightarrow> auth_db \<Rightarrow> string \<Rightarrow> string option \<Rightarrow> auth_db \<times> unit response" where
  "ResetPassword ck IDKey f rnd a i body =
     (if i = [] then (a, Error 400 ''missing id parameter'')
      else case body of
        None \<Rightarrow> (a, Error 400 ''invalid JSON'')
      | Some password \<Rightarrow>
          if password = [] then (a, Error 400 ''password is required'')
          else case hashPassword IDKey (rnd 0) password of
            Panics \<Rightarrow> (a, Panicked)
          | Failed err \<Rightarrow> (a, Error 500 (''failed to hash password: '' @ err))
          | Returned h \<Rightarrow> rows_affected f a (update_user ck i (\<lambda>u. u\<lparr>usr_password_hash := h\<rparr>) a))"

definition DeleteUser :: "collation \<Rightarrow> faults \<Rightarrow> auth_db \<Rightarrow> string \<Rightarrow> auth_db \<times> unit response" where
  "DeleteUser ck f a i =
     (if i = [] then (a, Error 400 ''missing id parameter'')
      else rows_affected f a (delete_user ck i a))"

end
