(* ===== verification/Admin_Properties.thy ===== *)
theory Admin_Properties
  imports Admin
begin

text \<open>
  What the admin routes keep of the tables, and what a session token that is accepted says about the
  requests that came before it.
\<close>

section \<open>The tables\<close>

definition auth_ok :: "collation \<Rightarrow> auth_db \<Rightarrow> bool" where
  "auth_ok ck a \<longleftrightarrow> distinct (map (\<lambda>u. ck (usr_id u)) (a_users a)) \<and> distinct (map (\<lambda>u. ck (usr_username u)) (a_users a)) \<and>
     distinct (map (\<lambda>s. ck (ses_id s)) (a_sessions a)) \<and>
     (\<forall>s \<in> set (a_sessions a). \<exists>u \<in> set (a_users a). owned_by ck u s)"

definition empty_auth :: auth_db where
  "empty_auth = \<lparr>a_users = [], a_sessions = []\<rparr>"

lemma empty_auth_ok [simp]: "auth_ok ck empty_auth"
  by (simp add: auth_ok_def empty_auth_def)

lemmas match_defs = has_id_def has_name_def has_token_def owned_by_def

lemma auth_okD:
  assumes "auth_ok ck a"
  shows "distinct (map (\<lambda>u. ck (usr_id u)) (a_users a))" "distinct (map (\<lambda>u. ck (usr_username u)) (a_users a))"
    "distinct (map (\<lambda>s. ck (ses_id s)) (a_sessions a))"
    "s \<in> set (a_sessions a) \<Longrightarrow> \<exists>u \<in> set (a_users a). owned_by ck u s"
  using assms by (auto simp: auth_ok_def)

lemma insert_session_ok: "auth_ok ck a \<Longrightarrow> insert_session ck s a = Some a' \<Longrightarrow> auth_ok ck a'"
  by (fastforce simp: auth_ok_def insert_session_def match_defs list_ex_iff split: if_splits)

lemma insert_session_rows: "insert_session ck s a = Some a' \<Longrightarrow> a_sessions a' = a_sessions a @ [s] \<and> a_users a' = a_users a"
  by (auto simp: insert_session_def split: if_splits)

lemma distinct_map_filterI: "distinct (map f xs) \<Longrightarrow> distinct (map f (filter P xs))"
  by (rule distinct_map_filter)

lemma delete_session_ok: "auth_ok ck a \<Longrightarrow> auth_ok ck (delete_session ck t a)"
  by (auto simp: auth_ok_def delete_session_def intro: distinct_map_filterI)

lemma insert_user_ok: "auth_ok ck a \<Longrightarrow> insert_user ck u a = Some a' \<Longrightarrow> auth_ok ck a'"
  by (fastforce simp: auth_ok_def insert_user_def match_defs list_ex_iff split: if_splits)

lemma insert_user_rows: "insert_user ck u a = Some a' \<Longrightarrow> a_sessions a' = a_sessions a \<and> a_users a' = a_users a @ [u]"
  by (auto simp: insert_user_def split: if_splits)

lemma update_user_ok:
  assumes "auth_ok ck a" "\<And>u. usr_id (g u) = usr_id u \<and> usr_username (g u) = usr_username u"
  shows "auth_ok ck (fst (update_user ck i g a))"
proof -
  have "map (\<lambda>u. ck (usr_id u)) (map (\<lambda>u. if has_id ck i u then g u else u) us) = map (\<lambda>u. ck (usr_id u)) us"
    "map (\<lambda>u. ck (usr_username u)) (map (\<lambda>u. if has_id ck i u then g u else u) us) = map (\<lambda>u. ck (usr_username u)) us" for us
    using assms(2) by simp_all
  moreover have "\<exists>u \<in> set (map (\<lambda>u. if has_id ck i u then g u else u) (a_users a)). owned_by ck u s"
    if "s \<in> set (a_sessions a)" for s
  proof -
    from auth_okD(4) [OF assms(1) that] obtain u where u: "u \<in> set (a_users a)" "owned_by ck u s" by blast
    then have "owned_by ck (if has_id ck i u then g u else u) s" using assms(2) by (simp add: owned_by_def)
    with u(1) show ?thesis by (auto simp only: set_map intro!: bexI [where x = "if has_id ck i u then g u else u"] imageI)
  qed
  ultimately show ?thesis using assms(1) by (simp add: auth_ok_def update_user_def del: map_map)
qed

lemma delete_user_ok:
  assumes "auth_ok ck a"
  shows "auth_ok ck (fst (delete_user ck i a))"
proof -
  have "\<exists>u \<in> set (filter (\<lambda>u. \<not> has_id ck i u) (a_users a)). owned_by ck u s"
    if "s \<in> set (a_sessions a)" "\<not> list_ex (\<lambda>u. owned_by ck u s) (filter (has_id ck i) (a_users a))" for s
    using auth_okD(4) [OF assms that(1)] that(2) by (auto simp: list_ex_iff)
  then show ?thesis using assms
    by (auto simp: auth_ok_def delete_user_def Let_def intro: distinct_map_filterI)
qed

section \<open>Histories\<close>

text \<open>The requests that write the two tables, each with the failures and inputs of its run.\<close>

datatype auth_event =
    Login faults random gotime "login_request option"
  | Validate faults gotime request
  | Logout faults request
  | NewUser faults random gotime "create_user_request option"
  | SetUser faults string "json option"
  | SetPassword faults random string "string option"
  | DropUser faults string

primrec auth_step :: "collation \<Rightarrow> argon2 \<Rightarrow> auth_event \<Rightarrow> auth_db \<Rightarrow> auth_db" where
  "auth_step ck K (Login f rnd now body) a = fst (LoginUser ck K f rnd now a body)"
| "auth_step ck K (Validate f now r) a = fst (ValidateSession ck f now a r)"
| "auth_step ck K (Logout f r) a = fst (LogoutSession ck f a r)"
| "auth_step ck K (NewUser f rnd now body) a = fst (CreateUser ck K f rnd now a body)"
| "auth_step ck K (SetUser f i body) a = fst (UpdateUser ck f a i body)"
| "auth_step ck K (SetPassword f rnd i body) a = fst (ResetPassword ck K f rnd a i body)"
| "auth_step ck K (DropUser f i) a = fst (DeleteUser ck f a i)"

definition auth_run :: "collation \<Rightarrow> argon2 \<Rightarrow> auth_event list \<Rightarrow> auth_db \<Rightarrow> auth_db" where
  "auth_run ck K evs a = fold (auth_step ck K) evs a"

lemma auth_run_simps [simp]:
  "auth_run ck K [] a = a" "auth_run ck K (evs @ [e]) a = auth_step ck K e (auth_run ck K evs a)"
  by (simp_all add: auth_run_def)

text \<open>Every handler leaves the tables alone or runs one of the statements.\<close>

lemma LoginUser_state:
  "fst (LoginUser ck K f rnd now a body) = a \<or>
   (\<exists>req row sid. body = Some req \<and> row \<in> set (a_users a) \<and> has_name ck (lr_Username req) row \<and>
      verifyPassword K (usr_password_hash row) (lr_Password req) = Returned True \<and> usr_enabled row \<and>
      generateSessionID (rnd 0) = Inr sid \<and>
      insert_session ck \<lparr>ses_id = sid, ses_user_id = usr_id row,
        ses_expires_at = to_timestamp (now + sessionExpiryDays * 24 * hour)\<rparr> a = Some (fst (LoginUser ck K f rnd now a body)))"
  by (auto simp: LoginUser_def Let_def split: option.splits outcome.splits sum.splits dest!: find_SomeD)

lemma CreateUser_state:
  "fst (CreateUser ck K f rnd now a body) = a \<or> (\<exists>u. insert_user ck u a = Some (fst (CreateUser ck K f rnd now a body)))"
  by (auto simp: CreateUser_def Let_def split: option.splits outcome.splits sum.splits)

lemma ValidateSession_state:
  "fst (ValidateSession ck f now a r) = a \<or> (\<exists>t. fst (ValidateSession ck f now a r) = delete_session ck t a)"
  by (auto simp: ValidateSession_def Let_def split: option.splits)

lemma rows_affected_state: "fst (rows_affected f a res) = (if f 0 then a else fst res)"
  by (simp add: rows_affected_def)

lemma UpdateUser_state:
  "fst (UpdateUser ck f a i body) = a \<or> (\<exists>dn en. fst (UpdateUser ck f a i body) = fst (update_user ck i (set_user_fields dn en) a))"
  by (auto simp: UpdateUser_def rows_affected_state split: option.splits)

lemma ResetPassword_state:
  "fst (ResetPassword ck K f rnd a i body) = a \<or>
   (\<exists>h. fst (ResetPassword ck K f rnd a i body) = fst (update_user ck i (\<lambda>u. u\<lparr>usr_password_hash := h\<rparr>) a))"
  by (auto simp: ResetPassword_def rows_affected_state split: option.splits outcome.splits)

lemma auth_step_ok: "auth_ok ck a \<Longrightarrow> auth_ok ck (auth_step ck K e a)"
proof (cases e)
  case (Login f rnd now body)
  assume "auth_ok ck a"
  with Login LoginUser_state [of ck K f rnd now a body] insert_session_ok show ?thesis by fastforce
next
  case (Validate f now r)
  assume "auth_ok ck a"
  with Validate ValidateSession_state [of ck f now a r] delete_session_ok show ?thesis by fastforce
next
  case (NewUser f rnd now body)
  assume "auth_ok ck a"
  with NewUser CreateUser_state [of ck K f rnd now a body] insert_user_ok show ?thesis by fastforce
next
  case (SetUser f i body)
  assume "auth_ok ck a"
  then have "auth_ok ck (fst (update_user ck i (set_user_fields dn en) a))" for dn en
    by (rule update_user_ok) (simp add: set_user_fields_def)
  with \<open>auth_ok ck a\<close> SetUser UpdateUser_state [of ck f a i body] show ?thesis by fastforce
next
  case (SetPassword f rnd i body)
  assume "auth_ok ck a"
  then have "auth_ok ck (fst (update_user ck i (\<lambda>u. u\<lparr>usr_password_hash := h\<rparr>) a))" for h
    by (rule update_user_ok) simp
  with \<open>auth_ok ck a\<close> SetPassword ResetPassword_state [of ck K f rnd a i body] show ?thesis by fastforce
qed (auto simp: LogoutSession_def DeleteUser_def Let_def rows_affected_state delete_session_ok delete_user_ok)

lemma auth_run_ok: "auth_ok ck a \<Longrightarrow> auth_ok ck (auth_run ck K evs a)"
  by (induction evs rule: rev_induct) (simp_all add: auth_step_ok)

section \<open>Where a session comes from\<close>

text \<open>The event stored the session \<open>s\<close>: a login with the password of an enabled user.\<close>

definition issues :: "collation \<Rightarrow> argon2 \<Rightarrow> auth_db \<Rightarrow> auth_event \<Rightarrow> session_row \<Rightarrow> bool" where
  "issues ck K a e s \<longleftrightarrow>
     (case e of
        Login f rnd t (Some req) \<Rightarrow>
          (\<exists>row \<in> set (a_users a). has_name ck (lr_Username req) row \<and> usr_enabled row \<and>
             verifyPassword K (usr_password_hash row) (lr_Password req) = Returned True \<and>
             generateSessionID (rnd 0) = Inr (ses_id s) \<and> ses_user_id s = usr_id row \<and>
             ses_expires_at s = to_timestamp (t + sessionExpiryDays * 24 * hour))
      | _ \<Rightarrow> False)"

text \<open>The event ends the session \<open>s\<close>: its logout, or the deletion of its user.\<close>

definition revokes :: "collation \<Rightarrow> session_row \<Rightarrow> auth_event \<Rightarrow> bool" where
  "revokes ck s e \<longleftrightarrow>
     (case e of
        Logout f r \<Rightarrow> \<not> f 0 \<and> r_Header r session_Header \<noteq> [] \<and> has_token ck (r_Header r session_Header) s
      | DropUser f i \<Rightarrow> \<not> f 0 \<and> i \<noteq> [] \<and> ck i = ck (ses_user_id s)
      | _ \<Rightarrow> False)"

lemma sessions_after_step:
  assumes "s \<in> set (a_sessions (auth_step ck K e a))" "auth_ok ck a"
  shows "issues ck K a e s \<or> s \<in> set (a_sessions a) \<and> \<not> revokes ck s e"
proof (cases e)
  case (Login f rnd now body)
  have n: "\<not> revokes ck s e" by (simp add: Login revokes_def)
  from LoginUser_state [of ck K f rnd now a body] show ?thesis
  proof (elim disjE exE conjE)
    assume "fst (LoginUser ck K f rnd now a body) = a"
    with assms(1) Login n show ?thesis by simp
  next
    fix req and row :: user_row and sid
    let ?s = "\<lparr>ses_id = sid, ses_user_id = usr_id row, ses_expires_at = to_timestamp (now + sessionExpiryDays * 24 * hour)\<rparr>"
    assume r: "body = Some req" "row \<in> set (a_users a)" "has_name ck (lr_Username req) row"
      "verifyPassword K (usr_password_hash row) (lr_Password req) = Returned True" "usr_enabled row"
      "generateSessionID (rnd 0) = Inr sid"
      and i: "insert_session ck ?s a = Some (fst (LoginUser ck K f rnd now a body))"
    have "a_sessions (fst (LoginUser ck K f rnd now a body)) = a_sessions a @ [?s]"
      using insert_session_rows [OF i] by blast
    with assms(1) Login have "s \<in> set (a_sessions a) \<or> s = ?s" by auto
    moreover have "issues ck K a e ?s" using Login r by (auto simp: issues_def)
    ultimately show ?thesis using n by blast
  qed
next
  case (Validate f now r)
  with assms(1) ValidateSession_state [of ck f now a r] show ?thesis
    by (auto simp: delete_session_def revokes_def)
next
  case (Logout f r)
  with assms(1) show ?thesis by (auto simp: LogoutSession_def Let_def delete_session_def revokes_def split: if_splits)
next
  case (NewUser f rnd now body)
  with assms(1) CreateUser_state [of ck K f rnd now a body] show ?thesis
    by (auto simp: revokes_def dest!: insert_user_rows)
next
  case (SetUser f i body)
  with assms(1) UpdateUser_state [of ck f a i body] show ?thesis by (auto simp: update_user_def revokes_def)
next
  case (SetPassword f rnd i body)
  with assms(1) ResetPassword_state [of ck K f rnd a i body] show ?thesis by (auto simp: update_user_def revokes_def)
next
  case (DropUser f i)
  have s: "s \<in> set (a_sessions a)" using assms(1) DropUser
    by (auto simp: DeleteUser_def rows_affected_state delete_user_def Let_def split: if_splits)
  from auth_okD(4) [OF assms(2) this] obtain u where u: "u \<in> set (a_users a)" "owned_by ck u s" by blast
  have "\<not> revokes ck s e"
  proof
    assume r: "revokes ck s e"
    then have "has_id ck i u" using u DropUser by (simp add: revokes_def match_defs)
    with r u assms(1) DropUser show False
      by (auto simp: revokes_def DeleteUser_def rows_affected_state delete_user_def Let_def list_ex_iff)
  qed
  with s show ?thesis by blast
qed

lemma session_history:
  "s \<in> set (a_sessions (auth_run ck K evs empty_auth)) \<Longrightarrow>
   \<exists>before e after. evs = before @ e # after \<and> issues ck K (auth_run ck K before empty_auth) e s \<and>
     list_all (\<lambda>x. \<not> revokes ck s x) after"
proof (induction evs rule: rev_induct)
  case (snoc e evs)
  from sessions_after_step [of s ck K e "auth_run ck K evs empty_auth"] snoc.prems auth_run_ok [OF empty_auth_ok]
  consider "issues ck K (auth_run ck K evs empty_auth) e s"
    | "s \<in> set (a_sessions (auth_run ck K evs empty_auth))" "\<not> revokes ck s e" by auto
  then show ?case
  proof cases
    case 2
    from snoc.IH [OF this(1)] obtain before e' after where "evs = before @ e' # after"
      "issues ck K (auth_run ck K before empty_auth) e' s" "list_all (\<lambda>x. \<not> revokes ck s x) after" by blast
    with 2(2) show ?thesis by (intro exI [of _ before] exI [of _ e'] exI [of _ "after @ [e]"]) simp
  qed (intro exI [of _ evs] exI [of _ e] exI [of _ "[]"], simp)
qed (simp add: empty_auth_def)

section \<open>The life of a session\<close>

lemma find_by_key: "distinct (map f xs) \<Longrightarrow> x \<in> set xs \<Longrightarrow> find (\<lambda>y. f y = f x) xs = Some x"
  by (induction xs) (auto simp: image_iff)

lemma session_join_unique:
  assumes "auth_ok ck a" "s \<in> set (a_sessions a)" "u \<in> set (a_users a)" "owned_by ck u s" "ck t = ck (ses_id s)"
  shows "session_join ck a t = Some (s, u)"
proof -
  obtain s' u' where j: "session_join ck a t = Some (s', u')"
  proof (cases "session_join ck a t")
    case None
    then have "\<not> (ck (ses_id s) = ck t \<and> ck (usr_id u) = ck (ses_user_id s))"
      using assms(2,3) by (auto simp: session_join_def find_None_iff)
    with assms(4,5) show ?thesis by (simp add: owned_by_def)
  qed auto
  note m = session_join_Some [OF j]
  have "s' = s" using m assms(2,5) auth_okD(3) [OF assms(1)] by (metis (mono_tags, lifting) inj_on_def distinct_map)
  moreover have "u' = u" using calculation m assms(3,4) auth_okD(1) [OF assms(1)] by (metis (mono_tags, lifting) inj_on_def distinct_map owned_by_def)
  ultimately show ?thesis using j by simp
qed

lemma session_join_deleted: "session_join ck (delete_session ck t a) t = None"
proof (cases "session_join ck (delete_session ck t a) t")
  case (Some p)
  obtain s u where "p = (s, u)" by (cases p)
  with session_join_Some [of ck "delete_session ck t a" t s u] Some show ?thesis by (auto simp: delete_session_def has_token_def)
qed

lemma CreateUser_row:
  assumes "CreateUser ck K no_faults rnd now a (Some c) = (a', Created u)" "auth_ok ck a"
  obtains phc row where "hashPassword K (rnd 0) (cu_Password c) = Returned phc" "row \<in> set (a_users a')"
    "usr_username row = cu_Username c" "usr_password_hash row = phc" "usr_enabled row" "u = public_row row"
    "cu_Username c \<noteq> []" "cu_Password c \<noteq> []" "a_sessions a' = a_sessions a" "auth_ok ck a'"
proof -
  obtain phc i where h: "hashPassword K (rnd 0) (cu_Password c) = Returned phc" and i: "generateUUID (rnd 1) = Inr i"
    and n: "cu_Username c \<noteq> []" "cu_Password c \<noteq> []"
    and ins: "insert_user ck \<lparr>usr_id = i, usr_username = cu_Username c, usr_displayname = cu_Displayname c,
      usr_password_hash = phc, usr_role = cu_Role c, usr_enabled = True, usr_created_at = now div second * second\<rparr> a = Some a'"
      (is "insert_user ck ?row a = _")
    and f: "\<exists>x. find (has_id ck i) (a_users a') = Some x \<and> u = public_row x"
    using assms(1)
    by (auto simp: CreateUser_def Let_def split: if_splits option.splits outcome.splits sum.splits)
  have a': "a' = a\<lparr>a_users := a_users a @ [?row]\<rparr>" and fresh: "\<forall>x \<in> set (a_users a). \<not> has_id ck i x"
    using ins by (auto simp: insert_user_def list_ex_iff split: if_splits)
  obtain x where x: "find (has_id ck i) (a_users a') = Some x" "u = public_row x" using f by blast
  have "x = ?row" using find_SomeD [OF x(1)] fresh a' by auto
  with x a' h n insert_user_ok [OF assms(2) ins] that [of phc ?row] show ?thesis by simp
qed

lemma LoginUser_success:
  assumes ok: "auth_ok ck a" and u: "u \<in> set (a_users a)" "usr_enabled u" "ck (usr_username u) = ck (lr_Username q)"
    and pw: "verifyPassword K (usr_password_hash u) (lr_Password q) = Returned True" "lr_Username q \<noteq> []" "lr_Password q \<noteq> []"
    and sid: "generateSessionID (rnd 0) = Inr sid" "8 \<le> length sid" "\<not> list_ex (has_token ck sid) (a_sessions a)"
  shows "LoginUser ck K no_faults rnd now a (Some q) =
    (a\<lparr>a_sessions := a_sessions a @ [\<lparr>ses_id = sid, ses_user_id = usr_id u,
        ses_expires_at = to_timestamp (now + sessionExpiryDays * 24 * hour)\<rparr>]\<rparr>, OK (sid, auth_user_of u))"
proof -
  have p: "has_name ck (lr_Username q) = (\<lambda>y. ck (usr_username y) = ck (usr_username u))"
    using u(3) by (simp add: has_name_def fun_eq_iff)
  have f: "find (has_name ck (lr_Username q)) (a_users a) = Some u"
    unfolding p by (rule find_by_key [OF auth_okD(2) [OF ok] u(1)])
  have "insert_session ck \<lparr>ses_id = sid, ses_user_id = usr_id u, ses_expires_at = e\<rparr> a =
      Some (a\<lparr>a_sessions := a_sessions a @ [\<lparr>ses_id = sid, ses_user_id = usr_id u, ses_expires_at = e\<rparr>]\<rparr>)" for e
    using sid(3) u(1) by (auto simp: insert_session_def owned_by_def list_ex_iff)
  with f u pw sid show ?thesis by (simp add: LoginUser_def Let_def)
qed

lemma lifecycle:
  assumes "auth_ok ck a" and c: "CreateUser ck K no_faults rnd t0 a (Some c) = (a1, Created u)"
    and key: "\<And>pw salt h. K pw salt argonTime argonMemory argonParallelism argonKeyLen = Some h \<Longrightarrow> length h = nat argonKeyLen"
    and q: "ck (lr_Username q) = ck (cu_Username c)" "lr_Username q \<noteq> []" "lr_Password q = cu_Password c"
    and sid: "generateSessionID (rnd' 0) = Inr sid" "8 \<le> length sid" "\<not> list_ex (has_token ck sid) (a_sessions a)"
    and r: "r_Header r session_Header = sid" and now: "now \<le> to_timestamp (t + sessionExpiryDays * 24 * hour)"
  shows "\<exists>a2. LoginUser ck K no_faults rnd' t a1 (Some q) = (a2, OK (sid, auth_user_of u)) \<and> auth_ok ck a2 \<and>
    ValidateSession ck no_faults now a2 r = (a2, OK (auth_user_of u)) \<and>
    Username ck False now a2 r = Some (cu_Username c) \<and>
    (\<exists>a3. LogoutSession ck no_faults a2 r = (a3, OK ()) \<and>
       snd (ValidateSession ck no_faults now a3 r) = Error 500 ''internal server error'' \<and> Username ck False now a3 r = None)"
proof -
  obtain phc row where h: "hashPassword K (rnd 0) (cu_Password c) = Returned phc" and row: "row \<in> set (a_users a1)"
    "usr_username row = cu_Username c" "usr_password_hash row = phc" "usr_enabled row" and u: "u = public_row row"
    and n: "cu_Username c \<noteq> []" "cu_Password c \<noteq> []" and s1: "a_sessions a1 = a_sessions a" and ok1: "auth_ok ck a1"
    using CreateUser_row [OF c assms(1)] by metis
  obtain salt hash where hash: "K (cu_Password c) salt argonTime argonMemory argonParallelism argonKeyLen = Some hash"
    and v: "length hash = nat argonKeyLen \<Longrightarrow> verifyPassword K phc (cu_Password c) =
      (case K (cu_Password c) salt argonTime argonMemory argonParallelism argonKeyLen of None \<Rightarrow> Panics | Some h \<Rightarrow> Returned (h = hash))"
    using verify_hashed [OF h, of "cu_Password c"] by blast
  have v: "verifyPassword K phc (cu_Password c) = Returned True" using v [OF key [OF hash]] hash by simp
  let ?s = "\<lparr>ses_id = sid, ses_user_id = usr_id row, ses_expires_at = to_timestamp (t + sessionExpiryDays * 24 * hour)\<rparr>"
  let ?a2 = "a1\<lparr>a_sessions := a_sessions a1 @ [?s]\<rparr>"
  have pub: "auth_user_of u = auth_user_of row" by (simp add: u auth_user_of_def public_row_def)
  have login: "LoginUser ck K no_faults rnd' t a1 (Some q) = (?a2, OK (sid, auth_user_of u))"
    unfolding pub by (rule LoginUser_success) (use ok1 row q n v sid s1 in simp_all)
  have ok2: "auth_ok ck ?a2"
    using auth_step_ok [OF ok1, of K "Login no_faults rnd' t (Some q)"] login by simp
  have j: "session_join ck ?a2 sid = Some (?s, row)"
    by (rule session_join_unique [OF ok2]) (use row in \<open>simp_all add: owned_by_def\<close>)
  have "sid \<noteq> []" using sid(2) by auto
  with j now row r pub have "ValidateSession ck no_faults now ?a2 r = (?a2, OK (auth_user_of u))"
    "Username ck False now ?a2 r = Some (cu_Username c)"
    by (simp_all add: ValidateSession_def Username_def Let_def)
  moreover have "LogoutSession ck no_faults ?a2 r = (delete_session ck sid ?a2, OK ())"
    using \<open>sid \<noteq> []\<close> r sid(2) by (simp add: LogoutSession_def)
  moreover have "snd (ValidateSession ck no_faults now (delete_session ck sid ?a2) r) = Error 500 ''internal server error''"
    "Username ck False now (delete_session ck sid ?a2) r = None"
    using \<open>sid \<noteq> []\<close> r session_join_deleted [of ck sid ?a2] by (simp_all add: ValidateSession_def Username_def Let_def)
  ultimately show ?thesis using login ok2 by blast
qed

section \<open>A sample account\<close>

definition sample_cu :: create_user_request where
  "sample_cu = \<lparr>cu_Username = ''ada'', cu_Displayname = ''Ada'', cu_Password = ''secret'', cu_Role = ''admin''\<rparr>"

definition sample_login :: login_request where
  "sample_login = \<lparr>lr_Username = ''Ada'', lr_Password = ''secret''\<rparr>"

definition with_token :: "string \<Rightarrow> request" where
  "with_token t = \<lparr>r_Header = (\<lambda>h. if h = session_Header then t else []), r_RemoteAddr = []\<rparr>"

lemma sample_created: "\<exists>a u. CreateUser ToLower sample_IDKey no_faults (\<lambda>_. sample_Read) 0 empty_auth (Some sample_cu) = (a, Created u)"
proof -
  obtain phc where phc: "hashPassword sample_IDKey sample_Read ''secret'' = Returned phc" using sample_hash by blast
  obtain i where i: "generateUUID sample_Read = Inr i" by (simp add: generateUUID_def sample_Read_def Let_def)
  show ?thesis
    by (simp add: CreateUser_def sample_cu_def empty_auth_def insert_user_def phc i UserRoleAdmin_def has_id_def Let_def)
qed

lemma sample_token: "\<exists>sid. generateSessionID sample_Read = Inr sid \<and> length sid = 64"
  by (simp add: generateSessionID_def sample_Read_def)

lemma sample_life:
  obtains a1 u a2 sid where
    "CreateUser ToLower sample_IDKey no_faults (\<lambda>_. sample_Read) 0 empty_auth (Some sample_cu) = (a1, Created u)"
    "generateSessionID sample_Read = Inr sid"
    "LoginUser ToLower sample_IDKey no_faults (\<lambda>_. sample_Read) 7 a1 (Some sample_login) = (a2, OK (sid, auth_user_of u))"
    "ValidateSession ToLower no_faults 9 a2 (with_token sid) = (a2, OK (auth_user_of u))"
proof -
  obtain a1 u where c: "CreateUser ToLower sample_IDKey no_faults (\<lambda>_. sample_Read) 0 empty_auth (Some sample_cu) = (a1, Created u)"
    using sample_created by blast
  obtain sid where sid: "generateSessionID sample_Read = Inr sid" "length sid = 64" using sample_token by blast
  have "\<exists>a2. LoginUser ToLower sample_IDKey no_faults (\<lambda>_. sample_Read) 7 a1 (Some sample_login) = (a2, OK (sid, auth_user_of u)) \<and>
      auth_ok ToLower a2 \<and> ValidateSession ToLower no_faults 9 a2 (with_token sid) = (a2, OK (auth_user_of u)) \<and>
      Username ToLower False 9 a2 (with_token sid) = Some (cu_Username sample_cu) \<and>
      (\<exists>a3. LogoutSession ToLower no_faults a2 (with_token sid) = (a3, OK ()) \<and>
        snd (ValidateSession ToLower no_faults 9 a3 (with_token sid)) = Error 500 ''internal server error'' \<and>
        Username ToLower False 9 a3 (with_token sid) = None)"
    by (rule lifecycle [OF empty_auth_ok c sample_IDKey_length])
      (use sid in \<open>simp_all add: sample_cu_def sample_login_def ToLower_def lower_char_def char_of_def empty_auth_def with_token_def
        to_timestamp_def sessionExpiryDays_def\<close>)
  with c sid that show ?thesis by blast
qed

section \<open>Properties\<close>

text \<open>Every sequence of admin requests, whatever fails in them, keeps user ids, user names and session tokens
  unique and leaves no session without its user.\<close>

theorem admin_requests_keep_tables_consistent:
  assumes "auth_ok ck a"
  shows "auth_ok ck (auth_run ck K evs a)"
  using assms by (rule auth_run_ok)

theorem admin_requests_keep_tables_consistent_witness:
  "auth_ok ToLower (auth_run ToLower sample_IDKey
     [NewUser no_faults (\<lambda>_. sample_Read) 0 (Some sample_cu), Login no_faults (\<lambda>_. sample_Read) 7 (Some sample_login)] empty_auth)"
  by (rule admin_requests_keep_tables_consistent) simp

text \<open>C18: a session token that is accepted was issued by a login with the right password of a then enabled user,
  at most its validity earlier; since then nobody logged it out and its user was not deleted; and the user
  reported is that user, still enabled.\<close>

theorem accepted_token_was_issued:
  assumes "snd (ValidateSession ck f now (auth_run ck K evs empty_auth) r) = OK v"
  shows "\<exists>before e after s. evs = before @ e # after \<and> issues ck K (auth_run ck K before empty_auth) e s \<and>
    list_all (\<lambda>x. \<not> revokes ck s x) after \<and> has_token ck (r_Header r session_Header) s \<and>
    now \<le> ses_expires_at s \<and> ck (au_ID v) = ck (ses_user_id s) \<and> au_Enabled v"
proof -
  obtain s u where j: "session_join ck (auth_run ck K evs empty_auth) (r_Header r session_Header) = Some (s, u)"
    and ok: "\<not> ses_expires_at s < now" "usr_enabled u" "v = auth_user_of u"
    using assms by (auto simp: ValidateSession_def Let_def split: if_splits option.splits)
  from session_join_Some [OF j] session_history [of s ck K evs] obtain before e after where
    "evs = before @ e # after" "issues ck K (auth_run ck K before empty_auth) e s" "list_all (\<lambda>x. \<not> revokes ck s x) after"
    by blast
  with ok session_join_Some [OF j] show ?thesis
    by (intro exI [of _ before] exI [of _ e] exI [of _ after] exI [of _ s]) (auto simp: match_defs auth_user_of_def)
qed

theorem accepted_token_was_issued_witness:
  "\<exists>sid. \<exists>v :: auth_user. \<exists>before e after s. [NewUser no_faults (\<lambda>_. sample_Read) 0 (Some sample_cu), Login no_faults (\<lambda>_. sample_Read) 7 (Some sample_login)]
       = before @ e # after \<and> issues ToLower sample_IDKey (auth_run ToLower sample_IDKey before empty_auth) e s \<and>
     list_all (\<lambda>x. \<not> revokes ToLower s x) after \<and> has_token ToLower (r_Header (with_token sid) session_Header) s \<and>
     9 \<le> ses_expires_at s \<and> ToLower (au_ID v) = ToLower (ses_user_id s) \<and> au_Enabled v"
proof -
  obtain a1 u a2 sid where
    c: "CreateUser ToLower sample_IDKey no_faults (\<lambda>_. sample_Read) 0 empty_auth (Some sample_cu) = (a1, Created u)" and
    l: "LoginUser ToLower sample_IDKey no_faults (\<lambda>_. sample_Read) 7 a1 (Some sample_login) = (a2, OK (sid, auth_user_of u))" and
    v: "ValidateSession ToLower no_faults 9 a2 (with_token sid) = (a2, OK (auth_user_of u))"
    using sample_life by metis
  have "auth_run ToLower sample_IDKey [NewUser no_faults (\<lambda>_. sample_Read) 0 (Some sample_cu),
      Login no_faults (\<lambda>_. sample_Read) 7 (Some sample_login)] empty_auth = a2"
    using c l by (simp add: auth_run_def)
  with v have "snd (ValidateSession ToLower no_faults 9 (auth_run ToLower sample_IDKey
      [NewUser no_faults (\<lambda>_. sample_Read) 0 (Some sample_cu), Login no_faults (\<lambda>_. sample_Read) 7 (Some sample_login)] empty_auth)
      (with_token sid)) = OK (auth_user_of u)" by simp
  from accepted_token_was_issued [OF this] show ?thesis
    by - (rule_tac x = sid in exI, rule_tac x = "auth_user_of u" in exI, assumption)
qed

text \<open>C19: an account that \<open>CreateUser\<close> answered can log in with the name and password it was created with; the
  token is then accepted until it expires, attributed to the account by the other components, refused to the
  rest of the world as any other token is, and no longer accepted once it has been logged out.\<close>

theorem session_lifecycle:
  assumes "auth_ok ck a" and c: "CreateUser ck K no_faults rnd t0 a (Some c) = (a1, Created u)"
    and key: "\<And>pw salt h. K pw salt argonTime argonMemory argonParallelism argonKeyLen = Some h \<Longrightarrow> length h = nat argonKeyLen"
    and q: "ck (lr_Username q) = ck (cu_Username c)" "lr_Username q \<noteq> []" "lr_Password q = cu_Password c"
    and sid: "generateSessionID (rnd' 0) = Inr sid" "8 \<le> length sid" "\<not> list_ex (has_token ck sid) (a_sessions a)"
    and r: "r_Header r session_Header = sid" and now: "now \<le> to_timestamp (t + sessionExpiryDays * 24 * hour)"
  shows "\<exists>a2. LoginUser ck K no_faults rnd' t a1 (Some q) = (a2, OK (sid, auth_user_of u)) \<and> auth_ok ck a2 \<and>
    ValidateSession ck no_faults now a2 r = (a2, OK (auth_user_of u)) \<and>
    Username ck False now a2 r = Some (cu_Username c) \<and>
    (\<exists>a3. LogoutSession ck no_faults a2 r = (a3, OK ()) \<and>
       snd (ValidateSession ck no_faults now a3 r) = Error 500 ''internal server error'' \<and> Username ck False now a3 r = None)"
  by (rule lifecycle [OF assms(1,2)]) (fact assms)+

theorem session_lifecycle_witness:
  "\<exists>a1 u a2 sid. CreateUser ToLower sample_IDKey no_faults (\<lambda>_. sample_Read) 0 empty_auth (Some sample_cu) = (a1, Created u) \<and>
     LoginUser ToLower sample_IDKey no_faults (\<lambda>_. sample_Read) 7 a1 (Some sample_login) = (a2, OK (sid, auth_user_of u)) \<and>
     Username ToLower False 9 a2 (with_token sid) = Some ''ada''"
proof -
  obtain a1 u where c: "CreateUser ToLower sample_IDKey no_faults (\<lambda>_. sample_Read) 0 empty_auth (Some sample_cu) = (a1, Created u)"
    using sample_created by blast
  obtain sid where sid: "generateSessionID sample_Read = Inr sid" "length sid = 64" using sample_token by blast
  have "\<exists>a2. LoginUser ToLower sample_IDKey no_faults (\<lambda>_. sample_Read) 7 a1 (Some sample_login) = (a2, OK (sid, auth_user_of u)) \<and>
      auth_ok ToLower a2 \<and> ValidateSession ToLower no_faults 9 a2 (with_token sid) = (a2, OK (auth_user_of u)) \<and>
      Username ToLower False 9 a2 (with_token sid) = Some (cu_Username sample_cu) \<and>
      (\<exists>a3. LogoutSession ToLower no_faults a2 (with_token sid) = (a3, OK ()) \<and>
        snd (ValidateSession ToLower no_faults 9 a3 (with_token sid)) = Error 500 ''internal server error'' \<and>
        Username ToLower False 9 a3 (with_token sid) = None)"
    by (rule session_lifecycle [OF empty_auth_ok c sample_IDKey_length])
      (use sid in \<open>simp_all add: sample_cu_def sample_login_def ToLower_def lower_char_def char_of_def empty_auth_def with_token_def
        to_timestamp_def sessionExpiryDays_def\<close>)
  with c show ?thesis by (auto simp: sample_cu_def)
qed

text \<open>Once an account has been disabled, whatever tokens it holds, none is accepted and it cannot log in; the
  same holds of an account that was deleted, whose tokens attribute nothing either.\<close>

theorem disabled_or_deleted_is_locked_out:
  assumes "(\<exists>f kvs. UpdateUser ck f a i (Some (JObj kvs)) = (a', OK ()) \<and> map_of (rev kvs) ''enabled'' = Some (JBool False)) \<or>
     (\<exists>f. DeleteUser ck f a i = (a', OK ()))"
  shows "\<not> (snd (ValidateSession ck g now a' r) = OK v \<and> ck (au_ID v) = ck i) \<and>
     \<not> (snd (LoginUser ck K g rnd now a' body) = OK (sid, w) \<and> ck (au_ID w) = ck i)"
proof -
  have off: "\<not> usr_enabled u" if "u \<in> set (a_users a')" "ck (usr_id u) = ck i" for u
    using assms that by (auto simp: UpdateUser_def raw_field_def rows_affected_def update_user_def set_user_fields_def DeleteUser_def
        delete_user_def Let_def match_defs split: if_splits option.splits)
  have "ck (au_ID v) \<noteq> ck i" if "snd (ValidateSession ck g now a' r) = OK v"
    using that off by (auto simp: ValidateSession_def Let_def auth_user_of_def split: if_splits option.splits dest!: session_join_Some)
  moreover have "ck (au_ID w) \<noteq> ck i" if "snd (LoginUser ck K g rnd now a' body) = OK (sid, w)"
    using that off by (auto simp: LoginUser_def Let_def auth_user_of_def split: if_splits option.splits outcome.splits sum.splits dest!: find_SomeD)
  ultimately show ?thesis by blast
qed

theorem disabled_or_deleted_is_locked_out_witness:
  "\<exists>a. UpdateUser ToLower no_faults \<lparr>a_users = [\<lparr>usr_id = ''u1'', usr_username = ''ada'', usr_displayname = [], usr_password_hash = [],
       usr_role = ''user'', usr_enabled = True, usr_created_at = 0\<rparr>], a_sessions = [\<lparr>ses_id = ''tok'', ses_user_id = ''u1'', ses_expires_at = 100\<rparr>]\<rparr>
      ''u1'' (Some (JObj [(''enabled'', JBool False)])) = (a, OK ()) \<and>
     a_sessions a \<noteq> [] \<and>
     \<not> (snd (ValidateSession ToLower no_faults 9 a (with_token ''tok'')) = OK \<lparr>au_ID = ''u1'', au_Username = ''ada'',
         au_Displayname = [], au_Role = ''user'', au_Enabled = False\<rparr> \<and> ToLower ''u1'' = ToLower ''u1'')"
  (is "\<exists>a. UpdateUser ToLower no_faults ?a0 _ (Some (JObj ?kvs)) = _ \<and> _ \<and> _")
proof -
  obtain a where a: "UpdateUser ToLower no_faults ?a0 ''u1'' (Some (JObj ?kvs)) = (a, OK ())" "a_sessions a \<noteq> []"
    by (simp add: UpdateUser_def raw_field_def rows_affected_def update_user_def set_user_fields_def has_id_def)
  have "map_of (rev ?kvs) ''enabled'' = Some (JBool False)" by simp
  with a(1) have d: "(\<exists>f kvs. UpdateUser ToLower f ?a0 ''u1'' (Some (JObj kvs)) = (a, OK ()) \<and> map_of (rev kvs) ''enabled'' = Some (JBool False)) \<or>
     (\<exists>f. DeleteUser ToLower f ?a0 ''u1'' = (a, OK ()))" by blast
  from disabled_or_deleted_is_locked_out [OF d, of no_faults 9 "with_token ''tok''" "\<lparr>au_ID = ''u1'', au_Username = ''ada'',
         au_Displayname = [], au_Role = ''user'', au_Enabled = False\<rparr>"] a
  show ?thesis by auto
qed

end
