(* ===== verification/App_Config.thy ===== *)
theory App_Config
  imports Object_Store
begin

text \<open>
  \<open>internal/config/config.go\<close>: the configuration read from the environment, once, and \<open>time.ParseDuration\<close>, which it
  uses. \<open>Getenv\<close> answers the empty string for a variable that is not set. The product of a decimal fraction with
  its unit is computed in floating point; that rounding is the parameter \<open>fl\<close>.
\<close>

section \<open>time.ParseDuration\<close>

text \<open>\<open>unitMap\<close>, the two micro signs in UTF-8 included.\<close>

definition unitMap :: "string \<Rightarrow> nat option" where
  "unitMap u =
     (if u = ''ns'' then Some 1
      else if u = ''us'' \<or> u = [CHR 0xC2, CHR 0xB5, CHR ''s''] \<or> u = [CHR 0xCE, CHR 0xBC, CHR ''s''] then Some 1000
      else if u = ''ms'' then Some 1000000
      else if u = ''s'' then Some 1000000000
      else if u = ''m'' then Some 60000000000
      else if u = ''h'' then Some 3600000000000
      else None)"

fun leadingInt :: "nat \<Rightarrow> string \<Rightarrow> (nat \<times> string) option" where
  "leadingInt x [] = Some (x, [])"
| "leadingInt x (c # s) =
     (if \<not> is_digit c then Some (x, c # s)
      else if 2 ^ 63 div 10 < x then None
      else let y = x * 10 + nat (digit_val c) in if 2 ^ 63 < y then None else leadingInt y s)"

text \<open>The value, its number of digits (the scale is a power of ten) and the rest; digits that overflow are dropped.\<close>

fun leadingFraction :: "nat \<Rightarrow> nat \<Rightarrow> bool \<Rightarrow> string \<Rightarrow> nat \<times> nat \<times> string" where
  "leadingFraction x k overflow [] = (x, k, [])"
| "leadingFraction x k overflow (c # s) =
     (if \<not> is_digit c then (x, k, c # s)
      else if overflow \<or> (2 ^ 63 - 1) div 10 < x then leadingFraction x k True s
      else let y = x * 10 + nat (digit_val c)
           in if 2 ^ 63 < y then leadingFraction x k True s else leadingFraction y (k + 1) False s)"

definition unit_char :: "char \<Rightarrow> bool" where
  "unit_char c \<longleftrightarrow> c \<noteq> CHR ''.'' \<and> \<not> is_digit c"

lemma leadingInt_length: "leadingInt x s = Some (v, t) \<Longrightarrow> length t \<le> length s"
  by (induction x s rule: leadingInt.induct) (auto split: if_splits simp: Let_def)

lemma leadingFraction_length: "leadingFraction x k ov s = (f, k', t) \<Longrightarrow> length t \<le> length s"
  by (induction x k ov s rule: leadingFraction.induct) (auto split: if_splits simp: Let_def)

text \<open>
  One number with its unit, from a non-empty rest: its nanoseconds and what follows. \<open>fl f k unit\<close> is the
  fraction \<open>f / 10^k\<close> of the unit in floating point.
\<close>

definition duration_part :: "(nat \<Rightarrow> nat \<Rightarrow> nat \<Rightarrow> nat) \<Rightarrow> string \<Rightarrow> (nat \<times> string) option" where
  "duration_part fl s =
     (if \<not> (hd s = CHR ''.'' \<or> is_digit (hd s)) then None
      else case leadingInt 0 s of
        None \<Rightarrow> None
      | Some (v, s1) \<Rightarrow>
          let pre = length s1 \<noteq> length s;
              dot = (s1 \<noteq> [] \<and> hd s1 = CHR ''.'');
              (f, k, s2) = (if dot then leadingFraction 0 0 False (tl s1) else (0, 0, s1));
              post = (dot \<and> length s2 \<noteq> length (tl s1));
              u = takeWhile unit_char s2; s3 = dropWhile unit_char s2
          in if \<not> pre \<and> \<not> post then None
             else if u = [] then None
             else case unitMap u of
               None \<Rightarrow> None
             | Some unit \<Rightarrow>
                 if 2 ^ 63 div unit < v then None
                 else let v = v * unit; v = (if 0 < f then v + fl f k unit else v)
                      in if 2 ^ 63 < v then None else Some (v, s3))"

lemma duration_part_length: "s \<noteq> [] \<Longrightarrow> duration_part fl s = Some (v, t) \<Longrightarrow> length t < length s"
proof -
  assume s: "s \<noteq> []" and d: "duration_part fl s = Some (v, t)"
  from d obtain v0 s1 where l: "leadingInt 0 s = Some (v0, s1)"
    by (auto simp: duration_part_def split: if_splits option.splits)
  define r where "r = (if s1 \<noteq> [] \<and> hd s1 = CHR ''.'' then leadingFraction 0 0 False (tl s1) else (0, 0, s1))"
  obtain f k s2 where r2: "r = (f, k, s2)" by (cases r)
  have le2: "length s2 \<le> length s1"
    using leadingFraction_length [of 0 0 False "tl s1" f k s2] r2 by (auto simp: r_def split: if_splits)
  from d l have t: "t = dropWhile unit_char s2" and u: "takeWhile unit_char s2 \<noteq> []"
    using r2 by (auto simp: duration_part_def Let_def r_def split: if_splits option.splits prod.splits)
  have "length (takeWhile unit_char s2) + length (dropWhile unit_char s2) = length s2"
    by (metis length_append takeWhile_dropWhile_id)
  with u t have "length t < length s2" by (cases "takeWhile unit_char s2") auto
  with le2 leadingInt_length [OF l] show ?thesis by simp
qed

text \<open>The sum, an unsigned 64-bit integer.\<close>

function duration_sum :: "(nat \<Rightarrow> nat \<Rightarrow> nat \<Rightarrow> nat) \<Rightarrow> nat \<Rightarrow> string \<Rightarrow> nat option" where
  "duration_sum fl d s =
     (if s = [] then Some d
      else case duration_part fl s of
        None \<Rightarrow> None
      | Some (v, t) \<Rightarrow> let d = (d + v) mod 2 ^ 64 in if 2 ^ 63 < d then None else duration_sum fl d t)"
  by pat_completeness auto
termination
  by (relation "measure (\<lambda>(fl, d, s). length s)") (auto dest: duration_part_length)

declare duration_sum.simps [simp del]

definition ParseDuration :: "(nat \<Rightarrow> nat \<Rightarrow> nat \<Rightarrow> nat) \<Rightarrow> string \<Rightarrow> duration option" where
  "ParseDuration fl s0 =
     (let neg = (s0 \<noteq> [] \<and> hd s0 = CHR ''-'');
          s = (if s0 \<noteq> [] \<and> (hd s0 = CHR ''-'' \<or> hd s0 = CHR ''+'') then tl s0 else s0)
      in if s = ''0'' then Some 0
         else if s = [] then None
         else case duration_sum fl 0 s of
           None \<Rightarrow> None
         | Some d \<Rightarrow> if neg then Some (- int d) else if 2 ^ 63 - 1 < d then None else Some (int d))"

section \<open>The configuration\<close>

record RateLimitConfig =
  rlc_UnauthMaxReqs :: int
  rlc_UnauthWindow :: duration
  rlc_UnauthMaxFails :: int
  rlc_UnauthBanDur :: duration
  rlc_AuthMaxReqs :: int
  rlc_AuthWindow :: duration
  rlc_AuthMaxFails :: int
  rlc_AuthBanDur :: duration

record OtelConfig =
  oc_Enabled :: bool
  oc_Endpoint :: string

record LogFileConfig =
  lc_Enabled :: bool
  lc_Dir :: string
  lc_RetentionDays :: int

record Config =
  cf_Port :: string
  cf_DSN :: string
  cf_Database :: string
  cf_APIKey :: string
  cf_AdminKey :: string
  cf_DashboardKey :: string
  cf_LogLevel :: string
  cf_LogFile :: LogFileConfig
  cf_MaxOpenConns :: int
  cf_MaxIdleConns :: int
  cf_ConnMaxLifetime :: int
  cf_UpdatesEnabled :: bool
  cf_UpdatesS3Prefix :: string
  cf_UpdaterS3Prefix :: string
  cf_ConfigUpstreamURL :: string
  cf_ConfigUpstreamInterval :: duration
  cf_ConfigUpstreamAPIKey :: string
  cf_StatsStreamTickInterval :: duration
  cf_StatsCacheTTL :: duration
  cf_EventsRetentionDays :: int
  cf_UseS3APIFileStorage :: bool
  cf_UseS3UpdatesStorage :: bool
  cf_RateLimit :: RateLimitConfig
  cf_S3APIFile :: S3BucketConfig
  cf_S3Updates :: S3BucketConfig
  cf_Otel :: OtelConfig

type_synonym env = "string \<Rightarrow> string"

definition envString :: "env \<Rightarrow> string \<Rightarrow> string \<Rightarrow> string" where
  "envString Getenv key fallback = (if Getenv key \<noteq> [] then Getenv key else fallback)"

definition envInt :: "env \<Rightarrow> string \<Rightarrow> int \<Rightarrow> int" where
  "envInt Getenv key fallback =
     (if Getenv key \<noteq> [] then (case Atoi (Getenv key) of Some n \<Rightarrow> n | None \<Rightarrow> fallback) else fallback)"

definition envDuration :: "(nat \<Rightarrow> nat \<Rightarrow> nat \<Rightarrow> nat) \<Rightarrow> env \<Rightarrow> string \<Rightarrow> duration \<Rightarrow> duration" where
  "envDuration fl Getenv key fallback =
     (if Getenv key \<noteq> [] then (case ParseDuration fl (Getenv key) of Some d \<Rightarrow> d | None \<Rightarrow> fallback) else fallback)"

text \<open>The loop over the comma-separated keys: the first that is not blank.\<close>

fun first_key :: "string list \<Rightarrow> string" where
  "first_key [] = []"
| "first_key (k # ks) = (if TrimSpace k \<noteq> [] then TrimSpace k else first_key ks)"

definition env_true :: "string \<Rightarrow> bool" where
  "env_true s \<longleftrightarrow> ToLower (TrimSpace s) = ''true''"

text \<open>\<open>^[a-zA-Z0-9_]+$\<close>\<close>

definition db_name_char :: "char \<Rightarrow> bool" where
  "db_name_char c \<longleftrightarrow> (let n = (of_char c :: int) in (97 \<le> n \<and> n \<le> 122) \<or> (65 \<le> n \<and> n \<le> 90) \<or> (48 \<le> n \<and> n \<le> 57) \<or> n = 95)"

definition validDbName :: "string \<Rightarrow> bool" where
  "validDbName s \<longleftrightarrow> s \<noteq> [] \<and> list_all db_name_char s"

definition TrimRightChar :: "char \<Rightarrow> string \<Rightarrow> string" where
  "TrimRightChar c s = rev (dropWhile (\<lambda>x. x = c) (rev s))"

definition atoi_or :: "string \<Rightarrow> int \<Rightarrow> int" where
  "atoi_or s fallback = (case Atoi s of Some n \<Rightarrow> n | None \<Rightarrow> fallback)"

text \<open>A panic is \<open>Inl\<close> with its message.\<close>

definition load :: "(nat \<Rightarrow> nat \<Rightarrow> nat \<Rightarrow> nat) \<Rightarrow> env \<Rightarrow> string + Config" where
  "load fl Getenv =
     (let port = (if Getenv ''PORT'' = [] then ''8080'' else Getenv ''PORT'');
          apiKey = first_key (Split (CHR '','') (Getenv ''API_KEY''));
          adminKey = first_key (Split (CHR '','') (Getenv ''ADMIN_KEY''));
          dbName = Getenv ''DATABASE_NAME''
      in if dbName = [] then Inl ''DATABASE_NAME environment variable is required''
         else if \<not> validDbName dbName then Inl ''invalid database name: must match regex ^[a-zA-Z0-9_]+$''
         else if Getenv ''DB_DSN'' = [] then Inl ''DB_DSN environment variable is required''
         else Inr
           \<lparr>cf_Port = port, cf_DSN = Getenv ''DB_DSN'', cf_Database = dbName, cf_APIKey = apiKey, cf_AdminKey = adminKey,
            cf_DashboardKey = Getenv ''DASHBOARD_KEY'',
            cf_LogLevel = ToLower (TrimSpace (envString Getenv ''LOG_LEVEL'' ''info'')),
            cf_LogFile = \<lparr>lc_Enabled = env_true (envString Getenv ''LOG_FILE_ENABLED'' ''true''),
              lc_Dir = envString Getenv ''LOG_DIR'' ''logs'', lc_RetentionDays = envInt Getenv ''LOG_RETENTION_DAYS'' 30\<rparr>,
            cf_MaxOpenConns = atoi_or (Getenv ''DB_MAX_OPEN_CONNS'') 30,
            cf_MaxIdleConns = atoi_or (Getenv ''DB_MAX_IDLE_CONNS'') 5,
            cf_ConnMaxLifetime = atoi_or (Getenv ''DB_CONN_MAX_LIFETIME'') 5,
            cf_UpdatesEnabled = env_true (Getenv ''UPDATES_ENABLED''),
            cf_UpdatesS3Prefix = TrimChar (CHR ''/'') (Getenv ''S3_UPDATES_PREFIX''),
            cf_UpdaterS3Prefix = TrimChar (CHR ''/'') (envString Getenv ''S3_UPDATER_PREFIX'' ''updater''),
            cf_ConfigUpstreamURL = TrimRightChar (CHR ''/'') (TrimSpace (Getenv ''CONFIG_UPSTREAM_URL'')),
            cf_ConfigUpstreamInterval = envDuration fl Getenv ''CONFIG_UPSTREAM_INTERVAL'' (5 * minute),
            cf_ConfigUpstreamAPIKey = envString Getenv ''CONFIG_UPSTREAM_API_KEY'' apiKey,
            cf_StatsStreamTickInterval = envDuration fl Getenv ''STATS_STREAM_TICK_INTERVAL'' (30 * second),
            cf_StatsCacheTTL = envDuration fl Getenv ''STATS_CACHE_TTL'' (30 * second),
            cf_EventsRetentionDays = envInt Getenv ''EVENTS_RETENTION_DAYS'' 30,
            cf_UseS3APIFileStorage = env_true (Getenv ''USE_S3_API_FILE_STORAGE''),
            cf_UseS3UpdatesStorage = env_true (Getenv ''USE_S3_UPDATES_STORAGE''),
            cf_RateLimit =
              \<lparr>rlc_UnauthMaxReqs = envInt Getenv ''RL_UNAUTH_MAX_REQS'' 10,
               rlc_UnauthWindow = envDuration fl Getenv ''RL_UNAUTH_WINDOW'' (5 * minute),
               rlc_UnauthMaxFails = envInt Getenv ''RL_UNAUTH_MAX_FAILS'' 5,
               rlc_UnauthBanDur = envDuration fl Getenv ''RL_UNAUTH_BAN_DUR'' (15 * minute),
               rlc_AuthMaxReqs = envInt Getenv ''RL_AUTH_MAX_REQS'' 100,
               rlc_AuthWindow = envDuration fl Getenv ''RL_AUTH_WINDOW'' minute,
               rlc_AuthMaxFails = envInt Getenv ''RL_AUTH_MAX_FAILS'' 20,
               rlc_AuthBanDur = envDuration fl Getenv ''RL_AUTH_BAN_DUR'' (5 * minute)\<rparr>,
            cf_S3APIFile =
              \<lparr>sc_AccountID = Getenv ''S3_API_FILE_ACCOUNT_ID'', sc_AccessKeyID = Getenv ''S3_API_FILE_ACCESS_KEY_ID'',
               sc_SecretAccessKey = Getenv ''S3_API_FILE_SECRET_ACCESS_KEY'', sc_BucketName = Getenv ''S3_API_FILE_BUCKET'',
               sc_Region = envString Getenv ''S3_API_FILE_REGION'' ''auto'', sc_Endpoint = Getenv ''S3_API_FILE_ENDPOINT''\<rparr>,
            cf_S3Updates =
              \<lparr>sc_AccountID = Getenv ''S3_UPDATES_ACCOUNT_ID'', sc_AccessKeyID = Getenv ''S3_UPDATES_ACCESS_KEY_ID'',
               sc_SecretAccessKey = Getenv ''S3_UPDATES_SECRET_ACCESS_KEY'', sc_BucketName = Getenv ''S3_UPDATES_BUCKET'',
               sc_Region = envString Getenv ''S3_UPDATES_REGION'' ''auto'', sc_Endpoint = Getenv ''S3_UPDATES_ENDPOINT''\<rparr>,
            cf_Otel = \<lparr>oc_Enabled = env_true (Getenv ''OTEL_ENABLED''), oc_Endpoint = envString Getenv ''OTEL_ENDPOINT'' ''http://localhost:4318''\<rparr>\<rparr>)"

text \<open>
  \<open>Load\<close> under its \<open>sync.Once\<close>: None before the first call, then the pointer that call left, which a panic leaves
  nil. The answer is the panic of the first call or the pointer.
\<close>

definition Load :: "(nat \<Rightarrow> nat \<Rightarrow> nat \<Rightarrow> nat) \<Rightarrow> env \<Rightarrow> Config ptr option \<Rightarrow> Config ptr option \<times> (string + Config ptr)" where
  "Load fl Getenv inst =
     (case inst of
        Some p \<Rightarrow> (Some p, Inr p)
      | None \<Rightarrow> (case load fl Getenv of
          Inl msg \<Rightarrow> (Some None, Inl msg)
        | Inr c \<Rightarrow> (Some (Some c), Inr (Some c))))"

section \<open>Durations and keys\<close>

lemma duration_sum_bound: "duration_sum fl d s = Some e \<Longrightarrow> d \<le> 2 ^ 63 \<Longrightarrow> e \<le> 2 ^ 63"
proof (induction fl d s rule: duration_sum.induct)
  case (1 fl d s)
  show ?case
  proof (cases "s = []")
    case True
    with "1.prems" show ?thesis by (simp add: duration_sum.simps)
  next
    case False
    with "1.prems"(1) obtain v t where p: "duration_part fl s = Some (v, t)"
      by (auto simp: duration_sum.simps [of fl d s] split: option.splits)
    with False "1.prems"(1) have le: "(d + v) mod 2 ^ 64 \<le> 2 ^ 63" and e: "duration_sum fl ((d + v) mod 2 ^ 64) t = Some e"
      by (auto simp: duration_sum.simps [of fl d s] Let_def split: if_splits)
    from le e show ?thesis using "1.IH" [OF False p refl refl] by simp
  qed
qed

lemma ParseDuration_range: "ParseDuration fl s = Some d \<Longrightarrow> int64_range d"
proof -
  assume p: "ParseDuration fl s = Some d"
  have b: "e \<le> 2 ^ 63" if "duration_sum fl 0 t = Some e" for t e using duration_sum_bound [OF that] by simp
  from p consider "d = 0" | e t where "duration_sum fl 0 t = Some e" "d = - int e"
    | e t where "duration_sum fl 0 t = Some e" "d = int e" "e \<le> 2 ^ 63 - 1"
    by (auto simp: ParseDuration_def Let_def split: if_splits option.splits)
  then show ?thesis
  proof cases
    case (2 e t)
    from b [OF 2(1)] have "int e \<le> 2 ^ 63" by simp
    with 2(2) show ?thesis by (simp add: int64_range_def)
  next
    case (3 e t)
    then have "int e < 2 ^ 63" by simp
    with 3(2) show ?thesis by (simp add: int64_range_def)
  qed (simp add: int64_range_def)
qed

lemma envDuration_range: "int64_range fallback \<Longrightarrow> int64_range (envDuration fl Getenv key fallback)"
  using ParseDuration_range by (auto simp: envDuration_def split: option.splits)

lemma set_TrimSpace: "set (TrimSpace s) \<subseteq> set s"
  by (auto simp: TrimSpace_def dest!: set_dropWhileD)

lemma first_key_cases: "first_key ks = [] \<or> (\<exists>k \<in> set ks. first_key ks = TrimSpace k)"
  by (induction ks) auto

lemma first_key_Nil: "first_key ks = [] \<longleftrightarrow> list_all (\<lambda>k. TrimSpace k = []) ks"
  by (induction ks) auto

text \<open>What every key of the configuration is: one entry of its list, without spaces around it.\<close>

definition clean_key :: "string \<Rightarrow> bool" where
  "clean_key k \<longleftrightarrow> CHR '','' \<notin> set k \<and> TrimSpace k = k"

lemma first_key_clean: "clean_key (first_key (Split (CHR '','') raw))"
proof (cases "first_key (Split (CHR '','') raw) = []")
  case True
  then show ?thesis by (simp add: clean_key_def TrimSpace_def)
next
  case False
  then obtain k where k: "k \<in> set (Split (CHR '','') raw)" "first_key (Split (CHR '','') raw) = TrimSpace k"
    using first_key_cases by blast
  from set_Split [OF k(1)] set_TrimSpace [of k] show ?thesis unfolding k(2) clean_key_def by auto
qed

section \<open>Properties\<close>


text \<open>Every duration of a configuration is a 64-bit number of nanoseconds, whatever text the environment holds.\<close>

theorem configured_durations_fit:
  assumes "load fl Getenv = Inr c"
  shows "list_all int64_range [cf_ConfigUpstreamInterval c, cf_StatsStreamTickInterval c, cf_StatsCacheTTL c,
    rlc_UnauthWindow (cf_RateLimit c), rlc_UnauthBanDur (cf_RateLimit c), rlc_AuthWindow (cf_RateLimit c), rlc_AuthBanDur (cf_RateLimit c)]"
proof -
  have f: "int64_range (5 * minute)" "int64_range (15 * minute)" "int64_range minute" "int64_range (30 * second)"
    by (simp_all add: int64_range_def)
  note r = envDuration_range [OF f(1)] envDuration_range [OF f(2)] envDuration_range [OF f(3)] envDuration_range [OF f(4)]
  from assms have
    "cf_ConfigUpstreamInterval c = envDuration fl Getenv ''CONFIG_UPSTREAM_INTERVAL'' (5 * minute)"
    "cf_StatsStreamTickInterval c = envDuration fl Getenv ''STATS_STREAM_TICK_INTERVAL'' (30 * second)"
    "cf_StatsCacheTTL c = envDuration fl Getenv ''STATS_CACHE_TTL'' (30 * second)"
    "rlc_UnauthWindow (cf_RateLimit c) = envDuration fl Getenv ''RL_UNAUTH_WINDOW'' (5 * minute)"
    "rlc_UnauthBanDur (cf_RateLimit c) = envDuration fl Getenv ''RL_UNAUTH_BAN_DUR'' (15 * minute)"
    "rlc_AuthWindow (cf_RateLimit c) = envDuration fl Getenv ''RL_AUTH_WINDOW'' minute"
    "rlc_AuthBanDur (cf_RateLimit c) = envDuration fl Getenv ''RL_AUTH_BAN_DUR'' (5 * minute)"
    by (auto simp: load_def Let_def split: if_splits)
  then show ?thesis using r by simp
qed

text \<open>Once loaded the configuration never changes, whatever becomes of the environment.\<close>

lemma Load_is_stable: "fst (Load fl Getenv inst) = Some p \<Longrightarrow> Load fl Getenv' (Some p) = (Some p, Inr p)"
  by (simp add: Load_def)

definition sample_env :: env where
  "sample_env v =
     (if v = ''DATABASE_NAME'' then ''emly'' else if v = ''DB_DSN'' then ''root@/emly''
      else if v = ''API_KEY'' then '' , k1,k2'' else if v = ''ADMIN_KEY'' then ''a1''
      else if v = ''STATS_CACHE_TTL'' then ''1h2m'' else [])"

lemma sample_load: "\<exists>c. load fl sample_env = Inr c \<and> cf_APIKey c = ''k1'' \<and> cf_AdminKey c = ''a1''"
proof -
  have "validDbName ''emly''" by (simp add: validDbName_def db_name_char_def)
  moreover have "first_key (Split (CHR '','') '' , k1,k2'') = ''k1''" "first_key (Split (CHR '','') ''a1'') = ''a1''" by code_simp+
  ultimately show ?thesis by (simp add: load_def sample_env_def Let_def)
qed

lemma sample_duration: "ParseDuration fl ''1h2m'' = Some (62 * minute)"
proof -
  have "duration_part fl ''1h2m'' = Some (3600 * 10 ^ 9, ''2m'')" "duration_part fl ''2m'' = Some (120 * 10 ^ 9, [])"
    by (simp_all add: duration_part_def is_digit_def digit_val_def unit_char_def unitMap_def Let_def)
  then show ?thesis by (simp add: ParseDuration_def Let_def duration_sum.simps)
qed


theorem configured_durations_fit_witness:
  "\<exists>c. load (\<lambda>f k u. f * u div 10 ^ k) sample_env = Inr c \<and> int64_range (cf_StatsCacheTTL c)"
proof -
  obtain c where "load (\<lambda>f k u. f * u div 10 ^ k) sample_env = Inr c" using sample_load by blast
  with configured_durations_fit [OF this] show ?thesis by auto
qed

end
