(* ===== verification/Access_Control.thy ===== *)
theory Access_Control
  imports App_Config Rate_Limiter Ban_List
begin

text \<open>
  Who reaches which handler: the key middlewares (\<open>middleware/adminKey.go\<close>, \<open>apikey.go\<close>), the route tables
  (\<open>internal/routes\<close> and the \<open>routes.go\<close> of each package) and the stacks \<open>main.go\<close> puts in front of them. A route is
  its method, its pattern, the middlewares a request passes from the outside in, and the name of its handler.
\<close>

section \<open>Key middlewares\<close>

text \<open>The middleware is built once, which panics without a key; then it lets a request pass or answers 401.\<close>

definition APIKeyAuth :: "Config \<Rightarrow> string + (request \<Rightarrow> bool)" where
  "APIKeyAuth cfg =
     (if cf_APIKey cfg = [] then Inl ''API key is empty''
      else let allowed = {cf_APIKey cfg} in Inr (\<lambda>r. r_Header r ''X-API-Key'' \<in> allowed))"

definition AdminKeyAuth :: "Config \<Rightarrow> string + (request \<Rightarrow> bool)" where
  "AdminKeyAuth cfg =
     (if cf_AdminKey cfg = [] then Inl ''admin key is empty''
      else let allowed = {cf_AdminKey cfg} in Inr (\<lambda>r. r_Header r ''X-Admin-Key'' \<in> allowed))"

section \<open>Routes\<close>

datatype limiter_id = RootLimiter | V1Limiter | V2Limiter

text \<open>\<open>Passive\<close>: a middleware that observes or decorates and always calls the next handler.\<close>

datatype mw = RealIP | Bans | Limiter limiter_id | RouteLimit | APIKey | AdminKey | Passive string

record route =
  rt_method :: string
  rt_path :: string
  rt_stack :: "mw list"
  rt_handler :: string

definition on :: "string \<Rightarrow> string \<Rightarrow> string \<Rightarrow> route list" where
  "on m path h = [\<lparr>rt_method = m, rt_path = path, rt_stack = [], rt_handler = h\<rparr>]"

abbreviation "Get \<equiv> on ''GET''"
abbreviation "Post \<equiv> on ''POST''"
abbreviation "Put \<equiv> on ''PUT''"
abbreviation "Patch \<equiv> on ''PATCH''"
abbreviation "Delete \<equiv> on ''DELETE''"

definition Use :: "mw \<Rightarrow> route list \<Rightarrow> route list" where
  "Use m rs = map (\<lambda>rt. rt\<lparr>rt_stack := m # rt_stack rt\<rparr>) rs"

definition Use_when :: "bool \<Rightarrow> mw \<Rightarrow> route list \<Rightarrow> route list" where
  "Use_when b m rs = (if b then Use m rs else rs)"

definition Route :: "string \<Rightarrow> route list \<Rightarrow> route list" where
  "Route pfx rs = map (\<lambda>rt. rt\<lparr>rt_path := pfx @ rt_path rt\<rparr>) rs"

definition v1_registerAdmin :: "route list" where
  "v1_registerAdmin = Route ''/admin'' (
     Route ''/auth'' (
       Use RouteLimit (Post ''/login'' ''admin.LoginUser'') @
       Get ''/validate'' ''admin.ValidateSession'' @
       Post ''/logout'' ''admin.LogoutSession'') @
     Route ''/users'' (Use RouteLimit (Use AdminKey (
       Get ''/'' ''admin.ListUsers'' @
       Post ''/'' ''admin.CreateUser'' @
       Get ''/{id}'' ''admin.GetUserByID'' @
       Patch ''/{id}'' ''admin.UpdateUser'' @
       Post ''/{id}/reset-password'' ''admin.ResetPassword'' @
       Delete ''/{id}'' ''admin.DeleteUser''))) @
     Route ''/bug-reports'' (Use APIKey (Use AdminKey (Use RouteLimit (
       Delete ''/{id}'' ''bugreports.DeleteBugReportByID'')))))"

text \<open>The bug-report routes, the same under both versions but for the prefix.\<close>

definition bugreports_group :: "route list" where
  "bugreports_group =
     Use APIKey (Use RouteLimit (
       Get ''/count'' ''bugreports.GetReportsCount'' @
       Post ''/'' ''bugreports.CreateBugReport'')) @
     Use APIKey (Use AdminKey (Use RouteLimit (
       Get ''/'' ''bugreports.GetAllBugReports'' @
       Get ''/{id}'' ''bugreports.GetBugReportByID'' @
       Get ''/{id}/status'' ''bugreports.GetReportStatusByID'' @
       Get ''/{id}/files'' ''bugreports.GetReportFilesByReportID'' @
       Get ''/{id}/files/{file_id}'' ''bugreports.GetReportFileByFileID'' @
       Get ''/{id}/download'' ''bugreports.GetBugReportZipByID'' @
       Patch ''/{id}/status'' ''bugreports.PatchBugReportStatus'' @
       Delete ''/{id}'' ''bugreports.DeleteBugReportByID'')))"

definition v1_registerBugReports :: "route list" where
  "v1_registerBugReports = Route ''/bug-reports'' bugreports_group"

definition bugreports_RegisterV2 :: "route list" where
  "bugreports_RegisterV2 = Route ''/bug-report'' bugreports_group"

definition v1_NewRouter :: "route list" where
  "v1_NewRouter = Use (Limiter V1Limiter) (Use (Passive ''DeprecationWarning'') (Use (Passive ''X-Server'') (
     Get ''/health'' ''health.Health'' @
     Route ''/api'' (v1_registerAdmin @ v1_registerBugReports))))"

definition admin_RegisterV2 :: "route list" where
  "admin_RegisterV2 = Route ''/admin'' (Use RouteLimit (
     Route ''/auth'' (
       Post ''/login'' ''admin.LoginUser'' @
       Get ''/validate'' ''admin.ValidateSession'' @
       Post ''/logout'' ''admin.LogoutSession'') @
     Route ''/users'' (Use AdminKey (
       Get ''/'' ''admin.ListUsers'' @
       Post ''/'' ''admin.CreateUser'' @
       Get ''/{id}'' ''admin.GetUserByID'' @
       Patch ''/{id}'' ''admin.UpdateUser'' @
       Post ''/{id}/reset-password'' ''admin.ResetPassword'' @
       Delete ''/{id}'' ''admin.DeleteUser''))))"

definition bans_RegisterV2 :: "route list" where
  "bans_RegisterV2 = Route ''/bans'' (Use AdminKey (Use RouteLimit (
     Get ''/'' ''bans.ListBans'' @
     Post ''/'' ''bans.CreateBan'' @
     Delete ''/{id}'' ''bans.DeleteBan'')))"

definition configapi_RegisterV2 :: "route list" where
  "configapi_RegisterV2 = Route ''/config'' (
     Use APIKey (Use RouteLimit (
       Get ''/'' ''configapi.GetConfig'')) @
     Use AdminKey (Use RouteLimit (
       Post ''/validate'' ''configapi.ValidateConfig'' @
       Post ''/preview'' ''configapi.PreviewConfig'' @
       Get ''/revisions'' ''configapi.ListConfigRevisions'' @
       Post ''/revisions'' ''configapi.CreateConfigRevision'' @
       Get ''/revisions/{revision}'' ''configapi.GetConfigRevision'' @
       Delete ''/revisions/{revision}'' ''configapi.DeleteConfigRevision'' @
       Post ''/revisions/{revision}/publish'' ''configapi.PublishConfigRevision'' @
       Post ''/rollback'' ''configapi.RollbackConfig'')))"

definition stats_RegisterV2 :: "route list" where
  "stats_RegisterV2 = Route ''/stats'' (
     Use AdminKey (Use RouteLimit (
       Get ''/summary'' ''stats.GetStatsSummary'' @
       Get ''/clients'' ''stats.ListStatsClients'' @
       Get ''/clients/{id}'' ''stats.GetStatsClientDetail'' @
       Get ''/events'' ''stats.GetStatsEvents'')) @
     Use RouteLimit (Get ''/stream'' ''stats.StatsStream''))"

definition updates_RegisterV2 :: "route list" where
  "updates_RegisterV2 = Route ''/updates'' (
     Use RouteLimit (
       Get ''/manifest'' ''updates.GetUpdateManifest'' @
       Get ''/releases/{version}/download'' ''updates.DownloadRelease'') @
     Use AdminKey (Use RouteLimit (
       Get ''/releases'' ''updates.ListReleases'' @
       Post ''/releases'' ''updates.CreateRelease'' @
       Put ''/releases/{version}'' ''updates.PutRelease'' @
       Patch ''/releases/{version}'' ''updates.PatchRelease'' @
       Delete ''/releases/{version}'' ''updates.DeleteRelease'' @
       Patch ''/releases/{version}/channel'' ''updates.PatchReleaseChannels'')) @
     Use APIKey (Use RouteLimit (
       Get ''/manifest/updater'' ''updates.GetUpdaterManifest'')) @
     Use RouteLimit (
       Get ''/download/updater/{version}'' ''updates.DownloadUpdater'') @
     Use AdminKey (Use RouteLimit (
       Get ''/updater/releases'' ''updates.ListUpdaterReleases'' @
       Post ''/updater/releases'' ''updates.CreateUpdaterRelease'' @
       Patch ''/updater/releases/{version}'' ''updates.PatchUpdaterRelease'' @
       Delete ''/updater/releases/{version}'' ''updates.DeleteUpdaterRelease'')))"

definition clientws_RegisterV2 :: "route list" where
  "clientws_RegisterV2 = Route ''/client'' (Use APIKey (Use RouteLimit (Get ''/ws'' ''clientws.ClientWS'')))"

definition v2_NewRouter :: "route list" where
  "v2_NewRouter = Use (Limiter V2Limiter) (Use (Passive ''X-Server'') (
     Get ''/health'' ''health.HealthWithConfigMirror'' @
     updates_RegisterV2 @ stats_RegisterV2 @ configapi_RegisterV2 @ bans_RegisterV2 @ clientws_RegisterV2 @
     Route ''/api'' (admin_RegisterV2 @ bugreports_RegisterV2)))"

definition RegisterAll :: "route list" where
  "RegisterAll =
     Get ''/'' ''root'' @
     Route ''/v1'' v1_NewRouter @ Route ''/v2'' v2_NewRouter @
     Get ''/health'' ''health.Health'' @
     Use (Passive ''DeprecationWarning'') (Use RouteLimit (Use APIKey (Post ''/api/bug-reports'' ''bugreports.CreateBugReport'')))"

section \<open>The server\<close>

text \<open>The two WebSocket paths, with the stacks \<open>main.go\<close> wraps around their handlers.\<close>

definition ws_routes :: "route list" where
  "ws_routes =
     Use (Passive ''RequestID'') (Use RealIP (Use (Passive ''Recoverer'') (Use Bans (Use (Limiter RootLimiter) (
       Use RouteLimit (Get ''/v2/stats/stream'' ''stats.StatsStream'')))))) @
     Use (Passive ''RequestID'') (Use RealIP (Use (Passive ''Recoverer'') (Use Bans (Use (Limiter RootLimiter) (
       Use APIKey (Use RouteLimit (Get ''/v2/client/ws'' ''clientws.ClientWS'')))))))"

text \<open>The router and its middlewares; the mux sends the two WebSocket paths elsewhere.\<close>

definition router_routes :: "bool \<Rightarrow> route list" where
  "router_routes otel =
     Use (Passive ''RequestID'') (Use RealIP (Use (Passive ''AccessLog'') (Use (Passive ''Recoverer'') (
       Use (Passive ''Timeout'') (Use (Passive ''Timing'') (
         Use_when otel (Passive ''otelhttp'') (Use Bans (Use (Limiter RootLimiter) RegisterAll))))))))"

definition served_routes :: "bool \<Rightarrow> route list" where
  "served_routes otel = ws_routes @ filter (\<lambda>rt. rt_path rt \<notin> set (map rt_path ws_routes)) (router_routes otel)"

section \<open>A request in a stack\<close>

record gate =
  g_bans :: ban_list
  g_root :: rate_limiter
  g_v1 :: rate_limiter
  g_v2 :: rate_limiter

datatype verdict = Reached request | ForbiddenBy ban | Limited limiter_reply | RouteLimited | Unauthorized string

definition limiter_of :: "limiter_id \<Rightarrow> gate \<Rightarrow> rate_limiter" where
  "limiter_of i g = (case i of RootLimiter \<Rightarrow> g_root g | V1Limiter \<Rightarrow> g_v1 g | V2Limiter \<Rightarrow> g_v2 g)"

definition set_limiter :: "limiter_id \<Rightarrow> rate_limiter \<Rightarrow> gate \<Rightarrow> gate" where
  "set_limiter i rl g = (case i of RootLimiter \<Rightarrow> g\<lparr>g_root := rl\<rparr> | V1Limiter \<Rightarrow> g\<lparr>g_v1 := rl\<rparr> | V2Limiter \<Rightarrow> g\<lparr>g_v2 := rl\<rparr>)"

text \<open>
  Third-party middlewares are parameters: \<open>realip\<close> rewrites the remote address, \<open>budget\<close> says whether httprate lets the
  request pass. \<open>now\<close> is the clock. Keys are those of the configuration the middlewares were built with.
\<close>

fun run_stack ::
  "Config \<Rightarrow> (request \<Rightarrow> request) \<Rightarrow> (request \<Rightarrow> bool) \<Rightarrow> gotime \<Rightarrow> mw list \<Rightarrow> request \<Rightarrow> gate \<Rightarrow> gate \<times> verdict" where
  "run_stack cfg realip budget now [] r g = (g, Reached r)"
| "run_stack cfg realip budget now (RealIP # ms) r g = run_stack cfg realip budget now ms (realip r) g"
| "run_stack cfg realip budget now (Passive n # ms) r g = run_stack cfg realip budget now ms r g"
| "run_stack cfg realip budget now (Bans # ms) r g =
     (case ban_Handler (g_bans g) r of
        Forbidden b \<Rightarrow> (g, ForbiddenBy b)
      | Allowed \<Rightarrow> run_stack cfg realip budget now ms r g)"
| "run_stack cfg realip budget now (Limiter i # ms) r g =
     (case limiter_Handler now now now now r (limiter_of i g) of
        (rl, PassOn) \<Rightarrow> run_stack cfg realip budget now ms r (set_limiter i rl g)
      | (rl, reply) \<Rightarrow> (set_limiter i rl g, Limited reply))"
| "run_stack cfg realip budget now (RouteLimit # ms) r g =
     routeLimitByIP (cf_DashboardKey cfg)
       (\<lambda>r. if budget r then run_stack cfg realip budget now ms r g else (g, RouteLimited))
       (\<lambda>r. run_stack cfg realip budget now ms r g) r"
| "run_stack cfg realip budget now (APIKey # ms) r g =
     (case APIKeyAuth cfg of
        Inr pass \<Rightarrow> if pass r then run_stack cfg realip budget now ms r g else (g, Unauthorized ''unauthorized'')
      | Inl _ \<Rightarrow> (g, Unauthorized ''unauthorized''))"
| "run_stack cfg realip budget now (AdminKey # ms) r g =
     (case AdminKeyAuth cfg of
        Inr pass \<Rightarrow> if pass r then run_stack cfg realip budget now ms r g else (g, Unauthorized ''unauthorized admin key'')
      | Inl _ \<Rightarrow> (g, Unauthorized ''unauthorized admin key''))"

section \<open>Starting\<close>

text \<open>\<open>NewRateLimiter\<close> and \<open>NewBanList\<close> with the values of the configuration.\<close>

definition new_limiter :: "Config \<Rightarrow> rate_limiter" where
  "new_limiter cfg = (let rl = cf_RateLimit cfg in NewRateLimiter
     \<lparr>maxReqs = rlc_UnauthMaxReqs rl, window = rlc_UnauthWindow rl, maxFails = rlc_UnauthMaxFails rl, banDur = rlc_UnauthBanDur rl\<rparr>
     \<lparr>maxReqs = rlc_AuthMaxReqs rl, window = rlc_AuthWindow rl, maxFails = rlc_AuthMaxFails rl, banDur = rlc_AuthBanDur rl\<rparr>
     (cf_DashboardKey cfg))"

definition new_gate :: "Config \<Rightarrow> bool \<Rightarrow> bans \<Rightarrow> gate" where
  "new_gate cfg fails rows =
     \<lparr>g_bans = NewBanList fails rows (cf_AdminKey cfg), g_root = new_limiter cfg, g_v1 = new_limiter cfg, g_v2 = new_limiter cfg\<rparr>"

text \<open>Mounting builds the middlewares of every route in order; the first one without its key panics.\<close>

fun key_panic :: "Config \<Rightarrow> mw \<Rightarrow> string option" where
  "key_panic cfg APIKey = (case APIKeyAuth cfg of Inl e \<Rightarrow> Some e | Inr _ \<Rightarrow> None)"
| "key_panic cfg AdminKey = (case AdminKeyAuth cfg of Inl e \<Rightarrow> Some e | Inr _ \<Rightarrow> None)"
| "key_panic cfg _ = None"

definition start_server :: "Config \<Rightarrow> string + route list" where
  "start_server cfg =
     (case List.map_filter (key_panic cfg) (concat (map rt_stack (RegisterAll @ ws_routes))) of
        e # _ \<Rightarrow> Inl e
      | [] \<Rightarrow> Inr (served_routes (oc_Enabled (cf_Otel cfg))))"

section \<open>What a stack lets through\<close>

lemma run_stack_reached:
  assumes "run_stack cfg realip budget now ms r g = (g', Reached r')"
    and "\<forall>r. r_Header (realip r) = r_Header r"
  shows "r_Header r' = r_Header r \<and>
    (APIKey \<in> set ms \<longrightarrow> cf_APIKey cfg \<noteq> [] \<and> r_Header r ''X-API-Key'' = cf_APIKey cfg) \<and>
    (AdminKey \<in> set ms \<longrightarrow> cf_AdminKey cfg \<noteq> [] \<and> r_Header r ''X-Admin-Key'' = cf_AdminKey cfg)"
  using assms
proof (induction cfg realip budget now ms r g rule: run_stack.induct)
  case (4 cfg realip budget now ms r g)
  then show ?case by (auto split: ban_reply.splits)
next
  case (5 cfg realip budget now i ms r g)
  then show ?case by (auto split: prod.splits limiter_reply.splits)
next
  case (6 cfg realip budget now ms r g)
  then show ?case by (auto simp: routeLimitByIP_def split: if_splits)
next
  case (7 cfg realip budget now ms r g)
  then show ?case by (auto simp: APIKeyAuth_def split: if_splits)
next
  case (8 cfg realip budget now ms r g)
  then show ?case by (auto simp: AdminKeyAuth_def split: if_splits)
qed auto

text \<open>The request as the ban check sees it, when nothing before it answers or changes the gate.\<close>

fun at_bans :: "(request \<Rightarrow> request) \<Rightarrow> mw list \<Rightarrow> request \<Rightarrow> request option" where
  "at_bans realip (Bans # ms) r = Some r"
| "at_bans realip (RealIP # ms) r = at_bans realip ms (realip r)"
| "at_bans realip (Passive n # ms) r = at_bans realip ms r"
| "at_bans realip _ r = None"

lemma run_stack_banned:
  "at_bans realip ms r = Some r1 \<Longrightarrow> ban_Handler (g_bans g) r1 = Forbidden b \<Longrightarrow>
     run_stack cfg realip budget now ms r g = (g, ForbiddenBy b)"
  by (induction realip ms r rule: at_bans.induct) auto

section \<open>The table\<close>

definition public_handlers :: "string list" where
  "public_handlers =
     [''root'', ''health.Health'', ''health.HealthWithConfigMirror'', ''admin.LoginUser'', ''admin.ValidateSession'',
      ''admin.LogoutSession'', ''updates.GetUpdateManifest'', ''updates.DownloadRelease'', ''updates.DownloadUpdater'',
      ''stats.StatsStream'']"

definition client_handlers :: "string list" where
  "client_handlers =
     [''configapi.GetConfig'', ''updates.GetUpdaterManifest'', ''clientws.ClientWS'', ''bugreports.CreateBugReport'',
      ''bugreports.GetReportsCount'']"

text \<open>Public, behind the API key, or else behind the admin key.\<close>

definition guarded :: "route \<Rightarrow> bool" where
  "guarded rt \<longleftrightarrow> rt_handler rt \<in> set public_handlers \<or>
     (if rt_handler rt \<in> set client_handlers then APIKey \<in> set (rt_stack rt) else AdminKey \<in> set (rt_stack rt))"

lemma guarded_Use: "list_all guarded rs \<Longrightarrow> list_all guarded (Use m rs)"
  by (auto simp: guarded_def Use_def list_all_iff)

lemma RegisterAll_guarded: "list_all guarded RegisterAll"
  by code_simp

lemma ws_guarded: "list_all guarded ws_routes"
  by code_simp

lemma served_guarded: "rt \<in> set (served_routes otel) \<Longrightarrow> guarded rt"
proof -
  have "list_all guarded (router_routes otel)"
    using RegisterAll_guarded by (auto simp: router_routes_def Use_when_def intro!: guarded_Use)
  then show "rt \<in> set (served_routes otel) \<Longrightarrow> guarded rt"
    using ws_guarded by (auto simp: served_routes_def list_all_iff)
qed

text \<open>Every stack is \<open>RealIP\<close> among middlewares that only observe, the ban check, the root limiter, and the rest.\<close>

definition behind_root :: "mw list \<Rightarrow> mw list \<Rightarrow> bool" where
  "behind_root ms rest \<longleftrightarrow> Limiter RootLimiter \<notin> set rest \<and>
     (\<forall>cfg realip budget now r g. run_stack cfg realip budget now ms r g =
        run_stack cfg realip budget now (Bans # Limiter RootLimiter # rest) (realip r) g)"

lemma RegisterAll_no_root: "list_all (\<lambda>rt. Limiter RootLimiter \<notin> set (rt_stack rt)) RegisterAll"
  by code_simp

lemma router_behind_root:
  assumes "rt \<in> set (router_routes otel)"
  shows "\<exists>rest. behind_root (rt_stack rt) rest"
proof -
  from assms obtain rt0 where rt0: "rt0 \<in> set RegisterAll" and stack: "\<exists>pre post. rt_stack rt =
      Passive ''RequestID'' # RealIP # pre @ Bans # Limiter RootLimiter # rt_stack rt0 \<and> set pre \<subseteq> range Passive"
    by (cases otel) (fastforce simp: router_routes_def Use_when_def Use_def)+
  have skip: "set pre \<subseteq> range Passive \<Longrightarrow> run_stack cfg realip budget now (pre @ ms) r g = run_stack cfg realip budget now ms r g"
    for pre cfg realip budget now ms r g by (induction pre) auto
  from rt0 RegisterAll_no_root have "Limiter RootLimiter \<notin> set (rt_stack rt0)" by (simp add: list_all_iff)
  with stack skip show ?thesis unfolding behind_root_def by (intro exI [of _ "rt_stack rt0"]) auto
qed

lemma ws_behind_root: "rt \<in> set ws_routes \<Longrightarrow> \<exists>rest. behind_root (rt_stack rt) rest"
  unfolding behind_root_def
  by (intro exI [of _ "tl (tl (tl (tl (tl (rt_stack rt)))))"]) (auto simp: ws_routes_def Use_def on_def split: ban_reply.splits)

lemma served_behind_root: "rt \<in> set (served_routes otel) \<Longrightarrow> \<exists>rest. behind_root (rt_stack rt) rest"
  using ws_behind_root router_behind_root by (auto simp: served_routes_def)

lemma run_stack_root:
  "Limiter RootLimiter \<notin> set ms \<Longrightarrow> run_stack cfg realip budget now ms r g = (g', v) \<Longrightarrow>
     g_root g' = g_root g \<and> g_bans g' = g_bans g"
proof (induction cfg realip budget now ms r g rule: run_stack.induct)
  case (5 cfg realip budget now i ms r g)
  then have "i \<noteq> RootLimiter" by auto
  then have "g_root (set_limiter i rl g) = g_root g" "g_bans (set_limiter i rl g) = g_bans g" for rl
    by (cases i; simp add: set_limiter_def)+
  with 5 show ?case by (auto split: prod.splits limiter_reply.splits)
qed (auto simp: routeLimitByIP_def split: ban_reply.splits if_splits sum.splits)

section \<open>The budget of the server\<close>

text \<open>
  What arrives at a running server: requests, each at a route of the table with the budget the per-route limiters
  have left, and ticks of the root limiter's cleanup. \<open>answered\<close> counts the requests of an address in a tier that
  reach a handler at times from \<open>lo\<close> up to but not including \<open>hi\<close>, those with the dashboard's key aside.
\<close>

datatype arrival = Arrival gotime route request "request \<Rightarrow> bool" | Cleanup gotime

fun arrival_time :: "arrival \<Rightarrow> gotime" where
  "arrival_time (Arrival t rt r budget) = t"
| "arrival_time (Cleanup t) = t"

fun reaches :: "verdict \<Rightarrow> bool" where
  "reaches (Reached r) \<longleftrightarrow> True"
| "reaches _ \<longleftrightarrow> False"

fun serve :: "Config \<Rightarrow> (request \<Rightarrow> request) \<Rightarrow> arrival \<Rightarrow> gate \<Rightarrow> gate \<times> bool" where
  "serve cfg realip (Arrival t rt r budget) g = (case run_stack cfg realip budget t (rt_stack rt) r g of (g', v) \<Rightarrow> (g', reaches v))"
| "serve cfg realip (Cleanup t) g = (g\<lparr>g_root := cleanup t t (g_root g)\<rparr>, False)"

fun counted :: "(request \<Rightarrow> request) \<Rightarrow> string \<Rightarrow> bool \<Rightarrow> gate \<Rightarrow> arrival \<Rightarrow> bool" where
  "counted realip ip auth g (Arrival t rt r budget) \<longleftrightarrow>
     getIP (realip r) = ip \<and> isAuthenticated (realip r) = auth \<and> \<not> has_dashboard_key (g_root g) (realip r)"
| "counted realip ip auth g (Cleanup t) \<longleftrightarrow> False"

fun answered :: "Config \<Rightarrow> (request \<Rightarrow> request) \<Rightarrow> string \<Rightarrow> bool \<Rightarrow> gotime \<Rightarrow> gotime \<Rightarrow> arrival list \<Rightarrow> gate \<Rightarrow> int" where
  "answered cfg realip ip auth lo hi [] g = 0"
| "answered cfg realip ip auth lo hi (e # es) g =
     (case serve cfg realip e g of (g', reached) \<Rightarrow>
       (if counted realip ip auth g e \<and> reached \<and> lo \<le> arrival_time e \<and> arrival_time e < hi then 1 else 0)
       + answered cfg realip ip auth lo hi es g')"

text \<open>The root limiter sees every arrival that the ban list does not stop.\<close>

fun at_root :: "(request \<Rightarrow> request) \<Rightarrow> gate \<Rightarrow> arrival \<Rightarrow> limiter_event list" where
  "at_root realip g (Arrival t rt r budget) =
     (case ban_Handler (g_bans g) (realip r) of Allowed \<Rightarrow> [Request t (realip r)] | Forbidden _ \<Rightarrow> [])"
| "at_root realip g (Cleanup t) = [Tick t]"

definition on_table :: "bool \<Rightarrow> arrival \<Rightarrow> bool" where
  "on_table otel e \<longleftrightarrow> (case e of Arrival t rt r budget \<Rightarrow> rt \<in> set (served_routes otel) | Cleanup t \<Rightarrow> True)"

lemma serve_root:
  assumes "serve cfg realip e g = (g', reached)" "on_table otel e"
  shows "g_bans g' = g_bans g \<and> g_root g' = limiter_run (at_root realip g e) (g_root g) \<and>
    (reached \<longrightarrow> (\<exists>ev. at_root realip g e = [ev] \<and> snd (limiter_step ev (g_root g)) = Some PassOn \<and> event_time ev = arrival_time e \<and>
       (counted realip ip auth g e \<longleftrightarrow> from_visitor ip auth (g_root g) ev)))"
proof (cases e)
  case (Cleanup t)
  with assms(1) show ?thesis by auto
next
  case (Arrival t rt r budget)
  with assms(2) obtain rest where rest: "Limiter RootLimiter \<notin> set rest" "run_stack cfg realip budget t (rt_stack rt) r g =
      run_stack cfg realip budget t (Bans # Limiter RootLimiter # rest) (realip r) g"
    using served_behind_root [of rt otel] unfolding behind_root_def on_table_def by auto
  obtain v where v: "run_stack cfg realip budget t (Bans # Limiter RootLimiter # rest) (realip r) g = (g', v)" "reached = reaches v"
    using assms(1) rest(2) Arrival by (auto split: prod.splits)
  obtain rl reply where h: "limiter_Handler t t t t (realip r) (g_root g) = (rl, reply)" by fastforce
  show ?thesis
  proof (cases "ban_Handler (g_bans g) (realip r)")
    case Allowed
    show ?thesis
    proof (cases "reply = PassOn")
      case True
      with v(1) Allowed h have "run_stack cfg realip budget t rest (realip r) (set_limiter RootLimiter rl g) = (g', v)"
        by (simp add: limiter_of_def)
      from run_stack_root [OF rest(1) this] show ?thesis
        using Allowed Arrival True h by (simp add: set_limiter_def)
    next
      case False
      with v(1) Allowed h have "g' = set_limiter RootLimiter rl g" "v = Limited reply"
        by (auto simp: limiter_of_def split: limiter_reply.splits)
      with v(2) Allowed Arrival h show ?thesis by (simp add: set_limiter_def)
    qed
  next
    case (Forbidden b)
    with v Arrival show ?thesis by auto
  qed
qed

lemma answered_passed:
  assumes "list_all (on_table otel) es"
  shows "\<exists>evs. answered cfg realip ip auth lo hi es g \<le> passed ip auth lo hi evs (g_root g) \<and>
    (\<forall>T. sorted (T # map arrival_time es) \<longrightarrow> sorted (T # map event_time evs))"
  using assms
proof (induction es arbitrary: g)
  case Nil
  show ?case by (intro exI [of _ "[]"]) simp
next
  case (Cons e es)
  obtain g' reached where s: "serve cfg realip e g = (g', reached)" by fastforce
  have "list_all (on_table otel) es" using Cons.prems by simp
  from Cons.IH [OF this, of g'] obtain evs where evs: "answered cfg realip ip auth lo hi es g' \<le> passed ip auth lo hi evs (g_root g')"
    "\<forall>T. sorted (T # map arrival_time es) \<longrightarrow> sorted (T # map event_time evs)" by (elim exE conjE) (rule that)
  have "on_table otel e" using Cons.prems by simp
  note r = serve_root [OF s this, of ip auth]
  show ?case
  proof (cases "at_root realip g e")
    case Nil
    with r s evs show ?thesis by (intro exI [of _ evs]) auto
  next
    case (Cons ev tail)
    then have ev: "at_root realip g e = [ev]" "event_time ev = arrival_time e"
      by (cases e; auto split: ban_reply.splits)+
    have "answered cfg realip ip auth lo hi (e # es) g \<le> passed ip auth lo hi (ev # evs) (g_root g)"
      using r s evs(1) ev by (auto simp: case_prod_unfold Let_def)
    moreover have "sorted (T # map arrival_time (e # es)) \<Longrightarrow> sorted (T # map event_time (ev # evs))" for T
      using evs(2) [rule_format, of "arrival_time e"] ev(2) by auto
    ultimately show ?thesis by blast
  qed
qed

section \<open>Properties\<close>

lemma start_server_keys:
  assumes "start_server cfg = Inr rs"
  shows "cf_APIKey cfg \<noteq> [] \<and> cf_AdminKey cfg \<noteq> [] \<and> rs = served_routes (oc_Enabled (cf_Otel cfg))"
proof -
  have mem: "APIKey \<in> set (concat (map rt_stack RegisterAll))" "AdminKey \<in> set (concat (map rt_stack RegisterAll))"
    by code_simp+
  from assms have none: "List.map_filter (key_panic cfg) (concat (map rt_stack (RegisterAll @ ws_routes))) = []"
    and rs: "rs = served_routes (oc_Enabled (cf_Otel cfg))"
    by (auto simp: start_server_def split: list.splits)
  have quiet: "key_panic cfg m = None" if "m \<in> set (concat (map rt_stack RegisterAll))" for m
    using none that by (auto simp: map_filter_def filter_empty_conv)
  from quiet [OF mem(1)] quiet [OF mem(2)] rs show ?thesis
    by (auto simp: APIKeyAuth_def AdminKeyAuth_def Let_def split: if_splits)
qed

text \<open>C29: a server that started has both keys, and a request reaches the handler of a route, on any path to it, only with
  the key that handler needs: every handler outside the ten public ones and the five for clients is reached only with
  the admin key, and those five only with the API key. Without both keys configured the server does not start.\<close>

theorem keys_guard_every_handler:
  assumes "start_server cfg = Inr rs" and "rt \<in> set rs" and "\<forall>r. r_Header (realip r) = r_Header r"
    and "run_stack cfg realip budget now (rt_stack rt) r g = (g', Reached r')"
  shows "cf_APIKey cfg \<noteq> [] \<and> cf_AdminKey cfg \<noteq> [] \<and>
    (rt_handler rt \<in> set public_handlers \<or>
     (if rt_handler rt \<in> set client_handlers then r_Header r ''X-API-Key'' = cf_APIKey cfg
      else r_Header r ''X-Admin-Key'' = cf_AdminKey cfg))"
proof -
  note k = start_server_keys [OF assms(1)]
  from k assms(2) have "guarded rt" using served_guarded by simp
  with run_stack_reached [OF assms(4,3)] k show ?thesis by (auto simp: guarded_def split: if_splits)
qed

text \<open>Whatever route it asks for, a request that the ban list refuses is answered by the ban list, and no limiter,
  key check or handler sees it.\<close>

theorem ban_stops_every_route:
  assumes "rt \<in> set (served_routes otel)" and "ban_Handler (g_bans g) (realip r) = Forbidden b"
  shows "run_stack cfg realip budget now (rt_stack rt) r g = (g, ForbiddenBy b)"
proof -
  from served_behind_root [OF assms(1)] obtain rest where
    "run_stack cfg realip budget now (rt_stack rt) r g = run_stack cfg realip budget now (Bans # Limiter RootLimiter # rest) (realip r) g"
    unfolding behind_root_def by blast
  with assms(2) show ?thesis by simp
qed

text \<open>C30: over all routes together, in any span of one window at most \<open>2 * maxReqs - 1\<close> requests of one public address
  in one tier reach a handler (those with the dashboard's key aside), the two WebSocket paths included.\<close>

theorem server_budget_per_window:
  assumes "list_all (on_table otel) es" and "sorted (map arrival_time es)" and "\<not> isPrivateIP ip"
  shows "answered cfg realip ip auth lo (lo + window (cfg_of auth (new_limiter cfg))) es (new_gate cfg fails rows)
    \<le> max 0 (2 * maxReqs (cfg_of auth (new_limiter cfg)) - 1)"
proof -
  obtain T where T: "sorted (T # map arrival_time es)"
    using assms(2) by (cases es) (auto intro: that [of 0] that [of "arrival_time (hd es)"])
  obtain evs where evs: "answered cfg realip ip auth lo (lo + window (cfg_of auth (new_limiter cfg))) es (new_gate cfg fails rows)
      \<le> passed ip auth lo (lo + window (cfg_of auth (new_limiter cfg))) evs (new_limiter cfg)" "sorted (T # map event_time evs)"
    using answered_passed [OF assms(1), of cfg realip ip auth lo "lo + window (cfg_of auth (new_limiter cfg))" "new_gate cfg fails rows"] T
    by (auto simp: new_gate_def)
  have "entry_ok T (visitors_of auth (new_limiter cfg) ip)"
    by (simp add: entry_ok_def visitors_of_def new_limiter_def NewRateLimiter_def Let_def)
  from passed_bound [OF this _ _ assms(3), of evs lo] evs show ?thesis by auto
qed

section \<open>Samples\<close>

text \<open>The configuration of the sample environment, and a request with its admin key from a private address.\<close>

lemma sample_configuration:
  "\<exists>c. load fl sample_env = Inr c \<and> cf_APIKey c = ''k1'' \<and> cf_AdminKey c = ''a1'' \<and> cf_DashboardKey c = [] \<and>
     \<not> oc_Enabled (cf_Otel c) \<and> rlc_UnauthMaxReqs (cf_RateLimit c) = 10 \<and> rlc_UnauthWindow (cf_RateLimit c) = 5 * minute \<and>
     \<not> cf_UseS3APIFileStorage c \<and> \<not> cf_UseS3UpdatesStorage c \<and> cf_ConfigUpstreamURL c = []"
proof -
  have "validDbName ''emly''" by (simp add: validDbName_def db_name_char_def)
  moreover have "first_key (Split (CHR '','') '' , k1,k2'') = ''k1''" "first_key (Split (CHR '','') ''a1'') = ''a1''" by code_simp+
  moreover have "\<not> env_true []" by (simp add: env_true_def TrimSpace_def ToLower_def)
  ultimately show ?thesis by (simp add: load_def sample_env_def Let_def envInt_def envDuration_def TrimRightChar_def TrimSpace_def)
qed

lemma sample_start: "cf_APIKey c = ''k1'' \<Longrightarrow> cf_AdminKey c = ''a1'' \<Longrightarrow> \<not> oc_Enabled (cf_Otel c) \<Longrightarrow> start_server c = Inr (served_routes False)"
proof -
  assume c: "cf_APIKey c = ''k1''" "cf_AdminKey c = ''a1''" "\<not> oc_Enabled (cf_Otel c)"
  have "key_panic c m = None" for m using c by (cases m) (auto simp: APIKeyAuth_def AdminKeyAuth_def Let_def)
  then have "List.map_filter (key_panic c) ms = []" for ms by (simp add: map_filter_def filter_empty_conv)
  with c(3) show ?thesis by (simp add: start_server_def)
qed

definition admin_key_request :: request where
  "admin_key_request = \<lparr>r_Header = (\<lambda>h. if h = ''X-Admin-Key'' then ''a1'' else []), r_RemoteAddr = ''10.0.0.1:80''\<rparr>"

definition list_bans_route :: route where
  "list_bans_route = \<lparr>rt_method = ''GET'', rt_path = ''/v2/bans/'',
     rt_stack = [Passive ''RequestID'', RealIP, Passive ''AccessLog'', Passive ''Recoverer'', Passive ''Timeout'', Passive ''Timing'',
       Bans, Limiter RootLimiter, Limiter V2Limiter, Passive ''X-Server'', AdminKey, RouteLimit], rt_handler = ''bans.ListBans''\<rparr>"

lemma list_bans_served: "list_bans_route \<in> set (served_routes False)"
  by code_simp

lemma set_limiter_id: "set_limiter i (limiter_of i g) g = g"
  by (cases i) (simp_all add: set_limiter_def limiter_of_def)

lemma private_passes: "isPrivateIP (getIP r) \<Longrightarrow> limiter_Handler t c n t3 r rl = (rl, PassOn)"
  by (simp add: limiter_Handler_def Let_def)

lemma list_bans_reached:
  assumes "cf_AdminKey c = ''a1''" "cf_DashboardKey c = []" "g = new_gate c True []"
  shows "run_stack c id (\<lambda>_. True) 0 (rt_stack list_bans_route) admin_key_request g = (g, Reached admin_key_request)"
proof -
  have "isPrivateIP (getIP admin_key_request)" by code_simp
  note p = private_passes [OF this]
  have "ban_Handler (g_bans g) admin_key_request = Allowed"
    using assms by (simp add: new_gate_def ban_Handler_def NewBanList_def Reload_def admin_key_request_def)
  then show ?thesis using assms(1,2)
    by (simp add: list_bans_route_def p set_limiter_id routeLimitByIP_def AdminKeyAuth_def) (simp add: admin_key_request_def)
qed

theorem keys_guard_every_handler_witness:
  "\<exists>c. load (\<lambda>_ _ _. 0) sample_env = Inr c \<and> cf_AdminKey c \<noteq> [] \<and> r_Header admin_key_request ''X-Admin-Key'' = cf_AdminKey c"
proof -
  obtain c where c: "load (\<lambda>_ _ _. 0) sample_env = Inr c" "cf_APIKey c = ''k1''" "cf_AdminKey c = ''a1''" "cf_DashboardKey c = []"
    "\<not> oc_Enabled (cf_Otel c)" using sample_configuration by blast
  have h: "rt_handler list_bans_route \<notin> set public_handlers" "rt_handler list_bans_route \<notin> set client_handlers" by code_simp+
  have "\<forall>r. r_Header (id r) = r_Header r" by simp
  from keys_guard_every_handler [OF sample_start [OF c(2,3,5)] list_bans_served this list_bans_reached [OF c(3,4) refl]] h c(1)
  show ?thesis by auto
qed

theorem ban_stops_every_route_witness:
  "run_stack cfg id budget 0 (rt_stack list_bans_route) banned_request
     \<lparr>g_bans = NewBanList False [sample_ban] ''k'', g_root = rl, g_v1 = rl, g_v2 = rl\<rparr>
   = (\<lparr>g_bans = NewBanList False [sample_ban] ''k'', g_root = rl, g_v1 = rl, g_v2 = rl\<rparr>, ForbiddenBy sample_ban)"
proof -
  have "ban_Handler (NewBanList False [sample_ban] ''k'') banned_request = Forbidden sample_ban" by code_simp
  then show ?thesis by (intro ban_stops_every_route [OF list_bans_served]) simp
qed

theorem server_budget_per_window_witness:
  "\<exists>c. load (\<lambda>_ _ _. 0) sample_env = Inr c \<and>
     answered c id ''8.8.8.8'' False 0 (5 * minute) [Arrival 1 list_bans_route public_request (\<lambda>_. True)] (new_gate c True []) \<le> 19"
proof -
  obtain c where c: "load (\<lambda>_ _ _. 0) sample_env = Inr c" "rlc_UnauthMaxReqs (cf_RateLimit c) = 10" "rlc_UnauthWindow (cf_RateLimit c) = 5 * minute"
    using sample_configuration by blast
  have cfg: "window (cfg_of False (new_limiter c)) = 5 * minute" "maxReqs (cfg_of False (new_limiter c)) = 10"
    using c by (simp_all add: cfg_of_def new_limiter_def NewRateLimiter_def Let_def)
  have t: "list_all (on_table False) [Arrival 1 list_bans_route public_request (\<lambda>_. True)]"
    using list_bans_served by (simp add: on_table_def)
  have "sorted (map arrival_time [Arrival 1 list_bans_route public_request (\<lambda>_. True)])" "\<not> isPrivateIP ''8.8.8.8''"
    by (simp, code_simp)
  from server_budget_per_window [OF t this, of c id False 0 True "[]"] c(1) show ?thesis by (auto simp: cfg)
qed

end
