(* ===== verification/Bug_Reports.thy ===== *)
theory Bug_Reports
  imports Updater_Releases Json_Tree Go_Time Paging
begin

text \<open>
  \<open>internal/bugreports/bug_report.route.go\<close> with its rows (\<open>models/bug_report.go\<close>, \<open>bug_report_file.go\<close>). The tables
  are in auto-increment order; a report's files go with it (\<open>ON DELETE CASCADE\<close>).
\<close>

section \<open>Status\<close>

definition BugReportStatusNew :: string where "BugReportStatusNew = ''new''"
definition BugReportStatusInReview :: string where "BugReportStatusInReview = ''in_review''"
definition BugReportStatusResolved :: string where "BugReportStatusResolved = ''resolved''"
definition BugReportStatusClosed :: string where "BugReportStatusClosed = ''closed''"

definition status_IsValid :: "string \<Rightarrow> bool" where
  "status_IsValid s \<longleftrightarrow> s \<in> {BugReportStatusNew, BugReportStatusInReview, BugReportStatusResolved, BugReportStatusClosed}"

definition ParseBugReportStatus :: "string \<Rightarrow> string \<times> bool" where
  "ParseBugReportStatus v = (let status = ToLower (TrimSpace v) in if status = [] then ([], False) else (status, status_IsValid status))"

section \<open>Rows\<close>

record bug_report =
  rp_ID :: int
  rp_Name :: string
  rp_Email :: string
  rp_Description :: string
  rp_HWID :: string
  rp_Hostname :: string
  rp_OsUser :: string
  rp_SubmitterIP :: string
  rp_SystemInfo :: "string ptr"
  rp_Status :: string
  rp_CreatedAt :: gotime
  rp_UpdatedAt :: gotime

record report_file =
  bf_ID :: int
  bf_BugReportID :: int
  bf_FileRole :: string
  bf_Filename :: string
  bf_MimeType :: string
  bf_FileSize :: int
  bf_Data :: string
  bf_CreatedAt :: gotime

record report_db =
  d_reports :: "bug_report list"
  d_nextReport :: int
  d_files :: "report_file list"
  d_nextFile :: int

definition empty_report_db :: report_db where
  "empty_report_db = \<lparr>d_reports = [], d_nextReport = 1, d_files = [], d_nextFile = 1\<rparr>"

text \<open>
  What the handlers take from libraries and from the server: \<open>json.Valid\<close> with the tree it reads,
  \<open>json.MarshalIndent\<close>, the quoting of \<open>%q\<close>, MySQL's \<open>LIKE\<close>, and its comparison of an integer key with a text
  parameter (the key it equals, if any).
\<close>

record report_lib =
  rl_json :: "string \<Rightarrow> json option"
  rl_indent :: "string \<Rightarrow> string option"
  rl_quote :: "string \<Rightarrow> string"
  rl_like :: "string \<Rightarrow> string \<Rightarrow> bool"
  rl_key :: "string \<Rightarrow> int option"

definition keyed :: "report_lib \<Rightarrow> string \<Rightarrow> int \<Rightarrow> bool" where
  "keyed L param i \<longleftrightarrow> rl_key L param = Some i"

definition fetch_report :: "report_lib \<Rightarrow> string \<Rightarrow> report_db \<Rightarrow> bug_report option" where
  "fetch_report L param d = find (\<lambda>r. keyed L param (rp_ID r)) (d_reports d)"

definition files_of :: "report_lib \<Rightarrow> string \<Rightarrow> report_db \<Rightarrow> report_file list" where
  "files_of L param d = filter (\<lambda>x. keyed L param (bf_BugReportID x)) (d_files d)"

definition fetch_file :: "report_lib \<Rightarrow> string \<Rightarrow> string \<Rightarrow> report_db \<Rightarrow> report_file option" where
  "fetch_file L reportId fileId d = find (\<lambda>x. keyed L reportId (bf_BugReportID x) \<and> keyed L fileId (bf_ID x)) (d_files d)"

section \<open>Intake\<close>

definition maxUploadFileSize :: int where
  "maxUploadFileSize = 32 * 2 ^ 20"

definition fileRoles :: "(string \<times> string \<times> string) list" where
  "fileRoles =
     [(''screenshot'', ''screenshot'', ''image/png''), (''mail_file'', ''mail_file'', ''message/rfc822''),
      (''localstorage'', ''localstorage'', ''application/json''), (''config'', ''config'', ''application/json'')]"

text \<open>An uploaded part: the name, type and size its header gives, and its bytes, None when reading fails.\<close>

record upload =
  up_Filename :: string
  up_ContentType :: string
  up_Size :: int
  up_Bytes :: "string option"

record report_form =
  rf_Value :: "string \<Rightarrow> string"
  rf_File :: "string \<Rightarrow> upload option"

definition LimitReader :: "int \<Rightarrow> string \<Rightarrow> string" where
  "LimitReader n s = take (nat n) s"

text \<open>The address a report claims in its \<open>system_info\<close>.\<close>

definition internal_ip :: "report_lib \<Rightarrow> string ptr \<Rightarrow> string" where
  "internal_ip L systemInfo =
     (case Option.bind systemInfo (rl_json L) of
        Some (JObj kvs) \<Rightarrow> (case map_of (rev kvs) ''InternalIP'' of Some (JStr ip) \<Rightarrow> ip | _ \<Rightarrow> [])
      | _ \<Rightarrow> [])"

definition submitter_ip :: "report_lib \<Rightarrow> string ptr \<Rightarrow> request \<Rightarrow> string" where
  "submitter_ip L systemInfo r =
     (let ip = TrimSpace (internal_ip L systemInfo);
          ip = (if ip = [] then TrimSpace (before (CHR '','') (r_Header r ''X-Forwarded-For'')) else ip);
          ip = (if ip = [] then r_Header r ''X-Real-IP'' else ip)
      in if ip = [] then ''unknown'' else ip)"

definition seconds :: "gotime \<Rightarrow> gotime" where
  "seconds t = t div second * second"

definition new_report :: "report_lib \<Rightarrow> gotime \<Rightarrow> int \<Rightarrow> request \<Rightarrow> report_form \<Rightarrow> bug_report" where
  "new_report L now i r frm =
     (let s = rf_Value frm ''system_info'';
          systemInfo = (if s \<noteq> [] \<and> rl_json L s \<noteq> None then Some s else None)
      in \<lparr>rp_ID = i, rp_Name = rf_Value frm ''name'', rp_Email = rf_Value frm ''email'',
          rp_Description = rf_Value frm ''description'', rp_HWID = rf_Value frm ''hwid'', rp_Hostname = rf_Value frm ''hostname'',
          rp_OsUser = rf_Value frm ''os_user'', rp_SubmitterIP = submitter_ip L systemInfo r, rp_SystemInfo = systemInfo,
          rp_Status = BugReportStatusNew, rp_CreatedAt = seconds now, rp_UpdatedAt = seconds now\<rparr>)"

definition file_key :: "string \<Rightarrow> string \<Rightarrow> string" where
  "file_key reportID filename = ''emly-api-files/bug-reports/'' @ reportID @ ''/files/'' @ filename"

definition accepted_bytes :: "upload \<Rightarrow> string option" where
  "accepted_bytes u =
     (if maxUploadFileSize < up_Size u then None
      else case up_Bytes u of
        None \<Rightarrow> None
      | Some bytes \<Rightarrow>
          let data = LimitReader (maxUploadFileSize + 1) bytes
          in if maxUploadFileSize < int (length data) then None else Some data)"

definition file_row :: "gotime \<Rightarrow> int \<Rightarrow> int \<Rightarrow> string \<times> string \<times> string \<Rightarrow> upload \<Rightarrow> string \<Rightarrow> report_file" where
  "file_row now i reportID role u data =
     (case role of (field, fr, defaultMime) \<Rightarrow>
       \<lparr>bf_ID = i, bf_BugReportID = reportID, bf_FileRole = fr,
        bf_Filename = (if up_Filename u = [] then field @ ''.bin'' else up_Filename u),
        bf_MimeType = (if up_ContentType u = [] then defaultMime else up_ContentType u),
        bf_FileSize = int (length data), bf_Data = data, bf_CreatedAt = seconds now\<rparr>)"

text \<open>
  The loop over the roles. The \<open>n\<close>-th role has statements \<open>2n\<close> (the insert) and \<open>2n+1\<close> (its id); an id
  that cannot be read and a failed upload are only logged.
\<close>

fun store_files ::
  "faults \<Rightarrow> gotime \<Rightarrow> 'b s3_client option \<Rightarrow> int \<Rightarrow> report_form \<Rightarrow> nat \<Rightarrow> (string \<times> string \<times> string) list \<Rightarrow>
     report_db \<times> 'b \<Rightarrow> (report_db \<times> 'b) \<times> string option" where
  "store_files f now s3conn reportID frm n [] st = (st, None)"
| "store_files f now s3conn reportID frm n (role # roles) (d, b) =
     (case rf_File frm (fst role) of
        None \<Rightarrow> store_files f now s3conn reportID frm (n + 1) roles (d, b)
      | Some u \<Rightarrow>
          if up_Size u \<le> maxUploadFileSize \<and> up_Bytes u = None then ((d, b), Some (''reading file '' @ fst role))
          else case accepted_bytes u of
            None \<Rightarrow> store_files f now s3conn reportID frm (n + 1) roles (d, b)
          | Some data \<Rightarrow>
              if f (2 * n) then ((d, b), Some ''database error'')
              else
                let row = file_row now (d_nextFile d) reportID role u data;
                    d' = d\<lparr>d_files := d_files d @ [row], d_nextFile := d_nextFile d + 1\<rparr>;
                    key = file_key (Itoa reportID) (bf_Filename row)
                in case s3conn of
                     None \<Rightarrow> store_files f now s3conn reportID frm (n + 1) roles (d', b)
                   | Some c \<Rightarrow>
                       if f (2 * n + 1) then store_files f now s3conn reportID frm (n + 1) roles (d', b)
                       else if path_Base key \<noteq> bf_Filename row then ((d', b), Some ''invalid file path or name'')
                       else store_files f now s3conn reportID frm (n + 1) roles
                              (d', fst (UploadFile c key data (bf_MimeType row)
                                     (go_map_of [(''filename'', bf_Filename row), (''id'', Itoa (bf_ID row))]) b)))"

text \<open>Statements: 0 the insert, 1 its id, then those of the files.\<close>

definition CreateBugReport ::
  "report_lib \<Rightarrow> faults \<Rightarrow> gotime \<Rightarrow> 'b s3_client option \<Rightarrow> report_db \<times> 'b \<Rightarrow> request \<Rightarrow> report_form option \<Rightarrow>
     (report_db \<times> 'b) \<times> int response" where
  "CreateBugReport L f now s3conn st r form =
     (case form of
        None \<Rightarrow> (st, Error 400 ''invalid multipart form'')
      | Some frm \<Rightarrow>
          if rf_Value frm ''name'' = [] \<or> rf_Value frm ''email'' = [] \<or> rf_Value frm ''description'' = []
          then (st, Error 400 ''name, email and description are required'')
          else if f 0 then (st, Error 500 ''database error'')
          else
            let (d, b) = st;
                reportID = d_nextReport d;
                d' = d\<lparr>d_reports := d_reports d @ [new_report L now reportID r frm], d_nextReport := reportID + 1\<rparr>
            in if f 1 then ((d', b), Error 500 ''database error'')
               else case store_files (shift_faults 2 f) now s3conn reportID frm 0 fileRoles (d', b) of
                 (st', Some err) \<Rightarrow> (st', Error 500 err)
               | (st', None) \<Rightarrow> (st', Created reportID))"

section \<open>Listing\<close>

record report_page =
  lp_data :: "(bug_report \<times> nat) slice"
  lp_total :: int
  lp_page :: int
  lp_page_size :: int
  lp_total_pages :: int

definition searched :: "report_lib \<Rightarrow> string \<Rightarrow> bug_report \<Rightarrow> bool" where
  "searched L search r \<longleftrightarrow> search = [] \<or>
     (let like = rl_like L (''%'' @ search @ ''%'')
      in like (rp_Hostname r) \<or> like (rp_OsUser r) \<or> like (rp_Name r) \<or> like (rp_Email r))"

text \<open>The selected rows with their file counts, newest first; rows of one second keep the table's order.\<close>

definition listing :: "report_lib \<Rightarrow> string \<Rightarrow> report_db \<Rightarrow> (bug_report \<times> nat) list" where
  "listing L search d =
     map (\<lambda>r. (r, length (filter (\<lambda>x. bf_BugReportID x = rp_ID r) (d_files d))))
       (sort_key (\<lambda>r. - rp_CreatedAt r) (filter (searched L search) (d_reports d)))"

text \<open>Statements: 0 the count, 1 the rows. A negative offset is a syntax error to the database.\<close>

definition GetAllBugReports :: "report_lib \<Rightarrow> faults \<Rightarrow> report_db \<Rightarrow> (string \<Rightarrow> string) \<Rightarrow> report_page response" where
  "GetAllBugReports L f d query =
     (let page = page_param (query ''page''); pageSize = page_size_param (query ''page_size'');
          search = query ''search''; offset = wrap64 ((page - 1) * pageSize);
          rows = listing L search d; tot = int (length rows)
      in if f 0 then Error 500 ''database error''
         else if f 1 \<or> offset < 0 then Error 500 ''database error''
         else let found = take (nat pageSize) (drop (nat offset) rows)
              in OK \<lparr>lp_data = (if found = [] then None else Some found), lp_total = tot, lp_page = page,
                     lp_page_size = pageSize, lp_total_pages = (tot + pageSize - 1) div pageSize\<rparr>)"

section \<open>Reading\<close>

definition GetBugReportByID :: "report_lib \<Rightarrow> faults \<Rightarrow> report_db \<Rightarrow> string \<Rightarrow> bug_report response" where
  "GetBugReportByID L f d i =
     (if i = [] then Error 400 ''missing id parameter''
      else if f 0 then Error 500 ''database error''
      else case fetch_report L i d of None \<Rightarrow> Error 404 ''bug report not found'' | Some r \<Rightarrow> OK r)"

definition GetReportsCount :: "faults \<Rightarrow> report_db \<Rightarrow> string \<Rightarrow> int response" where
  "GetReportsCount f d rawStatus =
     (let answer = (\<lambda>P. if f 0 then Error 500 ''database error'' else OK (int (length (filter P (d_reports d)))))
      in if TrimSpace rawStatus = [] then answer (\<lambda>_. True)
         else case ParseBugReportStatus rawStatus of
           (_, False) \<Rightarrow> Error 400 ''invalid status. allowed values: new, in_review, resolved, closed''
         | (status, True) \<Rightarrow> answer (\<lambda>r. rp_Status r = status))"

definition GetReportFilesByReportID :: "report_lib \<Rightarrow> faults \<Rightarrow> report_db \<Rightarrow> string \<Rightarrow> report_file slice response" where
  "GetReportFilesByReportID L f d i =
     (if i = [] then Error 400 ''missing id parameter''
      else if f 0 then Error 500 ''database error''
      else OK (if files_of L i d = [] then None else Some (files_of L i d)))"

definition GetReportStatusByID :: "report_lib \<Rightarrow> faults \<Rightarrow> report_db \<Rightarrow> string \<Rightarrow> string response" where
  "GetReportStatusByID L f d i =
     (if i = [] then Error 400 ''missing id parameter''
      else case (if f 0 then None else fetch_report L i d) of
        None \<Rightarrow> Error 500 ''database error'' | Some r \<Rightarrow> OK (rp_Status r))"

section \<open>Archive\<close>

definition FormatMillis :: "gotime \<Rightarrow> string" where
  "FormatMillis t =
     (let ms = t mod second div 1000000
      in butlast (FormatRFC3339 t) @ ''.'' @ [digit_char (nat (ms div 100))] @ pad2 (ms mod 100) @ ''Z'')"

text \<open>\<open>templates/report.txt.tmpl\<close>; lines end with byte 10.\<close>

definition line :: "string \<Rightarrow> string" where
  "line s = s @ [CHR 10]"

definition report_txt :: "bug_report \<Rightarrow> string \<Rightarrow> string \<Rightarrow> string \<Rightarrow> string" where
  "report_txt r createdAt updatedAt systemInfo =
     line (''EMLy Bug Report #'' @ Itoa (rp_ID r)) @ line (replicate 24 (CHR ''='')) @ line [] @
     line (''Name:     '' @ rp_Name r) @ line (''Email:    '' @ rp_Email r) @ line (''Hostname: '' @ rp_Hostname r) @
     line (''OS User:  '' @ rp_OsUser r) @ line (''HWID:     '' @ rp_HWID r) @ line (''IP:       '' @ rp_SubmitterIP r) @
     line (''Status:   '' @ rp_Status r) @ line (''Created:  '' @ createdAt) @ line (''Updated:  '' @ updatedAt) @ line [] @
     line ''Description:'' @ line (replicate 12 (CHR ''-'')) @ line (rp_Description r) @
     (if systemInfo = [] then []
      else line [] @ line ''System Info:'' @ line (replicate 12 (CHR ''-'')) @ line systemInfo) @ line [] @ line []"

definition pretty_info :: "report_lib \<Rightarrow> bug_report \<Rightarrow> string" where
  "pretty_info L r =
     (case rp_SystemInfo r of
        None \<Rightarrow> []
      | Some s \<Rightarrow> if s = [] \<or> s = ''null'' then [] else (case rl_indent L s of None \<Rightarrow> [] | Some p \<Rightarrow> p))"

text \<open>An archive: its file name and the entries given to the zip writer.\<close>

record archive =
  ar_filename :: string
  ar_entries :: "(string \<times> string) list"

definition GetBugReportZipByID :: "report_lib \<Rightarrow> faults \<Rightarrow> report_db \<Rightarrow> string \<Rightarrow> archive response" where
  "GetBugReportZipByID L f d i =
     (if i = [] then Error 400 ''missing id parameter''
      else if f 0 then Error 500 ''database error''
      else case fetch_report L i d of
        None \<Rightarrow> Error 404 ''bug report not found''
      | Some r \<Rightarrow>
          if f 1 then Error 500 ''database error''
          else OK \<lparr>ar_filename = ''report-'' @ Itoa (rp_ID r) @ ''.zip'',
                   ar_entries = (''report.txt'', report_txt r (FormatMillis (rp_CreatedAt r)) (FormatMillis (rp_UpdatedAt r)) (pretty_info L r))
                     # map (\<lambda>x. (bf_FileRole x @ ''/'' @ bf_Filename x, bf_Data x)) (files_of L i d)\<rparr>)"

section \<open>Downloading a file\<close>

definition safe_name :: "string \<Rightarrow> string" where
  "safe_name fname = filter (\<lambda>c. c \<notin> {CHR 0x22, CHR 92, CHR 13, CHR 10}) (path_Base fname)"

definition cached_file :: "report_lib \<Rightarrow> string \<Rightarrow> string \<times> FileInfo \<Rightarrow> served_file" where
  "cached_file L fileId got =
     (case got of (body, info) \<Rightarrow>
        let fname = (case map_of (fi_Metadata info) ''filename'' of None \<Rightarrow> [] | Some n \<Rightarrow> n);
            fname = (if fname = [] then fileId else fname)
        in \<lparr>sf_ContentType = (if fi_ContentType info = [] then ''application/octet-stream'' else fi_ContentType info),
            sf_ContentDisposition = ''attachment; filename='' @ rl_quote L (safe_name fname),
            sf_ContentLength = None, sf_Body = body\<rparr>)"

definition database_file :: "report_file \<Rightarrow> served_file" where
  "database_file x =
     \<lparr>sf_ContentType = (if bf_MimeType x = [] then ''application/octet-stream'' else bf_MimeType x),
      sf_ContentDisposition = ''attachment; filename='' @ CHR 0x22 # bf_Filename x @ [CHR 0x22],
      sf_ContentLength = None, sf_Body = bf_Data x\<rparr>"

text \<open>Statements: 0 the file name, 1 the row. The upload after a miss runs on its own; its error is dropped.\<close>

definition GetReportFileByFileID ::
  "report_lib \<Rightarrow> faults \<Rightarrow> 'b s3_client option \<Rightarrow> report_db \<Rightarrow> 'b \<Rightarrow> string \<Rightarrow> string \<Rightarrow> 'b \<times> served_file response" where
  "GetReportFileByFileID L f s3conn d b reportId fileId =
     (if reportId = [] then (b, Error 400 ''missing report id parameter'')
      else if fileId = [] then (b, Error 400 ''missing file id parameter'')
      else case (if f 0 then None else fetch_file L reportId fileId d) of
        None \<Rightarrow> (b, Error 500 ''database error'')
      | Some named \<Rightarrow>
          (case Option.bind s3conn (\<lambda>c. case GetFile c (file_key reportId (bf_Filename named)) b of Inl _ \<Rightarrow> None | Inr got \<Rightarrow> Some got) of
             Some got \<Rightarrow> (b, OK (cached_file L fileId got))
           | None \<Rightarrow>
               if f 1 then (b, Error 500 ''database error'')
               else case fetch_file L reportId fileId d of
                 None \<Rightarrow> (b, Error 404 ''file not found'')
               | Some x \<Rightarrow>
                   ((case s3conn of None \<Rightarrow> b
                     | Some c \<Rightarrow> fst (UploadFile c (file_key reportId fileId) (bf_Data x) (bf_MimeType x) [(''filename'', bf_Filename x)] b)),
                    OK (database_file x))))"

section \<open>Writing\<close>

text \<open>A body that cannot be read is None. Statements: 0 the write, 1 its row count.\<close>

definition PatchBugReportStatus ::
  "report_lib \<Rightarrow> faults \<Rightarrow> gotime \<Rightarrow> report_db \<Rightarrow> string \<Rightarrow> string option \<Rightarrow> report_db \<times> string response" where
  "PatchBugReportStatus L f now d i body =
     (if i = [] then (d, Error 400 ''missing id parameter'')
      else case body of
        None \<Rightarrow> (d, Error 400 ''unable to read request body'')
      | Some raw \<Rightarrow>
          (case ParseBugReportStatus raw of
             (_, False) \<Rightarrow> (d, Error 400 ''invalid status. allowed values: new, in_review, resolved, closed'')
           | (status, True) \<Rightarrow>
               if f 0 then (d, Error 500 ''database error'')
               else
                 let changed = (\<lambda>r. keyed L i (rp_ID r) \<and> rp_Status r \<noteq> status);
                     d' = d\<lparr>d_reports := map (\<lambda>r. if changed r then r\<lparr>rp_Status := status, rp_UpdatedAt := seconds now\<rparr> else r) (d_reports d)\<rparr>
                 in if f 1 then (d', Error 500 ''database error'')
                    else if filter changed (d_reports d) = [] then (d', Error 404 ''bug report not found'')
                    else (d', OK ''status updated successfully'')))"

definition DeleteBugReportByID :: "report_lib \<Rightarrow> faults \<Rightarrow> report_db \<Rightarrow> string \<Rightarrow> report_db \<times> string response" where
  "DeleteBugReportByID L f d i =
     (if i = [] then (d, Error 400 ''missing id parameter'')
      else if f 0 then (d, Error 500 ''database error'')
      else
        let d' = d\<lparr>d_reports := filter (\<lambda>r. \<not> keyed L i (rp_ID r)) (d_reports d),
                    d_files := filter (\<lambda>x. \<not> keyed L i (bf_BugReportID x)) (d_files d)\<rparr>
        in if f 1 then (d', Error 500 ''database error'')
           else if filter (\<lambda>r. keyed L i (rp_ID r)) (d_reports d) = [] then (d', Error 404 ''bug report not found'')
           else (d', OK ''bug report deleted successfully''))"

end
