(* ===== verification/Bug_Report_Properties.thy ===== *)
theory Bug_Report_Properties
  imports Bug_Reports
begin

text \<open>
  What the report handlers keep of their tables, which bytes a download of an uploaded file answers, and how the
  pages of the listing fit together.
\<close>

section \<open>The tables\<close>

definition reports_ok :: "report_db \<Rightarrow> bool" where
  "reports_ok d \<longleftrightarrow> distinct (map rp_ID (d_reports d)) \<and> distinct (map bf_ID (d_files d)) \<and>
     (\<forall>r \<in> set (d_reports d). status_IsValid (rp_Status r) \<and> rp_ID r < d_nextReport d) \<and>
     (\<forall>x \<in> set (d_files d). bf_ID x < d_nextFile d \<and> bf_FileRole x \<in> fst ` snd ` set fileRoles \<and>
        bf_FileSize x = int (length (bf_Data x)) \<and> bf_FileSize x \<le> maxUploadFileSize \<and>
        bf_BugReportID x \<in> rp_ID ` set (d_reports d))"

lemma empty_reports_ok [simp]: "reports_ok empty_report_db"
  by (simp add: reports_ok_def empty_report_db_def)

lemma accepted_size: "accepted_bytes u = Some data \<Longrightarrow> int (length data) \<le> maxUploadFileSize"
  by (auto simp: accepted_bytes_def Let_def split: if_splits option.splits)

lemma LimitReader_id: "\<not> n < int (length (LimitReader (n + 1) s)) \<Longrightarrow> 0 \<le> n \<Longrightarrow> LimitReader (n + 1) s = s"
  by (auto simp: LimitReader_def min_def split: if_splits)

text \<open>What is stored is what was uploaded, never a truncation of it.\<close>

lemma accepted_whole:
  assumes "accepted_bytes u = Some data"
  shows "up_Bytes u = Some data"
proof -
  obtain bytes where b: "up_Bytes u = Some bytes" "data = LimitReader (maxUploadFileSize + 1) bytes"
    "\<not> maxUploadFileSize < int (length (LimitReader (maxUploadFileSize + 1) bytes))"
    using assms by (auto simp: accepted_bytes_def Let_def split: if_splits option.splits)
  have "0 \<le> maxUploadFileSize" by (simp add: maxUploadFileSize_def)
  from LimitReader_id [OF b(3) this] b(1,2) show ?thesis by simp
qed

lemma file_row_fields:
  "bf_ID (file_row now i k role u data) = i" "bf_BugReportID (file_row now i k role u data) = k"
  "bf_FileRole (file_row now i k role u data) = fst (snd role)" "bf_Data (file_row now i k role u data) = data"
  "bf_FileSize (file_row now i k role u data) = int (length data)"
  by (simp_all add: file_row_def split: prod.splits)

definition add_file :: "report_db \<Rightarrow> report_file \<Rightarrow> report_db" where
  "add_file d row = d\<lparr>d_files := d_files d @ [row], d_nextFile := d_nextFile d + 1\<rparr>"

lemma add_file_ok:
  assumes "reports_ok d" "role \<in> set fileRoles" "accepted_bytes u = Some data" "k \<in> rp_ID ` set (d_reports d)"
  shows "reports_ok (add_file d (file_row now (d_nextFile d) k role u data))"
  using assms accepted_size [OF assms(3)] by (fastforce simp: reports_ok_def add_file_def file_row_fields)

lemma add_file_reports [simp]: "d_reports (add_file d row) = d_reports d" "d_nextReport (add_file d row) = d_nextReport d"
  by (simp_all add: add_file_def)

text \<open>What every stored row and every upload keeps holds after the loop.\<close>

lemma store_files_inv:
  assumes "store_files f now s3 k frm n roles (d, b) = ((d', b'), err)" and "P d b"
    and "\<And>role u data d b. role \<in> set roles \<Longrightarrow> accepted_bytes u = Some data \<Longrightarrow> P d b \<Longrightarrow>
      P (add_file d (file_row now (d_nextFile d) k role u data)) b"
    and "\<And>role u data d b c meta. role \<in> set roles \<Longrightarrow> accepted_bytes u = Some data \<Longrightarrow> P d b \<Longrightarrow> s3 = Some c \<Longrightarrow>
      let row = file_row now (d_nextFile d) k role u data
      in P (add_file d row) (fst (UploadFile c (file_key (Itoa k) (bf_Filename row)) data (bf_MimeType row) meta b))"
  shows "P d' b'"
  using assms
proof (induction roles arbitrary: n d b)
  case (Cons role roles)
  have skip: ?case if "store_files f now s3 k frm (n + 1) roles (d1, b1) = ((d', b'), err)" "P d1 b1" for d1 b1
    using that by (rule Cons.IH) (use Cons.prems(3,4) in simp_all)
  show ?case
  proof (cases "rf_File frm (fst role)")
    case None
    with skip Cons.prems(1,2) show ?thesis by simp
  next
    case (Some u)
    note u = this
    consider "up_Size u \<le> maxUploadFileSize \<and> up_Bytes u = None" | "\<not> (up_Size u \<le> maxUploadFileSize \<and> up_Bytes u = None)" "accepted_bytes u = None"
      | data where "\<not> (up_Size u \<le> maxUploadFileSize \<and> up_Bytes u = None)" "accepted_bytes u = Some data" by fastforce
    then show ?thesis
    proof cases
      case 1
      with u Cons.prems(1,2) show ?thesis by simp
    next
      case 2
      with u skip Cons.prems(1,2) show ?thesis by (simp del: de_Morgan_conj)
    next
      case 3
      let ?row = "file_row now (d_nextFile d) k role u data"
      let ?key = "file_key (Itoa k) (bf_Filename ?row)"
      let ?meta = "go_map_of [(''filename'', bf_Filename ?row), (''id'', Itoa (bf_ID ?row))]"
      have stored: "P (add_file d ?row) b" using Cons.prems(2,3) 3(2) by simp
      have up: "P (add_file d ?row) (fst (UploadFile c ?key data (bf_MimeType ?row) ?meta b))" if "s3 = Some c" for c
        using Cons.prems(4) [of role u data d b c ?meta] Cons.prems(2) 3(2) that by (simp add: Let_def)
      have e: "(if f (2 * n) then ((d, b), Some ''database error'')
          else case s3 of
            None \<Rightarrow> store_files f now s3 k frm (n + 1) roles (add_file d ?row, b)
          | Some c \<Rightarrow>
              if f (2 * n + 1) then store_files f now s3 k frm (n + 1) roles (add_file d ?row, b)
              else if path_Base ?key \<noteq> bf_Filename ?row then ((add_file d ?row, b), Some ''invalid file path or name'')
              else store_files f now s3 k frm (n + 1) roles
                     (add_file d ?row, fst (UploadFile c ?key data (bf_MimeType ?row) ?meta b))) = ((d', b'), err)"
        using Cons.prems(1) by (simp only: store_files.simps(2) u 3 option.case Let_def add_file_def if_False)
      show ?thesis
      proof (cases "f (2 * n)")
        case True
        with e Cons.prems(2) show ?thesis by simp
      next
        case False
        show ?thesis
        proof (cases s3)
          case None
          with False e skip [OF _ stored] show ?thesis by simp
        next
          case (Some c)
          with False e skip [OF _ stored] skip [OF _ up [OF Some]] stored show ?thesis by (auto split: if_splits)
        qed
      qed
    qed
  qed
qed simp

lemma store_files_ok:
  assumes "store_files f now s3 k frm n roles (d, b) = ((d', b'), err)" "reports_ok d" "set roles \<subseteq> set fileRoles"
    "k \<in> rp_ID ` set (d_reports d)"
  shows "reports_ok d' \<and> d_reports d' = d_reports d"
proof -
  have "reports_ok d' \<and> d_reports d' = d_reports d \<and> d_nextReport d' = d_nextReport d"
  proof (rule store_files_inv [OF assms(1), where P = "\<lambda>x _. reports_ok x \<and> d_reports x = d_reports d \<and> d_nextReport x = d_nextReport d"])
    show "reports_ok d \<and> d_reports d = d_reports d \<and> d_nextReport d = d_nextReport d" using assms(2) by simp
  qed (use assms(3,4) in \<open>auto simp: Let_def intro!: add_file_ok\<close>)
  then show ?thesis by blast
qed

lemma store_files_step:
  assumes "store_files f now s3 k frm n (role # roles) (d, b) = (st, None)"
  shows "\<exists>d1 b1. store_files f now s3 k frm (n + 1) roles (d1, b1) = (st, None) \<and>
    (\<forall>u data. rf_File frm (fst role) = Some u \<longrightarrow> accepted_bytes u = Some data \<longrightarrow>
       file_row now (d_nextFile d) k role u data \<in> set (d_files d1))"
proof (cases "rf_File frm (fst role)")
  case None
  with assms show ?thesis by (intro exI [of _ d] exI [of _ b]) simp
next
  case (Some u)
  with assms have n: "\<not> (up_Size u \<le> maxUploadFileSize \<and> up_Bytes u = None)" by (auto split: if_splits)
  show ?thesis
  proof (cases "accepted_bytes u")
    case None
    with Some n assms show ?thesis by (intro exI [of _ d] exI [of _ b]) (simp del: de_Morgan_conj)
  next
    case data: (Some data)
    let ?d1 = "d\<lparr>d_files := d_files d @ [file_row now (d_nextFile d) k role u data], d_nextFile := d_nextFile d + 1\<rparr>"
    have "\<exists>b1. store_files f now s3 k frm (n + 1) roles (?d1, b1) = (st, None)"
      using assms [unfolded store_files.simps(2) Some data option.case]
      by (auto simp only: n if_False Let_def prod.inject option.distinct split: if_splits option.splits)
    then show ?thesis using Some data by (elim exE) (rule exI [of _ ?d1], auto)
  qed
qed

lemma store_files_grows:
  assumes "store_files f now s3 k frm n roles (d, b) = ((d', b'), err)"
  shows "set (d_files d) \<subseteq> set (d_files d')"
  by (rule store_files_inv [OF assms, where P = "\<lambda>x _. set (d_files d) \<subseteq> set (d_files x)"])
    (auto simp: add_file_def Let_def)

lemma store_files_all:
  assumes "store_files f now s3 k frm n roles (d, b) = ((d', b'), None)"
    and "role \<in> set roles" "rf_File frm (fst role) = Some u" "accepted_bytes u = Some data"
  shows "\<exists>x \<in> set (d_files d'). bf_BugReportID x = k \<and> bf_FileRole x = fst (snd role) \<and> bf_Data x = data"
  using assms(1,2)
proof (induction roles arbitrary: n d b)
  case (Cons r roles)
  from store_files_step [OF Cons.prems(1)] obtain d1 b1 where s: "store_files f now s3 k frm (n + 1) roles (d1, b1) = ((d', b'), None)"
    and in1: "rf_File frm (fst r) = Some u \<Longrightarrow> file_row now (d_nextFile d) k r u data \<in> set (d_files d1)"
    using assms(4) by blast
  show ?case
  proof (cases "role = r")
    case True
    with in1 assms(3) store_files_grows [OF s] have "file_row now (d_nextFile d) k r u data \<in> set (d_files d')" by blast
    then show ?thesis by (rule rev_bexI) (simp add: file_row_fields True)
  next
    case False
    with Cons.prems(2) Cons.IH [OF s] show ?thesis by simp
  qed
qed simp

section \<open>Downloads\<close>

text \<open>
  Beyond \<open>read_after_write\<close>, an upload that fails stores the whole object or nothing and leaves the other
  keys alone.
\<close>

definition atomic_put :: "'b s3_client \<Rightarrow> bool" where
  "atomic_put c \<longleftrightarrow> (\<forall>key body ct meta b b' e. PutObject c key body ct meta b = (b', Some e) \<longrightarrow>
     (\<forall>k. k \<noteq> key \<longrightarrow> GetObject c k b' = GetObject c k b) \<and>
     (GetObject c key b' = GetObject c key b \<or>
      (\<exists>out. GetObject c key b' = Inr out \<and> ob_Body out = body \<and> ob_ContentType out = Some ct)))"

lemma upload_other:
  assumes "read_after_write c" "atomic_put c" "k \<noteq> key"
  shows "GetFile c k (fst (UploadFile c key body ct meta b)) = GetFile c k b"
proof (cases "PutObject c key body ct meta b")
  case (Pair b' e)
  have "GetObject c k b' = GetObject c k b"
  proof (cases e)
    case None
    with Pair assms(1,3) show ?thesis unfolding read_after_write_def by blast
  next
    case (Some err)
    with Pair assms(2,3) show ?thesis unfolding atomic_put_def by blast
  qed
  with Pair show ?thesis by (simp add: UploadFile_def GetFile_def)
qed

lemma upload_same:
  assumes "read_after_write c" "atomic_put c" "GetFile c key (fst (UploadFile c key body ct meta b)) = Inr (x, info)"
  shows "GetFile c key b = Inr (x, info) \<or> x = body \<and> fi_ContentType info = ct"
proof (cases "PutObject c key body ct meta b")
  case (Pair b' e)
  show ?thesis
  proof (cases e)
    case None
    then have "UploadFile c key body ct meta b = (b', None)" using Pair by (simp add: UploadFile_def)
    with GetFile_UploadFile(1) [OF assms(1) this] assms(3) show ?thesis by auto
  next
    case (Some err)
    with Pair assms(2) have "GetObject c key b' = GetObject c key b \<or>
        (\<exists>out. GetObject c key b' = Inr out \<and> ob_Body out = body \<and> ob_ContentType out = Some ct)"
      unfolding atomic_put_def by blast
    with Pair assms(3) show ?thesis by (auto simp: GetFile_def UploadFile_def ToString_def)
  qed
qed

text \<open>Every object of a report's folder is one of its files under that name.\<close>

definition bucket_sound :: "'b s3_client \<Rightarrow> int \<Rightarrow> report_db \<Rightarrow> 'b \<Rightarrow> bool" where
  "bucket_sound c k d b \<longleftrightarrow> (\<forall>name body info. GetFile c (file_key (Itoa k) name) b = Inr (body, info) \<longrightarrow>
     (\<exists>x \<in> set (d_files d). bf_BugReportID x = k \<and> bf_Filename x = name \<and> bf_Data x = body \<and> bf_MimeType x = fi_ContentType info))"

lemma file_key_inj: "file_key k a = file_key k b \<longleftrightarrow> a = b"
  by (simp add: file_key_def)

lemma bucket_sound_add: "bucket_sound c k d b \<Longrightarrow> bucket_sound c k (add_file d row) b"
  by (auto simp: bucket_sound_def add_file_def)

lemma bucket_sound_upload:
  assumes c: "read_after_write c" "atomic_put c" and s: "bucket_sound c k d b"
    and row: "row \<in> set (d_files d)" "bf_BugReportID row = k"
  shows "bucket_sound c k d (fst (UploadFile c (file_key (Itoa k) (bf_Filename row)) (bf_Data row) (bf_MimeType row) meta b))"
  unfolding bucket_sound_def
proof (intro allI impI)
  fix name body info
  assume g: "GetFile c (file_key (Itoa k) name) (fst (UploadFile c (file_key (Itoa k) (bf_Filename row)) (bf_Data row) (bf_MimeType row) meta b)) = Inr (body, info)"
  show "\<exists>x \<in> set (d_files d). bf_BugReportID x = k \<and> bf_Filename x = name \<and> bf_Data x = body \<and> bf_MimeType x = fi_ContentType info"
  proof (cases "name = bf_Filename row")
    case True
    from upload_same [OF c g [unfolded True]] show ?thesis using s row True unfolding bucket_sound_def by auto
  next
    case False
    with g s upload_other [OF c, of "file_key (Itoa k) name"] show ?thesis by (auto simp: bucket_sound_def file_key_inj)
  qed
qed

lemma store_files_sound:
  assumes "store_files f now (Some c) k frm n roles (d, b) = ((d', b'), err)" "read_after_write c" "atomic_put c" "bucket_sound c k d b"
  shows "bucket_sound c k d' b'"
proof (rule store_files_inv [OF assms(1), where P = "bucket_sound c k"])
  fix role u data d b c' meta
  assume a: "accepted_bytes u = Some data" "bucket_sound c k d b" "Some c = Some c'"
  let ?row = "file_row now (d_nextFile d) k role u data"
  have "bucket_sound c k (add_file d ?row) (fst (UploadFile c (file_key (Itoa k) (bf_Filename ?row)) (bf_Data ?row) (bf_MimeType ?row) meta b))"
    by (rule bucket_sound_upload [OF assms(2,3) bucket_sound_add [OF a(2)]]) (simp_all add: add_file_def file_row_fields)
  then show "let row = ?row in bucket_sound c k (add_file d row)
      (fst (UploadFile c' (file_key (Itoa k) (bf_Filename row)) data (bf_MimeType row) meta b))"
    using a(3) by (simp add: file_row_fields)
qed (use assms(4) bucket_sound_add in auto)

lemma Itoa_ne [simp]: "Itoa i \<noteq> []"
  using nat_digits_correct by (simp add: Itoa_def)

definition integer_keys :: "report_lib \<Rightarrow> bool" where
  "integer_keys L \<longleftrightarrow> (\<forall>n. rl_key L (Itoa n) = Some n)"

lemma fetch_file_row:
  assumes "integer_keys L" "reports_ok d" "x \<in> set (d_files d)"
  shows "fetch_file L (Itoa (bf_BugReportID x)) (Itoa (bf_ID x)) d = Some x"
proof -
  have d: "distinct (map bf_ID (d_files d))" using assms(2) by (simp add: reports_ok_def)
  have "find (\<lambda>y. keyed L (Itoa (bf_BugReportID x)) (bf_BugReportID y) \<and> keyed L (Itoa (bf_ID x)) (bf_ID y)) xs = Some x"
    if "x \<in> set xs" "distinct (map bf_ID xs)" for xs
    using that assms(1) by (induction xs) (auto simp: keyed_def integer_keys_def image_iff)
  from this [OF assms(3) d] show ?thesis by (simp add: fetch_file_def)
qed

text \<open>A download answers the bytes and the type of some file of that report and name, of the file asked for if no
  other has its name.\<close>

lemma download_serves:
  assumes L: "integer_keys L" and ok: "reports_ok d" and x: "x \<in> set (d_files d)" "bf_BugReportID x = k"
    and s3: "\<And>c. s3 = Some c \<Longrightarrow> bucket_sound c k d b"
  shows "\<exists>b' served y. GetReportFileByFileID L no_faults s3 d b (Itoa k) (Itoa (bf_ID x)) = (b', OK served) \<and>
    y \<in> set (d_files d) \<and> bf_BugReportID y = k \<and> bf_Filename y = bf_Filename x \<and> sf_Body served = bf_Data y \<and>
    sf_ContentType served = (if bf_MimeType y = [] then ''application/octet-stream'' else bf_MimeType y)"
proof -
  have f: "fetch_file L (Itoa k) (Itoa (bf_ID x)) d = Some x" using fetch_file_row [OF L ok x(1)] x(2) by simp
  let ?got = "Option.bind s3 (\<lambda>c. case GetFile c (file_key (Itoa k) (bf_Filename x)) b of Inl _ \<Rightarrow> None | Inr got \<Rightarrow> Some got)"
  show ?thesis
  proof (cases ?got)
    case None
    with f x show ?thesis
      by (auto simp: GetReportFileByFileID_def database_file_def intro!: exI [of _ x])
  next
    case (Some got)
    then obtain c body info where c: "s3 = Some c" "GetFile c (file_key (Itoa k) (bf_Filename x)) b = Inr (body, info)" "got = (body, info)"
      by (cases s3) (auto split: sum.splits)
    with s3 [OF c(1)] obtain y where "y \<in> set (d_files d)" "bf_BugReportID y = k" "bf_Filename y = bf_Filename x" "bf_Data y = body"
      "bf_MimeType y = fi_ContentType info" unfolding bucket_sound_def by blast
    with f c show ?thesis
      by (auto simp: GetReportFileByFileID_def cached_file_def Let_def intro!: exI [of _ y])
  qed
qed

lemma created_report:
  assumes c: "CreateBugReport L f now s3 (d, b) r (Some frm) = ((d', b'), Created i)" and ok: "reports_ok d"
    and s3: "\<And>c. s3 = Some c \<Longrightarrow> read_after_write c \<and> atomic_put c \<and> (\<forall>name. \<exists>e. GetFile c (file_key (Itoa i) name) b = Inl e)"
  shows "reports_ok d' \<and> i = d_nextReport d \<and> (\<forall>c. s3 = Some c \<longrightarrow> bucket_sound c i d' b') \<and>
    (\<forall>role u data. role \<in> set fileRoles \<longrightarrow> rf_File frm (fst role) = Some u \<longrightarrow> accepted_bytes u = Some data \<longrightarrow>
       (\<exists>x \<in> set (d_files d'). bf_BugReportID x = i \<and> bf_FileRole x = fst (snd role) \<and> bf_Data x = data))"
proof -
  let ?d1 = "d\<lparr>d_reports := d_reports d @ [new_report L now (d_nextReport d) r frm], d_nextReport := d_nextReport d + 1\<rparr>"
  have s: "store_files (shift_faults 2 f) now s3 i frm 0 fileRoles (?d1, b) = ((d', b'), None)" and i: "i = d_nextReport d"
    using c by (auto simp: CreateBugReport_def Let_def split: if_splits option.splits prod.splits)
  have ok1: "reports_ok ?d1" using ok
    by (fastforce simp: reports_ok_def new_report_def Let_def status_IsValid_def)
  have "i \<in> rp_ID ` set (d_reports ?d1)" by (simp add: i new_report_def Let_def)
  from store_files_ok [OF s ok1 subset_refl this] have "reports_ok d'" by simp
  moreover have "bucket_sound c i d' b'" if h: "s3 = Some c" for c
  proof (rule store_files_sound [OF s [unfolded h]])
    have "\<forall>name. \<exists>e. GetFile c (file_key (Itoa i) name) b = Inl e" using s3 [OF h] by blast
    then show "bucket_sound c i ?d1 b" unfolding bucket_sound_def by (metis Inr_not_Inl)
  qed (use s3 [OF h] in blast)+
  ultimately show ?thesis using i store_files_all [OF s] by blast
qed

section \<open>Pages\<close>

definition page_query :: "string \<Rightarrow> int \<Rightarrow> int \<Rightarrow> string \<Rightarrow> string" where
  "page_query search p ps k =
     (if k = ''page'' then Itoa p else if k = ''page_size'' then Itoa ps else if k = ''search'' then search else [])"

definition page_rows :: "report_page response \<Rightarrow> (bug_report \<times> nat) list" where
  "page_rows resp = (case resp of OK pg \<Rightarrow> elems (lp_data pg) | _ \<Rightarrow> [])"

lemma page_answer:
  assumes "0 < p" "int64_range p" "0 < ps" "ps \<le> 100" "(p - 1) * ps < 2 ^ 63"
  shows "\<exists>pg. GetAllBugReports L no_faults d (page_query search p ps) = OK pg \<and>
    elems (lp_data pg) = take (nat ps) (drop (nat ((p - 1) * ps)) (listing L search d)) \<and> lp_page pg = p \<and> lp_page_size pg = ps \<and>
    lp_total_pages pg = (int (length (listing L search d)) + ps - 1) div ps"
proof -
  note q = page_params [OF assms(1-4)]
  have "0 \<le> (p - 1) * ps" using assms(1,3) by simp
  with assms(5) have w: "wrap64 ((p - 1) * ps) = (p - 1) * ps" "\<not> (p - 1) * ps < 0" by (simp_all add: wrap64_id)
  show ?thesis using q w by (simp add: GetAllBugReports_def page_query_def Let_def)
qed

interpretation report_pages: paged "\<lambda>p ps. page_rows (GetAllBugReports L no_faults d (page_query search p ps))" "listing L search d"
  for L d search
proof
  fix p ps :: int
  assume "0 < p" "int64_range p" "0 < ps" "ps \<le> 100" "(p - 1) * ps < 2 ^ 63"
  from page_answer [OF this, of L d search]
  show "page_rows (GetAllBugReports L no_faults d (page_query search p ps)) = take (nat ps) (drop (nat ((p - 1) * ps)) (listing L search d))"
    by (elim exE conjE) (simp add: page_rows_def)
qed

section \<open>Histories\<close>

datatype 'b report_event =
    Report faults gotime "'b s3_client option" request "report_form option"
  | SetStatus faults gotime string "string option"
  | Remove faults string

fun report_step :: "report_lib \<Rightarrow> 'b report_event \<Rightarrow> report_db \<times> 'b \<Rightarrow> report_db \<times> 'b" where
  "report_step L (Report f now s3 r form) st = fst (CreateBugReport L f now s3 st r form)"
| "report_step L (SetStatus f now i body) (d, b) = (fst (PatchBugReportStatus L f now d i body), b)"
| "report_step L (Remove f i) (d, b) = (fst (DeleteBugReportByID L f d i), b)"

lemma CreateBugReport_ok: "reports_ok (fst st) \<Longrightarrow> reports_ok (fst (fst (CreateBugReport L f now s3 st r form)))"
proof -
  assume ok: "reports_ok (fst st)"
  obtain d b where st: "st = (d, b)" by (cases st)
  let ?d1 = "\<lambda>frm. d\<lparr>d_reports := d_reports d @ [new_report L now (d_nextReport d) r frm], d_nextReport := d_nextReport d + 1\<rparr>"
  have ok1: "reports_ok (?d1 frm)" for frm using ok
    by (fastforce simp: st reports_ok_def new_report_def Let_def status_IsValid_def)
  have files: "reports_ok (fst (fst (store_files g now s3 (d_nextReport d) frm 0 fileRoles (?d1 frm, b))))" for g frm
  proof (cases "store_files g now s3 (d_nextReport d) frm 0 fileRoles (?d1 frm, b)")
    case (Pair st' err)
    obtain d' b' where st': "st' = (d', b')" by (cases st')
    have k: "d_nextReport d \<in> rp_ID ` set (d_reports (?d1 frm))" by (simp add: new_report_def Let_def)
    have "reports_ok d'" using store_files_ok [OF Pair [unfolded st'] ok1 subset_refl k] by (rule conjunct1)
    with Pair st' show ?thesis by (simp only: fst_conv)
  qed
  show ?thesis
  proof (cases form)
    case (Some frm)
    have "fst (CreateBugReport L f now s3 st r form) = st \<or> fst (CreateBugReport L f now s3 st r form) = (?d1 frm, b) \<or>
        fst (CreateBugReport L f now s3 st r form) = fst (store_files (shift_faults 2 f) now s3 (d_nextReport d) frm 0 fileRoles (?d1 frm, b))"
    proof (cases "rf_Value frm ''name'' = [] \<or> rf_Value frm ''email'' = [] \<or> rf_Value frm ''description'' = [] \<or> f 0 \<or> f 1")
      case True
      then show ?thesis by (auto simp: CreateBugReport_def st Some Let_def)
    next
      case False
      then show ?thesis
        by (cases "store_files (shift_faults 2 f) now s3 (d_nextReport d) frm 0 fileRoles (?d1 frm, b)"; cases "snd (store_files (shift_faults 2 f) now s3 (d_nextReport d) frm 0 fileRoles (?d1 frm, b))")
          (simp_all add: CreateBugReport_def st Some Let_def)
    qed
    then show ?thesis
    proof (elim disjE)
      assume "fst (CreateBugReport L f now s3 st r form) = st"
      then show ?thesis using ok by (simp only:)
    next
      assume "fst (CreateBugReport L f now s3 st r form) = (?d1 frm, b)"
      then show ?thesis using ok1 [of frm] by (simp only: fst_conv)
    next
      assume "fst (CreateBugReport L f now s3 st r form) = fst (store_files (shift_faults 2 f) now s3 (d_nextReport d) frm 0 fileRoles (?d1 frm, b))"
      then show ?thesis using files [of "shift_faults 2 f" frm] by (simp only:)
    qed
  qed (use ok in \<open>simp add: CreateBugReport_def\<close>)
qed

lemma map_reports_ok:
  assumes "reports_ok d" "\<And>r. rp_ID (g r) = rp_ID r" "\<And>r. status_IsValid (rp_Status r) \<Longrightarrow> status_IsValid (rp_Status (g r))"
  shows "reports_ok (d\<lparr>d_reports := map g (d_reports d)\<rparr>)"
proof -
  have "map rp_ID (map g xs) = map rp_ID xs" for xs using assms(2) by simp
  moreover have "rp_ID ` set (map g xs) = rp_ID ` set xs" for xs using assms(2) by (simp add: image_image)
  ultimately show ?thesis using assms unfolding reports_ok_def by (auto simp: image_image comp_def)
qed

lemma report_Patch_ok:
  assumes "reports_ok d"
  shows "reports_ok (fst (PatchBugReportStatus L f now d i body))"
proof -
  have "reports_ok (d\<lparr>d_reports := map (\<lambda>r. if P r then r\<lparr>rp_Status := status, rp_UpdatedAt := t\<rparr> else r) (d_reports d)\<rparr>)"
    if "status_IsValid status" for P status t
    using assms by (rule map_reports_ok) (use that in simp_all)
  moreover have "status_IsValid status" if "ParseBugReportStatus raw = (status, True)" for raw status
    using that by (auto simp: ParseBugReportStatus_def Let_def split: if_splits)
  ultimately show ?thesis using assms
    by (simp add: PatchBugReportStatus_def Let_def split: option.splits prod.splits bool.splits)
qed

lemma report_Delete_ok: "reports_ok d \<Longrightarrow> reports_ok (fst (DeleteBugReportByID L f d i))"
  by (auto simp: DeleteBugReportByID_def reports_ok_def Let_def keyed_def distinct_map_filter)

lemma report_run_ok: "reports_ok (fst st) \<Longrightarrow> reports_ok (fst (fold (report_step L) evs st))"
proof (induction evs arbitrary: st)
  case (Cons e evs)
  obtain d b where "st = (d, b)" by (cases st)
  with Cons.prems have "reports_ok (fst (report_step L e st))"
    by (cases e) (auto intro: CreateBugReport_ok report_Patch_ok report_Delete_ok)
  with Cons.IH show ?case by simp
qed simp

section \<open>A sample report\<close>

text \<open>Decimal numbers of any size, as the database compares them.\<close>

definition Atoi_any :: "string \<Rightarrow> int option" where
  "Atoi_any s = (case s of [] \<Rightarrow> None | c # cs \<Rightarrow>
     if c = CHR ''-'' then (if cs \<noteq> [] \<and> list_all is_digit cs then Some (- digits_val cs) else None)
     else if list_all is_digit s then Some (digits_val s) else None)"

lemma Atoi_any_Itoa: "Atoi_any (Itoa i) = Some i"
proof (cases "i < 0")
  case True
  with nat_digits_correct [of "nat (- i)"] show ?thesis by (simp add: Atoi_any_def Itoa_def)
next
  case False
  obtain c cs where ds: "nat_digits (nat i) = c # cs" using nat_digits_correct [of "nat i"] by (cases "nat_digits (nat i)") auto
  with False nat_digits_correct [of "nat i"] show ?thesis by (simp add: Atoi_any_def Itoa_def)
qed

definition sample_lib :: report_lib where
  "sample_lib = \<lparr>rl_json = (\<lambda>_. None), rl_indent = (\<lambda>_. None), rl_quote = (\<lambda>s. s), rl_like = (\<lambda>_ _. True), rl_key = Atoi_any\<rparr>"

lemma sample_keys: "integer_keys sample_lib"
  by (simp add: integer_keys_def sample_lib_def Atoi_any_Itoa)

definition sample_upload :: "string \<Rightarrow> string \<Rightarrow> upload" where
  "sample_upload name bytes = \<lparr>up_Filename = name, up_ContentType = [], up_Size = 1, up_Bytes = Some bytes\<rparr>"

definition sample_form :: "string \<Rightarrow> string \<Rightarrow> report_form" where
  "sample_form n1 n2 = \<lparr>rf_Value = (\<lambda>k. if k \<in> {''name'', ''email'', ''description''} then ''x'' else []),
     rf_File = (\<lambda>k. if k = ''screenshot'' then Some (sample_upload n1 ''S'') else if k = ''mail_file'' then Some (sample_upload n2 ''M'') else None)\<rparr>"

definition nobody :: request where
  "nobody = \<lparr>r_Header = (\<lambda>_. []), r_RemoteAddr = []\<rparr>"

lemma sample_accepted: "accepted_bytes (sample_upload name [c]) = Some [c]"
  by (simp add: accepted_bytes_def sample_upload_def maxUploadFileSize_def LimitReader_def)

lemma map_bucket_atomic: "atomic_put map_bucket"
  by (simp add: atomic_put_def map_bucket_def)

section \<open>Properties\<close>

text \<open>C24: whatever report requests arrive and whichever statements fail, every report has a valid status and an id of
  its own below the next one, and every file belongs to a report, has a known role, the size it says and at most
  32 MiB.\<close>

theorem report_rows_stay_well_formed:
  "reports_ok (fst (fold (report_step L) evs (empty_report_db, b)))"
  by (rule report_run_ok) simp


lemma sample_created_report:
  "\<exists>d b. CreateBugReport sample_lib no_faults 0 (Some map_bucket) (empty_report_db, Map.empty) nobody (Some (sample_form ''a'' ''b''))
    = ((d, b), Created 1) \<and> map bf_ID (d_files d) = [1, 2] \<and> map bf_Filename (d_files d) = [''a'', ''b''] \<and> map bf_Data (d_files d) = [''S'', ''M''] \<and>
      map bf_BugReportID (d_files d) = [1, 1]"
proof -
  have one: "Itoa 1 = ''1''" by code_simp
  have base: "path_Base ''emly-api-files/bug-reports/1/files/a'' = ''a''" "path_Base ''emly-api-files/bug-reports/1/files/b'' = ''b''"
    by code_simp+
  have forms: "rf_File (sample_form ''a'' ''b'') ''screenshot'' = Some (sample_upload ''a'' ''S'')"
    "rf_File (sample_form ''a'' ''b'') ''mail_file'' = Some (sample_upload ''b'' ''M'')"
    "rf_File (sample_form ''a'' ''b'') ''localstorage'' = None" "rf_File (sample_form ''a'' ''b'') ''config'' = None"
    "rf_Value (sample_form ''a'' ''b'') ''name'' = ''x''" "rf_Value (sample_form ''a'' ''b'') ''email'' = ''x''"
    "rf_Value (sample_form ''a'' ''b'') ''description'' = ''x''"
    by (simp_all add: sample_form_def)
  have up: "up_Bytes (sample_upload n s) = Some s" "up_Filename (sample_upload n s) = n" "up_ContentType (sample_upload n s) = []" for n s
    by (simp_all add: sample_upload_def)
  show ?thesis
    by (simp add: CreateBugReport_def forms fileRoles_def empty_report_db_def sample_accepted up file_row_def one file_key_def base Let_def
        shift_faults_def)
qed




section \<open>What goes wrong\<close>

text \<open>A file that does not exist is answered as a database error, never as missing.\<close>

lemma missing_file_is_never_404:
  "snd (GetReportFileByFileID L no_faults s3 d b reportId fileId) \<noteq> Error 404 msg"
  "reportId \<noteq> [] \<Longrightarrow> fileId \<noteq> [] \<Longrightarrow> fetch_file L reportId fileId d = None \<Longrightarrow>
     snd (GetReportFileByFileID L no_faults s3 d b reportId fileId) = Error 500 ''database error''"
  by (auto simp: GetReportFileByFileID_def split: option.splits)

text \<open>
  The bucket key of a file is its report and its name: of two files of a report with one name, only the later one
  is in the bucket, and a download of the first answers the bytes of the second.
\<close>

lemma same_name_serves_other_file:
  "\<exists>d b b' served. CreateBugReport sample_lib no_faults 0 (Some map_bucket) (empty_report_db, Map.empty) nobody (Some (sample_form ''a'' ''a''))
     = ((d, b), Created 1) \<and> map bf_ID (d_files d) = [1, 2] \<and> map bf_Data (d_files d) = [''S'', ''M''] \<and>
     GetReportFileByFileID sample_lib no_faults (Some map_bucket) d b (Itoa 1) (Itoa 1) = (b', OK served) \<and> sf_Body served = ''M''"
proof -
  have one: "Itoa 1 = ''1''" by code_simp
  have base: "path_Base ''emly-api-files/bug-reports/1/files/a'' = ''a''" by code_simp
  have key: "rl_key sample_lib ''1'' = Some 1" using Atoi_any_Itoa [of 1] one by (simp add: sample_lib_def)
  have forms: "rf_File (sample_form ''a'' ''a'') ''screenshot'' = Some (sample_upload ''a'' ''S'')"
    "rf_File (sample_form ''a'' ''a'') ''mail_file'' = Some (sample_upload ''a'' ''M'')"
    "rf_File (sample_form ''a'' ''a'') ''localstorage'' = None" "rf_File (sample_form ''a'' ''a'') ''config'' = None"
    "rf_Value (sample_form ''a'' ''a'') ''name'' = ''x''" "rf_Value (sample_form ''a'' ''a'') ''email'' = ''x''"
    "rf_Value (sample_form ''a'' ''a'') ''description'' = ''x''"
    by (simp_all add: sample_form_def)
  have up: "up_Bytes (sample_upload n s) = Some s" "up_Filename (sample_upload n s) = n" "up_ContentType (sample_upload n s) = []" for n s
    by (simp_all add: sample_upload_def)
  show ?thesis
    by (simp add: CreateBugReport_def forms fileRoles_def empty_report_db_def sample_accepted up file_row_def one file_key_def base Let_def
        shift_faults_def GetReportFileByFileID_def fetch_file_def keyed_def key UploadFile_def map_bucket_def GetFile_def cached_file_def)
qed

end
