(* ===== verification/File_Migration.thy ===== *)
theory File_Migration
  imports Bug_Report_Properties
begin

text \<open>
  \<open>storage/migrateFiles.go\<close>: copying the files of every report to the bucket. Each upload is a goroutine; one that
  fails sends its error to a channel with room for 128, which is only read once all goroutines are done, so the
  129th failure waits for ever. The result is None when the function never returns.
\<close>

definition errCh_cap :: nat where
  "errCh_cap = 128"

text \<open>A queued upload: key, content type, file name, bytes.\<close>

type_synonym job = "string \<times> string \<times> string \<times> string"

definition job_of :: "report_file \<Rightarrow> job" where
  "job_of x = (file_key (Itoa (bf_BugReportID x)) (bf_Filename x), bf_MimeType x, bf_Filename x, bf_Data x)"

text \<open>
  The files of one report, from statement \<open>k\<close> on: \<open>k\<close> reads their ids, each following one a file. \<open>gone\<close> says
  which of them has been deleted in the meantime; such a file is skipped. A failed statement ends the migration.
\<close>

fun queue_files :: "faults \<Rightarrow> (int \<Rightarrow> bool) \<Rightarrow> nat \<Rightarrow> report_file list \<Rightarrow> (nat \<times> job list) option" where
  "queue_files f gone k [] = Some (k, [])"
| "queue_files f gone k (x # xs) =
     (if f k then None
      else map_option (\<lambda>(k', js). (k', if gone (bf_ID x) then js else job_of x # js)) (queue_files f gone (k + 1) xs))"

fun queue_reports :: "faults \<Rightarrow> (int \<Rightarrow> bool) \<Rightarrow> nat \<Rightarrow> report_file list \<Rightarrow> bug_report list \<Rightarrow> (nat \<times> job list) option" where
  "queue_reports f gone k files [] = Some (k, [])"
| "queue_reports f gone k files (r # rs) =
     (if f k then None
      else case queue_files f gone (k + 1) (filter (\<lambda>x. bf_BugReportID x = rp_ID r) files) of
        None \<Rightarrow> None
      | Some (k', js) \<Rightarrow> map_option (\<lambda>(k'', js'). (k'', js @ js')) (queue_reports f gone k' files rs))"

text \<open>The uploads in the order in which they finish, with the number that failed.\<close>

fun run_uploads :: "'b s3_client \<Rightarrow> job list \<Rightarrow> 'b \<Rightarrow> 'b \<times> nat" where
  "run_uploads c [] b = (b, 0)"
| "run_uploads c ((key, mime, fname, payload) # js) b =
     (case UploadFile c key payload mime [(''filename'', fname)] b of
        (b', err) \<Rightarrow> (case run_uploads c js b' of (b'', n) \<Rightarrow> (b'', if err = None then n else n + 1)))"

datatype migrated = QueryFailed | UploadErrors nat | AllUploaded

text \<open>
  \<open>ORDER BY created_at DESC\<close> is the order of the reports. After a failed query the process ends, with
  \<open>finished\<close> of the uploads done.
\<close>

definition MigrateReportFilesToS3 ::
  "faults \<Rightarrow> (int \<Rightarrow> bool) \<Rightarrow> 'b s3_client option \<Rightarrow> job list \<Rightarrow> report_db \<Rightarrow> 'b \<Rightarrow> ('b \<times> migrated) option" where
  "MigrateReportFilesToS3 f gone s3conn finished d b =
     (let early = (case s3conn of None \<Rightarrow> b | Some c \<Rightarrow> fst (run_uploads c finished b))
      in if f 0 then Some (b, QueryFailed)
         else case queue_reports f gone 1 (d_files d) (sort_key (\<lambda>r. - rp_CreatedAt r) (d_reports d)) of
           None \<Rightarrow> Some (early, QueryFailed)
         | Some (_, js) \<Rightarrow>
             (case s3conn of
                None \<Rightarrow> Some (b, AllUploaded)
              | Some c \<Rightarrow>
                  (case run_uploads c js b of
                     (b', n) \<Rightarrow> if errCh_cap < n then None
                                 else Some (b', if 0 < n then UploadErrors n else AllUploaded))))"

section \<open>What is queued\<close>

lemma queue_files_jobs: "queue_files f gone k xs = Some (k', js) \<Longrightarrow> js = map job_of (filter (\<lambda>x. \<not> gone (bf_ID x)) xs)"
  by (induction xs arbitrary: k k' js) (auto split: if_splits)

lemma queue_reports_jobs:
  "queue_reports f gone k files rs = Some (k', js) \<Longrightarrow>
   js = map job_of (filter (\<lambda>x. \<not> gone (bf_ID x)) (concat (map (\<lambda>r. filter (\<lambda>x. bf_BugReportID x = rp_ID r) files) rs)))"
  by (induction rs arbitrary: k k' js) (auto split: if_splits option.splits dest!: queue_files_jobs)

lemma queue_files_total: "\<exists>k' js. queue_files (\<lambda>_. False) gone k xs = Some (k', js)"
proof (induction xs arbitrary: k)
  case (Cons x xs)
  obtain k' js where "queue_files (\<lambda>_. False) gone (k + 1) xs = Some (k', js)" using Cons by blast
  then show ?case by simp
qed simp

lemma queue_reports_total: "\<exists>k' js. queue_reports (\<lambda>_. False) gone k files rs = Some (k', js)"
proof (induction rs arbitrary: k)
  case (Cons r rs)
  obtain k1 js1 where q: "queue_files (\<lambda>_. False) gone (k + 1) (filter (\<lambda>x. bf_BugReportID x = rp_ID r) files) = Some (k1, js1)"
    using queue_files_total by blast
  obtain k2 js2 where "queue_reports (\<lambda>_. False) gone k1 files rs = Some (k2, js2)" using Cons by blast
  with q show ?case by simp
qed simp

section \<open>What is uploaded\<close>

text \<open>If no upload fails, every job whose key no other job has is read back as it was queued.\<close>

lemma Itoa_inj: "Itoa a = Itoa b \<Longrightarrow> a = b"
  using Atoi_any_Itoa by (metis option.inject)

lemma nat_digits_no_slash: "CHR ''/'' \<notin> set (Itoa i)"
proof -
  have "\<not> is_digit (CHR ''/'')" by code_simp
  then have "CHR ''/'' \<notin> set (nat_digits n)" for n using nat_digits_correct [of n] by (auto simp: list_all_iff)
  then show ?thesis by (simp add: Itoa_def)
qed

text \<open>The key determines the report and the name.\<close>

lemma file_key_both: "file_key (Itoa a) m = file_key (Itoa b) n \<Longrightarrow> a = b \<and> m = n"
  using split_at_first [of "CHR ''/''" "Itoa a" "Itoa b"] nat_digits_no_slash [of a] nat_digits_no_slash [of b]
  by (auto simp: file_key_def dest: Itoa_inj)

lemma run_uploads_Cons:
  assumes "run_uploads c ((k, m, fn, p) # js) b = (b', 0)"
  obtains b1 where "UploadFile c k p m [(''filename'', fn)] b = (b1, None)" "run_uploads c js b1 = (b', 0)"
  using assms by (auto split: prod.splits if_splits)

lemma run_uploads_other:
  assumes "run_uploads c js b = (b', 0)" "read_after_write c" "key \<notin> fst ` set js"
  shows "GetFile c key b' = GetFile c key b"
  using assms(1,3)
proof (induction js arbitrary: b)
  case (Cons j js)
  obtain k m fn p where j: "j = (k, m, fn, p)" by (cases j)
  obtain b1 where u: "UploadFile c k p m [(''filename'', fn)] b = (b1, None)" and r: "run_uploads c js b1 = (b', 0)"
    using Cons.prems(1) unfolding j by (rule run_uploads_Cons)
  have "GetFile c key b' = GetFile c key b1" using Cons.IH [OF r] Cons.prems(2) by simp
  also have "\<dots> = GetFile c key b" using Cons.prems(2) j by (intro GetFile_UploadFile(2) [OF assms(2) u]) auto
  finally show ?case .
qed simp

lemma run_uploads_read:
  assumes "run_uploads c js b = (b', 0)" "read_after_write c" "(key, mime, fname, payload) \<in> set js"
    "list_all (\<lambda>j. fst j = key \<longrightarrow> j = (key, mime, fname, payload)) js"
  shows "\<exists>info. GetFile c key b' = Inr (payload, info) \<and> fi_ContentType info = mime"
  using assms(1,3,4)
proof (induction js arbitrary: b)
  case (Cons j js)
  obtain k m fn p where j: "j = (k, m, fn, p)" by (cases j)
  obtain b1 where u: "UploadFile c k p m [(''filename'', fn)] b = (b1, None)" and r: "run_uploads c js b1 = (b', 0)"
    using Cons.prems(1) unfolding j by (rule run_uploads_Cons)
  show ?case
  proof (cases "(key, mime, fname, payload) \<in> set js")
    case True
    with Cons.IH [OF r] Cons.prems(3) show ?thesis by simp
  next
    case False
    then have k: "k = key" "p = payload" "m = mime" using Cons.prems(2) j by auto
    have "key \<notin> fst ` set js" using False Cons.prems(3) by (auto simp: list_all_iff)
    then have "GetFile c key b' = GetFile c key b1" by (rule run_uploads_other [OF r assms(2)])
    with GetFile_UploadFile(1) [OF assms(2) u] k show ?thesis by auto
  qed
qed simp

section \<open>Properties\<close>

text \<open>The uploads a migration of the given tables queues.\<close>

definition migration_jobs :: "(int \<Rightarrow> bool) \<Rightarrow> report_db \<Rightarrow> job list" where
  "migration_jobs gone d = map job_of (filter (\<lambda>x. \<not> gone (bf_ID x))
     (concat (map (\<lambda>r. filter (\<lambda>x. bf_BugReportID x = rp_ID r) (d_files d)) (sort_key (\<lambda>r. - rp_CreatedAt r) (d_reports d)))))"

lemma Migrate_answer:
  "MigrateReportFilesToS3 no_faults gone (Some c) finished d b =
     (case run_uploads c (migration_jobs gone d) b of
        (b', n) \<Rightarrow> if errCh_cap < n then None else Some (b', if 0 < n then UploadErrors n else AllUploaded))"
proof -
  obtain k js where q: "queue_reports (\<lambda>_. False) gone 1 (d_files d) (sort_key (\<lambda>r. - rp_CreatedAt r) (d_reports d)) = Some (k, js)"
    using queue_reports_total by blast
  from queue_reports_jobs [OF this] have "js = migration_jobs gone d" by (simp add: migration_jobs_def)
  with q show ?thesis by (simp add: MigrateReportFilesToS3_def no_faults_def)
qed



definition sample_file :: report_file where
  "sample_file = \<lparr>bf_ID = 1, bf_BugReportID = 1, bf_FileRole = ''config'', bf_Filename = ''c.json'', bf_MimeType = ''text/plain'',
     bf_FileSize = 2, bf_Data = ''{}'', bf_CreatedAt = 0\<rparr>"

definition sample_reports :: report_db where
  "sample_reports = \<lparr>d_reports = [\<lparr>rp_ID = 1, rp_Name = ''n'', rp_Email = ''e'', rp_Description = ''d'', rp_HWID = [], rp_Hostname = [],
     rp_OsUser = [], rp_SubmitterIP = [], rp_SystemInfo = None, rp_Status = ''new'', rp_CreatedAt = 0, rp_UpdatedAt = 0\<rparr>],
     d_nextReport = 2, d_files = [sample_file], d_nextFile = 2\<rparr>"

lemma sample_reports_ok: "reports_ok sample_reports"
  by (simp add: reports_ok_def sample_reports_def sample_file_def status_IsValid_def BugReportStatusNew_def fileRoles_def maxUploadFileSize_def)

lemma sample_migration:
  "\<exists>b'. MigrateReportFilesToS3 no_faults (\<lambda>_. False) (Some map_bucket) [] sample_reports Map.empty = Some (b', AllUploaded)"
  by (simp add: Migrate_answer migration_jobs_def sample_reports_def sample_file_def job_of_def UploadFile_def map_bucket_def errCh_cap_def)


end
