(* ===== verification/Event_Prune.thy ===== *)
theory Event_Prune
  imports Updater_Client
begin

text \<open>
  \<open>internal/eventprune/eventprune.go\<close>: the background loop that trims \<open>updater_events\<close>. Between two
  batches other requests run; \<open>others n\<close> is what they do to the tables before batch \<open>n\<close>. The loop of a pass
  has no bound of its own, so it is an option, None when it never returns.
\<close>

definition Interval :: duration where "Interval = hour"
definition batchSize :: int where "batchSize = 5000"

datatype prune_error = DriverError | Cancelled

section \<open>Statements\<close>

text \<open>\<open>SELECT id ... WHERE created_at >= ? ORDER BY id ASC LIMIT 1\<close>, or one past the greatest id.\<close>

definition min_id :: "event_row list \<Rightarrow> int option" where
  "min_id es = (case es of [] \<Rightarrow> None | e # r \<Rightarrow> Some (fold min (map ev_id r) (ev_id e)))"

definition max_id :: "event_row list \<Rightarrow> int" where
  "max_id es = (case es of [] \<Rightarrow> 0 | e # r \<Rightarrow> fold max (map ev_id r) (ev_id e))"

definition firstKeptID :: "gotime \<Rightarrow> updater_db \<Rightarrow> int" where
  "firstKeptID cutoff db =
     (case min_id (filter (\<lambda>e. cutoff \<le> ev_created_at e) (u_events db)) of
        Some i \<Rightarrow> i
      | None \<Rightarrow> max_id (u_events db) + 1)"

text \<open>\<open>DELETE ... LIMIT\<close>: the first rows that match, as many as the limit allows.\<close>

fun drop_matching :: "('a \<Rightarrow> bool) \<Rightarrow> int \<Rightarrow> 'a list \<Rightarrow> 'a list" where
  "drop_matching P lim [] = []"
| "drop_matching P lim (x # xs) =
     (if P x \<and> 0 < lim then drop_matching P (lim - 1) xs else x # drop_matching P lim xs)"

definition delete_batch :: "int \<Rightarrow> updater_db \<Rightarrow> updater_db \<times> int" where
  "delete_batch k db =
     (let es = drop_matching (\<lambda>e. ev_id e < k) batchSize (u_events db)
      in (db\<lparr>u_events := es\<rparr>, int (length (u_events db)) - int (length es)))"

section \<open>A pass and the loop\<close>

text \<open>
  Batch \<open>n\<close> is statements \<open>2n+1\<close> (the delete) and \<open>2n+2\<close> (its row count); \<open>stop n\<close> says whether the
  context is done in the pause after it.
\<close>

partial_function (option) delete_batches ::
  "faults \<Rightarrow> (nat \<Rightarrow> bool) \<Rightarrow> (nat \<Rightarrow> updater_db \<Rightarrow> updater_db) \<Rightarrow> int \<Rightarrow> nat \<Rightarrow> int \<Rightarrow> updater_db \<Rightarrow>
     (updater_db \<times> int \<times> prune_error option) option" where
  "delete_batches f stop others k n tot db =
     (let db0 = others n db; db1 = fst (delete_batch k db0); removed = snd (delete_batch k db0)
      in if f (2 * n + 1) then Some (db0, tot, Some DriverError)
         else if f (2 * n + 2) then Some (db1, tot, Some DriverError)
         else if removed < batchSize then Some (db1, tot + removed, None)
         else if stop n then Some (db1, tot + removed, Some Cancelled)
         else delete_batches f stop others k (n + 1) (tot + removed) db1)"

definition Run ::
  "faults \<Rightarrow> (nat \<Rightarrow> bool) \<Rightarrow> (nat \<Rightarrow> updater_db \<Rightarrow> updater_db) \<Rightarrow> gotime \<Rightarrow> duration \<Rightarrow> updater_db \<Rightarrow>
     (updater_db \<times> int \<times> prune_error option) option" where
  "Run f stop others now retention db =
     (let cutoff = now - retention
      in if f 0 then Some (db, 0, Some DriverError)
         else let k = firstKeptID cutoff db
              in if k \<le> 1 then Some (db, 0, None) else delete_batches f stop others k 0 0 db)"

text \<open>The passes \<open>Start\<close> makes until its context is done, each with its time and what happens in it.\<close>

record prune_pass =
  pp_now :: gotime
  pp_faults :: faults
  pp_stop :: "nat \<Rightarrow> bool"
  pp_others :: "nat \<Rightarrow> updater_db \<Rightarrow> updater_db"

fun prune_loop :: "duration \<Rightarrow> prune_pass list \<Rightarrow> updater_db \<Rightarrow> updater_db option" where
  "prune_loop retention [] db = Some db"
| "prune_loop retention (p # ps) db =
     Option.bind (Run (pp_faults p) (pp_stop p) (pp_others p) (pp_now p) retention db)
       (\<lambda>r. prune_loop retention ps (fst r))"

definition Start :: "duration \<Rightarrow> prune_pass list \<Rightarrow> updater_db \<Rightarrow> updater_db option" where
  "Start retention passes db = (if retention \<le> 0 then Some db else prune_loop retention passes db)"

section \<open>Batches\<close>

lemma fold_min: "fold min xs a \<le> (a :: int) \<and> (\<forall>x \<in> set xs. fold min xs a \<le> x) \<and> (fold min xs a = a \<or> fold min xs a \<in> set xs)"
proof (induction xs arbitrary: a)
  case (Cons x xs)
  from Cons.IH [of "min x a"] show ?case by (auto simp: min_def split: if_splits)
qed simp

lemma fold_max: "a \<le> fold max xs (a :: int) \<and> (\<forall>x \<in> set xs. x \<le> fold max xs a) \<and> (fold max xs a = a \<or> fold max xs a \<in> set xs)"
proof (induction xs arbitrary: a)
  case (Cons x xs)
  from Cons.IH [of "max x a"] show ?case by (auto simp: max_def split: if_splits)
qed simp

lemma min_id_Some:
  assumes "min_id es = Some i"
  shows "i \<in> ev_id ` set es \<and> (\<forall>e \<in> set es. i \<le> ev_id e)"
proof (cases es)
  case (Cons e r)
  with assms fold_min [of "map ev_id r" "ev_id e"] show ?thesis by (auto simp: min_id_def)
qed (use assms in \<open>simp add: min_id_def\<close>)

lemma min_id_None: "min_id es = None \<longleftrightarrow> es = []"
  by (simp add: min_id_def split: list.splits)

lemma max_id_ge: "e \<in> set es \<Longrightarrow> ev_id e \<le> max_id es"
  using fold_max by (auto simp: max_id_def split: list.splits)

lemma max_id_in:
  assumes "es \<noteq> []"
  shows "max_id es \<in> ev_id ` set es"
proof (cases es)
  case (Cons e r)
  with fold_max [of "ev_id e" "map ev_id r"] show ?thesis by (auto simp: max_id_def)
qed (use assms in simp)

text \<open>No row at or past the boundary's creation time has an id below the boundary.\<close>

lemma firstKeptID_window:
  assumes "e \<in> set (u_events db)" "cutoff \<le> ev_created_at e"
  shows "firstKeptID cutoff db \<le> ev_id e"
proof -
  have e: "e \<in> set (filter (\<lambda>e. cutoff \<le> ev_created_at e) (u_events db))" using assms by simp
  then have "filter (\<lambda>e. cutoff \<le> ev_created_at e) (u_events db) \<noteq> []" by force
  then obtain i where i: "min_id (filter (\<lambda>e. cutoff \<le> ev_created_at e) (u_events db)) = Some i"
    using min_id_None by blast
  with min_id_Some [OF i] e show ?thesis by (simp add: firstKeptID_def)
qed

lemma firstKeptID_bound:
  assumes "\<forall>e \<in> set (u_events db). ev_id e < m" "1 < firstKeptID cutoff db"
  shows "firstKeptID cutoff db \<le> m"
proof (cases "min_id (filter (\<lambda>e. cutoff \<le> ev_created_at e) (u_events db))")
  case None
  with assms(2) have "u_events db \<noteq> []" by (auto simp: firstKeptID_def max_id_def)
  from max_id_in [OF this] None assms(1) show ?thesis by (auto simp: firstKeptID_def)
next
  case (Some i)
  from min_id_Some [OF this] obtain e where "e \<in> set (u_events db)" "ev_id e = i" by auto
  with assms(1) have "i < m" by blast
  with Some show ?thesis by (simp add: firstKeptID_def)
qed

lemma set_drop_matching: "set (drop_matching P lim xs) \<subseteq> set xs"
  by (induction P lim xs rule: drop_matching.induct) auto

lemma drop_matching_keeps: "x \<in> set xs \<Longrightarrow> \<not> P x \<Longrightarrow> x \<in> set (drop_matching P lim xs)"
  by (induction P lim xs rule: drop_matching.induct) auto

lemma filter_drop_matching: "filter (\<lambda>x. \<not> P x) (drop_matching P lim xs) = filter (\<lambda>x. \<not> P x) xs"
  by (induction P lim xs rule: drop_matching.induct) auto

lemma drop_matching_length: "0 \<le> lim \<Longrightarrow>
  int (length xs) - int (length (drop_matching P lim xs)) = min lim (int (length (filter P xs)))"
  by (induction P lim xs rule: drop_matching.induct) auto

lemma drop_matching_all: "int (length (filter P xs)) \<le> lim \<Longrightarrow> drop_matching P lim xs = filter (\<lambda>x. \<not> P x) xs"
  by (induction P lim xs rule: drop_matching.induct) auto

lemma distinct_drop_matching: "distinct (map f xs) \<Longrightarrow> distinct (map f (drop_matching P lim xs))"
  by (induction P lim xs rule: drop_matching.induct) (auto dest: set_drop_matching [THEN subsetD])

lemma length_filter_drop: "length (filter Q (drop_matching P lim xs)) \<le> length (filter Q xs)"
  by (induction P lim xs rule: drop_matching.induct) auto

definition due :: "int \<Rightarrow> updater_db \<Rightarrow> nat" where
  "due k db = length (filter (\<lambda>e. ev_id e < k) (u_events db))"

lemma delete_batch_removed: "snd (delete_batch k db) = min batchSize (int (due k db))"
  using drop_matching_length [of batchSize "u_events db"] by (simp add: delete_batch_def due_def Let_def batchSize_def)

lemma delete_batch_due: "int (due k (fst (delete_batch k db))) = int (due k db) - snd (delete_batch k db)"
proof -
  have len: "length (filter P xs) + length (filter (\<lambda>x. \<not> P x) xs) = length xs" for P and xs :: "event_row list"
    by (induction xs) auto
  let ?P = "\<lambda>e. ev_id e < k" and ?es = "drop_matching (\<lambda>e. ev_id e < k) batchSize (u_events db)"
  show ?thesis using len [of ?P ?es] len [of ?P "u_events db"] filter_drop_matching [of ?P batchSize "u_events db"]
    by (simp add: delete_batch_def due_def Let_def)
qed

lemma delete_batch_fields [simp]:
  "u_clients (fst (delete_batch k db)) = u_clients db" "u_hourly (fst (delete_batch k db)) = u_hourly db"
  "u_nextEvent (fst (delete_batch k db)) = u_nextEvent db" "u_nextClient (fst (delete_batch k db)) = u_nextClient db"
  by (simp_all add: delete_batch_def Let_def)

lemma delete_batch_rollup: "rollup_ok db \<Longrightarrow> rollup_ok (fst (delete_batch k db))"
proof -
  assume ok: "rollup_ok db"
  have "raw_count (fst (delete_batch k db)) key \<le> raw_count db key" for key
    by (simp add: raw_count_def delete_batch_def Let_def length_filter_drop)
  with ok show ?thesis
    by (fastforce simp: rollup_ok_def hourly_count_def delete_batch_def Let_def distinct_drop_matching
        dest: set_drop_matching [THEN subsetD] intro: order_trans)
qed

section \<open>What the other requests do\<close>

text \<open>
  The contract a pass relies on: traffic only deletes events and appends new ones under ids that were not
  handed out yet.
\<close>

locale event_traffic =
  fixes others :: "nat \<Rightarrow> updater_db \<Rightarrow> updater_db"
  assumes events: "\<exists>P new. u_events (others n db) = filter P (u_events db) @ new \<and> (\<forall>e \<in> set new. u_nextEvent db \<le> ev_id e)"
    and next_id: "u_nextEvent db \<le> u_nextEvent (others n db)"
begin

lemma due_mono: "k \<le> u_nextEvent db \<Longrightarrow> due k (others n db) \<le> due k db"
proof -
  assume k: "k \<le> u_nextEvent db"
  obtain P new where e: "u_events (others n db) = filter P (u_events db) @ new" "\<forall>e \<in> set new. u_nextEvent db \<le> ev_id e"
    using events by blast
  have "length (filter Q (filter P xs)) \<le> length (filter Q xs)" for Q and xs :: "event_row list"
    by (induction xs) auto
  moreover have "filter (\<lambda>e. ev_id e < k) new = []" using e(2) k by (auto simp: filter_empty_conv)
  ultimately show ?thesis by (simp add: due_def e(1))
qed

lemma batches_return:
  assumes "k \<le> u_nextEvent db"
  shows "\<exists>r. delete_batches f stop others k n tot db = Some r"
  using assms
proof (induction "due k db" arbitrary: n tot db rule: less_induct)
  case less
  let ?db0 = "others n db"
  let ?db1 = "fst (delete_batch k ?db0)"
  show ?case
  proof (cases "f (2 * n + 1) \<or> f (2 * n + 2) \<or> snd (delete_batch k ?db0) < batchSize \<or> stop n")
    case True
    then show ?thesis by (subst delete_batches.simps) (auto simp: Let_def)
  next
    case False
    then have "snd (delete_batch k ?db0) = batchSize" using delete_batch_removed [of k ?db0] by linarith
    with delete_batch_due [of k ?db0] due_mono [OF less.prems, of n] have "due k ?db1 < due k db"
      by (simp add: batchSize_def)
    moreover have "k \<le> u_nextEvent ?db1" using less.prems next_id [of db n] by simp
    ultimately obtain r where "delete_batches f stop others k (n + 1) (tot + snd (delete_batch k ?db0)) ?db1 = Some r"
      using less.hyps by blast
    with False show ?thesis by (subst delete_batches.simps) (cases r, simp add: Let_def)
  qed
qed

lemma Run_returns:
  assumes "\<forall>e \<in> set (u_events db). ev_id e < u_nextEvent db"
  shows "\<exists>r. Run f stop others now retention db = Some r"
  using batches_return firstKeptID_bound [OF assms] by (auto simp: Run_def Let_def)

end

text \<open>Recording an event, whatever request makes it and whatever fails, is such traffic.\<close>

lemma evict_events: "\<exists>P. u_events (evict_squatters ck db idt t) = filter P (u_events db)"
  by (auto simp: evict_squatters_def delete_clients_def Let_def intro: exI [of _ "\<lambda>_. True"])

lemma evict_nextEvent: "u_nextEvent (evict_squatters ck db idt t) = u_nextEvent db"
  by (simp add: evict_squatters_def delete_clients_def Let_def)

lemma Upsert_events:
  "(\<exists>P. u_events (fst (Upsert ck f now db idt)) = filter P (u_events db)) \<and>
   u_nextEvent (fst (Upsert ck f now db idt)) = u_nextEvent db"
proof -
  have id: "\<exists>P. u_events db = filter P (u_events db)" by (rule exI [of _ "\<lambda>_. True"]) simp
  show ?thesis
    using id evict_events evict_nextEvent
    by (auto simp: Upsert_def Let_def update_client_def insert_client_def split: option.splits if_splits)
qed

lemma insertEvent_events:
  "(\<exists>new. u_events (fst (insertEvent f now db c et p v ip)) = u_events db @ new \<and> (\<forall>e \<in> set new. u_nextEvent db \<le> ev_id e)) \<and>
   u_nextEvent db \<le> u_nextEvent (fst (insertEvent f now db c et p v ip))"
  by (auto simp: insertEvent_def Let_def)

lemma RecordEvent_events:
  "(\<exists>P new. u_events (fst (RecordEvent ck f now db hub r et p v)) = filter P (u_events db) @ new \<and>
     (\<forall>e \<in> set new. u_nextEvent db \<le> ev_id e)) \<and> u_nextEvent db \<le> u_nextEvent (fst (RecordEvent ck f now db hub r et p v))"
proof -
  obtain db1 res where u: "Upsert ck f now db (IdentityFromRequest r) = (db1, res)" by (cases "Upsert ck f now db (IdentityFromRequest r)")
  from Upsert_events [of ck f now db "IdentityFromRequest r"] u obtain P where
    P: "u_events db1 = filter P (u_events db)" "u_nextEvent db1 = u_nextEvent db" by auto
  let ?ins = "\<lambda>c. insertEvent (shift_faults 4 f) now db1 c et p (NullString v) (NullString (IP (IdentityFromRequest r)))"
  have "fst (RecordEvent ck f now db hub r et p v) \<in> {db, db1} \<union> range (\<lambda>c. fst (?ins c))"
    using u by (auto simp: RecordEvent_def Let_def image_iff split: option.splits prod.splits) (metis fst_conv)+
  then consider "fst (RecordEvent ck f now db hub r et p v) = db" | "fst (RecordEvent ck f now db hub r et p v) = db1"
    | c where "fst (RecordEvent ck f now db hub r et p v) = fst (?ins c)" by auto
  then show ?thesis
  proof cases
    case 1
    then show ?thesis by (auto intro!: exI [of _ "\<lambda>_. True"] exI [of _ "[]"])
  next
    case 2
    with P show ?thesis by (auto intro!: exI [of _ P] exI [of _ "[]"])
  next
    case 3
    with P insertEvent_events [of "shift_faults 4 f" now db1 c et p "NullString v" "NullString (IP (IdentityFromRequest r))"]
    show ?thesis by metis
  qed
qed

interpretation recording: event_traffic
  "\<lambda>n db. fst (RecordEvent ck (f n) (now n) db (hub n) (r n) (et n) (p n) (v n))" for ck f now hub r et p v
  using RecordEvent_events by unfold_locales blast+

interpretation quiet: event_traffic "\<lambda>_ db. db"
  by unfold_locales (auto intro!: exI [of _ "\<lambda>_. True"] exI [of _ "[]"])

section \<open>What a pass deletes\<close>

text \<open>A pass over quiet tables removes rows below the boundary only, counts them, and touches nothing else.\<close>

definition pruned :: "int \<Rightarrow> updater_db \<Rightarrow> updater_db \<Rightarrow> bool" where
  "pruned k db db' \<longleftrightarrow> set (u_events db') \<subseteq> set (u_events db) \<and>
     filter (\<lambda>e. \<not> ev_id e < k) (u_events db') = filter (\<lambda>e. \<not> ev_id e < k) (u_events db) \<and>
     u_clients db' = u_clients db \<and> u_hourly db' = u_hourly db \<and> (rollup_ok db \<longrightarrow> rollup_ok db')"

lemma pruned_refl [simp]: "pruned k db db"
  by (simp add: pruned_def)

lemma pruned_trans: "pruned k a b \<Longrightarrow> pruned k b c \<Longrightarrow> pruned k a c"
  by (auto simp: pruned_def)

lemma pruned_batch: "pruned k db (fst (delete_batch k db))"
  using delete_batch_rollup [of db k] set_drop_matching [of "\<lambda>e. ev_id e < k" batchSize "u_events db"]
    filter_drop_matching [of "\<lambda>e. ev_id e < k" batchSize "u_events db"]
  by (auto simp: pruned_def delete_batch_def Let_def)

lemma batches_quiet:
  assumes "delete_batches f stop (\<lambda>_ db. db) k n tot db = Some (db', tot', err)"
  shows "pruned k db db' \<and> (err = None \<longrightarrow> due k db' = 0 \<and> tot' = tot + int (due k db)) \<and>
    tot \<le> tot' \<and> tot' - tot \<le> int (due k db) - int (due k db')"
  using assms
proof (induction "due k db" arbitrary: n tot db rule: less_induct)
  case less
  let ?db1 = "fst (delete_batch k db)" and ?m = "snd (delete_batch k db)"
  note r = delete_batch_removed [of k db] delete_batch_due [of k db] pruned_batch [of k db]
  have m: "0 \<le> ?m" using r(1) by (simp add: batchSize_def)
  have e: "(if f (2 * n + 1) then Some (db, tot, Some DriverError)
      else if f (2 * n + 2) then Some (?db1, tot, Some DriverError)
      else if ?m < batchSize then Some (?db1, tot + ?m, None)
      else if stop n then Some (?db1, tot + ?m, Some Cancelled)
      else delete_batches f stop (\<lambda>_ db. db) k (n + 1) (tot + ?m) ?db1) = Some (db', tot', err)"
    using less.prems delete_batches.simps [of f stop "\<lambda>_ db. db" k n tot db] by (simp only: Let_def)
  consider "f (2 * n + 1)" | "\<not> f (2 * n + 1)" "f (2 * n + 2)" | "\<not> f (2 * n + 1)" "\<not> f (2 * n + 2)" "?m < batchSize"
    | "\<not> f (2 * n + 1)" "\<not> f (2 * n + 2)" "\<not> ?m < batchSize" "stop n"
    | "\<not> f (2 * n + 1)" "\<not> f (2 * n + 2)" "\<not> ?m < batchSize" "\<not> stop n" by blast
  then show ?case
  proof cases
    case 5
    then have rec: "delete_batches f stop (\<lambda>_ db. db) k (n + 1) (tot + ?m) ?db1 = Some (db', tot', err)" using e by simp
    from 5 have "?m = batchSize" using r(1) by linarith
    with r(2) have "due k ?db1 < due k db" by (simp add: batchSize_def)
    note h = less.hyps [OF this rec]
    have "pruned k db db'" using pruned_trans [OF r(3)] h by blast
    moreover have "due k db' = 0 \<and> tot' = tot + int (due k db)" if "err = None" using h that r(2) by linarith
    moreover have "tot \<le> tot'" "tot' - tot \<le> int (due k db) - int (due k db')" using h r(2) m by linarith+
    ultimately show ?thesis by blast
  next
    case 3
    with e have "db' = ?db1" "tot' = tot + ?m" by simp_all
    moreover have "int (due k db) = ?m" using r(1) 3(3) by linarith
    moreover have "int (due k ?db1) = 0" using calculation(3) r(2) by linarith
    ultimately show ?thesis using r(3) m by simp
  next
    case 1
    with e show ?thesis by auto
  next
    case 2
    with e have "db' = ?db1" "tot' = tot" "err = Some DriverError" by simp_all
    moreover have "0 \<le> int (due k db) - int (due k ?db1)" using r(2) m by linarith
    ultimately show ?thesis using r(3) by simp
  next
    case 4
    with e have "db' = ?db1" "tot' = tot + ?m" "err = Some Cancelled" by simp_all
    moreover have "?m \<le> int (due k db) - int (due k ?db1)" using r(2) by linarith
    ultimately show ?thesis using r(3) m by simp
  qed
qed

text \<open>C21: a pass of the prune loop returns: whatever statements fail and whatever the recording of events does to the
  tables between its batches, the batches run out.\<close>

theorem prune_pass_returns:
  assumes "rollup_ok db"
  shows "\<exists>db' tot err. Run f stop (\<lambda>n db. fst (RecordEvent ck (g n) (at n) db (hub n) (r n) (et n) (p n) (v n))) now retention db
    = Some (db', tot, err)"
  using recording.Run_returns [of db f stop ck g at hub r et p v now retention] assms by (auto simp: rollup_ok_def)

theorem prune_pass_returns_witness:
  "\<exists>db' tot err. Run (\<lambda>i. i = 4) (\<lambda>_. False) (\<lambda>n db. fst (RecordEvent ToLower no_faults (5 + int n) db None
     \<lparr>r_Header = (\<lambda>h. if h = ''X-EMLy-Hostname'' then ''pc'' else []), r_RemoteAddr = []\<rparr> ''check'' ''EMLy'' ''1.0'')) 100 10 sample_db
    = Some (db', tot, err)"
  by (rule prune_pass_returns [OF sample_db_ok(2)])


definition old_events :: updater_db where
  "old_events = empty_updater_db\<lparr>u_nextEvent := 3, u_hourly := [((0, ''EMLy'', ''check''), 2)], u_events :=
     [\<lparr>ev_id = 1, ev_client_id = 1, ev_event_type = ''check'', ev_product = ''EMLy'', ev_version = None, ev_ip_address = None, ev_created_at = 10\<rparr>,
      \<lparr>ev_id = 2, ev_client_id = 1, ev_event_type = ''check'', ev_product = ''EMLy'', ev_version = None, ev_ip_address = None, ev_created_at = 100\<rparr>]\<rparr>"

lemma old_events_first: "firstKeptID 50 old_events = 2"
  by (simp add: firstKeptID_def old_events_def min_id_def empty_updater_db_def)

lemma old_events_run: "\<exists>db'. Run no_faults (\<lambda>_. False) (\<lambda>_ db. db) 150 100 old_events = Some (db', 1, None)"
proof -
  have "snd (delete_batch 2 old_events) = 1"
    by (simp add: delete_batch_removed due_def old_events_def empty_updater_db_def batchSize_def)
  then have less: "snd (delete_batch 2 old_events) < batchSize" "0 + snd (delete_batch 2 old_events) = 1" by (simp_all add: batchSize_def)
  have "delete_batches no_faults (\<lambda>_. False) (\<lambda>_ db. db) 2 0 0 old_events = Some (fst (delete_batch 2 old_events), 1, None)"
    by (rule trans [OF delete_batches.simps]) (simp only: Let_def no_faults_simp less if_False if_True)
  then show ?thesis using old_events_first by (simp add: Run_def Let_def)
qed


end
