(* ===== verification/App_Start.thy ===== *)
theory App_Start
  imports Access_Control File_Migration Event_Prune
begin

text \<open>
  \<open>main.go\<close>: what the process does before it serves. A fatal log line and a panic end the process; the background
  loops are the \<open>Start\<close> functions of their components and get their parameters here.
\<close>

datatype log_level = LevelDebug | LevelWarn | LevelError | LevelInfo

definition parseLogLevel :: "string \<Rightarrow> log_level" where
  "parseLogLevel s =
     (if s = ''debug'' then LevelDebug
      else if s = ''warn'' \<or> s = ''warning'' then LevelWarn
      else if s = ''error'' then LevelError
      else LevelInfo)"

text \<open>A bucket that is switched off or does not answer leaves the connector nil; an incomplete configuration is fatal.
  \<open>client\<close> is the SDK client for an endpoint, a region and a bucket name.\<close>

definition connect_bucket ::
  "bool \<Rightarrow> (string \<times> string \<times> string \<Rightarrow> 'b s3_client) \<Rightarrow> bool \<Rightarrow> S3BucketConfig \<Rightarrow> 'b \<Rightarrow> string + 'b s3_client option" where
  "connect_bucket loads client enabled cfg b =
     (if \<not> enabled then Inr None
      else case NewS3Connector loads cfg of
        Inl e \<Rightarrow> Inl e
      | Inr endpoint \<Rightarrow> (case Ping (client endpoint) b of None \<Rightarrow> Inr (Some (client endpoint)) | Some _ \<Rightarrow> Inr None))"

text \<open>\<open>time.Duration(days) * 24 * time.Hour\<close>, in 64 bits.\<close>

definition event_retention :: "Config \<Rightarrow> duration" where
  "event_retention cfg = wrap64 (wrap64 (cf_EventsRetentionDays cfg * 24) * hour)"

text \<open>The arguments: each \<open>--migrate-files\<close> copies the report files, when there is a bucket. None is a migration that never
  returns, \<open>Inl\<close> one that fails.\<close>

fun run_args ::
  "(report_db \<Rightarrow> 'b \<Rightarrow> ('b \<times> migrated) option) \<Rightarrow> bool \<Rightarrow> string list \<Rightarrow> report_db \<Rightarrow> 'b \<Rightarrow> (string + 'b) option" where
  "run_args migrate enabled [] d b = Some (Inr b)"
| "run_args migrate enabled (arg # args) d b =
     (if arg = ''--migrate-files'' \<and> enabled
      then (case migrate d b of
              None \<Rightarrow> None
            | Some (b', AllUploaded) \<Rightarrow> run_args migrate enabled args d b'
            | Some _ \<Rightarrow> Some (Inl ''migrating report files failed''))
      else run_args migrate enabled args d b)"

text \<open>The ticker of the replication loop panics, in a goroutine of its own, for an interval that is not positive.\<close>

definition mirror_panics :: "Config \<Rightarrow> bool" where
  "mirror_panics cfg \<longleftrightarrow> cf_ConfigUpstreamURL cfg \<noteq> [] \<and> cf_ConfigUpstreamInterval cfg \<le> 0"

text \<open>\<open>database.Connect\<close>: the pool of the driver, with its bounds, when the database answers.\<close>

record pool =
  pl_MaxOpenConns :: int
  pl_MaxIdleConns :: int
  pl_ConnMaxLifetime :: duration

definition Connect :: "bool \<Rightarrow> Config \<Rightarrow> pool option" where
  "Connect answers cfg =
     (if \<not> answers then None
      else Some \<lparr>pl_MaxOpenConns = cf_MaxOpenConns cfg, pl_MaxIdleConns = cf_MaxIdleConns cfg,
                  pl_ConnMaxLifetime = wrap64 (cf_ConnMaxLifetime cfg * minute)\<rparr>)"

text \<open>What the process meets while it starts, outside its environment variables.\<close>

record 'b machine =
  ma_telemetry :: bool
  ma_database :: bool
  ma_schema :: bool
  ma_loads :: bool
  ma_client :: "string \<times> string \<times> string \<Rightarrow> 'b s3_client"
  ma_fails :: "nat \<Rightarrow> bool"
  ma_reports :: report_db
  ma_ban_rows :: bans

datatype 'b start =
    Fatal string
  | Hangs
  | Serving Config "'b s3_client option" "'b s3_client option" 'b gate "route list"

definition main :: "(nat \<Rightarrow> nat \<Rightarrow> nat \<Rightarrow> nat) \<Rightarrow> env \<Rightarrow> string list \<Rightarrow> 'b machine \<Rightarrow> 'b \<Rightarrow> 'b \<Rightarrow> 'b start" where
  "main fl Getenv args w apiBucket updatesBucket =
     (case load fl Getenv of
        Inl e \<Rightarrow> Fatal e
      | Inr cfg \<Rightarrow>
          if oc_Enabled (cf_Otel cfg) \<and> \<not> ma_telemetry w then Fatal ''otel setup failed''
          else if Connect (ma_database w) cfg = None then Fatal ''database connection failed''
          else if \<not> ma_schema w then Fatal ''schema migration failed''
          else case connect_bucket (ma_loads w) (ma_client w) (cf_UseS3APIFileStorage cfg) (cf_S3APIFile cfg) apiBucket of
            Inl e \<Rightarrow> Fatal e
          | Inr apiFileS3conn \<Rightarrow>
              (case connect_bucket (ma_loads w) (ma_client w) (cf_UseS3UpdatesStorage cfg) (cf_S3Updates cfg) updatesBucket of
                 Inl e \<Rightarrow> Fatal e
               | Inr updatesS3conn \<Rightarrow>
                   (case run_args (MigrateReportFilesToS3 (ma_fails w) (\<lambda>_. False) apiFileS3conn [])
                           (cf_UseS3APIFileStorage cfg \<and> apiFileS3conn \<noteq> None) args (ma_reports w) apiBucket of
                      None \<Rightarrow> Hangs
                    | Some (Inl e) \<Rightarrow> Fatal e
                    | Some (Inr b) \<Rightarrow>
                        if mirror_panics cfg then Fatal ''non-positive interval for NewTicker''
                        else case start_server cfg of
                          Inl e \<Rightarrow> Fatal e
                        | Inr rs \<Rightarrow> Serving cfg apiFileS3conn updatesS3conn b (new_gate cfg False (ma_ban_rows w)) rs)))"

section \<open>Retention\<close>

lemma retention_in_range:
  "0 \<le> cf_EventsRetentionDays cfg \<Longrightarrow> cf_EventsRetentionDays cfg \<le> 106751 \<Longrightarrow>
     event_retention cfg = cf_EventsRetentionDays cfg * 24 * hour"
  by (simp add: event_retention_def wrap64_id)

text \<open>
  584 years and a bit, which reads as "keep everything", wraps around to less than half an hour: the next pass of the
  pruner deletes every event older than that.
\<close>

lemma retention_overflows:
  assumes "cf_EventsRetentionDays cfg = 213504"
  shows "0 < event_retention cfg \<and> event_retention cfg < 26 * minute"
  by (simp add: event_retention_def wrap64_def assms)

section \<open>When the server starts\<close>

text \<open>What the connector asks of the configuration of a bucket that is switched on.\<close>

definition bucket_ready :: "bool \<Rightarrow> bool \<Rightarrow> S3BucketConfig \<Rightarrow> bool" where
  "bucket_ready loads enabled c \<longleftrightarrow> (\<not> enabled \<or>
     sc_AccessKeyID c \<noteq> [] \<and> sc_SecretAccessKey c \<noteq> [] \<and> sc_BucketName c \<noteq> [] \<and> (sc_Endpoint c \<noteq> [] \<or> sc_AccountID c \<noteq> []) \<and> loads)"

lemma connect_bucket_cases:
  "(\<exists>conn. connect_bucket loads client enabled c b = Inr conn) \<longleftrightarrow> bucket_ready loads enabled c"
  by (auto simp: connect_bucket_def bucket_ready_def NewS3Connector_def Let_def split: option.splits if_splits)

lemma connect_bucket_answers:
  "connect_bucket loads client enabled c b = Inr (Some conn) \<Longrightarrow> enabled \<and> Ping conn b = None"
  by (auto simp: connect_bucket_def split: if_splits sum.splits option.splits)

lemma run_args_none: "''--migrate-files'' \<notin> set args \<Longrightarrow> run_args migrate enabled args d b = Some (Inr b)"
  by (induction args) auto

lemma start_server_starts: "cf_APIKey cfg \<noteq> [] \<Longrightarrow> cf_AdminKey cfg \<noteq> [] \<Longrightarrow> start_server cfg = Inr (served_routes (oc_Enabled (cf_Otel cfg)))"
proof -
  assume "cf_APIKey cfg \<noteq> []" "cf_AdminKey cfg \<noteq> []"
  then have "key_panic cfg m = None" for m by (cases m) (auto simp: APIKeyAuth_def AdminKeyAuth_def Let_def)
  then show ?thesis by (simp add: start_server_def map_filter_def filter_empty_conv)
qed

lemma start_server_iff: "(\<exists>rs. start_server cfg = Inr rs) \<longleftrightarrow> cf_APIKey cfg \<noteq> [] \<and> cf_AdminKey cfg \<noteq> []"
  using start_server_starts start_server_keys by blast

lemma main_buckets:
  "main fl Getenv args w apiBucket updatesBucket = Serving cfg api upd b g rs \<Longrightarrow>
     connect_bucket (ma_loads w) (ma_client w) (cf_UseS3APIFileStorage cfg) (cf_S3APIFile cfg) apiBucket = Inr api \<and>
     connect_bucket (ma_loads w) (ma_client w) (cf_UseS3UpdatesStorage cfg) (cf_S3Updates cfg) updatesBucket = Inr upd"
  by (auto simp: main_def split: sum.splits if_splits option.splits)


definition sample_machine :: "(string \<rightharpoonup> s3_object) machine" where
  "sample_machine =
     \<lparr>ma_telemetry = False, ma_database = True, ma_schema = True, ma_loads = True, ma_client = (\<lambda>_. map_bucket),
      ma_fails = (\<lambda>_. False), ma_reports = empty_report_db, ma_ban_rows = []\<rparr>"


end
