(* ===== verification/Log_File.thy ===== *)
theory Log_File
  imports Go_Time
begin

text \<open>
  \<open>internal/logfile/logfile.go\<close>: the daily log files. The directory is a list of entries with distinct names, an open file
  is the name of its entry, and times are those of the process-local zone, whose offset is taken as fixed. \<open>io\<close> says
  which system calls fail; messages to stderr are left out.
\<close>

section \<open>Names\<close>

definition filePrefix :: string where "filePrefix = ''emly-api-log-''"
definition fileExt :: string where "fileExt = ''.log''"
definition rotateRetry :: duration where "rotateRetry = minute"
definition day_length :: duration where "day_length = 86400 * second"

text \<open>\<open>now.Format\<close> and \<open>time.ParseInLocation\<close> with \<open>dayLayout\<close> and \<open>stampLayout\<close>.\<close>

definition format_day :: "gotime \<Rightarrow> string" where
  "format_day t =
     (let (y, yd) = date_year (t div second div 86400); (mo, d) = month_loop 11 y 1 yd
      in pad2 (y div 100) @ pad2 (y mod 100) @ ''-'' @ pad2 mo @ ''-'' @ pad2 d)"

definition format_stamp :: "gotime \<Rightarrow> string" where
  "format_stamp t =
     (let r = t div second mod 86400
      in format_day t @ ''-'' @ pad2 (r div 3600) @ ''-'' @ pad2 (r div 60 mod 60) @ ''-'' @ pad2 (r mod 60))"

definition parse_stamp :: "string \<Rightarrow> gotime option" where
  "parse_stamp s = do {
     (y1, r) \<leftarrow> two_digits s;
     (y2, r) \<leftarrow> two_digits r;
     r \<leftarrow> lit (CHR ''-'') r;
     (mo, r) \<leftarrow> two_digits r;
     r \<leftarrow> lit (CHR ''-'') r;
     (d, r) \<leftarrow> two_digits r;
     r \<leftarrow> lit (CHR ''-'') r;
     (h, r) \<leftarrow> one_or_two_digits r;
     r \<leftarrow> lit (CHR ''-'') r;
     (mi, r) \<leftarrow> two_digits r;
     r \<leftarrow> lit (CHR ''-'') r;
     (sec, r) \<leftarrow> two_digits r;
     let (ns, r) = fraction r;
     let y = 100 * y1 + y2;
     if r = [] \<and> 1 \<le> mo \<and> mo \<le> 12 \<and> 1 \<le> d \<and> d \<le> days_in mo y \<and> h < 24 \<and> mi < 60 \<and> sec < 60
     then Some (civil_time y mo d h mi sec ns 0) else None
   }"

definition TrimSuffix :: "string \<Rightarrow> string \<Rightarrow> string" where
  "TrimSuffix s p = (if HasSuffix s p then take (length s - length p) s else s)"

definition log_name :: "gotime \<Rightarrow> string" where
  "log_name now = filePrefix @ format_stamp now @ fileExt"

section \<open>The directory\<close>

record log_entry =
  le_name :: string
  le_isDir :: bool
  le_data :: string

record io =
  io_mkdir :: bool
  io_open :: bool
  io_readDir :: bool
  io_remove :: "string \<Rightarrow> bool"
  io_write :: "nat option"

definition io_ok :: io where
  "io_ok = \<lparr>io_mkdir = False, io_open = False, io_readDir = False, io_remove = (\<lambda>_. False), io_write = None\<rparr>"

text \<open>\<open>os.OpenFile\<close> for appending; None is an error.\<close>

definition open_append :: "io \<Rightarrow> string \<Rightarrow> log_entry list \<Rightarrow> log_entry list option" where
  "open_append io name dir =
     (if io_open io then None
      else case find (\<lambda>e. le_name e = name) dir of
        None \<Rightarrow> Some (dir @ [\<lparr>le_name = name, le_isDir = False, le_data = []\<rparr>])
      | Some e \<Rightarrow> if le_isDir e then None else Some dir)"

definition append_data :: "string \<Rightarrow> string \<Rightarrow> log_entry list \<Rightarrow> log_entry list" where
  "append_data name p dir = map (\<lambda>e. if le_name e = name then e\<lparr>le_data := le_data e @ p\<rparr> else e) dir"

section \<open>The writer\<close>

text \<open>\<open>w_file\<close> and \<open>w_path\<close> of the code are one name, as the directory is fixed.\<close>

record Writer =
  w_retentionDays :: int
  w_file :: "string option"
  w_path :: string
  w_day :: string
  w_retryAt :: gotime

definition cutoff :: "int \<Rightarrow> gotime \<Rightarrow> gotime" where
  "cutoff retentionDays now = now - now mod day_length - retentionDays * day_length"

definition expired :: "int \<Rightarrow> gotime \<Rightarrow> log_entry \<Rightarrow> bool" where
  "expired retentionDays now e \<longleftrightarrow>
     \<not> le_isDir e \<and> HasPrefix (le_name e) filePrefix \<and> HasSuffix (le_name e) fileExt \<and>
     (case parse_stamp (TrimSuffix (TrimPrefix (le_name e) filePrefix) fileExt) of
        None \<Rightarrow> False | Some opened \<Rightarrow> opened < cutoff retentionDays now)"

definition prune :: "io \<Rightarrow> int \<Rightarrow> gotime \<Rightarrow> log_entry list \<Rightarrow> log_entry list" where
  "prune io retentionDays now dir =
     (if retentionDays \<le> 0 \<or> io_readDir io then dir
      else filter (\<lambda>e. \<not> (expired retentionDays now e \<and> \<not> io_remove io (le_name e))) dir)"

text \<open>None is the failure to open the file.\<close>

definition rotate :: "io \<Rightarrow> gotime \<Rightarrow> Writer \<times> log_entry list \<Rightarrow> (Writer \<times> log_entry list) option" where
  "rotate io now st =
     (case st of (w, dir) \<Rightarrow>
        (case open_append io (log_name now) dir of
           None \<Rightarrow> None
         | Some dir' \<Rightarrow>
             Some (w\<lparr>w_file := Some (log_name now), w_path := log_name now, w_day := format_day now, w_retryAt := 0\<rparr>,
                   prune io (w_retentionDays w) now dir')))"

definition open_writer :: "io \<Rightarrow> int \<Rightarrow> gotime \<Rightarrow> log_entry list \<Rightarrow> (Writer \<times> log_entry list) option" where
  "open_writer io retentionDays now dir =
     (if io_mkdir io then None
      else rotate io now (\<lparr>w_retentionDays = retentionDays, w_file = None, w_path = [], w_day = [], w_retryAt = 0\<rparr>, dir))"

text \<open>The bytes written; None is an error, after the bytes that were.\<close>

definition write_log :: "io \<Rightarrow> gotime \<Rightarrow> string \<Rightarrow> Writer \<times> log_entry list \<Rightarrow> (Writer \<times> log_entry list) \<times> nat option" where
  "write_log io now p st =
     (case st of (w, dir) \<Rightarrow>
        if w_file w = None then (st, None)
        else
          (let (w, dir) =
             (if format_day now \<noteq> w_day w \<and> w_retryAt w \<le> now then
                (case rotate io now (w, dir) of
                   None \<Rightarrow> (w\<lparr>w_retryAt := now + rotateRetry\<rparr>, dir)
                 | Some st' \<Rightarrow> st')
              else (w, dir));
             name = (case w_file w of None \<Rightarrow> [] | Some n \<Rightarrow> n)
           in case io_write io of
                None \<Rightarrow> ((w, append_data name p dir), Some (length p))
              | Some n \<Rightarrow> ((w, append_data name (take n p) dir), None)))"

definition close_writer :: "Writer \<times> log_entry list \<Rightarrow> Writer \<times> log_entry list" where
  "close_writer st = (case st of (w, dir) \<Rightarrow> (w\<lparr>w_file := None\<rparr>, dir))"

datatype log_op = Write io gotime string | Close

fun log_step :: "log_op \<Rightarrow> Writer \<times> log_entry list \<Rightarrow> Writer \<times> log_entry list" where
  "log_step (Write io now p) st = fst (write_log io now p st)"
| "log_step Close st = close_writer st"

definition log_run :: "log_op list \<Rightarrow> Writer \<times> log_entry list \<Rightarrow> Writer \<times> log_entry list" where
  "log_run ops st = fold log_step ops st"

end
