(* ===== verification/Log_Properties.thy ===== *)
theory Log_Properties
  imports Log_File
begin

text \<open>
  What the writer promises: a line that was written stays for the retention period, and nothing else in the directory
  is harmed.
\<close>

section \<open>Stamps\<close>

lemma parse_parts:
  assumes "0 \<le> y" "y < 10000" "1 \<le> mo" "mo \<le> 12" "1 \<le> d" "d \<le> days_in mo y"
    and "0 \<le> h" "h < 24" "0 \<le> mi" "mi < 60" "0 \<le> sec" "sec < 60"
  shows "parse_stamp ((pad2 (y div 100) @ pad2 (y mod 100) @ ''-'' @ pad2 mo @ ''-'' @ pad2 d) @ ''-''
    @ pad2 h @ ''-'' @ pad2 mi @ ''-'' @ pad2 sec) = Some (civil_time y mo d h mi sec 0 0)"
proof -
  have y: "100 * (y div 100) + y mod 100 = y" by simp
  have b: "0 \<le> y div 100" "y div 100 < 100" "0 \<le> y mod 100" "y mod 100 < 100" using assms by auto
  have d: "d < 100" using assms(6) days_in_le [of mo y] by linarith
  have last: "two_digits (pad2 sec) = Some (sec, [])" using two_digits_pad2 [of sec "[]"] assms(11,12) by simp
  show ?thesis using assms d
    by (simp add: parse_stamp_def two_digits_pad2 one_or_two_digits_pad2 b lit_def fraction_def last Let_def y)
qed

lemma parse_format_stamp:
  assumes "clock_time t"
  shows "parse_stamp (format_stamp t) = Some (t - t mod second)"
proof -
  obtain y yd where yd: "date_year (t div second div 86400) = (y, yd)" by fastforce
  obtain mo d where mo: "month_loop 11 y 1 yd = (mo, d)" by fastforce
  note parts = clock_parts [OF assms yd mo refl]
  show ?thesis
    unfolding format_stamp_def format_day_def Let_def yd mo prod.case parts(13) [symmetric] by (rule parse_parts [OF parts(1-12)])
qed

lemma log_name_affixes:
  "HasPrefix (log_name t) filePrefix" "HasSuffix (log_name t) fileExt"
  "TrimSuffix (TrimPrefix (log_name t) filePrefix) fileExt = format_stamp t"
  by (simp_all add: log_name_def HasPrefix_def HasSuffix_def TrimPrefix_def TrimSuffix_def)

text \<open>A file of the writer itself expires by the second it was opened in.\<close>

lemma expired_log_name:
  assumes "clock_time t" "le_name e = log_name t" "\<not> le_isDir e"
  shows "expired n now e \<longleftrightarrow> t - t mod second < cutoff n now"
  using assms by (simp add: expired_def log_name_affixes parse_format_stamp)

section \<open>The invariant of a writer\<close>

text \<open>The open file is an entry of the directory, named by the second it was opened in, of the day the writer is at.\<close>

definition log_inv :: "Writer \<times> log_entry list \<Rightarrow> bool" where
  "log_inv st \<longleftrightarrow>
     (case st of (w, dir) \<Rightarrow>
        distinct (map le_name dir) \<and>
        (\<forall>n. w_file w = Some n \<longrightarrow>
           (\<exists>t. clock_time t \<and> n = log_name t \<and> w_path w = n \<and> w_day w = format_day t) \<and>
           (\<exists>e \<in> set dir. le_name e = n \<and> \<not> le_isDir e)))"

lemma append_data_names [simp]: "map le_name (append_data n p dir) = map le_name dir"
  by (simp add: append_data_def)

lemma append_data_mem: "e \<in> set dir \<Longrightarrow> le_name e = n \<Longrightarrow> e\<lparr>le_data := le_data e @ p\<rparr> \<in> set (append_data n p dir)"
  by (force simp: append_data_def)

lemma append_data_other: "e \<in> set dir \<Longrightarrow> le_name e \<noteq> n \<Longrightarrow> e \<in> set (append_data n p dir)"
  by (force simp: append_data_def)

lemma open_append_effect:
  assumes "open_append io n dir = Some dir'" "distinct (map le_name dir)"
  shows "set dir \<subseteq> set dir'" "distinct (map le_name dir')" "\<exists>e \<in> set dir'. le_name e = n \<and> \<not> le_isDir e"
proof -
  consider "find (\<lambda>e. le_name e = n) dir = None" "dir' = dir @ [\<lparr>le_name = n, le_isDir = False, le_data = []\<rparr>]"
    | e where "find (\<lambda>e. le_name e = n) dir = Some e" "\<not> le_isDir e" "dir' = dir"
    using assms(1) by (auto simp: open_append_def split: if_splits option.splits)
  then show "set dir \<subseteq> set dir'" "distinct (map le_name dir')" "\<exists>e \<in> set dir'. le_name e = n \<and> \<not> le_isDir e"
    using assms(2) by (cases; auto simp: find_None_iff find_Some_iff)+
qed

lemma day_mod: "0 \<le> t mod day_length" "t mod second \<le> t mod day_length"
proof -
  show "0 \<le> t mod day_length" by (simp add: day_length_def)
  have "t mod second = t mod day_length mod second" by (simp add: day_length_def mod_mod_cancel)
  also have "\<dots> \<le> t mod day_length" by (intro zmod_le_nonneg_dividend) (simp add: day_length_def)
  finally show "t mod second \<le> t mod day_length" .
qed

lemma current_not_expired:
  assumes "clock_time now" "0 < n" "le_name e = log_name now"
  shows "\<not> expired n now e"
proof -
  have "0 < n * day_length" using assms(2) by (simp add: day_length_def)
  then have "cutoff n now \<le> now - now mod second" using day_mod(2) [of now] by (simp add: cutoff_def)
  then show ?thesis using assms(1,3) by (auto simp: expired_def log_name_affixes parse_format_stamp)
qed

lemma prune_subset: "set (prune io n now dir) \<subseteq> set dir"
  by (auto simp: prune_def)

lemma prune_keeps: "e \<in> set dir \<Longrightarrow> \<not> (0 < n \<and> expired n now e) \<Longrightarrow> e \<in> set (prune io n now dir)"
  by (auto simp: prune_def)

lemma prune_distinct: "distinct (map le_name dir) \<Longrightarrow> distinct (map le_name (prune io n now dir))"
  by (simp add: prune_def distinct_map_filter)

lemma rotate_effect:
  assumes "rotate io now (w, dir) = Some (w', dir')" "distinct (map le_name dir)" "clock_time now"
  shows "log_inv (w', dir')" "w_file w' = Some (log_name now)" "w_retentionDays w' = w_retentionDays w" "w_day w' = format_day now"
    "\<And>e. e \<in> set dir \<Longrightarrow> \<not> (0 < w_retentionDays w \<and> expired (w_retentionDays w) now e) \<Longrightarrow> e \<in> set dir'"
proof -
  obtain d where d: "open_append io (log_name now) dir = Some d" "dir' = prune io (w_retentionDays w) now d"
    and w': "w' = w\<lparr>w_file := Some (log_name now), w_path := log_name now, w_day := format_day now, w_retryAt := 0\<rparr>"
    using assms(1) by (auto simp: rotate_def split: option.splits)
  note o = open_append_effect [OF d(1) assms(2)]
  obtain e where "e \<in> set d" "le_name e = log_name now" "\<not> le_isDir e" using o(3) by blast
  with current_not_expired [OF assms(3)] prune_keeps [of e d] have "e \<in> set dir'" unfolding d(2) by blast
  with \<open>le_name e = _\<close> \<open>\<not> le_isDir e\<close> show "log_inv (w', dir')"
    using prune_distinct [OF o(2)] assms(3) by (auto simp: log_inv_def w' d(2))
  show "w_file w' = Some (log_name now)" "w_retentionDays w' = w_retentionDays w" "w_day w' = format_day now" by (simp_all add: w')
  show "e \<in> set dir'" if "e \<in> set dir" "\<not> (0 < w_retentionDays w \<and> expired (w_retentionDays w) now e)" for e
    using that o(1) prune_keeps unfolding d(2) by blast
qed

text \<open>A write is at most a rotation and an append to the file that is then open.\<close>

definition turn :: "io \<Rightarrow> gotime \<Rightarrow> Writer \<times> log_entry list \<Rightarrow> Writer \<times> log_entry list" where
  "turn io now st =
     (case st of (w, dir) \<Rightarrow>
        if format_day now \<noteq> w_day w \<and> w_retryAt w \<le> now
        then (case rotate io now (w, dir) of None \<Rightarrow> (w\<lparr>w_retryAt := now + rotateRetry\<rparr>, dir) | Some st' \<Rightarrow> st')
        else (w, dir))"

lemma write_log_turn:
  "write_log io now p (w, dir) =
     (if w_file w = None then ((w, dir), None)
      else let (w', dir') = turn io now (w, dir); n = (case w_file w' of None \<Rightarrow> [] | Some n \<Rightarrow> n)
           in case io_write io of
                None \<Rightarrow> ((w', append_data n p dir'), Some (length p))
              | Some k \<Rightarrow> ((w', append_data n (take k p) dir'), None))"
  by (simp add: write_log_def turn_def)

lemma turn_effect:
  assumes "log_inv (w, dir)" "clock_time now" "w_file w \<noteq> None" "turn io now (w, dir) = (w', dir')"
  shows "log_inv (w', dir')" "w_file w' \<noteq> None" "w_retentionDays w' = w_retentionDays w"
    "\<And>e. e \<in> set dir \<Longrightarrow> \<not> (0 < w_retentionDays w \<and> expired (w_retentionDays w) now e) \<Longrightarrow> e \<in> set dir'"
    "\<not> io_open io \<Longrightarrow> w_retryAt w \<le> now \<Longrightarrow> \<forall>e \<in> set dir. le_name e = log_name now \<longrightarrow> \<not> le_isDir e \<Longrightarrow> w_day w' = format_day now"
proof -
  have d: "distinct (map le_name dir)" using assms(1) by (simp add: log_inv_def)
  consider (stay) "w' = w" "dir' = dir" "\<not> (format_day now \<noteq> w_day w \<and> w_retryAt w \<le> now)"
    | (failed) "w' = w\<lparr>w_retryAt := now + rotateRetry\<rparr>" "dir' = dir" "rotate io now (w, dir) = None"
    | (rotated) "rotate io now (w, dir) = Some (w', dir')"
    using assms(4) by (cases "format_day now \<noteq> w_day w \<and> w_retryAt w \<le> now"; cases "rotate io now (w, dir)") (simp_all add: turn_def)
  note cases = this
  show "log_inv (w', dir')" using cases
  proof cases
    case rotated
    then show ?thesis by (rule rotate_effect(1) [OF _ d assms(2)])
  qed (use assms(1) in \<open>simp_all add: log_inv_def\<close>)
  show "w_file w' \<noteq> None" using cases
  proof cases
    case rotated
    from rotate_effect(2) [OF this d assms(2)] show ?thesis by simp
  qed (use assms(3) in simp_all)
  show "w_retentionDays w' = w_retentionDays w" using cases
  proof cases
    case rotated
    then show ?thesis by (rule rotate_effect(3) [OF _ d assms(2)])
  qed simp_all
  show "e \<in> set dir'" if "e \<in> set dir" "\<not> (0 < w_retentionDays w \<and> expired (w_retentionDays w) now e)" for e
    using cases
  proof cases
    case rotated
    from rotate_effect(5) [OF this d assms(2) that] show ?thesis .
  qed (use that in simp_all)
  show "w_day w' = format_day now"
    if "\<not> io_open io" "w_retryAt w \<le> now" "\<forall>e \<in> set dir. le_name e = log_name now \<longrightarrow> \<not> le_isDir e"
    using cases
  proof cases
    case failed
    with that show ?thesis
      by (auto simp: rotate_def open_append_def find_Some_iff split: option.splits if_splits)
  next
    case rotated
    then show ?thesis by (rule rotate_effect(4) [OF _ d assms(2)])
  qed (use that in simp)
qed

lemma append_data_keeps:
  "e \<in> set dir \<Longrightarrow> \<exists>e' \<in> set (append_data n p dir). le_name e' = le_name e \<and> le_isDir e' = le_isDir e"
  by (cases "le_name e = n") (use append_data_mem append_data_other in fastforce)+

lemma log_inv_append: "log_inv (w, dir) \<Longrightarrow> log_inv (w, append_data n p dir)"
  using append_data_keeps [of _ dir n p] unfolding log_inv_def prod.case append_data_names by metis

lemma write_log_inv:
  assumes "log_inv (w, dir)" "clock_time now"
  shows "log_inv (fst (write_log io now p (w, dir)))" "w_retentionDays (fst (fst (write_log io now p (w, dir)))) = w_retentionDays w"
  using turn_effect(1,3) [OF assms] assms(1)
  by (auto simp: write_log_turn Let_def log_inv_append split: prod.split option.split)

fun op_time :: "log_op \<Rightarrow> gotime" where
  "op_time (Write _ now _) = now"
| "op_time Close = 0"

lemma clock_zero: "clock_time 0"
  by (simp add: clock_time_def)

lemma log_inv_close: "log_inv st \<Longrightarrow> log_inv (close_writer st)"
  by (auto simp: close_writer_def log_inv_def)

text \<open>What a write leaves of an entry: all of it, at its start, as long as the entry has not expired.\<close>

lemma write_log_extends:
  assumes "log_inv (w, dir)" "clock_time now" "e \<in> set dir" "\<not> (0 < w_retentionDays w \<and> expired (w_retentionDays w) now e)"
  shows "\<exists>e' \<in> set (snd (fst (write_log io now p (w, dir)))). le_name e' = le_name e \<and> le_isDir e' = le_isDir e \<and>
    (\<exists>q. le_data e' = le_data e @ q \<and> (le_isDir e \<or> \<not> (\<exists>t. clock_time t \<and> le_name e = log_name t) \<longrightarrow> e' = e))"
proof (cases "w_file w = None")
  case False
  obtain w' dir' where t: "turn io now (w, dir) = (w', dir')" by fastforce
  note te = turn_effect [OF assms(1,2) False t]
  obtain n where n: "w_file w' = Some n" using te(2) by blast
  have e: "e \<in> set dir'" using te(4) assms(3,4) by blast
  have own: "\<not> le_isDir e \<and> (\<exists>t. clock_time t \<and> le_name e = log_name t)" if "le_name e = n"
  proof -
    have "inj_on le_name (set dir')" "\<exists>x \<in> set dir'. le_name x = n \<and> \<not> le_isDir x" "\<exists>t. clock_time t \<and> n = log_name t"
      using te(1) n by (auto simp: log_inv_def distinct_map)
    with e that show ?thesis by (metis inj_onD)
  qed
  have "\<exists>e' \<in> set (append_data n q dir'). le_name e' = le_name e \<and> le_isDir e' = le_isDir e \<and>
    (\<exists>q. le_data e' = le_data e @ q \<and> (le_isDir e \<or> \<not> (\<exists>t. clock_time t \<and> le_name e = log_name t) \<longrightarrow> e' = e))" for q
  proof (cases "le_name e = n")
    case True
    with append_data_mem [OF e] own show ?thesis by (intro bexI [of _ "e\<lparr>le_data := le_data e @ q\<rparr>"]) auto
  next
    case False
    with append_data_other [OF e] show ?thesis by (intro bexI [of _ e]) auto
  qed
  moreover obtain m where "w_file w = Some m" using False by blast
  ultimately show ?thesis using t n by (simp add: write_log_turn split: option.split)
qed (use assms(3) in \<open>simp add: write_log_turn, metis append_Nil2\<close>)

section \<open>Runs\<close>

definition never_expires :: "int \<Rightarrow> gotime list \<Rightarrow> log_entry \<Rightarrow> bool" where
  "never_expires n ts e \<longleftrightarrow> n \<le> 0 \<or> list_all (\<lambda>t. \<not> expired n t e) ts"

definition own_file :: "log_entry \<Rightarrow> bool" where
  "own_file e \<longleftrightarrow> \<not> le_isDir e \<and> (\<exists>t. clock_time t \<and> le_name e = log_name t)"

text \<open>What a run leaves of an entry.\<close>

definition extends :: "log_entry \<Rightarrow> log_entry \<Rightarrow> bool" where
  "extends e e' \<longleftrightarrow> le_name e' = le_name e \<and> le_isDir e' = le_isDir e \<and> (\<exists>q. le_data e' = le_data e @ q) \<and> (own_file e \<or> e' = e)"

lemma extends_refl: "extends e e"
  by (simp add: extends_def)

lemma extends_trans: "extends a b \<Longrightarrow> extends b c \<Longrightarrow> extends a c"
  by (auto simp: extends_def own_file_def)

lemma expired_extends: "extends e e' \<Longrightarrow> expired n t e' = expired n t e"
  by (simp add: extends_def expired_def)

lemma log_step_inv:
  assumes "log_inv st" "clock_time (op_time op)"
  shows "log_inv (log_step op st)" "w_retentionDays (fst (log_step op st)) = w_retentionDays (fst st)"
proof -
  obtain w dir where st: "st = (w, dir)" by (cases st)
  have "log_inv (log_step op st) \<and> w_retentionDays (fst (log_step op st)) = w_retentionDays (fst st)"
  proof (cases op)
    case (Write io now p)
    with assms write_log_inv [of w dir now io p] st show ?thesis by simp
  next
    case Close
    with log_inv_close [OF assms(1)] st show ?thesis by (simp add: close_writer_def)
  qed
  then show "log_inv (log_step op st)" "w_retentionDays (fst (log_step op st)) = w_retentionDays (fst st)" by simp_all
qed

lemma log_step_extends:
  assumes "log_inv st" "clock_time (op_time op)" "e \<in> set (snd st)" "never_expires (w_retentionDays (fst st)) [op_time op] e"
  shows "\<exists>e' \<in> set (snd (log_step op st)). extends e e'"
proof (cases op)
  case (Write io now p)
  obtain w dir where st: "st = (w, dir)" by (cases st)
  have "\<exists>e' \<in> set (snd (fst (write_log io now p (w, dir)))). le_name e' = le_name e \<and> le_isDir e' = le_isDir e \<and>
    (\<exists>q. le_data e' = le_data e @ q \<and> (le_isDir e \<or> \<not> (\<exists>t. clock_time t \<and> le_name e = log_name t) \<longrightarrow> e' = e))"
    using assms Write by (intro write_log_extends) (auto simp: st never_expires_def)
  then show ?thesis unfolding Write st extends_def own_file_def log_step.simps by blast
next
  case Close
  with assms(3) have "e \<in> set (snd (log_step op st))" by (cases st) (simp add: close_writer_def)
  with extends_refl [of e] show ?thesis by blast
qed

lemma log_run_effect:
  assumes "log_inv st" "list_all (\<lambda>op. clock_time (op_time op)) ops"
  shows "log_inv (log_run ops st)" "w_retentionDays (fst (log_run ops st)) = w_retentionDays (fst st)"
    "e \<in> set (snd st) \<Longrightarrow> never_expires (w_retentionDays (fst st)) (map op_time ops) e \<Longrightarrow>
       \<exists>e' \<in> set (snd (log_run ops st)). extends e e'"
proof -
  have "log_inv (log_run ops st) \<and> w_retentionDays (fst (log_run ops st)) = w_retentionDays (fst st) \<and>
    (\<forall>e \<in> set (snd st). never_expires (w_retentionDays (fst st)) (map op_time ops) e \<longrightarrow>
       (\<exists>e' \<in> set (snd (log_run ops st)). extends e e'))"
    using assms
  proof (induction ops arbitrary: st)
    case (Cons op ops)
    note step = log_step_inv [OF Cons.prems(1), of op]
    have ih: "log_inv (log_run ops (log_step op st)) \<and> w_retentionDays (fst (log_run ops (log_step op st))) = w_retentionDays (fst st) \<and>
      (\<forall>e \<in> set (snd (log_step op st)). never_expires (w_retentionDays (fst st)) (map op_time ops) e \<longrightarrow>
         (\<exists>e' \<in> set (snd (log_run ops (log_step op st))). extends e e'))"
      using Cons.IH [of "log_step op st"] step Cons.prems by simp
    have "\<exists>e' \<in> set (snd (log_run ops (log_step op st))). extends e e'"
      if e: "e \<in> set (snd st)" "never_expires (w_retentionDays (fst st)) (map op_time (op # ops)) e" for e
    proof -
      obtain e1 where e1: "e1 \<in> set (snd (log_step op st))" "extends e e1"
        using log_step_extends [OF Cons.prems(1) _ e(1)] e(2) Cons.prems(2) by (auto simp: never_expires_def)
      moreover have "never_expires (w_retentionDays (fst st)) (map op_time ops) e1"
        using e(2) expired_extends [OF e1(2)] by (auto simp: never_expires_def)
      ultimately show ?thesis using ih extends_trans by blast
    qed
    with ih show ?case by (simp add: log_run_def)
  qed (simp add: log_run_def, blast intro: extends_refl)
  then show "log_inv (log_run ops st)" "w_retentionDays (fst (log_run ops st)) = w_retentionDays (fst st)"
    "e \<in> set (snd st) \<Longrightarrow> never_expires (w_retentionDays (fst st)) (map op_time ops) e \<Longrightarrow>
       \<exists>e' \<in> set (snd (log_run ops st)). extends e e'" by auto
qed

lemma open_writer_effect:
  assumes "open_writer io n now dir = Some st" "distinct (map le_name dir)" "clock_time now"
  shows "log_inv st" "w_retentionDays (fst st) = n"
    "\<And>e. e \<in> set dir \<Longrightarrow> never_expires n [now] e \<Longrightarrow> e \<in> set (snd st)"
proof -
  obtain w dir' where st: "st = (w, dir')" by (cases st)
  have r: "rotate io now (\<lparr>w_retentionDays = n, w_file = None, w_path = [], w_day = [], w_retryAt = 0\<rparr>, dir) = Some (w, dir')"
    using assms(1) st by (simp add: open_writer_def split: if_splits)
  note e = rotate_effect [OF r assms(2,3)]
  show "log_inv st" "w_retentionDays (fst st) = n" using e(1,3) st by simp_all
  show "e \<in> set (snd st)" if "e \<in> set dir" "never_expires n [now] e" for e
    using e(5) [OF that(1)] that(2) st by (auto simp: never_expires_def)
qed


text \<open>C38: A line that was written is still there, whole, for as long as the retention period keeps the file it was
  written to, whatever is logged or fails afterwards.\<close>

theorem written_line_survives:
  assumes "open_writer io n now dir = Some st" "distinct (map le_name dir)" "clock_time now"
    and "list_all (\<lambda>op. clock_time (op_time op)) (before_ops @ after_ops)" "clock_time t"
    and "write_log io' t line (log_run before_ops st) = (st', Some k)"
    and "w_path (fst st') = log_name opened" "clock_time opened"
    and "n \<le> 0 \<or> list_all (\<lambda>op. cutoff n (op_time op) \<le> opened - opened mod second) after_ops"
  shows "k = length line \<and>
    (\<exists>e \<in> set (snd (log_run after_ops st')). le_name e = log_name opened \<and> (\<exists>a b. le_data e = a @ line @ b))"
proof -
  note o = open_writer_effect [OF assms(1-3)]
  obtain w dir1 where s1: "log_run before_ops st = (w, dir1)" by fastforce
  have times: "list_all (\<lambda>op. clock_time (op_time op)) before_ops" "list_all (\<lambda>op. clock_time (op_time op)) after_ops"
    using assms(4) by simp_all
  have i1: "log_inv (w, dir1)" "w_retentionDays w = n" using log_run_effect(1,2) [OF o(1) times(1)] o(2) s1 by simp_all
  obtain w' dir' where s2: "turn io' t (w, dir1) = (w', dir')" by fastforce
  have fl: "w_file w \<noteq> None" using assms(6) s1 by (auto simp: write_log_turn split: if_splits)
  note te = turn_effect [OF i1(1) assms(5) fl s2]
  obtain m where m: "w_file w' = Some m" using te(2) by blast
  have st': "st' = (w', append_data m line dir')" "k = length line"
    using assms(6) s1 s2 fl m by (auto simp: write_log_turn split: option.splits)
  have inv: "m = log_name opened" "\<exists>e \<in> set dir'. le_name e = m \<and> \<not> le_isDir e"
    using te(1) m assms(7) st'(1) by (auto simp: log_inv_def)
  then obtain e0 where e0: "e0 \<in> set dir'" "le_name e0 = m" "\<not> le_isDir e0" by blast
  let ?e = "e0\<lparr>le_data := le_data e0 @ line\<rparr>"
  have "?e \<in> set (snd st')" using append_data_mem [OF e0(1,2)] st'(1) by simp
  moreover have "log_inv st'" "w_retentionDays (fst st') = n"
    using write_log_inv [OF i1(1) assms(5), of io' line] i1(2) assms(6) s1 by simp_all
  moreover have "never_expires n (map op_time after_ops) ?e"
    using assms(9) expired_log_name [OF assms(8), of ?e] e0 inv(1) by (auto simp: never_expires_def list_all_iff)
  ultimately obtain e' where "e' \<in> set (snd (log_run after_ops st'))" "extends ?e e'"
    using log_run_effect(3) [OF _ times(2)] by blast
  moreover from this obtain q where "le_data e' = le_data e0 @ line @ q" by (auto simp: extends_def)
  ultimately show ?thesis using e0(2) inv(1) st'(2) by (auto simp: extends_def)
qed

definition notes_file :: log_entry where
  "notes_file = \<lparr>le_name = ''emly-api-log-notes.log'', le_isDir = False, le_data = ''x''\<rparr>"


theorem written_line_survives_witness:
  "case open_writer io_ok 1 (30 * hour) [] of None \<Rightarrow> False
   | Some st \<Rightarrow> (case write_log io_ok (31 * hour) ''line'' st of (st', r) \<Rightarrow>
       \<exists>e \<in> set (snd (log_run [Write io_ok (50 * hour) ''more'', Close] st')). le_name e = log_name (30 * hour) \<and>
         (\<exists>a b. le_data e = a @ ''line'' @ b))"
proof -
  have "case open_writer io_ok 1 (30 * hour) [] of None \<Rightarrow> False
    | Some st \<Rightarrow> (case write_log io_ok (31 * hour) ''line'' st of (st', r) \<Rightarrow> r = Some 4 \<and> w_path (fst st') = log_name (30 * hour))"
    by code_simp
  then obtain st st' where st: "open_writer io_ok 1 (30 * hour) [] = Some st" "write_log io_ok (31 * hour) ''line'' st = (st', Some 4)"
      "w_path (fst st') = log_name (30 * hour)"
    by (auto split: option.splits prod.splits)
  have c: "clock_time (30 * hour)" "clock_time (31 * hour)" "clock_time (50 * hour)" by (simp_all add: clock_time_def)
  have "cutoff 1 (50 * hour) \<le> 30 * hour - 30 * hour mod second" "cutoff 1 0 \<le> 30 * hour - 30 * hour mod second" by code_simp+
  then show ?thesis
    using written_line_survives [OF st(1) _ c(1) _ c(2), of "[]" "[Write io_ok (50 * hour) ''more'', Close]" io_ok "''line''" st' 4 "30 * hour"] st c
    by (simp add: log_run_def clock_zero)
qed

end
