(* ===== verification/Telemetry.thy ===== *)
theory Telemetry
  imports App_Start Log_Properties
begin

text \<open>
  \<open>internal/telemetry/telemetry.go\<close>: the providers of the OpenTelemetry SDK, which are made, installed and shut down
  together, and the slog handler that tees each record to the console and to the log provider. The SDK, \<open>url.Parse\<close> and
  the text a record is printed as are parameters; a record handed to a running log provider is emitted, to a stopped one
  it is dropped.
\<close>

section \<open>Where a log line goes\<close>

fun level_of :: "log_level \<Rightarrow> int" where
  "level_of LevelDebug = -4"
| "level_of LevelInfo = 0"
| "level_of LevelWarn = 4"
| "level_of LevelError = 8"

record slog_record =
  sr_level :: int
  sr_message :: string
  sr_args :: "(string \<times> string) list"

datatype attr_op = AttrsOp "(string \<times> string) list" | GroupOp string

text \<open>\<open>WriterHandler\<close> is the text or the JSON handler over the console and the log file, with its minimum level.\<close>

datatype slog_handler =
    WriterHandler int "attr_op list"
  | OtelHandler "attr_op list"
  | TeeHandler slog_handler slog_handler

datatype provider = Absent | Running | Stopped

record telemetry =
  te_tp :: provider
  te_mp :: provider
  te_lp :: provider
  te_global :: bool

definition no_telemetry :: telemetry where
  "no_telemetry = \<lparr>te_tp = Absent, te_mp = Absent, te_lp = Absent, te_global = False\<rparr>"

record sinks =
  si_console :: string
  si_file :: "(Writer \<times> log_entry list) option"
  si_telemetry :: telemetry
  si_emitted :: "slog_record list"

text \<open>What the library does with a record.\<close>

record slog_lib =
  sl_render :: "attr_op list \<Rightarrow> slog_record \<Rightarrow> string"
  sl_otelEnabled :: "int \<Rightarrow> bool"

text \<open>The moment of one log call: the bytes the console takes if it fails, the system calls of the file, and the clock.\<close>

record moment =
  mo_console :: "nat option"
  mo_file :: io
  mo_now :: gotime

text \<open>\<open>io.MultiWriter(console, logFile)\<close>, or the console alone; True is an error.\<close>

definition write_out :: "moment \<Rightarrow> string \<Rightarrow> sinks \<Rightarrow> sinks \<times> bool" where
  "write_out m p s =
     (case mo_console m of
        Some n \<Rightarrow> (s\<lparr>si_console := si_console s @ take n p\<rparr>, True)
      | None \<Rightarrow>
          (let s = s\<lparr>si_console := si_console s @ p\<rparr>
           in case si_file s of
                None \<Rightarrow> (s, False)
              | Some st \<Rightarrow> (case write_log (mo_file m) (mo_now m) p st of (st', r) \<Rightarrow> (s\<lparr>si_file := Some st'\<rparr>, r = None))))"

fun Enabled :: "slog_lib \<Rightarrow> slog_handler \<Rightarrow> int \<Rightarrow> bool" where
  "Enabled lib (WriterHandler least ops) l = (least \<le> l)"
| "Enabled lib (OtelHandler ops) l = sl_otelEnabled lib l"
| "Enabled lib (TeeHandler a b) l = (Enabled lib a l \<or> Enabled lib b l)"

text \<open>A handler of the library does not look at the level again.\<close>

fun Handle :: "slog_lib \<Rightarrow> moment \<Rightarrow> slog_handler \<Rightarrow> slog_record \<Rightarrow> sinks \<Rightarrow> sinks \<times> bool" where
  "Handle lib m (WriterHandler least ops) r s = write_out m (sl_render lib ops r) s"
| "Handle lib m (OtelHandler ops) r s =
     (if te_lp (si_telemetry s) = Running then s\<lparr>si_emitted := si_emitted s @ [r]\<rparr> else s, False)"
| "Handle lib m (TeeHandler a b) r s = Handle lib m b r (fst (Handle lib m a r s))"

fun WithAttrs :: "(string \<times> string) list \<Rightarrow> slog_handler \<Rightarrow> slog_handler" where
  "WithAttrs attrs (WriterHandler least ops) = WriterHandler least (ops @ [AttrsOp attrs])"
| "WithAttrs attrs (OtelHandler ops) = OtelHandler (ops @ [AttrsOp attrs])"
| "WithAttrs attrs (TeeHandler a b) = TeeHandler (WithAttrs attrs a) (WithAttrs attrs b)"

fun WithGroup :: "string \<Rightarrow> slog_handler \<Rightarrow> slog_handler" where
  "WithGroup name (WriterHandler least ops) = WriterHandler least (ops @ [GroupOp name])"
| "WithGroup name (OtelHandler ops) = OtelHandler (ops @ [GroupOp name])"
| "WithGroup name (TeeHandler a b) = TeeHandler (WithGroup name a) (WithGroup name b)"

text \<open>\<open>slog.Log\<close> on the default logger.\<close>

definition slog_Log :: "slog_lib \<Rightarrow> moment \<Rightarrow> slog_handler \<Rightarrow> slog_record \<Rightarrow> sinks \<Rightarrow> sinks" where
  "slog_Log lib m h r s = (if Enabled lib h (sr_level r) then fst (Handle lib m h r s) else s)"

section \<open>Setup and shutdown\<close>

record otel_sdk =
  os_resource :: bool
  os_trace :: "string \<times> bool \<Rightarrow> bool"
  os_metric :: "string \<times> bool \<Rightarrow> bool"
  os_log :: "string \<times> bool \<Rightarrow> bool"

definition parseEndpoint :: "golib \<Rightarrow> string \<Rightarrow> (string \<times> bool) option" where
  "parseEndpoint L rawURL = map_option (\<lambda>u. (Host u, Scheme u = ''http'')) (url_Parse L rawURL)"

text \<open>The providers left behind, and the error or the default handler.\<close>

definition Setup ::
  "golib \<Rightarrow> otel_sdk \<Rightarrow> string \<Rightarrow> slog_handler \<Rightarrow> telemetry \<times> (string + slog_handler)" where
  "Setup L sdk endpoint stdoutHandler =
     (case parseEndpoint L endpoint of
        None \<Rightarrow> (no_telemetry, Inl ''invalid otel endpoint'')
      | Some target \<Rightarrow>
          if \<not> os_resource sdk then (no_telemetry, Inl ''otel resource'')
          else if \<not> os_trace sdk target then (no_telemetry, Inl ''trace exporter'')
          else
            (let t = no_telemetry\<lparr>te_tp := Running\<rparr>
             in if \<not> os_metric sdk target then (t\<lparr>te_tp := Stopped\<rparr>, Inl ''metric exporter'')
                else
                  (let t = t\<lparr>te_mp := Running\<rparr>
                   in if \<not> os_log sdk target then (t\<lparr>te_tp := Stopped, te_mp := Stopped\<rparr>, Inl ''log exporter'')
                      else (t\<lparr>te_lp := Running, te_global := True\<rparr>, Inr (TeeHandler stdoutHandler (OtelHandler []))))))"

text \<open>The function \<open>Setup\<close> returns; the flags say whose \<open>Shutdown\<close> fails, and True is an error. A provider is stopped
  even if its last export fails.\<close>

definition otel_shutdown :: "bool \<times> bool \<times> bool \<Rightarrow> telemetry \<Rightarrow> telemetry \<times> bool" where
  "otel_shutdown fails t =
     (case fails of (tp_fails, mp_fails, lp_fails) \<Rightarrow>
        (let t = t\<lparr>te_tp := Stopped\<rparr>
         in if tp_fails then (t, True)
            else
              (let t = t\<lparr>te_mp := Stopped\<rparr>
               in if mp_fails then (t, True) else (t\<lparr>te_lp := Stopped\<rparr>, lp_fails))))"

section \<open>Properties of the handlers\<close>

lemma Handle_file_none: "si_file s = None \<Longrightarrow> si_file (fst (Handle lib m h r s)) = None"
  by (induction h arbitrary: s) (auto simp: write_out_def Let_def split: option.split)

lemma Handle_telemetry: "si_telemetry (fst (Handle lib m h r s)) = si_telemetry s"
  by (induction h arbitrary: s) (auto simp: write_out_def Let_def split: option.split prod.split)

lemma Enabled_attrs: "Enabled lib (WithAttrs attrs h) l = Enabled lib h l" "Enabled lib (WithGroup name h) l = Enabled lib h l"
  by (induction h) auto

text \<open>Setup leaves nothing running unless it succeeds.\<close>

lemma Setup_all_or_nothing:
  assumes "Setup L sdk endpoint h = (t, res)"
  shows "(case res of
      Inl e \<Rightarrow> te_tp t \<noteq> Running \<and> te_mp t \<noteq> Running \<and> te_lp t \<noteq> Running \<and> \<not> te_global t
    | Inr h' \<Rightarrow> te_tp t = Running \<and> te_mp t = Running \<and> te_lp t = Running \<and> te_global t \<and> h' = TeeHandler h (OtelHandler []))"
  using assms by (auto simp: Setup_def no_telemetry_def Let_def split: option.splits if_splits prod.splits)

text \<open>A shutdown that fails early leaves the log provider running: the records it still holds are not exported.\<close>

lemma shutdown_stops:
  "te_lp (fst (otel_shutdown (a, b, c) t)) = (if a \<or> b then te_lp t else Stopped)"
  "snd (otel_shutdown (a, b, c) t) = (a \<or> b \<or> c)"
  by (simp_all add: otel_shutdown_def Let_def)

end
