(* ===== verification/Process_Life.thy ===== *)
theory Process_Life
  imports Telemetry
begin

text \<open>
  The two ends of \<open>main.go\<close> that \<open>App_Start\<close> leaves out: how the process sets up its log, and how it goes down on a signal.
  A line that ends the process (\<open>log.Fatalf\<close>) runs nothing of what was deferred.
\<close>

section \<open>Setting up the log\<close>

definition log_prefix :: "env \<Rightarrow> string" where
  "log_prefix Getenv = (if Getenv ''INSTANCE_NAME'' \<noteq> [] then ''['' @ Getenv ''INSTANCE_NAME'' @ ''] '' else [])"

text \<open>A line of the \<open>log\<close> package, which ends it with a newline, as the bridge hands it to slog.\<close>

definition logBridge_Write :: "slog_lib \<Rightarrow> moment \<Rightarrow> slog_handler \<Rightarrow> int \<Rightarrow> string \<Rightarrow> sinks \<Rightarrow> sinks \<times> int" where
  "logBridge_Write lib m h level p s =
     (slog_Log lib m h \<lparr>sr_level = level, sr_message = TrimRightChar (CHR 0x0A) p, sr_args = []\<rparr> s, int (length p))"

definition log_Output :: "slog_lib \<Rightarrow> moment \<Rightarrow> slog_handler \<Rightarrow> string \<Rightarrow> int \<Rightarrow> string \<Rightarrow> sinks \<Rightarrow> sinks" where
  "log_Output lib m h lead level msg s =
     fst (logBridge_Write lib m h level (lead @ msg @ (if HasSuffix msg [CHR 0x0A] then [] else [CHR 0x0A])) s)"

text \<open>The standard logger of the process, and the one of net/http.\<close>

definition log_Fatalf :: "slog_lib \<Rightarrow> moment \<Rightarrow> slog_handler \<Rightarrow> env \<Rightarrow> string \<Rightarrow> sinks \<Rightarrow> sinks" where
  "log_Fatalf lib m h Getenv msg s = log_Output lib m h (log_prefix Getenv) (level_of LevelInfo) msg s"

definition httpErrorLog :: "slog_lib \<Rightarrow> moment \<Rightarrow> slog_handler \<Rightarrow> env \<Rightarrow> string \<Rightarrow> sinks \<Rightarrow> sinks" where
  "httpErrorLog lib m h Getenv msg s = log_Output lib m h (log_prefix Getenv) (level_of LevelWarn) msg s"

text \<open>From the configuration to the default handler. A log directory that cannot be used leaves the console; a telemetry that
  cannot be set up is fatal.\<close>

definition start_logging ::
  "golib \<Rightarrow> otel_sdk \<Rightarrow> Config \<Rightarrow> io \<Rightarrow> gotime \<Rightarrow> log_entry list \<Rightarrow> sinks \<times> (string + slog_handler)" where
  "start_logging L sdk cfg io now dir =
     (let console = WriterHandler (level_of (parseLogLevel (cf_LogLevel cfg))) [];
          logFile = (if lc_Enabled (cf_LogFile cfg) then open_writer io (lc_RetentionDays (cf_LogFile cfg)) now dir else None);
          s = \<lparr>si_console = [], si_file = logFile, si_telemetry = no_telemetry, si_emitted = []\<rparr>
      in if \<not> oc_Enabled (cf_Otel cfg) then (s, Inr console)
         else (case Setup L sdk (oc_Endpoint (cf_Otel cfg)) console of (t, res) \<Rightarrow> (s\<lparr>si_telemetry := t\<rparr>, res)))"

fun level_String :: "log_level \<Rightarrow> string" where
  "level_String LevelDebug = ''DEBUG''"
| "level_String LevelInfo = ''INFO''"
| "level_String LevelWarn = ''WARN''"
| "level_String LevelError = ''ERROR''"

text \<open>What it then says about itself; \<open>err\<close> is the text of the error.\<close>

definition start_lines :: "Config \<Rightarrow> string \<Rightarrow> sinks \<Rightarrow> slog_record list" where
  "start_lines cfg err s =
     (if oc_Enabled (cf_Otel cfg)
      then [\<lparr>sr_level = 0, sr_message = ''OpenTelemetry enabled'', sr_args = [(''endpoint'', oc_Endpoint (cf_Otel cfg))]\<rparr>] else []) @
     [\<lparr>sr_level = 0, sr_message = ''log level set'', sr_args = [(''level'', level_String (parseLogLevel (cf_LogLevel cfg)))]\<rparr>] @
     (case si_file s of
        Some (w, dir) \<Rightarrow>
          [\<lparr>sr_level = 0, sr_message = ''writing daily log files'',
             sr_args = [(''file'', w_path w), (''retention_days'', Itoa (lc_RetentionDays (cf_LogFile cfg)))]\<rparr>]
      | None \<Rightarrow>
          if lc_Enabled (cf_LogFile cfg)
          then [\<lparr>sr_level = 4, sr_message = ''log file disabled, logging to console only'',
                  sr_args = [(''dir'', lc_Dir (cf_LogFile cfg)), (''err'', err)]\<rparr>]
          else [])"

section \<open>Going down\<close>

record process =
  pr_sinks :: sinks
  pr_background :: bool
  pr_keepAlives :: bool
  pr_accepting :: bool
  pr_requests :: bool
  pr_database :: bool
  pr_apiBucket :: bool
  pr_updatesBucket :: bool

text \<open>The signal, how the calls of the shutdown end, None being no error, and which providers fail to stop.\<close>

record exit_luck =
  ex_signal :: string
  ex_serverErr :: "string option"
  ex_dbErr :: "string option"
  ex_otelFails :: "bool \<times> bool \<times> bool"
  ex_otelErr :: string

datatype exit_step =
    Line slog_record
  | CancelBackground
  | KeepAlivesOff
  | ShutdownServer bool
  | CloseDatabase
  | CloseAPIBucket
  | CloseUpdatesBucket
  | StopTelemetry "bool \<times> bool \<times> bool"
  | CloseLogFile

definition info :: "string \<Rightarrow> exit_step" where
  "info msg = Line \<lparr>sr_level = 0, sr_message = msg, sr_args = []\<rparr>"

definition error :: "string \<Rightarrow> string \<Rightarrow> exit_step" where
  "error msg err = Line \<lparr>sr_level = 8, sr_message = msg, sr_args = [(''err'', err)]\<rparr>"

text \<open>The deferred functions run last to first.\<close>

definition deferred_steps :: "bool \<Rightarrow> bool \<Rightarrow> exit_luck \<Rightarrow> exit_step list" where
  "deferred_steps otel logFile x =
     [CancelBackground] @
     (if otel
      then StopTelemetry (ex_otelFails x) #
        (if snd (otel_shutdown (ex_otelFails x) no_telemetry) then [error ''otel shutdown error'' (ex_otelErr x)] else [])
      else []) @
     (if logFile then [CloseLogFile] else [])"

definition signal_steps :: "process \<Rightarrow> exit_luck \<Rightarrow> exit_step list" where
  "signal_steps p x =
     [Line \<lparr>sr_level = 0, sr_message = ''shutdown signal received'', sr_args = [(''signal'', ex_signal x)]\<rparr>,
      CancelBackground, info ''shutting down server, waiting for in-flight requests to finish'', KeepAlivesOff,
      ShutdownServer (ex_serverErr x = None),
      case ex_serverErr x of Some e \<Rightarrow> error ''server shutdown error'' e | None \<Rightarrow> info ''server shutdown complete'',
      CloseDatabase,
      case ex_dbErr x of Some e \<Rightarrow> error ''closing database failed'' e | None \<Rightarrow> info ''database closed''] @
     (if pr_apiBucket p then [CloseAPIBucket, info ''API file s3 connector closed''] else []) @
     (if pr_updatesBucket p then [CloseUpdatesBucket, info ''updates s3 connector closed''] else []) @
     [info ''shutdown complete'']"

definition exit_steps :: "Config \<Rightarrow> process \<Rightarrow> exit_luck \<Rightarrow> exit_step list" where
  "exit_steps cfg p x = signal_steps p x @ deferred_steps (oc_Enabled (cf_Otel cfg)) (si_file (pr_sinks p) \<noteq> None) x"

fun take_step :: "slog_lib \<Rightarrow> slog_handler \<Rightarrow> moment \<Rightarrow> exit_step \<Rightarrow> process \<Rightarrow> process" where
  "take_step lib h m (Line r) p = p\<lparr>pr_sinks := slog_Log lib m h r (pr_sinks p)\<rparr>"
| "take_step lib h m CancelBackground p = p\<lparr>pr_background := False\<rparr>"
| "take_step lib h m KeepAlivesOff p = p\<lparr>pr_keepAlives := False\<rparr>"
| "take_step lib h m (ShutdownServer drained) p = p\<lparr>pr_accepting := False, pr_requests := pr_requests p \<and> \<not> drained\<rparr>"
| "take_step lib h m CloseDatabase p = p\<lparr>pr_database := False\<rparr>"
| "take_step lib h m CloseAPIBucket p = p\<lparr>pr_apiBucket := False\<rparr>"
| "take_step lib h m CloseUpdatesBucket p = p\<lparr>pr_updatesBucket := False\<rparr>"
| "take_step lib h m (StopTelemetry fails) p =
     p\<lparr>pr_sinks := (pr_sinks p)\<lparr>si_telemetry := fst (otel_shutdown fails (si_telemetry (pr_sinks p)))\<rparr>\<rparr>"
| "take_step lib h m CloseLogFile p =
     p\<lparr>pr_sinks := (pr_sinks p)\<lparr>si_file := map_option close_writer (si_file (pr_sinks p))\<rparr>\<rparr>"

text \<open>\<open>ms i\<close> is the moment of the step \<open>i\<close>.\<close>

fun run_exit :: "slog_lib \<Rightarrow> slog_handler \<Rightarrow> (nat \<Rightarrow> moment) \<Rightarrow> exit_step list \<Rightarrow> process \<Rightarrow> process" where
  "run_exit lib h ms [] p = p"
| "run_exit lib h ms (st # sts) p = run_exit lib h (\<lambda>i. ms (Suc i)) sts (take_step lib h (ms 0) st p)"

section \<open>Every line of the shutdown is kept\<close>

text \<open>The records the steps log and the handler lets through, as text.\<close>

fun printed :: "slog_lib \<Rightarrow> slog_handler \<Rightarrow> exit_step list \<Rightarrow> string" where
  "printed lib h [] = []"
| "printed lib h (Line r # sts) = (if Enabled lib h (sr_level r) then sl_render lib [] r else []) @ printed lib h sts"
| "printed lib h (_ # sts) = printed lib h sts"

lemma printed_append: "printed lib h (a @ b) = printed lib h a @ printed lib h b"
  by (induction lib h a rule: printed.induct) auto

text \<open>The moments a shutdown is logged at, on one day and with a console and a disk that work.\<close>

definition calm :: "Writer \<Rightarrow> moment \<Rightarrow> bool" where
  "calm w m \<longleftrightarrow> mo_console m = None \<and> io_write (mo_file m) = None \<and> format_day (mo_now m) = w_day w"

text \<open>The handlers \<open>start_logging\<close> gives.\<close>

definition default_handler :: "int \<Rightarrow> slog_handler \<Rightarrow> bool" where
  "default_handler least h \<longleftrightarrow> h = WriterHandler least [] \<or> h = TeeHandler (WriterHandler least []) (OtelHandler [])"

lemma start_logging_handler:
  "start_logging L sdk cfg io now dir = (s, Inr h) \<Longrightarrow> default_handler (level_of (parseLogLevel (cf_LogLevel cfg))) h"
  using Setup_all_or_nothing [of L sdk "oc_Endpoint (cf_Otel cfg)"]
  by (fastforce simp: start_logging_def Let_def default_handler_def split: if_splits prod.splits)

lemma append_data_twice: "append_data n q (append_data n p dir) = append_data n (p @ q) dir"
  by (simp add: append_data_def)

lemma append_data_nil [simp]: "append_data n [] dir = dir"
  by (induction dir) (simp_all add: append_data_def)

lemma write_log_calm:
  "w_file w = Some n \<Longrightarrow> calm w m \<Longrightarrow> write_log (mo_file m) (mo_now m) p (w, dir) = ((w, append_data n p dir), Some (length p))"
  by (simp add: write_log_def calm_def)

lemma write_out_calm:
  assumes "si_file s = Some (w, dir)" "w_file w = Some n" "calm w m"
  shows "write_out m p s = (s\<lparr>si_console := si_console s @ p, si_file := Some (w, append_data n p dir)\<rparr>, False)"
proof -
  have "mo_console m = None" using assms(3) by (simp add: calm_def)
  then show ?thesis using assms by (simp add: write_out_def write_log_calm Let_def)
qed

text \<open>One line, at a calm moment.\<close>

lemma slog_Log_calm:
  assumes "default_handler least h" "si_file s = Some (w, dir)" "w_file w = Some n" "calm w m"
  shows "si_file (slog_Log lib m h r s) = Some (w, append_data n (printed lib h [Line r]) dir)"
    "si_console (slog_Log lib m h r s) = si_console s @ printed lib h [Line r]"
  using assms(1) by (auto simp: slog_Log_def default_handler_def write_out_calm [OF assms(2-4)] assms(2))

lemma run_exit_append: "run_exit lib h ms (a @ b) p = run_exit lib h (\<lambda>i. ms (i + length a)) b (run_exit lib h ms a p)"
  by (induction a arbitrary: ms p) simp_all

lemma take_step_sinks:
  "(\<forall>r. st \<noteq> Line r) \<Longrightarrow> st \<noteq> CloseLogFile \<Longrightarrow> si_file (pr_sinks (take_step lib h m st p)) = si_file (pr_sinks p)"
  "(\<forall>r. st \<noteq> Line r) \<Longrightarrow> si_console (pr_sinks (take_step lib h m st p)) = si_console (pr_sinks p)"
  "(\<forall>r. st \<noteq> Line r) \<Longrightarrow> printed lib h (st # sts) = printed lib h sts"
  by (cases st; simp)+

lemma run_exit_calm:
  assumes "default_handler least h" "w_file w = Some n" "\<forall>i. calm w (ms i)"
    and "si_file (pr_sinks p) = Some (w, dir)" "CloseLogFile \<notin> set sts"
  shows "si_file (pr_sinks (run_exit lib h ms sts p)) = Some (w, append_data n (printed lib h sts) dir) \<and>
    si_console (pr_sinks (run_exit lib h ms sts p)) = si_console (pr_sinks p) @ printed lib h sts"
  using assms(3-)
proof (induction sts arbitrary: ms p dir)
  case (Cons st sts)
  let ?p = "take_step lib h (ms 0) st p"
  have rest: "\<forall>i. calm w (ms (Suc i))" "CloseLogFile \<notin> set sts" "st \<noteq> CloseLogFile" using Cons.prems by auto
  show ?case
  proof (cases "\<exists>r. st = Line r")
    case True
    then obtain r where r: "st = Line r" by blast
    note one = slog_Log_calm [OF assms(1) Cons.prems(2) assms(2), of "ms 0" lib r]
    have kept: "si_file (pr_sinks ?p) = Some (w, append_data n (printed lib h [Line r]) dir)"
      and console: "si_console (pr_sinks ?p) = si_console (pr_sinks p) @ printed lib h [Line r]"
      using one Cons.prems(1) r by simp_all
    from Cons.IH [OF rest(1) kept rest(2)] console show ?thesis by (simp add: r append_data_twice)
  next
    case False
    then have no: "\<forall>r. st \<noteq> Line r" by blast
    have kept: "si_file (pr_sinks ?p) = Some (w, dir)" using take_step_sinks(1) [OF no rest(3)] Cons.prems(2) by simp
    from Cons.IH [OF rest(1) kept rest(2)] show ?thesis by (simp add: take_step_sinks(2,3) [OF no])
  qed
qed simp

section \<open>What is taken down, and when\<close>

lemma run_exit_flags:
  "pr_background (run_exit lib h ms sts p) \<longleftrightarrow> pr_background p \<and> CancelBackground \<notin> set sts"
  "pr_accepting (run_exit lib h ms sts p) \<longleftrightarrow> pr_accepting p \<and> (\<forall>d. ShutdownServer d \<notin> set sts)"
  "pr_requests (run_exit lib h ms sts p) \<longleftrightarrow> pr_requests p \<and> ShutdownServer True \<notin> set sts"
  "pr_database (run_exit lib h ms sts p) \<longleftrightarrow> pr_database p \<and> CloseDatabase \<notin> set sts"
  "pr_apiBucket (run_exit lib h ms sts p) \<longleftrightarrow> pr_apiBucket p \<and> CloseAPIBucket \<notin> set sts"
  "pr_updatesBucket (run_exit lib h ms sts p) \<longleftrightarrow> pr_updatesBucket p \<and> CloseUpdatesBucket \<notin> set sts"
proof -
  have step: "pr_background (take_step lib h m st p) \<longleftrightarrow> pr_background p \<and> st \<noteq> CancelBackground"
    "pr_accepting (take_step lib h m st p) \<longleftrightarrow> pr_accepting p \<and> (\<forall>d. st \<noteq> ShutdownServer d)"
    "pr_requests (take_step lib h m st p) \<longleftrightarrow> pr_requests p \<and> st \<noteq> ShutdownServer True"
    "pr_database (take_step lib h m st p) \<longleftrightarrow> pr_database p \<and> st \<noteq> CloseDatabase"
    "pr_apiBucket (take_step lib h m st p) \<longleftrightarrow> pr_apiBucket p \<and> st \<noteq> CloseAPIBucket"
    "pr_updatesBucket (take_step lib h m st p) \<longleftrightarrow> pr_updatesBucket p \<and> st \<noteq> CloseUpdatesBucket" for m st p
    by (cases st; simp)+
  show "pr_background (run_exit lib h ms sts p) \<longleftrightarrow> pr_background p \<and> CancelBackground \<notin> set sts"
    by (induction sts arbitrary: ms p) (auto simp: step)
  show "pr_accepting (run_exit lib h ms sts p) \<longleftrightarrow> pr_accepting p \<and> (\<forall>d. ShutdownServer d \<notin> set sts)"
    by (induction sts arbitrary: ms p) (auto simp: step)
  show "pr_requests (run_exit lib h ms sts p) \<longleftrightarrow> pr_requests p \<and> ShutdownServer True \<notin> set sts"
    by (induction sts arbitrary: ms p) (auto simp: step)
  show "pr_database (run_exit lib h ms sts p) \<longleftrightarrow> pr_database p \<and> CloseDatabase \<notin> set sts"
    by (induction sts arbitrary: ms p) (auto simp: step)
  show "pr_apiBucket (run_exit lib h ms sts p) \<longleftrightarrow> pr_apiBucket p \<and> CloseAPIBucket \<notin> set sts"
    by (induction sts arbitrary: ms p) (auto simp: step)
  show "pr_updatesBucket (run_exit lib h ms sts p) \<longleftrightarrow> pr_updatesBucket p \<and> CloseUpdatesBucket \<notin> set sts"
    by (induction sts arbitrary: ms p) (auto simp: step)
qed

lemma slog_Log_telemetry: "si_telemetry (slog_Log lib m h r s) = si_telemetry s"
  by (simp add: slog_Log_def Handle_telemetry)

lemma run_exit_telemetry:
  "\<forall>f. StopTelemetry f \<notin> set sts \<Longrightarrow> si_telemetry (pr_sinks (run_exit lib h ms sts p)) = si_telemetry (pr_sinks p)"
proof (induction sts arbitrary: ms p)
  case (Cons st sts)
  from Cons.prems have "si_telemetry (pr_sinks (take_step lib h (ms 0) st p)) = si_telemetry (pr_sinks p)"
    by (cases st) (auto simp: slog_Log_telemetry)
  with Cons show ?case by simp
qed simp

text \<open>The steps as they are taken: the log file goes last, and the database after the server and the background loops.\<close>

lemma signal_steps_set:
  "StopTelemetry f \<notin> set (signal_steps p x)" "CloseLogFile \<notin> set (signal_steps p x)"
  "pr_apiBucket p \<Longrightarrow> CloseAPIBucket \<in> set (signal_steps p x)" "pr_updatesBucket p \<Longrightarrow> CloseUpdatesBucket \<in> set (signal_steps p x)"
  by (auto simp: signal_steps_def info_def error_def split: option.splits if_splits)

lemma signal_steps_database:
  obtains front rest where "signal_steps p x = front @ CloseDatabase # rest" "CloseDatabase \<notin> set front"
    "CancelBackground \<in> set front" "ShutdownServer (ex_serverErr x = None) \<in> set front"
proof
  show "signal_steps p x = take 6 (signal_steps p x) @ CloseDatabase # drop 7 (signal_steps p x)"
    by (simp add: signal_steps_def)
qed (auto simp: signal_steps_def info_def error_def split: option.splits)

lemma deferred_steps_end:
  "deferred_steps otel True x = deferred_steps otel False x @ [CloseLogFile]" "CloseLogFile \<notin> set (deferred_steps otel False x)"
  by (auto simp: deferred_steps_def error_def)

lemma deferred_steps_telemetry:
  obtains rest where "deferred_steps True logFile x = CancelBackground # StopTelemetry (ex_otelFails x) # rest" "\<forall>f. StopTelemetry f \<notin> set rest"
  by (auto simp: deferred_steps_def error_def)

lemma deferred_steps_no_telemetry: "StopTelemetry f \<notin> set (deferred_steps False logFile x)"
  by (simp add: deferred_steps_def)

lemma take_before: "x \<notin> set front \<Longrightarrow> x \<in> set (take k (front @ x # rest)) \<Longrightarrow> set front \<subseteq> set (take k (front @ x # rest))"
  by (cases "k \<le> length front") (auto dest: in_set_takeD)

text \<open>Log lines that LOG_LEVEL leaves out are printed all the same once the records also go to the collector.\<close>

lemma tee_prints_below_the_level:
  assumes "sl_otelEnabled lib l" "mo_console m = None"
  shows "si_console (slog_Log lib m (TeeHandler (WriterHandler least []) (OtelHandler [])) \<lparr>sr_level = l, sr_message = msg, sr_args = []\<rparr> s)
    = si_console s @ sl_render lib [] \<lparr>sr_level = l, sr_message = msg, sr_args = []\<rparr>"
  using assms by (auto simp: slog_Log_def write_out_def Let_def split: option.split prod.split)

section \<open>Properties\<close>

lemma start_logging_telemetry:
  assumes "start_logging L sdk cfg io now dir = (s, Inr h)"
  shows "\<not> oc_Enabled (cf_Otel cfg) \<Longrightarrow> si_telemetry s = no_telemetry"
  using assms by (auto simp: start_logging_def Let_def)

lemma shutdown_of_all: "te_tp (fst (otel_shutdown (False, False, False) t)) = Stopped" "te_mp (fst (otel_shutdown (False, False, False) t)) = Stopped"
  "te_lp (fst (otel_shutdown (False, False, False) t)) = Stopped"
  by (simp_all add: otel_shutdown_def Let_def)

lemma exit_telemetry:
  assumes "start_logging L sdk cfg io now dir0 = (s0, Inr h)" "si_telemetry (pr_sinks p) = si_telemetry s0"
    and "ex_otelFails x = (False, False, False)"
  shows "let t = si_telemetry (pr_sinks (run_exit lib h ms (exit_steps cfg p x) p))
    in te_tp t \<noteq> Running \<and> te_mp t \<noteq> Running \<and> te_lp t \<noteq> Running"
proof (cases "oc_Enabled (cf_Otel cfg)")
  case True
  obtain rest where rest: "deferred_steps True (si_file (pr_sinks p) \<noteq> None) x = CancelBackground # StopTelemetry (ex_otelFails x) # rest"
    "\<forall>f. StopTelemetry f \<notin> set rest" by (rule deferred_steps_telemetry)
  have sts: "exit_steps cfg p x = signal_steps p x @ CancelBackground # StopTelemetry (ex_otelFails x) # rest"
    by (simp only: exit_steps_def True rest(1))
  have "si_telemetry (pr_sinks (run_exit lib h ms (exit_steps cfg p x) p)) = fst (otel_shutdown (False, False, False) (si_telemetry (pr_sinks p)))"
    unfolding sts run_exit_append using signal_steps_set(1) by (simp add: run_exit_telemetry [OF rest(2)] run_exit_telemetry assms(3))
  then show ?thesis by (simp add: Let_def shutdown_of_all)
next
  case False
  have "\<forall>f. StopTelemetry f \<notin> set (exit_steps cfg p x)"
    using signal_steps_set(1) deferred_steps_no_telemetry False by (simp add: exit_steps_def)
  from run_exit_telemetry [OF this] show ?thesis
    using start_logging_telemetry [OF assms(1) False] assms(2) by (simp add: no_telemetry_def)
qed

lemma exit_file:
  assumes "default_handler least h" "si_file (pr_sinks p) = Some (w, dir)" "w_file w = Some n" "\<forall>i. calm w (ms i)"
  shows "si_file (pr_sinks (run_exit lib h ms (exit_steps cfg p x) p)) =
      Some (w\<lparr>w_file := None\<rparr>, append_data n (printed lib h (exit_steps cfg p x)) dir) \<and>
    si_console (pr_sinks (run_exit lib h ms (exit_steps cfg p x) p)) = si_console (pr_sinks p) @ printed lib h (exit_steps cfg p x)"
proof -
  have "exit_steps cfg p x = (signal_steps p x @ deferred_steps (oc_Enabled (cf_Otel cfg)) False x) @ [CloseLogFile]"
    "CloseLogFile \<notin> set (signal_steps p x @ deferred_steps (oc_Enabled (cf_Otel cfg)) False x)"
    using assms(2) signal_steps_set(2) deferred_steps_end by (auto simp: exit_steps_def)
  then obtain front where sts: "exit_steps cfg p x = front @ [CloseLogFile]" "CloseLogFile \<notin> set front" by blast
  from run_exit_calm [OF assms(1,3,4,2) sts(2)] show ?thesis
    by (simp add: sts(1) run_exit_append [of _ _ _ front] printed_append close_writer_def)
qed

lemma exit_order:
  assumes "pr_database p" "\<not> pr_database (run_exit lib h ms (take k (exit_steps cfg p x)) p)"
  shows "\<not> pr_accepting (run_exit lib h ms (take k (exit_steps cfg p x)) p) \<and>
    \<not> pr_background (run_exit lib h ms (take k (exit_steps cfg p x)) p)"
proof -
  obtain front rest where f: "signal_steps p x = front @ CloseDatabase # rest" "CloseDatabase \<notin> set front"
    "CancelBackground \<in> set front" "ShutdownServer (ex_serverErr x = None) \<in> set front"
    by (rule signal_steps_database)
  obtain rest' where sts: "exit_steps cfg p x = front @ CloseDatabase # rest'" using f(1) by (simp add: exit_steps_def)
  have "set front \<subseteq> set (take k (exit_steps cfg p x))"
    using assms take_before [OF f(2), of k rest'] by (simp add: run_exit_flags sts)
  with f(3,4) show ?thesis by (auto simp: run_exit_flags)
qed


definition sample_writer :: Writer where
  "sample_writer = \<lparr>w_retentionDays = 7, w_file = Some ''f'', w_path = ''f'', w_day = format_day 0, w_retryAt = 0\<rparr>"

definition sample_process :: process where
  "sample_process =
     \<lparr>pr_sinks = \<lparr>si_console = [], si_file = Some (sample_writer, []), si_telemetry = no_telemetry, si_emitted = []\<rparr>,
      pr_background = True, pr_keepAlives = True, pr_accepting = True, pr_requests = True, pr_database = True,
      pr_apiBucket = True, pr_updatesBucket = False\<rparr>"


end
