(* ===== verification/Stats.thy ===== *)
theory Stats
  imports Updater_Client TTL_Cache Presence_Hub Paging Go_Time
begin

text \<open>
  \<open>internal/stats/stats.route.go\<close>: what the dashboard reads of the clients and of their events, over the tables of
  \<open>Updater_Client\<close>, the cache of \<open>TTL_Cache\<close> and the hub of \<open>Presence_Hub\<close>. A query answers its rows in the order of
  the table where it asks for no other. \<open>now\<close> is the clock, of the process and of the database. A time keeps no zone:
  one that was read with an offset is shown in UTC.
\<close>

section \<open>Grouping\<close>

text \<open>\<open>GROUP BY\<close>: the groups in the order of their first rows.\<close>

function group_rows :: "('r \<Rightarrow> 'k) \<Rightarrow> 'r list \<Rightarrow> 'r list list" where
  "group_rows key [] = []"
| "group_rows key (r # rs) = (r # filter (\<lambda>x. key x = key r) rs) # group_rows key (filter (\<lambda>x. key x \<noteq> key r) rs)"
  by pat_completeness auto
termination
  by (relation "measure (\<lambda>(key, rs). length rs)") (auto simp: le_imp_less_Suc)

lemma sum_split: "sum_list (map w rs) = sum_list (map w (filter P rs)) + (sum_list (map w (filter (\<lambda>x. \<not> P x) rs)) :: int)"
  by (induction rs) auto

lemma sum_group_rows: "sum_list (map (\<lambda>g. sum_list (map w g)) (group_rows key rs)) = (sum_list (map w rs) :: int)"
proof (induction key rs rule: group_rows.induct)
  case (2 key r rs)
  then show ?case using sum_split [of w rs "\<lambda>x. key x = key r"] by simp
qed simp

lemma group_rows_filter: "g \<in> set (group_rows key rs) \<Longrightarrow> \<exists>r \<in> set rs. g = filter (\<lambda>x. key x = key r) rs \<and> hd g = r"
proof (induction key rs rule: group_rows.induct)
  case (2 key r rs)
  show ?case
  proof (cases "g = r # filter (\<lambda>x. key x = key r) rs")
    case False
    with "2.prems" have "g \<in> set (group_rows key (filter (\<lambda>x. key x \<noteq> key r) rs))" by simp
    from "2.IH" [OF this] obtain s where s: "s \<in> set rs" "key s \<noteq> key r" "hd g = s"
      "g = filter (\<lambda>x. key x = key s) (filter (\<lambda>x. key x \<noteq> key r) rs)" by auto
    have "g = filter (\<lambda>x. key x = key s) (r # rs)" using s(2) unfolding s(4) filter_filter by (auto intro: filter_cong)
    with s show ?thesis by auto
  qed auto
qed simp

lemma group_rows_keys: "(\<lambda>g. key (hd g)) ` set (group_rows key rs) = key ` set rs"
  by (induction key rs rule: group_rows.induct) auto

lemma group_rows_distinct: "distinct (map (\<lambda>g. key (hd g)) (group_rows key rs))"
proof (induction key rs rule: group_rows.induct)
  case (2 key r rs)
  have "key r \<notin> (\<lambda>g. key (hd g)) ` set (group_rows key (filter (\<lambda>x. key x \<noteq> key r) rs))"
    by (auto simp: group_rows_keys)
  with 2 show ?case by simp
qed simp

lemma group_rows_ne: "g \<in> set (group_rows key rs) \<Longrightarrow> g \<noteq> []"
  by (induction key rs rule: group_rows.induct) auto

section \<open>Products\<close>

definition validEventBuckets :: "string list" where
  "validEventBuckets = [''day'', ''hour'']"

definition validEventProducts :: "string list" where
  "validEventProducts = [''emly'', ''updater'', ''all'']"

definition defaultConnectedWindowMinutes :: int where
  "defaultConnectedWindowMinutes = 15"

definition maxConnectedWindowMinutes :: int where
  "maxConnectedWindowMinutes = 7 * 24 * 60"

text \<open>The product the parameter names, the product column a row must have if any, and whether it is valid.\<close>

definition productFilter :: "string \<Rightarrow> string \<times> string option \<times> bool" where
  "productFilter product0 =
     (let product = (if product0 = [] then ''emly'' else product0)
      in if product \<notin> set validEventProducts then (product, None, False)
         else if product = ''all'' then (product, None, True)
         else (product, Some product, True))"

definition in_product :: "string option \<Rightarrow> rollup_key \<Rightarrow> bool" where
  "in_product clause k \<longleftrightarrow> (case clause of None \<Rightarrow> True | Some p \<Rightarrow> fst (snd k) = p)"

section \<open>The summary\<close>

record StatsSummary =
  ss_TotalClients :: int
  ss_ConnectedClients :: int
  ss_WindowMinutes :: int
  ss_Product :: string
  ss_EventsLast24h :: "(string \<times> int) list"
  ss_ClientsByVersion :: "(string ptr \<times> int) list"
  ss_ClientsByConfigRevision :: "(int ptr \<times> int) list"

text \<open>\<open>NOW() - INTERVAL ? MINUTE\<close>, which is NULL when it leaves the range of dates; no row is later than NULL.\<close>

definition minutes_ago :: "gotime \<Rightarrow> int \<Rightarrow> gotime option" where
  "minutes_ago now w = (let t = now - w * minute in if t < 0 then None else Some t)"

definition seen_within :: "gotime \<Rightarrow> int \<Rightarrow> client_row \<Rightarrow> bool" where
  "seen_within now w c \<longleftrightarrow> (case minutes_ago now w of None \<Rightarrow> False | Some t \<Rightarrow> t \<le> cl_last_seen_at c)"

definition events_last_24h :: "collation \<Rightarrow> gotime \<Rightarrow> string option \<Rightarrow> (rollup_key \<times> int) list \<Rightarrow> (string \<times> int) list" where
  "events_last_24h ck now clause hourly =
     map (\<lambda>g. (snd (snd (fst (hd g))), sum_list (map snd g)))
       (group_rows (\<lambda>(k, n). ck (snd (snd k)))
         (filter (\<lambda>(k, n). hour_bucket (now - 24 * hour) \<le> fst k \<and> in_product clause k) hourly))"

definition clients_by :: "(client_row \<Rightarrow> 'k) \<Rightarrow> (client_row \<Rightarrow> 'v) \<Rightarrow> client_row list \<Rightarrow> ('v \<times> int) list" where
  "clients_by key val clients = map (\<lambda>g. (val (hd g), int (length g))) (group_rows key clients)"

text \<open>Statements 0 to 4, in the order of the fields. None is an error.\<close>

definition fetchStatsSummary :: "collation \<Rightarrow> faults \<Rightarrow> gotime \<Rightarrow> updater_db \<Rightarrow> int \<Rightarrow> string \<Rightarrow> StatsSummary option" where
  "fetchStatsSummary ck f now db windowMinutes product =
     (let clause = fst (snd (productFilter product))
      in if f 0 \<or> f 1 \<or> f 2 \<or> f 3 \<or> f 4 then None
         else Some
           \<lparr>ss_TotalClients = int (length (u_clients db)),
            ss_ConnectedClients = int (length (filter (seen_within now windowMinutes) (u_clients db))),
            ss_WindowMinutes = windowMinutes, ss_Product = product,
            ss_EventsLast24h = events_last_24h ck now clause (u_hourly db),
            ss_ClientsByVersion = clients_by (\<lambda>c. map_option ck (cl_updater_version c)) cl_updater_version (u_clients db),
            ss_ClientsByConfigRevision = clients_by cl_config_revision cl_config_revision (u_clients db)\<rparr>)"

definition no_summary :: StatsSummary where
  "no_summary =
     \<lparr>ss_TotalClients = 0, ss_ConnectedClients = 0, ss_WindowMinutes = 0, ss_Product = [], ss_EventsLast24h = [],
      ss_ClientsByVersion = [], ss_ClientsByConfigRevision = []\<rparr>"

text \<open>An answer with its \<open>Cache-Control\<close> header, if it sets one.\<close>

record 'a cached_answer =
  ca_control :: "string option"
  ca_body :: 'a

definition cache_control :: "duration \<Rightarrow> string option" where
  "cache_control ttl = (if 0 < ttl then Some (''private, max-age='' @ Itoa (ttl div second)) else None)"

definition window_param :: "string \<Rightarrow> int" where
  "window_param wm =
     (if wm = [] then defaultConnectedWindowMinutes
      else case Atoi wm of Some v \<Rightarrow> if 0 < v then v else defaultConnectedWindowMinutes | None \<Rightarrow> defaultConnectedWindowMinutes)"

definition GetStatsSummary ::
  "collation \<Rightarrow> faults \<Rightarrow> gotime \<Rightarrow> gotime \<Rightarrow> updater_db \<Rightarrow> StatsSummary ttl_cache \<Rightarrow> (string \<Rightarrow> string) \<Rightarrow>
     StatsSummary ttl_cache \<times> StatsSummary cached_answer response" where
  "GetStatsSummary ck f now later db cache query =
     (let windowMinutes = min (window_param (query ''window_minutes'')) maxConnectedWindowMinutes
      in case productFilter (query ''product'') of
           (_, _, False) \<Rightarrow> (cache, Error 400 ''product must be one of: emly, updater, all'')
         | (product, _, True) \<Rightarrow>
             (case cache_Get no_summary (product @ ''|'' @ Itoa windowMinutes) now
                     (fetchStatsSummary ck f now db windowMinutes product) later cache of
                (cache', None) \<Rightarrow> (cache', Error 500 ''failed to fetch stats summary'')
              | (cache', Some summary) \<Rightarrow> (cache', OK \<lparr>ca_control = cache_control (tc_ttl cache), ca_body = summary\<rparr>)))"

section \<open>Clients\<close>

text \<open>A client with its \<open>online\<close> field.\<close>

definition decorateOnline :: "client_row list \<Rightarrow> presence ptr \<Rightarrow> (client_row \<times> bool) list" where
  "decorateOnline clients hub = map (\<lambda>c. (c, Online hub (cl_id c))) clients"

definition by_last_seen :: "client_row list \<Rightarrow> client_row list" where
  "by_last_seen = sort_key (\<lambda>c. - cl_last_seen_at c)"

definition client_listing :: "gotime \<Rightarrow> bool \<Rightarrow> int \<Rightarrow> updater_db \<Rightarrow> client_row list" where
  "client_listing now onlyOnline w db =
     by_last_seen (filter (\<lambda>c. onlyOnline \<longrightarrow> seen_within now w c) (u_clients db))"

definition fetchStatsClientsPage ::
  "faults \<Rightarrow> gotime \<Rightarrow> updater_db \<Rightarrow> int \<Rightarrow> int \<Rightarrow> bool \<Rightarrow> int \<Rightarrow> (client_row list \<times> int) option" where
  "fetchStatsClientsPage f now db page pageSize onlyOnline windowMinutes =
     (let offset = wrap64 ((page - 1) * pageSize); rows = client_listing now onlyOnline windowMinutes db
      in if f 0 then None
         else if f 1 \<or> offset < 0 then None
         else Some (take (nat pageSize) (drop (nat offset) rows), int (length rows)))"

definition fetchAllStatsClients :: "faults \<Rightarrow> updater_db \<Rightarrow> client_row list option" where
  "fetchAllStatsClients f db = (if f 0 then None else Some (by_last_seen (u_clients db)))"

record client_page =
  cp_data :: "(client_row \<times> bool) slice"
  cp_total :: int
  cp_page :: int
  cp_page_size :: int
  cp_total_pages :: int

definition ListStatsClients ::
  "faults \<Rightarrow> gotime \<Rightarrow> updater_db \<Rightarrow> presence ptr \<Rightarrow> (string \<Rightarrow> string) \<Rightarrow> client_page response" where
  "ListStatsClients f now db hub query =
     (let page = page_param (query ''page''); pageSize = page_size_param (query ''page_size'');
          onlyOnline = (query ''online'' = ''true''); windowMinutes = window_param (query ''window_minutes'')
      in case fetchStatsClientsPage f now db page pageSize onlyOnline windowMinutes of
           None \<Rightarrow> Error 500 ''failed to fetch clients''
         | Some (clients, tot) \<Rightarrow>
             OK \<lparr>cp_data = (if clients = [] then None else Some (decorateOnline clients hub)), cp_total = tot, cp_page = page,
                 cp_page_size = pageSize, cp_total_pages = (tot + pageSize - 1) div pageSize\<rparr>)"

definition find_client :: "int \<Rightarrow> updater_db \<Rightarrow> client_row option" where
  "find_client i db = find (\<lambda>c. cl_id c = i) (u_clients db)"

definition GetStatsClientDetail ::
  "faults \<Rightarrow> updater_db \<Rightarrow> presence ptr \<Rightarrow> string \<Rightarrow> ((client_row \<times> bool) \<times> event_row slice) response" where
  "GetStatsClientDetail f db hub param =
     (case Atoi param of
        None \<Rightarrow> Error 400 ''invalid client id''
      | Some i \<Rightarrow>
          (case (if f 0 then None else find_client i db) of
             None \<Rightarrow> Error 404 ''client not found''
           | Some client \<Rightarrow>
               let events = take 50 (sort_key (\<lambda>e. - ev_created_at e) (filter (\<lambda>e. ev_client_id e = i) (u_events db)))
               in if f 1 then Error 500 ''failed to fetch client events''
                  else OK (hd (decorateOnline [client] hub), if events = [] then None else Some events)))"

text \<open>Statements: 0 the row, 1 the count (whose failure is only logged), 2 the delete. The payload is the id and the count.\<close>

definition DeleteStatsClient :: "faults \<Rightarrow> updater_db \<Rightarrow> string \<Rightarrow> updater_db \<times> (int \<times> int) response" where
  "DeleteStatsClient f db param =
     (case Atoi param of
        None \<Rightarrow> (db, Error 400 ''invalid client id'')
      | Some i \<Rightarrow>
          if f 0 then (db, Error 500 ''failed to fetch client'')
          else case find_client i db of
            None \<Rightarrow> (db, Error 404 ''client not found'')
          | Some client \<Rightarrow>
              let eventCount = (if f 1 then - 1 else int (length (filter (\<lambda>e. ev_client_id e = i) (u_events db))))
              in if f 2 then (db, Error 500 ''failed to delete client'')
                 else (delete_clients (\<lambda>c. cl_id c = i) db, OK (cl_id client, eventCount)))"

section \<open>Events\<close>

text \<open>One row of the chart: the start of its bucket, its event type and its count.\<close>

record StatsEventBucket =
  eb_Bucket :: gotime
  eb_EventType :: string
  eb_Count :: int

record StatsEventsResponse =
  er_Bucket :: string
  er_Product :: string
  er_From :: gotime
  er_To :: gotime
  er_Data :: "StatsEventBucket slice"

definition Truncate_time :: "gotime \<Rightarrow> duration \<Rightarrow> gotime" where
  "Truncate_time t d = (if d \<le> 0 then t else t - t mod d)"

definition bucket_expr :: "string \<Rightarrow> gotime \<Rightarrow> gotime" where
  "bucket_expr bucket t = (if bucket = ''hour'' then hour_bucket t else t - t mod (24 * hour))"

definition event_buckets ::
  "collation \<Rightarrow> (rollup_key \<times> int) list \<Rightarrow> string \<Rightarrow> string \<Rightarrow> string option \<Rightarrow> gotime \<Rightarrow> gotime \<Rightarrow> StatsEventBucket list" where
  "event_buckets ck hourly bucket eventType clause lo hi =
     sort_key eb_Bucket
       (map (\<lambda>g. \<lparr>eb_Bucket = bucket_expr bucket (fst (fst (hd g))), eb_EventType = snd (snd (fst (hd g))), eb_Count = sum_list (map snd g)\<rparr>)
         (group_rows (\<lambda>(k, n). (bucket_expr bucket (fst k), ck (snd (snd k))))
           (filter (\<lambda>(k, n). lo \<le> fst k \<and> fst k \<le> hi \<and> in_product clause k \<and>
              (eventType \<noteq> [] \<longrightarrow> ck (snd (snd k)) = ck eventType)) hourly)))"

definition fetchStatsEvents ::
  "collation \<Rightarrow> faults \<Rightarrow> updater_db \<Rightarrow> string \<Rightarrow> string \<Rightarrow> string \<Rightarrow> gotime \<Rightarrow> gotime \<Rightarrow> StatsEventsResponse option" where
  "fetchStatsEvents ck f db bucket eventType product fromT toT =
     (let clause = fst (snd (productFilter product));
          rows = event_buckets ck (u_hourly db) bucket eventType clause (Truncate_time fromT hour) toT
      in if f 0 then None
         else Some \<lparr>er_Bucket = bucket, er_Product = product, er_From = fromT, er_To = toT,
                    er_Data = (if rows = [] then None else Some rows)\<rparr>)"

definition quantize :: "gotime \<Rightarrow> duration \<Rightarrow> gotime" where
  "quantize t step = (if step \<le> 0 then t else Truncate_time t step)"

definition events_key :: "duration \<Rightarrow> string \<Rightarrow> string \<Rightarrow> string \<Rightarrow> gotime \<Rightarrow> gotime \<Rightarrow> string" where
  "events_key ttl bucket product eventType fromT toT =
     bucket @ ''|'' @ product @ ''|'' @ eventType @ ''|'' @ FormatRFC3339 (quantize fromT ttl) @ ''|'' @ FormatRFC3339 (quantize toT ttl)"

definition no_events :: StatsEventsResponse where
  "no_events = \<lparr>er_Bucket = [], er_Product = [], er_From = 0, er_To = 0, er_Data = None\<rparr>"

text \<open>A time parameter: its value, or None when it is malformed.\<close>

definition time_param :: "string \<Rightarrow> gotime \<Rightarrow> gotime option" where
  "time_param s dflt = (if s = [] then Some dflt else ParseRFC3339 s)"

definition GetStatsEvents ::
  "collation \<Rightarrow> faults \<Rightarrow> gotime \<Rightarrow> gotime \<Rightarrow> updater_db \<Rightarrow> StatsEventsResponse ttl_cache \<Rightarrow> (string \<Rightarrow> string) \<Rightarrow>
     StatsEventsResponse ttl_cache \<times> StatsEventsResponse cached_answer response" where
  "GetStatsEvents ck f now later db cache query =
     (let bucket = (if query ''bucket'' = [] then ''day'' else query ''bucket''); eventType = query ''event_type''
      in if bucket \<notin> set validEventBuckets then (cache, Error 400 ''bucket must be one of: day, hour'')
         else case productFilter (query ''product'') of
           (_, _, False) \<Rightarrow> (cache, Error 400 ''product must be one of: emly, updater, all'')
         | (product, _, True) \<Rightarrow>
             (case time_param (query ''from'') (now - 30 * 24 * hour) of
                None \<Rightarrow> (cache, Error 400 ''from must be RFC3339'')
              | Some fromT \<Rightarrow>
                  (case time_param (query ''to'') now of
                     None \<Rightarrow> (cache, Error 400 ''to must be RFC3339'')
                   | Some toT \<Rightarrow>
                       (case cache_Get no_events (events_key (tc_ttl cache) bucket product eventType fromT toT) now
                               (fetchStatsEvents ck f db bucket eventType product fromT toT) later cache of
                          (cache', None) \<Rightarrow> (cache', Error 500 ''failed to fetch events'')
                        | (cache', Some resp) \<Rightarrow> (cache', OK \<lparr>ca_control = cache_control (tc_ttl cache), ca_body = resp\<rparr>)))))"

end
