(* ===== verification/Stats_Stream.thy ===== *)
theory Stats_Stream
  imports Stats App_Config Json_Tree
begin

text \<open>
  \<open>internal/stats/stats_stream.route.go\<close>: one connection of the dashboard to \<open>/v2/stats/stream\<close>. Its reader handles the
  messages of the client, its event loop the hub's events and a ticker that flushes what they made stale; both take
  the connection's locks only to copy or change its state, so a connection is a sequence of their steps. A step answers
  the envelopes it writes; a write that fails changes nothing. A message is its JSON value, None when it is not valid JSON.
\<close>

section \<open>Messages\<close>

definition channelSummary :: string where "channelSummary = ''stats:summary''"
definition channelClients :: string where "channelClients = ''stats:clients''"
definition channelEvents :: string where "channelEvents = ''stats:events''"

definition validWSChannels :: "string list" where
  "validWSChannels = [channelSummary, channelClients, channelEvents]"

definition wsIdleTimeout :: duration where "wsIdleTimeout = 90 * second"

record wsEventsParams =
  ep_Bucket :: "string ptr"
  ep_EventType :: "string ptr"
  ep_From :: "string ptr"
  ep_To :: "string ptr"

record wsSubscribeParams =
  sp_WindowMinutes :: "int ptr"
  sp_Product :: "string ptr"
  sp_Events :: "wsEventsParams ptr"

record wsClientMessage =
  cm_Type :: string
  cm_Channels :: "string slice"
  cm_Params :: "wsSubscribeParams ptr"

definition dec_wsEventsParams :: "json \<Rightarrow> wsEventsParams option" where
  "dec_wsEventsParams j = do {
     kvs \<leftarrow> dec_struct j;
     v_Bucket \<leftarrow> dec_ptr dec_string (field_get ''bucket'' kvs);
     v_EventType \<leftarrow> dec_ptr dec_string (field_get ''event_type'' kvs);
     v_From \<leftarrow> dec_ptr dec_string (field_get ''from'' kvs);
     v_To \<leftarrow> dec_ptr dec_string (field_get ''to'' kvs);
     Some \<lparr>ep_Bucket = v_Bucket, ep_EventType = v_EventType, ep_From = v_From, ep_To = v_To\<rparr>
   }"

definition dec_wsSubscribeParams :: "json \<Rightarrow> wsSubscribeParams option" where
  "dec_wsSubscribeParams j = do {
     kvs \<leftarrow> dec_struct j;
     v_WindowMinutes \<leftarrow> dec_ptr dec_int (field_get ''window_minutes'' kvs);
     v_Product \<leftarrow> dec_ptr dec_string (field_get ''product'' kvs);
     v_Events \<leftarrow> dec_ptr dec_wsEventsParams (field_get ''events'' kvs);
     Some \<lparr>sp_WindowMinutes = v_WindowMinutes, sp_Product = v_Product, sp_Events = v_Events\<rparr>
   }"

definition dec_wsClientMessage :: "json \<Rightarrow> wsClientMessage option" where
  "dec_wsClientMessage j = do {
     kvs \<leftarrow> dec_struct j;
     v_Type \<leftarrow> dec_string (field_get ''type'' kvs);
     v_Channels \<leftarrow> dec_list dec_string (field_get ''channels'' kvs);
     v_Params \<leftarrow> dec_ptr dec_wsSubscribeParams (field_get ''params'' kvs);
     Some \<lparr>cm_Type = v_Type, cm_Channels = v_Channels, cm_Params = v_Params\<rparr>
   }"

datatype payload =
    NoData
  | Problem string string
  | ChannelList "string list"
  | Summary StatsSummary
  | Clients "(client_row \<times> bool) list"
  | Upserted "(client_row \<times> bool) list"
  | Events StatsEventsResponse

record wsEnvelopeOut =
  eo_Type :: string
  eo_Channel :: string
  eo_TS :: string
  eo_Data :: payload

definition send :: "gotime \<Rightarrow> string \<Rightarrow> string \<Rightarrow> payload \<Rightarrow> wsEnvelopeOut" where
  "send now typ channel payload = \<lparr>eo_Type = typ, eo_Channel = channel, eo_TS = FormatRFC3339 now, eo_Data = payload\<rparr>"

definition sendError :: "gotime \<Rightarrow> string \<Rightarrow> string \<Rightarrow> wsEnvelopeOut" where
  "sendError now code message = send now ''error'' [] (Problem code message)"

section \<open>State\<close>

record wsSubData =
  sd_channels :: "string list"
  sd_windowMinutes :: int
  sd_product :: string
  sd_eventsBucket :: string
  sd_eventsEventType :: string
  sd_eventsFrom :: gotime
  sd_eventsTo :: gotime

text \<open>\<open>clients\<close> is the Go map from ids to rows.\<close>

record wsPending =
  wp_summary :: bool
  wp_events :: bool
  wp_clientsSnapshot :: bool
  wp_clients :: "(int \<times> client_row) list"

definition no_pending :: wsPending where
  "no_pending = \<lparr>wp_summary = False, wp_events = False, wp_clientsSnapshot = False, wp_clients = []\<rparr>"

record wsConn =
  cn_sub :: wsSubData
  cn_pending :: wsPending

definition newWSConn :: "gotime \<Rightarrow> wsConn" where
  "newWSConn now =
     \<lparr>cn_sub = \<lparr>sd_channels = [], sd_windowMinutes = defaultConnectedWindowMinutes, sd_product = ''emly'', sd_eventsBucket = ''day'',
        sd_eventsEventType = [], sd_eventsFrom = now - 30 * 24 * hour, sd_eventsTo = now\<rparr>,
      cn_pending = no_pending\<rparr>"

section \<open>Snapshots\<close>

definition sendSnapshot ::
  "collation \<Rightarrow> faults \<Rightarrow> gotime \<Rightarrow> updater_db \<Rightarrow> presence ptr \<Rightarrow> wsSubData \<Rightarrow> string \<Rightarrow> wsEnvelopeOut list" where
  "sendSnapshot ck f now db hub s channel =
     (if channel = channelSummary then
        (case fetchStatsSummary ck f now db (sd_windowMinutes s) (sd_product s) of
           None \<Rightarrow> [sendError now ''internal'' ''failed to fetch stats summary'']
         | Some summary \<Rightarrow> [send now ''snapshot'' channelSummary (Summary summary)])
      else if channel = channelClients then
        (case fetchAllStatsClients f db of
           None \<Rightarrow> [sendError now ''internal'' ''failed to fetch clients'']
         | Some clients \<Rightarrow> [send now ''snapshot'' channelClients (Clients (decorateOnline clients hub))])
      else if channel = channelEvents then
        (case fetchStatsEvents ck f db (sd_eventsBucket s) (sd_eventsEventType s) (sd_product s) (sd_eventsFrom s) (sd_eventsTo s) of
           None \<Rightarrow> [sendError now ''internal'' ''failed to fetch events'']
         | Some resp \<Rightarrow> [send now ''snapshot'' channelEvents (Events resp)])
      else [])"

section \<open>Client messages\<close>

text \<open>The parameters of a subscribe message, one after the other, with their complaints.\<close>

definition set_window :: "int ptr \<Rightarrow> wsSubData \<times> string list \<Rightarrow> wsSubData \<times> string list" where
  "set_window p st = (case (p, st) of
     (None, _) \<Rightarrow> st
   | (Some w, (s, errs)) \<Rightarrow> if 0 < w then (s\<lparr>sd_windowMinutes := w\<rparr>, errs) else (s, errs @ [''window_minutes must be > 0'']))"

definition set_product :: "string ptr \<Rightarrow> wsSubData \<times> string list \<Rightarrow> wsSubData \<times> string list" where
  "set_product p st = (case (p, st) of
     (None, _) \<Rightarrow> st
   | (Some v, (s, errs)) \<Rightarrow>
       (case productFilter v of
          (_, _, True) \<Rightarrow> (s\<lparr>sd_product := (if v = [] then ''emly'' else v)\<rparr>, errs)
        | (_, _, False) \<Rightarrow> (s, errs @ [''product must be one of: emly, updater, all''])))"

definition set_bucket :: "string ptr \<Rightarrow> wsSubData \<times> string list \<Rightarrow> wsSubData \<times> string list" where
  "set_bucket p st = (case (p, st) of
     (None, _) \<Rightarrow> st
   | (Some v, (s, errs)) \<Rightarrow> if v \<in> set validEventBuckets then (s\<lparr>sd_eventsBucket := v\<rparr>, errs)
                         else (s, errs @ [''events.bucket must be one of: day, hour'']))"

definition set_eventType :: "string ptr \<Rightarrow> wsSubData \<times> string list \<Rightarrow> wsSubData \<times> string list" where
  "set_eventType p st = (case (p, st) of (None, _) \<Rightarrow> st | (Some v, (s, errs)) \<Rightarrow> (s\<lparr>sd_eventsEventType := v\<rparr>, errs))"

definition set_from :: "string ptr \<Rightarrow> wsSubData \<times> string list \<Rightarrow> wsSubData \<times> string list" where
  "set_from p st = (case (p, st) of
     (None, _) \<Rightarrow> st
   | (Some v, (s, errs)) \<Rightarrow> (case ParseRFC3339 v of Some t \<Rightarrow> (s\<lparr>sd_eventsFrom := t\<rparr>, errs) | None \<Rightarrow> (s, errs @ [''events.from must be RFC3339''])))"

definition set_to :: "string ptr \<Rightarrow> wsSubData \<times> string list \<Rightarrow> wsSubData \<times> string list" where
  "set_to p st = (case (p, st) of
     (None, _) \<Rightarrow> st
   | (Some v, (s, errs)) \<Rightarrow> (case ParseRFC3339 v of Some t \<Rightarrow> (s\<lparr>sd_eventsTo := t\<rparr>, errs) | None \<Rightarrow> (s, errs @ [''events.to must be RFC3339''])))"

definition apply_params :: "wsSubscribeParams ptr \<Rightarrow> wsSubData \<Rightarrow> wsSubData \<times> string list" where
  "apply_params params s =
     (case params of
        None \<Rightarrow> (s, [])
      | Some p \<Rightarrow>
          let st = set_product (sp_Product p) (set_window (sp_WindowMinutes p) (s, []))
          in case sp_Events p of
               None \<Rightarrow> st
             | Some ev \<Rightarrow> set_to (ep_To ev) (set_from (ep_From ev) (set_eventType (ep_EventType ev) (set_bucket (ep_Bucket ev) st))))"

text \<open>\<open>f i\<close> are the statements of the \<open>i\<close>-th snapshot.\<close>

definition handleSubscribe ::
  "collation \<Rightarrow> (nat \<Rightarrow> faults) \<Rightarrow> gotime \<Rightarrow> updater_db \<Rightarrow> presence ptr \<Rightarrow> wsClientMessage \<Rightarrow> wsSubData \<Rightarrow>
     wsSubData \<times> wsEnvelopeOut list" where
  "handleSubscribe ck f now db hub msg s =
     (let validChannels = filter (\<lambda>c. c \<in> set validWSChannels) (elems (cm_Channels msg));
          invalidChannels = filter (\<lambda>c. c \<notin> set validWSChannels) (elems (cm_Channels msg));
          unknown = (if invalidChannels = [] then []
            else [sendError now ''invalid_params'' (''unknown channel(s): '' @ join '', '' invalidChannels)]);
          (s', paramErrs) = apply_params (cm_Params msg) (s\<lparr>sd_channels := fold List.insert validChannels (sd_channels s)\<rparr>)
      in (s', unknown @ map (sendError now ''invalid_params'') paramErrs
            @ [send now ''subscribed'' [] (ChannelList (sort (sd_channels s')))]
            @ concat (map (\<lambda>(i, c). sendSnapshot ck (f i) now db hub s' c) (zip [0..<length validChannels] validChannels))))"

definition handleUnsubscribe :: "wsClientMessage \<Rightarrow> wsSubData \<Rightarrow> wsSubData" where
  "handleUnsubscribe msg s = s\<lparr>sd_channels := filter (\<lambda>c. c \<notin> set (elems (cm_Channels msg))) (sd_channels s)\<rparr>"

definition handleClientMessage ::
  "collation \<Rightarrow> (nat \<Rightarrow> faults) \<Rightarrow> gotime \<Rightarrow> updater_db \<Rightarrow> presence ptr \<Rightarrow> json option \<Rightarrow> wsSubData \<Rightarrow>
     wsSubData \<times> wsEnvelopeOut list" where
  "handleClientMessage ck f now db hub raw s =
     (case Option.bind raw dec_wsClientMessage of
        None \<Rightarrow> (s, [sendError now ''invalid_params'' ''invalid JSON''])
      | Some msg \<Rightarrow>
          if cm_Type msg = ''subscribe'' then handleSubscribe ck f now db hub msg s
          else if cm_Type msg = ''unsubscribe'' then (handleUnsubscribe msg s, [])
          else if cm_Type msg = ''ping'' then (s, [send now ''pong'' [] NoData])
          else if cm_Type msg = ''pong'' then (s, [])
          else (s, [sendError now ''invalid_params'' (''unknown message type: '' @ cm_Type msg)]))"

section \<open>Hub events\<close>

definition wsEventMatchesSubscription :: "event_row \<Rightarrow> wsSubData \<Rightarrow> bool" where
  "wsEventMatchesSubscription ev s \<longleftrightarrow>
     \<not> (sd_eventsEventType s \<noteq> [] \<and> ev_event_type ev \<noteq> sd_eventsEventType s) \<and>
     \<not> (sd_product s \<noteq> ''all'' \<and> ev_product ev \<noteq> sd_product s) \<and>
     \<not> (ev_created_at ev < sd_eventsFrom s \<or> sd_eventsTo s < ev_created_at ev)"

definition put_client :: "client_row \<Rightarrow> (int \<times> client_row) list \<Rightarrow> (int \<times> client_row) list" where
  "put_client c cs = (cl_id c, c) # filter (\<lambda>(i, _). i \<noteq> cl_id c) cs"

definition noteHubEvent :: "hub_event \<Rightarrow> wsSubData \<Rightarrow> wsPending \<Rightarrow> wsPending" where
  "noteHubEvent ev s p =
     (case ev of
        HubUpdaterEvent client entry \<Rightarrow>
          let p = (if channelSummary \<in> set (sd_channels s) then p\<lparr>wp_summary := True\<rparr> else p);
              p = (if channelClients \<in> set (sd_channels s) then p\<lparr>wp_clients := put_client client (wp_clients p)\<rparr> else p)
          in if channelEvents \<in> set (sd_channels s) \<and> wsEventMatchesSubscription entry s then p\<lparr>wp_events := True\<rparr> else p
      | HubTick \<Rightarrow>
          let p = (if channelSummary \<in> set (sd_channels s) then p\<lparr>wp_summary := True\<rparr> else p)
          in if channelClients \<in> set (sd_channels s) then p\<lparr>wp_clientsSnapshot := True\<rparr> else p)"

definition takePending :: "wsPending \<Rightarrow> wsPending \<times> wsPending option" where
  "takePending p =
     (if \<not> wp_summary p \<and> \<not> wp_events p \<and> \<not> wp_clientsSnapshot p \<and> wp_clients p = [] then (p, None) else (no_pending, Some p))"

text \<open>Statements: \<open>f 0\<close> of the summary, \<open>f 1\<close> of the clients, \<open>f 2\<close> of the events.\<close>

definition flush ::
  "collation \<Rightarrow> (nat \<Rightarrow> faults) \<Rightarrow> gotime \<Rightarrow> updater_db \<Rightarrow> presence ptr \<Rightarrow> wsConn \<Rightarrow> wsConn \<times> wsEnvelopeOut list" where
  "flush ck f now db hub cn =
     (case takePending (cn_pending cn) of
        (_, None) \<Rightarrow> (cn, [])
      | (rest, Some p) \<Rightarrow>
          let s = cn_sub cn;
              summary = (if wp_summary p then
                (case fetchStatsSummary ck (f 0) now db (sd_windowMinutes s) (sd_product s) of
                   None \<Rightarrow> [] | Some x \<Rightarrow> [send now ''update'' channelSummary (Summary x)]) else []);
              clients = (if wp_clientsSnapshot p then sendSnapshot ck (f 1) now db hub s channelClients
                else if wp_clients p \<noteq> [] then
                  [send now ''update'' channelClients (Upserted (decorateOnline (sort_key cl_id (map snd (wp_clients p))) hub))]
                else []);
              events = (if wp_events p then
                (case fetchStatsEvents ck (f 2) db (sd_eventsBucket s) (sd_eventsEventType s) (sd_product s) (sd_eventsFrom s) (sd_eventsTo s) of
                   None \<Rightarrow> [] | Some x \<Rightarrow> [send now ''update'' channelEvents (Events x)]) else [])
          in (cn\<lparr>cn_pending := rest\<rparr>, summary @ clients @ events))"

section \<open>The connection\<close>

text \<open>What the loops of a connection wake up for, with the tables and the hub as they are then. A read that waits for
  \<open>wsIdleTimeout\<close> ends the connection, so \<open>ws_run\<close> carries the time of the last message.\<close>

datatype ws_event =
    Message "nat \<Rightarrow> faults" gotime updater_db "presence ptr" "json option"
  | FromHub gotime hub_event
  | Coalesce "nat \<Rightarrow> faults" gotime updater_db "presence ptr"
  | PingDue gotime

fun ws_time :: "ws_event \<Rightarrow> gotime" where
  "ws_time (Message _ now _ _ _) = now"
| "ws_time (FromHub now _) = now"
| "ws_time (Coalesce _ now _ _) = now"
| "ws_time (PingDue now) = now"

fun ws_step :: "collation \<Rightarrow> ws_event \<Rightarrow> wsConn \<Rightarrow> wsConn \<times> wsEnvelopeOut list" where
  "ws_step ck (Message f now db hub raw) cn =
     (case handleClientMessage ck f now db hub raw (cn_sub cn) of (s, out) \<Rightarrow> (cn\<lparr>cn_sub := s\<rparr>, out))"
| "ws_step ck (FromHub _ ev) cn = (cn\<lparr>cn_pending := noteHubEvent ev (cn_sub cn) (cn_pending cn)\<rparr>, [])"
| "ws_step ck (Coalesce f now db hub) cn = flush ck f now db hub cn"
| "ws_step ck (PingDue now) cn = (cn, [send now ''ping'' [] NoData])"

fun last_read :: "gotime \<Rightarrow> ws_event \<Rightarrow> gotime" where
  "last_read _ (Message _ now _ _ _) = now"
| "last_read t _ = t"

fun ws_run :: "collation \<Rightarrow> gotime \<Rightarrow> ws_event list \<Rightarrow> wsConn \<Rightarrow> wsConn \<times> wsEnvelopeOut list" where
  "ws_run ck t [] cn = (cn, [])"
| "ws_run ck t (e # es) cn =
     (if t + wsIdleTimeout \<le> ws_time e then (cn, [])
      else case ws_step ck e cn of (cn', out) \<Rightarrow>
             case ws_run ck (last_read t e) es cn' of (cn'', out') \<Rightarrow> (cn'', out @ out'))"

text \<open>The handler: 401 without the admin key, in the header or in the query, else the connection until it is closed.
  None is a failed upgrade.\<close>

definition StatsStream ::
  "Config \<Rightarrow> collation \<Rightarrow> request \<Rightarrow> (string \<Rightarrow> string) \<Rightarrow> bool \<Rightarrow> gotime \<Rightarrow> ws_event list \<Rightarrow> wsEnvelopeOut list option response" where
  "StatsStream cfg ck r query accepts now es =
     (let adminKey = (if r_Header r ''X-Admin-Key'' = [] then query ''admin_key'' else r_Header r ''X-Admin-Key'')
      in if cf_AdminKey cfg = [] \<or> adminKey \<noteq> cf_AdminKey cfg then Error 401 ''unauthorized admin key''
         else if \<not> accepts then OK None
         else OK (Some (snd (ws_run ck now es (newWSConn now)))))"

end
