(* ===== verification/Stats_Properties.thy ===== *)
theory Stats_Properties
  imports Stats "HOL-Library.Multiset"
begin

text \<open>
  What the figures of the dashboard say about the tables: the charts against the raw events, the summary against the
  clients, the pages of the client listing, the cache keys, and the deletion of a client.
\<close>

section \<open>Charts and raw events\<close>

text \<open>The count of a chart for one bucket and one event type.\<close>

definition chart_count :: "StatsEventBucket list \<Rightarrow> gotime \<Rightarrow> string \<Rightarrow> int" where
  "chart_count rows b et = sum_list (map eb_Count (filter (\<lambda>r. eb_Bucket r = b \<and> eb_EventType r = et) rows))"

text \<open>
  The reference: the raw events that fall into the bucket, of that type and product, from the start of the hour of
  \<open>lo\<close> on and in an hour that starts no later than \<open>hi\<close>.
\<close>

definition chart_event :: "string \<Rightarrow> string option \<Rightarrow> gotime \<Rightarrow> gotime \<Rightarrow> gotime \<Rightarrow> string \<Rightarrow> event_row \<Rightarrow> bool" where
  "chart_event bucket clause lo hi b et e \<longleftrightarrow>
     bucket_expr bucket (ev_created_at e) = b \<and> ev_event_type e = et \<and> (\<forall>p. clause = Some p \<longrightarrow> ev_product e = p) \<and>
     Truncate_time lo hour \<le> ev_created_at e \<and> hour_bucket (ev_created_at e) \<le> hi"

lemma hour_bucket_bucket: "bucket_expr bucket (hour_bucket t) = bucket_expr bucket t"
proof -
  have a: "t mod (hour * 24) = hour * (t div hour mod 24) + t mod hour" by (rule zmod_zmult2_eq) simp
  have b: "(hour * (t div hour)) mod (hour * 24) = hour * (t div hour mod 24)" by (rule mod_mult_mult1)
  have c: "hour_bucket t = hour * (t div hour)" by (simp add: hour_bucket_def minus_mod_eq_mult_div)
  have "hour_bucket t mod (hour * 24) = t mod (hour * 24) - t mod hour" unfolding c b a by simp
  moreover have "hour_bucket (hour_bucket t) = hour_bucket t" unfolding c by (simp add: hour_bucket_def)
  ultimately show ?thesis by (simp add: bucket_expr_def) (simp add: hour_bucket_def)
qed

lemma floor_bucket: "Truncate_time lo hour \<le> hour_bucket t \<longleftrightarrow> Truncate_time lo hour \<le> t"
proof -
  have c: "hour_bucket t = hour * (t div hour)" "Truncate_time lo hour = hour * (lo div hour)"
    by (simp_all add: hour_bucket_def Truncate_time_def minus_mod_eq_mult_div)
  have "lo div hour \<le> t div hour" if "hour * (lo div hour) \<le> t"
    using zdiv_mono1 [OF that, of hour] by simp
  moreover have "hour * (t div hour) \<le> t" using div_mult_mod_eq [of t hour] pos_mod_sign [of hour t] by linarith
  ultimately show ?thesis unfolding c by (auto intro: order_trans)
qed

lemma hour_bucket_le: "hour_bucket s \<le> hour_bucket t \<longleftrightarrow> hour_bucket s \<le> t"
  using floor_bucket [of s t] by (simp add: hour_bucket_def Truncate_time_def)

lemmas floor_bucket_num = floor_bucket [simplified]

text \<open>The rows of a group have one key, so a condition on the key selects whole groups.\<close>

lemma sum_group_rows_key:
  "sum_list (map (\<lambda>g. sum_list (map w g)) (filter (\<lambda>g. key (hd g) = K) (group_rows key rs)))
   = (sum_list (map w (filter (\<lambda>r. key r = K) rs)) :: int)"
proof (induction key rs rule: group_rows.induct)
  case (2 key r rs)
  show ?case
  proof (cases "key r = K")
    case True
    have "filter (\<lambda>g. key (hd g) = K) (group_rows key (filter (\<lambda>x. key x \<noteq> key r) rs)) = []"
      using group_rows_filter [of _ key "filter (\<lambda>x. key x \<noteq> key r) rs"] True by (fastforce simp: filter_empty_conv)
    with True show ?thesis by (simp cong: filter_cong)
  next
    case False
    then have "filter (\<lambda>x. key x = K) (filter (\<lambda>x. key x \<noteq> key r) rs) = filter (\<lambda>x. key x = K) rs" by (auto intro: filter_cong)
    with 2 False show ?thesis by simp
  qed
qed simp

lemma sum_sort_key: "sum_list (map w (filter P (sort_key f xs))) = (sum_list (map w (filter P xs)) :: int)"
proof -
  have "mset (filter P (sort_key f xs)) = mset (filter P xs)" by simp
  then have "sum_mset (image_mset w (mset (filter P (sort_key f xs)))) = sum_mset (image_mset w (mset (filter P xs)))" by simp
  then show ?thesis by (simp only: mset_map [symmetric] sum_mset_sum_list)
qed

text \<open>Counting rows key by key.\<close>

lemma count_by_key:
  assumes "distinct ks" "\<forall>e \<in> set es. f e \<in> set ks"
  shows "int (length (filter (\<lambda>e. Q (f e)) es)) = sum_list (map (\<lambda>k. int (length (filter (\<lambda>e. f e = k) es))) (filter Q ks))"
  using assms(2)
proof (induction es)
  case (Cons e es)
  have one: "sum_list (map (\<lambda>k. if f e = k then 1 else (0 :: int)) (filter Q ks)) = (if Q (f e) then 1 else 0)"
  proof -
    have "sum_list (map (\<lambda>k. if x = k then 1 else (0 :: int)) xs) = (if x \<in> set xs then 1 else 0)" if "distinct xs" for x xs
      using that by (induction xs) auto
    from this [of "filter Q ks" "f e"] Cons.prems assms(1) show ?thesis by simp
  qed
  have "sum_list (map (\<lambda>k. int (length (filter (\<lambda>x. f x = k) (e # es)))) (filter Q ks))
      = sum_list (map (\<lambda>k. (if f e = k then 1 else 0) + int (length (filter (\<lambda>x. f x = k) es))) (filter Q ks))"
    by (intro arg_cong [where f = sum_list] map_cong) auto
  also have "\<dots> = (if Q (f e) then 1 else 0) + int (length (filter (\<lambda>x. Q (f x)) es))"
    using Cons one by (simp add: sum_list_addf)
  finally show ?case by simp
qed simp

text \<open>The rollup as it is while no event has been deleted: one row a key, each with the number of its raw events.\<close>

definition rollup_exact :: "updater_db \<Rightarrow> bool" where
  "rollup_exact db \<longleftrightarrow> distinct (map fst (u_hourly db)) \<and> (\<forall>k. hourly_count db k = raw_count db k)"

lemma bump_keys: "set (map fst (bump k m)) = insert k (set (map fst m))"
  by (induction k m rule: bump.induct) auto

lemma bump_distinct: "distinct (map fst m) \<Longrightarrow> distinct (map fst (bump k m))"
proof (induction k m rule: bump.induct)
  case (2 k a n m)
  then show ?case using bump_keys [of k m] by auto
qed simp

lemma insertEvent_exact:
  assumes "rollup_exact db" "insertEvent f now db c et p v ip = (db', r)"
  shows "rollup_exact db'"
proof (cases r)
  case None
  with insertEvent_atomic [of f now db c et p v ip db'] assms show ?thesis
    by (simp add: rollup_exact_def raw_count_def hourly_count_def)
next
  case (Some i)
  with assms(2) have "u_hourly db' = bump (hour_bucket now, p, et) (u_hourly db)"
    by (auto simp: insertEvent_def Let_def rollup_key_of_def split: if_splits)
  with insertEvent_counts [OF assms(2) [unfolded Some]] assms(1) show ?thesis
    by (simp add: rollup_exact_def bump_distinct)
qed

lemma exact_keys:
  assumes "rollup_exact db" "e \<in> set (u_events db)"
  shows "rollup_key_of e \<in> set (map fst (u_hourly db))"
proof -
  from assms(2) have "filter (\<lambda>x. rollup_key_of x = rollup_key_of e) (u_events db) \<noteq> []" by (auto simp: filter_empty_conv)
  then have "raw_count db (rollup_key_of e) \<noteq> 0" by (simp add: raw_count_def)
  then have "hourly_count db (rollup_key_of e) \<noteq> 0" using assms(1) by (simp only: rollup_exact_def) simp
  then have "map_of (u_hourly db) (rollup_key_of e) \<noteq> None" unfolding hourly_count_def by (metis option.simps(4))
  then show ?thesis by (simp only: map_of_eq_None_iff not_not set_map)
qed

text \<open>Summing rollup rows is counting raw events.\<close>

lemma rollup_sum_raw:
  assumes "rollup_exact db"
  shows "sum_list (map snd (filter (\<lambda>(k, n). Q k) (u_hourly db))) = int (length (filter (\<lambda>e. Q (rollup_key_of e)) (u_events db)))"
proof -
  have d: "distinct (map fst (u_hourly db))" using assms by (simp add: rollup_exact_def)
  have "sum_list (map snd (filter (\<lambda>(k, n). Q k) (u_hourly db))) = sum_list (map (\<lambda>(k, n). raw_count db k) (filter (\<lambda>(k, n). Q k) (u_hourly db)))"
  proof (intro arg_cong [where f = sum_list] map_cong refl)
    fix x assume "x \<in> set (filter (\<lambda>(k, n). Q k) (u_hourly db))"
    then have "map_of (u_hourly db) (fst x) = Some (snd x)" using d by (intro map_of_is_SomeI) auto
    then have "snd x = hourly_count db (fst x)" by (simp add: hourly_count_def)
    also have "\<dots> = raw_count db (fst x)" using assms by (simp only: rollup_exact_def)
    finally show "snd x = (case x of (k, n) \<Rightarrow> raw_count db k)" by (simp add: case_prod_unfold)
  qed
  also have "\<dots> = sum_list (map (raw_count db) (filter Q (map fst (u_hourly db))))"
    by (simp add: filter_map comp_def case_prod_unfold)
  also have "\<dots> = int (length (filter (\<lambda>e. Q (rollup_key_of e)) (u_events db)))"
    unfolding raw_count_def using exact_keys [OF assms] by (intro count_by_key [OF d, symmetric]) blast
  finally show ?thesis .
qed

lemma chart_count_rollup:
  assumes "\<forall>x \<in> set (u_hourly db). ck (snd (snd (fst x))) = ck et \<longrightarrow> snd (snd (fst x)) = et" and "eventType = [] \<or> ck eventType = ck et"
  shows "chart_count (event_buckets ck (u_hourly db) bucket eventType clause lo hi) b et =
    sum_list (map snd (filter (\<lambda>(k, n). bucket_expr bucket (fst k) = b \<and> snd (snd k) = et \<and> lo \<le> fst k \<and> fst k \<le> hi \<and> in_product clause k) (u_hourly db)))"
proof -
  define h where "h = filter (\<lambda>(k, n). lo \<le> fst k \<and> fst k \<le> hi \<and> in_product clause k \<and> (eventType \<noteq> [] \<longrightarrow> ck (snd (snd k)) = ck eventType)) (u_hourly db)"
  define key where "key = (\<lambda>(k :: rollup_key, n :: int). (bucket_expr bucket (fst k), ck (snd (snd k))))"
  have hd: "hd g \<in> set (u_hourly db)" if "g \<in> set (group_rows key h)" for g
    using group_rows_filter [OF that] by (auto simp: h_def)
  have "chart_count (event_buckets ck (u_hourly db) bucket eventType clause lo hi) b et =
      sum_list (map (\<lambda>g. sum_list (map snd g)) (filter (\<lambda>g. bucket_expr bucket (fst (fst (hd g))) = b \<and> snd (snd (fst (hd g))) = et) (group_rows key h)))"
    unfolding chart_count_def event_buckets_def sum_sort_key by (simp add: filter_map comp_def h_def key_def)
  also have "\<dots> = sum_list (map (\<lambda>g. sum_list (map snd g)) (filter (\<lambda>g. key (hd g) = (b, ck et)) (group_rows key h)))"
    using hd assms(1) by (intro arg_cong [where f = sum_list] arg_cong [where f = "map _"] filter_cong refl) (fastforce simp: key_def case_prod_unfold)
  also have "\<dots> = sum_list (map snd (filter (\<lambda>r. key r = (b, ck et)) h))" by (rule sum_group_rows_key)
  also have "filter (\<lambda>r. key r = (b, ck et)) h =
      filter (\<lambda>(k, n). bucket_expr bucket (fst k) = b \<and> snd (snd k) = et \<and> lo \<le> fst k \<and> fst k \<le> hi \<and> in_product clause k) (u_hourly db)"
    unfolding h_def filter_filter using assms by (intro filter_cong refl) (fastforce simp: key_def)
  finally show ?thesis .
qed

section \<open>Cache keys\<close>

lemma pad2_length: "length (pad2 n) = 2"
  by (simp add: pad2_def)

lemma FormatRFC3339_length: "length (FormatRFC3339 t) = 20"
  by (simp add: FormatRFC3339_def Let_def pad2_length split: prod.split)

lemma FormatRFC3339_inj:
  "clock_time t \<Longrightarrow> clock_time u \<Longrightarrow> FormatRFC3339 t = FormatRFC3339 u \<Longrightarrow> t - t mod second = u - u mod second"
  using Parse_Format by (metis option.inject)

lemma events_key_parts:
  assumes "events_key ttl b p et x y = events_key ttl b' p' et' x' y'"
    and "CHR ''|'' \<notin> set b" "CHR ''|'' \<notin> set b'" "CHR ''|'' \<notin> set p" "CHR ''|'' \<notin> set p'"
  shows "b = b' \<and> p = p' \<and> et = et' \<and> FormatRFC3339 (quantize x ttl) = FormatRFC3339 (quantize x' ttl) \<and>
    FormatRFC3339 (quantize y ttl) = FormatRFC3339 (quantize y' ttl)"
proof -
  from assms(1) have "b @ CHR ''|'' # (p @ CHR ''|'' # et @ CHR ''|'' # FormatRFC3339 (quantize x ttl) @ CHR ''|'' # FormatRFC3339 (quantize y ttl))
      = b' @ CHR ''|'' # (p' @ CHR ''|'' # et' @ CHR ''|'' # FormatRFC3339 (quantize x' ttl) @ CHR ''|'' # FormatRFC3339 (quantize y' ttl))"
    by (simp add: events_key_def)
  note one = split_at_first [OF assms(2,3) this]
  note two = split_at_first [OF assms(4,5) one [THEN conjunct2]]
  from two have "et @ (CHR ''|'' # FormatRFC3339 (quantize x ttl) @ CHR ''|'' # FormatRFC3339 (quantize y ttl)) =
      et' @ (CHR ''|'' # FormatRFC3339 (quantize x' ttl) @ CHR ''|'' # FormatRFC3339 (quantize y' ttl))" by simp
  then have "et = et' \<and> CHR ''|'' # FormatRFC3339 (quantize x ttl) @ CHR ''|'' # FormatRFC3339 (quantize y ttl) =
      CHR ''|'' # FormatRFC3339 (quantize x' ttl) @ CHR ''|'' # FormatRFC3339 (quantize y' ttl)"
    by (subst (asm) append_eq_append_conv) (simp_all add: FormatRFC3339_length)
  with one two show ?thesis by (simp add: FormatRFC3339_length)
qed

lemma quantize_close:
  assumes "0 < ttl" "second dvd ttl" "quantize x ttl - quantize x ttl mod second = quantize y ttl - quantize y ttl mod second"
  shows "\<bar>x - y\<bar> < ttl"
proof -
  have q: "quantize z ttl = ttl * (z div ttl)" for z
    using assms(1) by (simp add: quantize_def Truncate_time_def minus_mod_eq_mult_div)
  then have "quantize z ttl mod second = 0" for z using assms(2) by (simp add: dvd_eq_mod_eq_0 [symmetric] dvd_mult2)
  with assms(3) have "ttl * (x div ttl) = ttl * (y div ttl)" by (simp add: q)
  moreover have "x = ttl * (x div ttl) + x mod ttl" "y = ttl * (y div ttl) + y mod ttl" by simp_all
  moreover have "0 \<le> x mod ttl \<and> x mod ttl < ttl" "0 \<le> y mod ttl \<and> y mod ttl < ttl" using assms(1) by simp_all
  ultimately show ?thesis by linarith
qed

section \<open>The client listing\<close>

definition client_query :: "bool \<Rightarrow> string \<Rightarrow> int \<Rightarrow> int \<Rightarrow> string \<Rightarrow> string" where
  "client_query onlyOnline wm p ps k =
     (if k = ''page'' then Itoa p else if k = ''page_size'' then Itoa ps
      else if k = ''online'' then (if onlyOnline then ''true'' else []) else if k = ''window_minutes'' then wm else [])"

definition client_page_rows :: "client_page response \<Rightarrow> (client_row \<times> bool) list" where
  "client_page_rows resp = (case resp of OK pg \<Rightarrow> elems (cp_data pg) | _ \<Rightarrow> [])"

interpretation client_pages: paged
    "\<lambda>p ps. client_page_rows (ListStatsClients no_faults now db hub (client_query onlyOnline wm p ps))"
    "decorateOnline (client_listing now onlyOnline (window_param wm) db) hub"
  for now db hub onlyOnline wm
proof
  fix p ps :: int
  assume a: "0 < p" "int64_range p" "0 < ps" "ps \<le> 100" "(p - 1) * ps < 2 ^ 63"
  note q = page_params [OF a(1-4)]
  have nn: "0 \<le> (p - 1) * ps" using a by simp
  then have w: "wrap64 ((p - 1) * ps) = (p - 1) * ps" "\<not> (p - 1) * ps < 0" using a(5) by (simp_all only: wrap64_id not_less)
  show "client_page_rows (ListStatsClients no_faults now db hub (client_query onlyOnline wm p ps)) =
      take (nat ps) (drop (nat ((p - 1) * ps)) (decorateOnline (client_listing now onlyOnline (window_param wm) db) hub))"
    using q w by (auto simp: ListStatsClients_def client_query_def fetchStatsClientsPage_def client_page_rows_def decorateOnline_def
        Let_def take_map drop_map no_faults_def)
qed

section \<open>Counting clients\<close>

lemma clients_by_sum: "sum_list (map snd (clients_by key val cs)) = int (length cs)"
  using sum_group_rows [of "\<lambda>_. 1" key cs] by (simp add: clients_by_def comp_def sum_list_triv)

lemma clients_by_pos: "list_all (\<lambda>x. 0 < snd x) (clients_by key val cs)"
  using group_rows_ne by (fastforce simp: clients_by_def list_all_iff)

section \<open>Properties\<close>

text \<open>C33: while no event has been deleted, the chart served from the hourly rollup is the one the raw events give: for every
  bucket and event type its count is the number of events of that type and product in the bucket, from the start of
  the hour of \<open>from\<close> on and in hours that start no later than \<open>to\<close>; the buckets come in order.\<close>

theorem charts_count_the_raw_events:
  assumes "rollup_exact db"
    and "\<forall>x \<in> set (u_hourly db). ck (snd (snd (fst x))) = ck et \<longrightarrow> snd (snd (fst x)) = et"
    and "eventType = [] \<or> ck eventType = ck et"
    and "fetchStatsEvents ck no_faults db bucket eventType product fromT toT = Some resp"
  shows "chart_count (elems (er_Data resp)) b et =
      int (length (filter (chart_event bucket (fst (snd (productFilter product))) fromT toT b et) (u_events db))) \<and>
    sorted (map eb_Bucket (elems (er_Data resp))) \<and> er_From resp = fromT \<and> er_To resp = toT"
proof -
  let ?clause = "fst (snd (productFilter product))"
  let ?rows = "event_buckets ck (u_hourly db) bucket eventType ?clause (Truncate_time fromT hour) toT"
  have resp: "elems (er_Data resp) = ?rows" "er_From resp = fromT" "er_To resp = toT"
    using assms(4) by (auto simp: fetchStatsEvents_def Let_def split: if_splits)
  have "chart_count ?rows b et = int (length (filter (\<lambda>e. bucket_expr bucket (fst (rollup_key_of e)) = b \<and> snd (snd (rollup_key_of e)) = et \<and>
      Truncate_time fromT hour \<le> fst (rollup_key_of e) \<and> fst (rollup_key_of e) \<le> toT \<and> in_product ?clause (rollup_key_of e)) (u_events db)))"
    unfolding chart_count_rollup [OF assms(2,3)] by (rule rollup_sum_raw [OF assms(1)])
  also have "\<dots> = int (length (filter (chart_event bucket ?clause fromT toT b et) (u_events db)))"
    by (intro arg_cong [where f = "\<lambda>xs. int (length xs)"] filter_cong refl)
      (auto simp: chart_event_def rollup_key_of_def hour_bucket_bucket floor_bucket_num in_product_def split: option.splits)
  finally show ?thesis using resp by (simp add: event_buckets_def)
qed


text \<open>Two requests share a cached chart only if they ask for the same bucket size, product and event type, whatever
  characters the event type has, and, with a cache time in whole seconds, for windows whose ends differ by less than
  that time.\<close>

theorem cached_charts_answer_the_same_question:
  assumes "events_key ttl b p et x y = events_key ttl b' p' et' x' y'"
    and "b \<in> set validEventBuckets" "b' \<in> set validEventBuckets" "p \<in> set validEventProducts" "p' \<in> set validEventProducts"
    and "list_all (\<lambda>t. clock_time (quantize t ttl)) [x, y, x', y']" and "0 < ttl" "second dvd ttl"
  shows "b = b' \<and> p = p' \<and> et = et' \<and> \<bar>x - x'\<bar> < ttl \<and> \<bar>y - y'\<bar> < ttl"
proof -
  have "CHR ''|'' \<notin> set b" "CHR ''|'' \<notin> set b'" "CHR ''|'' \<notin> set p" "CHR ''|'' \<notin> set p'"
    using assms(2-5) by (auto simp: validEventBuckets_def validEventProducts_def)
  note k = events_key_parts [OF assms(1) this]
  have "\<bar>x - x'\<bar> < ttl" "\<bar>y - y'\<bar> < ttl"
    by (rule quantize_close [OF assms(7,8)]; rule FormatRFC3339_inj; use assms(6) k in simp)+
  with k show ?thesis by simp
qed

text \<open>Deleting a client removes that client and its events, which it counts, and nothing else; the fleet-wide rollup
  keeps what the client did, and the tables stay consistent. Any other answer leaves the tables as they were.\<close>

theorem delete_forgets_one_client:
  assumes "DeleteStatsClient f db param = (db', resp)"
  shows "(case resp of
      OK (i, n) \<Rightarrow> Atoi param = Some i \<and> u_clients db' = filter (\<lambda>c. cl_id c \<noteq> i) (u_clients db) \<and>
        i \<in> cl_id ` set (u_clients db) \<and> u_events db' = filter (\<lambda>e. ev_client_id e \<noteq> i) (u_events db) \<and>
        u_hourly db' = u_hourly db \<and> (n = -1 \<or> n = int (length (u_events db)) - int (length (u_events db')))
    | _ \<Rightarrow> db' = db) \<and>
    (rollup_ok db \<longrightarrow> rollup_ok db') \<and> (updater_db_ok ck db \<longrightarrow> updater_db_ok ck db')"
proof -
  have len: "int (length (filter P xs)) = int (length xs) - int (length (filter (\<lambda>x. \<not> P x) xs))" for P and xs :: "event_row list"
    using sum_length_filter_compl [of P xs] by linarith
  show ?thesis
  proof (cases "\<exists>i client. Atoi param = Some i \<and> \<not> f 0 \<and> find_client i db = Some client \<and> \<not> f 2")
    case False
    then have "db' = db \<and> (\<forall>x. resp \<noteq> OK x)"
      using assms by (auto simp: DeleteStatsClient_def Let_def split: option.splits if_splits)
    then show ?thesis by (cases resp) auto
  next
    case True
    then obtain i client where i: "Atoi param = Some i" "\<not> f 0" "find_client i db = Some client" "\<not> f 2" by blast
    have d: "db' = delete_clients (\<lambda>c. cl_id c = i) db"
      and r: "resp = OK (cl_id client, if f 1 then - 1 else int (length (filter (\<lambda>e. ev_client_id e = i) (u_events db))))"
      using assms i by (simp_all add: DeleteStatsClient_def Let_def)
    from i(3) have c: "cl_id client = i" "client \<in> set (u_clients db)" by (auto simp: find_client_def dest: find_SomeD)
    have gone: "ev_client_id e \<in> set (map cl_id (filter (\<lambda>c. cl_id c = i) (u_clients db))) \<longleftrightarrow> ev_client_id e = i" for e
      using c by auto
    have ev: "u_events db' = filter (\<lambda>e. ev_client_id e \<noteq> i) (u_events db)" unfolding d delete_clients_def Let_def gone by simp
    have cl: "u_clients db' = filter (\<lambda>c. cl_id c \<noteq> i) (u_clients db)" "u_hourly db' = u_hourly db"
      by (simp_all add: d delete_clients_def Let_def)
    have ok: "rollup_ok db \<longrightarrow> rollup_ok db'" "updater_db_ok ck db \<longrightarrow> updater_db_ok ck db'"
      using d delete_clients_rollup delete_clients_ok by auto
    have "i \<in> cl_id ` set (u_clients db)" using c by auto
    with ok cl ev i(1) c(1) len [of "\<lambda>e. ev_client_id e = i" "u_events db"] show ?thesis by (simp add: r)
  qed
qed

section \<open>Samples\<close>

text \<open>A fleet of one client with one recorded event.\<close>

definition one_event :: updater_db where
  "one_event = fst (insertEvent no_faults (5 * hour + 7) sample_db 1 ''download'' ''emly'' None None)"

lemma one_event_tables:
  "u_events one_event = [\<lparr>ev_id = 1, ev_client_id = 1, ev_event_type = ''download'', ev_product = ''emly'', ev_version = None,
     ev_ip_address = None, ev_created_at = 5 * hour + 7\<rparr>]"
  "u_hourly one_event = [((5 * hour, ''emly'', ''download''), 1)]" "length (u_clients one_event) = 1" "cl_id (hd (u_clients one_event)) = 1"
  by code_simp+

lemma one_event_exact: "rollup_exact one_event"
  unfolding rollup_exact_def raw_count_def hourly_count_def one_event_tables by (simp add: rollup_key_of_def hour_bucket_def)

theorem charts_count_the_raw_events_witness:
  "\<exists>resp. fetchStatsEvents ToLower no_faults one_event ''day'' [] ''emly'' (4 * hour) (6 * hour) = Some resp \<and>
     chart_count (elems (er_Data resp)) 0 ''download'' = 1"
proof -
  obtain resp where r: "fetchStatsEvents ToLower no_faults one_event ''day'' [] ''emly'' (4 * hour) (6 * hour) = Some resp"
    by (simp add: fetchStatsEvents_def Let_def)
  have t: "\<forall>x \<in> set (u_hourly one_event). ToLower (snd (snd (fst x))) = ToLower ''download'' \<longrightarrow> snd (snd (fst x)) = ''download''"
    by (simp add: one_event_tables)
  have "filter (chart_event ''day'' (fst (snd (productFilter ''emly''))) (4 * hour) (6 * hour) 0 ''download'') (u_events one_event) = u_events one_event"
    by (simp add: one_event_tables chart_event_def productFilter_def validEventProducts_def Let_def bucket_expr_def Truncate_time_def hour_bucket_def)
  with charts_count_the_raw_events [OF one_event_exact t disjI1 [OF refl] r, of 0] r show ?thesis by (simp add: one_event_tables)
qed


theorem cached_charts_answer_the_same_question_witness:
  "\<bar>61 * second - 62 * second\<bar> < 30 * second"
proof -
  have q: "quantize (61 * second) (30 * second) = 60 * second" "quantize (62 * second) (30 * second) = 60 * second"
    "quantize (95 * second) (30 * second) = 90 * second"
    by (simp_all add: quantize_def Truncate_time_def)
  have "events_key (30 * second) ''day'' ''all'' ''a|b'' (61 * second) (95 * second) = events_key (30 * second) ''day'' ''all'' ''a|b'' (62 * second) (95 * second)"
    by (simp add: events_key_def q [simplified])
  from cached_charts_answer_the_same_question [OF this] show ?thesis
    by (simp add: validEventBuckets_def validEventProducts_def clock_time_def q [simplified])
qed

theorem delete_forgets_one_client_witness:
  "\<exists>db'. DeleteStatsClient no_faults one_event ''1'' = (db', OK (1, 1)) \<and> u_events db' = [] \<and> u_hourly db' = u_hourly one_event"
proof -
  have a: "Atoi ''1'' = Some 1" by code_simp
  obtain c where c: "u_clients one_event = [c]" "cl_id c = 1"
    using one_event_tables(3,4) by (cases "u_clients one_event") auto
  obtain db' where d: "DeleteStatsClient no_faults one_event ''1'' = (db', OK (1, 1))"
    using a c by (simp add: DeleteStatsClient_def find_client_def one_event_tables Let_def)
  from delete_forgets_one_client [OF d, of ToLower] a have "u_events db' = []" "u_hourly db' = u_hourly one_event"
    by (auto simp: one_event_tables)
  with d show ?thesis by blast
qed

section \<open>What goes wrong\<close>

text \<open>A chart from the cache reports the window of the request it was built for, not of the request it answers.\<close>

lemma cached_chart_reports_another_window:
  "(case GetStatsEvents ToLower no_faults (100 * second) (100 * second) one_event (tc_New no_events (30 * second))
       (\<lambda>k. if k = ''from'' then ''0001-01-01T00:01:01Z'' else if k = ''to'' then ''0001-01-01T00:01:35Z'' else []) of (cache, _) \<Rightarrow>
     (case snd (GetStatsEvents ToLower no_faults (101 * second) (101 * second) one_event cache
       (\<lambda>k. if k = ''from'' then ''0001-01-01T00:01:02Z'' else if k = ''to'' then ''0001-01-01T00:01:35Z'' else [])) of
        OK resp \<Rightarrow> er_From (ca_body resp) = 61 * second | _ \<Rightarrow> False))"
  by code_simp

text \<open>A window of more minutes than there are since the first date lists nobody as online.\<close>

lemma huge_window_hides_everyone:
  "now < w * minute \<Longrightarrow> client_listing now True w db = []"
  by (simp add: client_listing_def by_last_seen_def seen_within_def minutes_ago_def Let_def filter_False)

end
