(* ===== verification/Stats_Stream_Properties.thy ===== *)
theory Stats_Stream_Properties
  imports Stats_Stream Stats_Properties
begin

text \<open>
  What the stream promises: a connection's subscription stays one a query can be made of, a flush refreshes each stale
  channel once however many events fed into it, and nobody without the admin key gets a connection.
\<close>

section \<open>The invariant of a connection\<close>

definition sub_ok :: "wsSubData \<Rightarrow> bool" where
  "sub_ok s \<longleftrightarrow> distinct (sd_channels s) \<and> set (sd_channels s) \<subseteq> set validWSChannels \<and> 0 < sd_windowMinutes s \<and>
     snd (snd (productFilter (sd_product s))) \<and> sd_product s \<noteq> [] \<and> sd_eventsBucket s \<in> set validEventBuckets"

definition clients_ok :: "(int \<times> client_row) list \<Rightarrow> bool" where
  "clients_ok cs \<longleftrightarrow> distinct (map fst cs) \<and> list_all (\<lambda>(i, c). i = cl_id c) cs"

definition pending_ok :: "wsPending \<Rightarrow> bool" where
  "pending_ok p \<longleftrightarrow> clients_ok (wp_clients p)"

definition conn_ok :: "wsConn \<Rightarrow> bool" where
  "conn_ok cn \<longleftrightarrow> sub_ok (cn_sub cn) \<and> pending_ok (cn_pending cn)"

lemma sub_ok_set_window: "sub_ok (fst st) \<Longrightarrow> sub_ok (fst (set_window p st))"
  by (auto simp: set_window_def sub_ok_def split: option.splits prod.splits)

lemma productFilter_default: "snd (snd (productFilter v)) \<Longrightarrow> snd (snd (productFilter (if v = [] then ''emly'' else v)))"
  by (cases "v = []") (simp_all add: productFilter_def)

lemma sub_ok_set_product: "sub_ok (fst st) \<Longrightarrow> sub_ok (fst (set_product p st))"
proof (cases p)
  case (Some v)
  assume ok: "sub_ok (fst st)"
  obtain s errs a b c where st: "st = (s, errs)" "productFilter v = (a, b, c)" by (metis prod_cases3 surj_pair)
  with ok Some productFilter_default [of v] show ?thesis by (cases c) (simp_all add: set_product_def sub_ok_def)
qed (simp add: set_product_def split: prod.split)

lemma sub_ok_set_bucket: "sub_ok (fst st) \<Longrightarrow> sub_ok (fst (set_bucket p st))"
  by (auto simp: set_bucket_def sub_ok_def split: option.splits prod.splits)

lemma sub_ok_set_rest:
  "sub_ok (fst st) \<Longrightarrow> sub_ok (fst (set_eventType p st))"
  "sub_ok (fst st) \<Longrightarrow> sub_ok (fst (set_from p st))"
  "sub_ok (fst st) \<Longrightarrow> sub_ok (fst (set_to p st))"
  by (auto simp: set_eventType_def set_from_def set_to_def sub_ok_def split: option.splits prod.splits)

lemma sub_ok_apply_params: "sub_ok s \<Longrightarrow> sub_ok (fst (apply_params ps s))"
  by (cases ps)
    (auto simp: apply_params_def Let_def intro!: sub_ok_set_window sub_ok_set_product sub_ok_set_bucket sub_ok_set_rest
      split: option.split)

lemma fold_insert_channels:
  "set (fold List.insert cs xs) = set cs \<union> set xs \<and> (distinct xs \<longrightarrow> distinct (fold List.insert cs xs))"
  by (induction cs arbitrary: xs) auto

lemma sub_ok_handleSubscribe: "sub_ok s \<Longrightarrow> sub_ok (fst (handleSubscribe ck f now db hub msg s))"
proof -
  assume ok: "sub_ok s"
  let ?cs = "filter (\<lambda>c. c \<in> set validWSChannels) (elems (cm_Channels msg))"
  have "sub_ok (s\<lparr>sd_channels := fold List.insert ?cs (sd_channels s)\<rparr>)"
    using ok by (auto simp: sub_ok_def fold_insert_channels)
  then show ?thesis using sub_ok_apply_params by (simp add: handleSubscribe_def Let_def split_def)
qed

lemma sub_ok_unsubscribe: "sub_ok s \<Longrightarrow> sub_ok (handleUnsubscribe msg s)"
  by (auto simp: handleUnsubscribe_def sub_ok_def)

lemma sub_ok_handleClientMessage: "sub_ok s \<Longrightarrow> sub_ok (fst (handleClientMessage ck f now db hub raw s))"
  by (cases "Option.bind raw dec_wsClientMessage") (auto simp: handleClientMessage_def sub_ok_unsubscribe sub_ok_handleSubscribe)

lemma clients_ok_put: "clients_ok cs \<Longrightarrow> clients_ok (put_client c cs)"
  by (auto simp: clients_ok_def put_client_def distinct_map inj_on_def list_all_iff)

lemma pending_ok_note: "pending_ok p \<Longrightarrow> pending_ok (noteHubEvent ev s p)"
  by (cases ev) (auto simp: noteHubEvent_def Let_def pending_ok_def clients_ok_put)

lemma flush_frame: "cn_sub (fst (flush ck f now db hub cn)) = cn_sub cn"
  by (simp add: flush_def takePending_def Let_def)

lemma pending_ok_flush: "pending_ok (cn_pending cn) \<Longrightarrow> pending_ok (cn_pending (fst (flush ck f now db hub cn)))"
  by (simp add: flush_def takePending_def Let_def no_pending_def pending_ok_def clients_ok_def)

lemma conn_ok_step: "conn_ok cn \<Longrightarrow> conn_ok (fst (ws_step ck e cn))"
  by (cases e)
    (auto simp: conn_ok_def pending_ok_note flush_frame pending_ok_flush split_def intro: sub_ok_handleClientMessage)

lemma conn_ok_run: "conn_ok cn \<Longrightarrow> conn_ok (fst (ws_run ck t es cn))"
  by (induction es arbitrary: t cn) (auto simp: split_def conn_ok_step)

lemma conn_ok_new: "conn_ok (newWSConn now)"
  by (simp add: Let_def conn_ok_def newWSConn_def sub_ok_def pending_ok_def clients_ok_def no_pending_def
      productFilter_def validEventProducts_def validEventBuckets_def
      defaultConnectedWindowMinutes_def)

text \<open>Whatever a dashboard sends and whatever the hub publishes, a connection's subscription names only known
  channels, each once, a positive window, a known product and a known bucket, and owes at most one row of each client.\<close>

theorem stream_state_stays_valid: "conn_ok (fst (ws_run ck t es (newWSConn now)))"
  by (rule conn_ok_run [OF conn_ok_new])

section \<open>Coalescing\<close>

text \<open>What a flush owes for the events since the last one, written over the events themselves: the summary, the
  clients (all of them after a tick, else the latest row of each client that reported, by id) and the events.\<close>

definition reported :: "hub_event list \<Rightarrow> client_row list" where
  "reported evs = concat (map (\<lambda>e. case e of HubUpdaterEvent c _ \<Rightarrow> [c] | HubTick \<Rightarrow> []) evs)"

definition latest_row :: "client_row list \<Rightarrow> int \<Rightarrow> client_row" where
  "latest_row rows i = last (filter (\<lambda>c. cl_id c = i) rows)"

definition latest_rows :: "client_row list \<Rightarrow> client_row list" where
  "latest_rows rows = map (latest_row rows) (sorted_list_of_set (cl_id ` set rows))"

definition touches_events :: "wsSubData \<Rightarrow> hub_event \<Rightarrow> bool" where
  "touches_events s e = (case e of HubUpdaterEvent _ ev \<Rightarrow> wsEventMatchesSubscription ev s | HubTick \<Rightarrow> False)"

definition refresh ::
  "collation \<Rightarrow> (nat \<Rightarrow> faults) \<Rightarrow> gotime \<Rightarrow> updater_db \<Rightarrow> presence ptr \<Rightarrow> wsSubData \<Rightarrow> hub_event list \<Rightarrow> wsEnvelopeOut list" where
  "refresh ck f now db hub s evs =
     (if channelSummary \<in> set (sd_channels s) \<and> evs \<noteq> [] then
        (case fetchStatsSummary ck (f 0) now db (sd_windowMinutes s) (sd_product s) of
           None \<Rightarrow> [] | Some x \<Rightarrow> [send now ''update'' channelSummary (Summary x)]) else [])
     @ (if channelClients \<notin> set (sd_channels s) then []
        else if HubTick \<in> set evs then sendSnapshot ck (f 1) now db hub s channelClients
        else if reported evs = [] then []
        else [send now ''update'' channelClients (Upserted (decorateOnline (latest_rows (reported evs)) hub))])
     @ (if channelEvents \<in> set (sd_channels s) \<and> list_ex (touches_events s) evs then
          (case fetchStatsEvents ck (f 2) db (sd_eventsBucket s) (sd_eventsEventType s) (sd_product s) (sd_eventsFrom s) (sd_eventsTo s) of
             None \<Rightarrow> [] | Some x \<Rightarrow> [send now ''update'' channelEvents (Events x)]) else [])"

definition noted :: "wsSubData \<Rightarrow> hub_event list \<Rightarrow> wsPending \<Rightarrow> wsPending" where
  "noted s evs p = fold (\<lambda>e. noteHubEvent e s) evs p"

lemma noted_fields:
  "wp_summary (noted s evs p) \<longleftrightarrow> wp_summary p \<or> channelSummary \<in> set (sd_channels s) \<and> evs \<noteq> []"
  "wp_clientsSnapshot (noted s evs p) \<longleftrightarrow> wp_clientsSnapshot p \<or> channelClients \<in> set (sd_channels s) \<and> HubTick \<in> set evs"
  "wp_events (noted s evs p) \<longleftrightarrow> wp_events p \<or> channelEvents \<in> set (sd_channels s) \<and> list_ex (touches_events s) evs"
  "wp_clients (noted s evs p) =
     (if channelClients \<in> set (sd_channels s) then fold put_client (reported evs) (wp_clients p) else wp_clients p)"
  by (induction evs arbitrary: p;
      auto simp: noted_def noteHubEvent_def Let_def touches_events_def reported_def split: hub_event.splits)+

lemma noted_ok: "pending_ok p \<Longrightarrow> pending_ok (noted s evs p)"
  by (induction evs arbitrary: p) (auto simp: noted_def pending_ok_note)

lemma filter_last: "filter P (xs @ [x]) = (if P x then filter P xs @ [x] else filter P xs)"
  by simp

lemma put_client_map_of: "map_of (put_client c cs) i = (if i = cl_id c then Some c else map_of cs i)"
proof -
  have "map_of (filter (\<lambda>(j, _). j \<noteq> k) cs) i = (if i = k then None else map_of cs i)" for k
    by (induction cs) auto
  then show ?thesis by (auto simp: put_client_def)
qed

lemma put_clients_map_of:
  "map_of (fold put_client rows []) i = (if i \<in> cl_id ` set rows then Some (latest_row rows i) else None)"
  by (induction rows rule: rev_induct) (auto simp: put_client_map_of latest_row_def)

lemma put_clients_ok: "clients_ok cs \<Longrightarrow> clients_ok (fold put_client rows cs)"
  by (induction rows arbitrary: cs) (auto simp: clients_ok_put)

lemma sort_key_by_id:
  assumes "distinct (map cl_id xs)"
  shows "sort_key cl_id xs = map (\<lambda>i. the (map_of (map (\<lambda>c. (cl_id c, c)) xs) i)) (sorted_list_of_set (cl_id ` set xs))"
proof -
  let ?ys = "sort_key cl_id xs" and ?g = "\<lambda>i. the (map_of (map (\<lambda>c. (cl_id c, c)) xs) i)"
  have "distinct (map cl_id ?ys)" using assms by (metis distinct_map distinct_sort inj_on_cong set_sort)
  then have keys: "map cl_id ?ys = sorted_list_of_set (cl_id ` set xs)"
    by (metis finite_set image_set set_sort sorted_list_of_set.idem_if_sorted_distinct sorted_sort_key)
  have "map ?g (map cl_id ?ys) = ?ys"
  proof (rule nth_equalityI)
    fix k assume "k < length (map ?g (map cl_id ?ys))"
    then have "?ys ! k \<in> set xs" by (metis length_map nth_mem set_sort)
    then have "map_of (map (\<lambda>c. (cl_id c, c)) xs) (cl_id (?ys ! k)) = Some (?ys ! k)"
      using assms by (intro map_of_is_SomeI) (auto simp: comp_def)
    then show "map ?g (map cl_id ?ys) ! k = ?ys ! k" using \<open>k < _\<close> by simp
  qed simp
  then show ?thesis using keys by simp
qed

lemma clients_ok_snd: "clients_ok cs \<Longrightarrow> map (\<lambda>c. (cl_id c, c)) (map snd cs) = cs"
  by (induction cs) (auto simp: clients_ok_def)

lemma put_clients_latest: "sort_key cl_id (map snd (fold put_client rows [])) = latest_rows rows"
proof -
  let ?m = "fold put_client rows []"
  have ok: "clients_ok ?m" by (rule put_clients_ok) (simp add: clients_ok_def)
  have ids: "map cl_id (map snd ?m) = map fst ?m" using ok by (auto simp: clients_ok_def list_all_iff)
  have "distinct (map cl_id (map snd ?m))" unfolding ids using ok by (simp add: clients_ok_def)
  note sorted = sort_key_by_id [OF this, unfolded clients_ok_snd [OF ok]]
  have "i \<in> fst ` set ?m \<longleftrightarrow> i \<in> cl_id ` set rows" for i
    using put_clients_map_of [of rows i] by (metis map_of_eq_None_iff option.distinct(1))
  then have keys: "cl_id ` set (map snd ?m) = cl_id ` set rows" using ids by (metis list.set_map set_eqI)
  show ?thesis unfolding sorted keys latest_rows_def by (rule map_cong) (auto simp: put_clients_map_of)
qed

lemma reported_none: "fold put_client (reported evs) [] = [] \<longleftrightarrow> reported evs = []"
proof
  assume "fold put_client (reported evs) [] = []"
  then have "cl_id ` set (reported evs) = {}"
    using put_clients_map_of [of "reported evs"] by (metis equals0I map_of.simps(1) option.distinct(1))
  then show "reported evs = []" by simp
qed simp

lemma run_hub_events:
  assumes "list_all (\<lambda>(t, _). t < t0 + wsIdleTimeout) evs"
  shows "ws_run ck t0 (map (\<lambda>(t, e). FromHub t e) evs @ es) cn =
    ws_run ck t0 es (cn\<lparr>cn_pending := noted (cn_sub cn) (map snd evs) (cn_pending cn)\<rparr>)"
  using assms by (induction evs arbitrary: cn) (auto simp: noted_def)

lemma flush_noted:
  assumes "cn_pending cn = noted (cn_sub cn) evs no_pending"
  shows "flush ck f now db hub cn = (cn\<lparr>cn_pending := no_pending\<rparr>, refresh ck f now db hub (cn_sub cn) evs)"
proof (cases "snd (takePending (cn_pending cn))")
  case None
  then have "\<not> (wp_summary (cn_pending cn) \<or> wp_events (cn_pending cn) \<or> wp_clientsSnapshot (cn_pending cn) \<or>
      wp_clients (cn_pending cn) \<noteq> [])"
    by (simp add: takePending_def split: if_splits)
  then have "cn_pending cn = no_pending" "refresh ck f now db hub (cn_sub cn) evs = []"
    unfolding assms noted_fields by (auto simp: refresh_def no_pending_def reported_none noted_fields split: if_splits)
  then show ?thesis by (simp add: flush_def takePending_def no_pending_def)
next
  case (Some p)
  then have p: "takePending (cn_pending cn) = (no_pending, Some p)" "p = noted (cn_sub cn) evs no_pending"
    by (simp_all add: takePending_def assms split: if_splits)
  show ?thesis unfolding flush_def p prod.case option.case p(2) noted_fields Let_def
    by (auto simp: refresh_def no_pending_def reported_none put_clients_latest)
qed

text \<open>C13: However many events the hub published since the last flush, a flush sends at most one envelope per channel
  and they are the ones the events call for: the summary when anything happened, the clients in full after a tick and
  otherwise the latest row of each client that reported, by id, and the events when one of them is in the
  subscription's window; afterwards nothing is owed.\<close>

theorem flush_coalesces_hub_events:
  assumes "cn_pending cn = no_pending" "list_all (\<lambda>(t, _). t < t0 + wsIdleTimeout) evs" "now < t0 + wsIdleTimeout"
  shows "ws_run ck t0 (map (\<lambda>(t, e). FromHub t e) evs @ [Coalesce f now db hub]) cn =
           (cn, refresh ck f now db hub (cn_sub cn) (map snd evs)) \<and>
         length (refresh ck f now db hub (cn_sub cn) (map snd evs)) \<le> 3 \<and>
         distinct (map cl_id (latest_rows (reported (map snd evs))))"
proof -
  let ?cn = "cn\<lparr>cn_pending := noted (cn_sub cn) (map snd evs) no_pending\<rparr>"
  have "flush ck f now db hub ?cn = (cn, refresh ck f now db hub (cn_sub cn) (map snd evs))"
    using flush_noted [of ?cn "map snd evs" ck f now db hub] assms(1) by simp
  moreover have "length (refresh ck f now db hub (cn_sub cn) (map snd evs)) \<le> 3"
    by (auto simp: refresh_def sendSnapshot_def channelSummary_def channelClients_def split: option.split)
  moreover have "distinct (map cl_id (latest_rows rows))" for rows
  proof -
    have "cl_id (latest_row rows i) = i" if "i \<in> cl_id ` set rows" for i
    proof -
      have "filter (\<lambda>c. cl_id c = i) rows \<noteq> []" using that by (auto simp: filter_empty_conv)
      from last_in_set [OF this] show ?thesis by (simp add: latest_row_def)
    qed
    then have "map cl_id (latest_rows rows) = sorted_list_of_set (cl_id ` set rows)"
      unfolding latest_rows_def map_map by (intro map_idI) auto
    then show ?thesis by simp
  qed
  ultimately show ?thesis using assms by (simp add: run_hub_events)
qed

text \<open>A row of client 3 and two of client 5, the second with another contact.\<close>

definition sample_burst :: "(gotime \<times> hub_event) list" where
  "sample_burst =
     (let c = hd (u_clients one_event); ev = hd (u_events one_event)
      in [(1, HubUpdaterEvent (c\<lparr>cl_id := 5\<rparr>) ev), (2, HubUpdaterEvent (c\<lparr>cl_id := 3\<rparr>) ev),
          (3, HubUpdaterEvent (c\<lparr>cl_id := 5, cl_contact := Some ''it''\<rparr>) ev)])"

definition sample_stream :: wsConn where
  "sample_stream =
     fst (ws_step ToLower (Message (\<lambda>_. no_faults) (6 * hour) one_event None
       (Some (JObj [(''type'', JStr ''subscribe''), (''channels'', JArr [JStr channelClients, JStr ''stats:none''])]))) (newWSConn (6 * hour)))"

lemma sample_stream_state:
  "cn_pending sample_stream = no_pending" "sd_channels (cn_sub sample_stream) = [channelClients]"
  by code_simp+

lemma sample_latest: "map (\<lambda>c. (cl_id c, cl_contact c)) (latest_rows (reported (map snd sample_burst))) = [(3, None), (5, Some ''it'')]"
  by code_simp

theorem flush_coalesces_hub_events_witness:
  "snd (ws_run ToLower 0 (map (\<lambda>(t, e). FromHub t e) sample_burst @ [Coalesce (\<lambda>_. no_faults) second one_event None]) sample_stream) =
     [send second ''update'' channelClients (Upserted (decorateOnline (latest_rows (reported (map snd sample_burst))) None))]"
proof -
  have "list_all (\<lambda>(t, _). t < 0 + wsIdleTimeout) sample_burst" by code_simp
  moreover have "HubTick \<notin> set (map snd sample_burst)" "reported (map snd sample_burst) \<noteq> []"
    by (simp_all add: sample_burst_def Let_def reported_def)
  moreover have "second < 0 + wsIdleTimeout" by (simp add: wsIdleTimeout_def)
  ultimately show ?thesis
    using flush_coalesces_hub_events [OF sample_stream_state(1), of 0 sample_burst second ToLower "\<lambda>_. no_faults" one_event None]
    by (simp add: refresh_def sample_stream_state) (simp add: channelSummary_def channelClients_def channelEvents_def)
qed

section \<open>The events channel\<close>

text \<open>\<open>eventsTo\<close> of a connection is the time it was opened until a message names another.\<close>

definition names_end :: "wsClientMessage \<Rightarrow> bool" where
  "names_end msg = (case cm_Params msg of None \<Rightarrow> False
     | Some p \<Rightarrow> case sp_Events p of None \<Rightarrow> False | Some ev \<Rightarrow> ep_To ev \<noteq> None)"

fun after_opening :: "gotime \<Rightarrow> ws_event \<Rightarrow> bool" where
  "after_opening opened (Message _ _ _ _ raw) = (case Option.bind raw dec_wsClientMessage of None \<Rightarrow> True | Some msg \<Rightarrow> \<not> names_end msg)"
| "after_opening opened (FromHub _ (HubUpdaterEvent _ ev)) = (opened < ev_created_at ev)"
| "after_opening opened _ = True"

definition events_update :: "wsEnvelopeOut \<Rightarrow> bool" where
  "events_update env \<longleftrightarrow> eo_Type env = ''update'' \<and> eo_Channel env = channelEvents"

definition unmoved :: "gotime \<Rightarrow> wsConn \<Rightarrow> bool" where
  "unmoved opened cn \<longleftrightarrow> sd_eventsTo (cn_sub cn) = opened \<and> \<not> wp_events (cn_pending cn)"

lemma eventsTo_set:
  "sd_eventsTo (fst (set_window w st)) = sd_eventsTo (fst st)"
  "sd_eventsTo (fst (set_product v st)) = sd_eventsTo (fst st)"
  "sd_eventsTo (fst (set_bucket v st)) = sd_eventsTo (fst st)"
  "sd_eventsTo (fst (set_eventType v st)) = sd_eventsTo (fst st)"
  "sd_eventsTo (fst (set_from v st)) = sd_eventsTo (fst st)"
  "sd_eventsTo (fst (set_to None st)) = sd_eventsTo (fst st)"
  by (auto simp: set_window_def set_product_def set_bucket_def set_eventType_def set_from_def set_to_def
      split: option.split prod.split bool.split)

lemma eventsTo_params: "\<not> names_end msg \<Longrightarrow> sd_eventsTo (fst (apply_params (cm_Params msg) s)) = sd_eventsTo s"
  by (simp add: names_end_def apply_params_def Let_def eventsTo_set split: option.splits)

lemma no_update_envelope: "typ \<noteq> ''update'' \<Longrightarrow> \<not> events_update (send now typ ch x)"
  by (simp add: send_def events_update_def)

lemma no_update_error: "\<not> events_update (sendError now code m)"
  unfolding sendError_def by (simp add: no_update_envelope)

lemma no_update_snapshot: "\<not> list_ex events_update (sendSnapshot ck f now db hub s c)"
  unfolding sendSnapshot_def sendError_def by (simp add: no_update_envelope split: option.split)

lemma no_update_subscribe: "\<not> list_ex events_update (snd (handleSubscribe ck g now db hub msg s))"
  unfolding handleSubscribe_def Let_def split_def
  by (simp add: no_update_envelope no_update_error no_update_snapshot [unfolded list_ex_iff] list_ex_iff)
    (use no_update_snapshot no_update_error in \<open>auto simp: list_ex_iff\<close>)

lemmas no_update_answers = no_update_snapshot no_update_error no_update_subscribe

lemma no_update_message: "\<not> list_ex events_update (snd (handleClientMessage ck f now db hub raw s))"
  by (cases "Option.bind raw dec_wsClientMessage") (simp_all add: handleClientMessage_def no_update_answers, simp add: send_def events_update_def)

lemma unmoved_message:
  assumes "after_opening opened (Message f now db hub raw)" "sd_eventsTo s = opened"
  shows "sd_eventsTo (fst (handleClientMessage ck f now db hub raw s)) = opened"
  using assms by (cases "Option.bind raw dec_wsClientMessage") (simp_all add: handleClientMessage_def handleSubscribe_def handleUnsubscribe_def eventsTo_params split_def Let_def)

lemma unmoved_hub:
  "\<lbrakk>after_opening opened (FromHub t ev); sd_eventsTo s = opened; \<not> wp_events p\<rbrakk> \<Longrightarrow> \<not> wp_events (noteHubEvent ev s p)"
  by (cases ev) (auto simp: noteHubEvent_def Let_def wsEventMatchesSubscription_def)

lemma unmoved_flush:
  "\<not> wp_events (cn_pending cn) \<Longrightarrow> \<not> wp_events (cn_pending (fst (flush ck f now db hub cn)))"
  by (simp add: flush_def takePending_def Let_def no_pending_def)

lemma no_update_sends:
  "\<not> events_update (send now ''update'' channelSummary x)" "\<not> events_update (send now ''update'' channelClients x)"
  by (simp_all add: send_def events_update_def channelSummary_def channelClients_def channelEvents_def)

lemma no_update_flush:
  "\<not> wp_events (cn_pending cn) \<Longrightarrow> \<not> list_ex events_update (snd (flush ck f now db hub cn))"
  using no_update_answers(1) [of ck "f 1" now db hub "cn_sub cn" channelClients]
  by (simp add: flush_def takePending_def Let_def no_update_sends split: option.split)

lemma unmoved_step:
  assumes "unmoved opened cn" "after_opening opened e"
  shows "unmoved opened (fst (ws_step ck e cn))" "\<not> list_ex events_update (snd (ws_step ck e cn))"
  using assms unmoved_flush [of cn] no_update_flush [of cn] unmoved_message unmoved_hub no_update_message
  by (cases e; auto simp: unmoved_def split_def flush_frame send_def events_update_def)+

text \<open>A stream whose client names no end of the window never gets an update of its events: every event recorded
  after the connection was opened is past the end of the window, which is the time it was opened.\<close>

theorem default_window_never_updates_events:
  assumes "list_all (after_opening opened) es"
  shows "\<not> list_ex events_update (snd (ws_run ck t es (newWSConn opened)))"
proof -
  have "unmoved opened cn \<Longrightarrow> \<not> list_ex events_update (snd (ws_run ck t es cn))" for cn
    using assms
  proof (induction es arbitrary: t cn)
    case (Cons e es)
    from Cons.IH [of "fst (ws_step ck e cn)" "last_read t e"] unmoved_step [of opened cn e ck] Cons.prems
    show ?case by (simp add: split_def)
  qed simp
  then show ?thesis by (simp add: unmoved_def newWSConn_def no_pending_def)
qed

theorem default_window_never_updates_events_witness:
  "let es = [Message (\<lambda>_. no_faults) second one_event None (Some (JObj [(''type'', JStr ''subscribe''), (''channels'', JArr [JStr channelEvents])])),
       FromHub (6 * hour) (HubUpdaterEvent (hd (u_clients one_event)) (hd (u_events one_event))),
       Coalesce (\<lambda>_. no_faults) second one_event None]
   in \<not> list_ex events_update (snd (ws_run ToLower 0 es (newWSConn second)))"
proof -
  have "map_option names_end (dec_wsClientMessage (JObj [(''type'', JStr ''subscribe''), (''channels'', JArr [JStr channelEvents])])) = Some False"
    by code_simp
  then show ?thesis unfolding Let_def
    by (intro default_window_never_updates_events) (auto simp: one_event_tables split: option.split)
qed

text \<open>What an event made stale is still sent after the client has unsubscribed.\<close>

lemma unsubscribed_channel_is_still_updated:
  "map eo_Channel (snd (ws_run ToLower 0
     [Message (\<lambda>_. no_faults) 1 one_event None (Some (JObj [(''type'', JStr ''subscribe''), (''channels'', JArr [JStr channelClients])])),
      FromHub 2 HubTick,
      Message (\<lambda>_. no_faults) 3 one_event None (Some (JObj [(''type'', JStr ''unsubscribe''), (''channels'', JArr [JStr channelClients])])),
      Coalesce (\<lambda>_. no_faults) second one_event None] (newWSConn (6 * hour)))) = [[], channelClients, channelClients]"
  by code_simp

section \<open>Who gets a connection\<close>

lemma stream_needs_the_admin_key:
  "StatsStream cfg ck r query accepts now es = OK out \<Longrightarrow> cf_AdminKey cfg \<noteq> [] \<and>
     (r_Header r ''X-Admin-Key'' = cf_AdminKey cfg \<or> r_Header r ''X-Admin-Key'' = [] \<and> query ''admin_key'' = cf_AdminKey cfg)"
  by (auto simp: StatsStream_def Let_def split: if_splits)

end
