(* ===== verification/Client_WS.thy ===== *)
theory Client_WS
  imports Presence_Hub Updater_Client Json_Tree
begin

text \<open>
  \<open>internal/clientws/client_ws.route.go\<close>: the socket a workstation keeps open so that the dashboard shows it as
  online. A handshake reads one identity message, writes the client's row and joins the presence hub; from then on the
  session only proves that it is alive, until it falls silent, closes, or a newer session of the same client takes its
  place. The sessions of a server share the tables and the hub, so a server is a sequence of their steps. A frame is
  its JSON value, None when it is not valid JSON.
\<close>

section \<open>Messages\<close>

record clientWSInMessage =
  in_Type :: string
  in_Data :: "json option"

definition field_raw :: "string \<Rightarrow> (string \<times> json) list \<Rightarrow> json option" where
  "field_raw name kvs = map_of (rev (map (\<lambda>(k, v). (ToLower k, v)) kvs)) (ToLower name)"

definition dec_clientWSInMessage :: "json \<Rightarrow> clientWSInMessage option" where
  "dec_clientWSInMessage j = do {
     kvs \<leftarrow> dec_struct j;
     v_Type \<leftarrow> dec_string (field_get ''type'' kvs);
     Some \<lparr>in_Type = v_Type, in_Data = field_raw ''data'' kvs\<rparr>
   }"

definition dec_WSIdentityPayload :: "json \<Rightarrow> WSIdentityPayload option" where
  "dec_WSIdentityPayload j = do {
     kvs \<leftarrow> dec_struct j;
     v_HWID \<leftarrow> dec_string (field_get ''hwid'' kvs);
     v_Hostname \<leftarrow> dec_string (field_get ''hostname'' kvs);
     v_ADDomain \<leftarrow> dec_string (field_get ''ad_domain'' kvs);
     v_LoggedUser \<leftarrow> dec_string (field_get ''logged_user'' kvs);
     v_LoggedUserState \<leftarrow> dec_string (field_get ''logged_user_state'' kvs);
     v_LoggedUserDisconnectedAt \<leftarrow> dec_string (field_get ''logged_user_disconnected_at'' kvs);
     v_Serial \<leftarrow> dec_string (field_get ''serial'' kvs);
     v_Product \<leftarrow> dec_string (field_get ''product'' kvs);
     v_OSVersion \<leftarrow> dec_string (field_get ''os_version'' kvs);
     v_EMLyVersion \<leftarrow> dec_string (field_get ''emly_version'' kvs);
     Some \<lparr>ws_HWID = v_HWID, ws_Hostname = v_Hostname, ws_ADDomain = v_ADDomain, ws_LoggedUser = v_LoggedUser,
       ws_LoggedUserState = v_LoggedUserState, ws_LoggedUserDisconnectedAt = v_LoggedUserDisconnectedAt,
       ws_Serial = v_Serial, ws_Product = v_Product, ws_OSVersion = v_OSVersion, ws_EMLyVersion = v_EMLyVersion\<rparr>
   }"

definition clientWSIdleTimeout :: duration where "clientWSIdleTimeout = 20 * second"

text \<open>The data of an envelope is the code and the message of an error.\<close>

record clientWSEnvelope =
  we_Type :: string
  we_Data :: "(string \<times> string) option"

definition writeClientWSError :: "string \<Rightarrow> string \<Rightarrow> clientWSEnvelope" where
  "writeClientWSError code message = \<lparr>we_Type = ''error'', we_Data = Some (code, message)\<rparr>"

section \<open>Handshake\<close>

text \<open>A read waits for one frame; Silent is a time-out or a lost connection.\<close>

datatype ws_read = Silent | Frame "json option"

definition readClientIdentity :: "request \<Rightarrow> ws_read \<Rightarrow> clientWSEnvelope list \<times> Identity option" where
  "readClientIdentity r rd =
     (case rd of
        Silent \<Rightarrow> ([], None)
      | Frame data \<Rightarrow>
          (case Option.bind data dec_clientWSInMessage of
             None \<Rightarrow> ([writeClientWSError ''unidentified'' ''expected an identity message''], None)
           | Some msg \<Rightarrow>
               if in_Type msg \<noteq> ''identity'' then
                 ([writeClientWSError ''unidentified'' ''expected an identity message''], None)
               else case Option.bind (in_Data msg) dec_WSIdentityPayload of
                 None \<Rightarrow> ([writeClientWSError ''invalid_params'' ''invalid identity payload''], None)
               | Some payload \<Rightarrow>
                   let idt = IdentityFromWSPayload r payload
                   in if Identified idt then ([], Some idt)
                      else ([writeClientWSError ''unidentified'' ''identity carries neither hwid nor hostname''], None)))"

datatype close_code = StatusNormalClosure | StatusPolicyViolation | StatusInternalError

record ws_session =
  se_client :: int
  se_token :: Token
  se_supersede :: "nat ptr"
  se_lastRead :: gotime

datatype handshake_result = Refused close_code string | Joined ws_session

text \<open>\<open>hello\<close> tells whether the greeting was written, \<open>f\<close> are the statements of the upsert. None is a panic of the hub.\<close>

definition handshake ::
  "collation \<Rightarrow> faults \<Rightarrow> gotime \<Rightarrow> request \<Rightarrow> bool \<Rightarrow> ws_read \<Rightarrow> updater_db \<Rightarrow> presence ptr \<Rightarrow>
     ((updater_db \<times> presence ptr) \<times> clientWSEnvelope list \<times> handshake_result) option" where
  "handshake ck f now r hello rd db hub =
     (if \<not> hello then Some ((db, hub), [], Refused StatusInternalError [])
      else let greeting = \<lparr>we_Type = ''hello'', we_Data = None\<rparr>
      in case readClientIdentity r rd of
           (out, None) \<Rightarrow> Some ((db, hub), greeting # out, Refused StatusPolicyViolation ''identity required'')
         | (out, Some idt) \<Rightarrow>
             (case Upsert ck f now db idt of
                (db', None) \<Rightarrow> Some ((db', hub), greeting # out, Refused StatusInternalError [])
              | (db', Some clientID) \<Rightarrow>
                  (case Connect hub clientID of
                     None \<Rightarrow> None
                   | Some (hub', tok, supersede) \<Rightarrow>
                       Some ((db', hub'), greeting # out,
                         Joined \<lparr>se_client = clientID, se_token = tok, se_supersede = supersede, se_lastRead = now\<rparr>))))"

section \<open>The sessions of a server\<close>

text \<open>\<open>sv_live\<close> are the sessions past their handshake, by the number of their connection.\<close>

record ws_server =
  sv_db :: updater_db
  sv_hub :: "presence ptr"
  sv_live :: "(nat \<times> ws_session) list"
  sv_next :: nat

definition superseded :: "presence ptr \<Rightarrow> ws_session \<Rightarrow> bool" where
  "superseded hub s = (case (hub, se_supersede s) of (Some h, Some ch) \<Rightarrow> ch \<in> set (ph_closed h) | _ \<Rightarrow> False)"

text \<open>The end of \<open>ClientWS\<close>: the session leaves the hub and is told why.\<close>

definition leave :: "nat \<Rightarrow> ws_session \<Rightarrow> gotime \<Rightarrow> ws_server \<Rightarrow> ws_server" where
  "leave i s now sv =
     sv\<lparr>sv_hub := Disconnect (sv_hub sv) (se_token s) now, sv_live := filter (\<lambda>(j, _). j \<noteq> i) (sv_live sv)\<rparr>"

datatype ws_reply = Sent "clientWSEnvelope list" | Closed "clientWSEnvelope list" close_code string

text \<open>\<open>Lost\<close> is a read that fails, \<open>Taken\<close> the goroutine that waits for the supersede channel, the last two the timers of
  the hub. A step that is not enabled does nothing.\<close>

datatype ws_op =
    Open faults gotime request bool ws_read
  | Read nat gotime "json option"
  | Lost nat gotime
  | Taken nat gotime
  | Heartbeat nat
  | GraceDue nat gotime
  | GraceRun nat

definition live_session :: "ws_server \<Rightarrow> nat \<Rightarrow> ws_session option" where
  "live_session sv i = map_of (sv_live sv) i"

definition clientWSReadLoop :: "nat \<Rightarrow> ws_session \<Rightarrow> gotime \<Rightarrow> ws_server \<Rightarrow> ws_server \<times> ws_reply" where
  "clientWSReadLoop i s now sv =
     (if se_lastRead s + clientWSIdleTimeout \<le> now then (leave i s now sv, Closed [] StatusNormalClosure [])
      else (sv\<lparr>sv_live := map (\<lambda>(j, x). (j, if j = i then s\<lparr>se_lastRead := now\<rparr> else x)) (sv_live sv)\<rparr>, Sent []))"

fun ClientWS :: "collation \<Rightarrow> ws_op \<Rightarrow> ws_server \<Rightarrow> (ws_server \<times> ws_reply) option" where
  "ClientWS ck (Open f now r hello rd) sv =
     (case handshake ck f now r hello rd (sv_db sv) (sv_hub sv) of
        None \<Rightarrow> None
      | Some ((db, hub), out, Refused code reason) \<Rightarrow>
          Some (sv\<lparr>sv_db := db, sv_hub := hub, sv_next := Suc (sv_next sv)\<rparr>, Closed out code reason)
      | Some ((db, hub), out, Joined s) \<Rightarrow>
          Some (sv\<lparr>sv_db := db, sv_hub := hub, sv_next := Suc (sv_next sv), sv_live := (sv_next sv, s) # sv_live sv\<rparr>, Sent out))"
| "ClientWS ck (Read i now raw) sv =
     (case live_session sv i of None \<Rightarrow> Some (sv, Sent []) | Some s \<Rightarrow> Some (clientWSReadLoop i s now sv))"
| "ClientWS ck (Lost i now) sv =
     (case live_session sv i of None \<Rightarrow> Some (sv, Sent [])
      | Some s \<Rightarrow> Some (leave i s now sv, Closed [] StatusNormalClosure []))"
| "ClientWS ck (Taken i now) sv =
     (case live_session sv i of None \<Rightarrow> Some (sv, Sent [])
      | Some s \<Rightarrow>
          if superseded (sv_hub sv) s
          then Some (leave i s now sv, Closed [] StatusPolicyViolation ''superseded by newer connection'')
          else Some (sv, Sent []))"
| "ClientWS ck (Heartbeat i) sv =
     Some (sv, Sent (case live_session sv i of None \<Rightarrow> [] | Some _ \<Rightarrow> [\<lparr>we_Type = ''ping'', we_Data = None\<rparr>]))"
| "ClientWS ck (GraceDue t now) sv = Some (sv\<lparr>sv_hub := map_option (expire t now) (sv_hub sv)\<rparr>, Sent [])"
| "ClientWS ck (GraceRun t) sv = Some (sv\<lparr>sv_hub := map_option (fire t) (sv_hub sv)\<rparr>, Sent [])"

fun server_run :: "collation \<Rightarrow> ws_op list \<Rightarrow> ws_server \<Rightarrow> ws_server option" where
  "server_run ck [] sv = Some sv"
| "server_run ck (op # ops) sv =
     (case ClientWS ck op sv of None \<Rightarrow> None | Some (sv', _) \<Rightarrow> server_run ck ops sv')"

definition new_server :: "updater_db \<Rightarrow> presence ptr \<Rightarrow> ws_server" where
  "new_server db hub = \<lparr>sv_db = db, sv_hub = hub, sv_live = [], sv_next = 0\<rparr>"

end
