(* ===== verification/Client_WS_Properties.thy ===== *)
theory Client_WS_Properties
  imports Client_WS
begin

text \<open>
  The sessions and the presence hub together: a workstation is online while it has a session that no newer one
  replaced, and no longer than the grace period after it; a good identity joins and gets its row.
\<close>

section \<open>The hub's side\<close>

text \<open>Every entry is held by a session or has a timer that ends it.\<close>

definition holds :: "presence \<Rightarrow> ws_session \<Rightarrow> bool" where
  "holds h s \<longleftrightarrow> (case ph_entries h (se_client s) of None \<Rightarrow> False
     | Some e \<Rightarrow> pe_gen e = tok_gen (se_token s) \<and> se_supersede s = Some (pe_supersede e))"

definition ending :: "presence \<Rightarrow> int \<Rightarrow> bool" where
  "ending h c \<longleftrightarrow> (case ph_entries h c of None \<Rightarrow> False
     | Some e \<Rightarrow> list_ex (\<lambda>t. t_client t = c \<and> t_gen t = pe_gen e) (timers h))"

text \<open>The grace timer an entry names is its own.\<close>

definition timer_inv :: "presence \<Rightarrow> bool" where
  "timer_inv h \<longleftrightarrow>
     (\<forall>t \<in> set (timers h). t_id t < ph_nextTimer h) \<and>
     (\<forall>c e i. ph_entries h c = Some e \<longrightarrow> pe_graceTimer e = Some i \<longrightarrow>
        i < ph_nextTimer h \<and> (\<forall>t \<in> set (timers h). t_id t = i \<longrightarrow> t_client t = c))"

lemma timer_inv_New: "timer_inv (ph_New g)"
  by (simp add: timer_inv_def ph_New_def)

lemma connect_nextTimer: "connect h c = Some (h', r) \<Longrightarrow> ph_nextTimer h' = ph_nextTimer h"
  by (auto simp: connect_def Let_def split: option.splits if_splits)

lemma timer_inv_connect: "\<lbrakk>timer_inv h; connect h c = Some (h', tok, ch)\<rbrakk> \<Longrightarrow> timer_inv h'"
  using connect_effect [of h c h' tok ch] connect_nextTimer [of h c h' "(tok, ch)"]
  by (auto simp: timer_inv_def)

lemma timer_inv_disconnect: "timer_inv h \<Longrightarrow> timer_inv (disconnect h tok now)"
  unfolding timer_inv_def disconnect_def Let_def
  by (cases "ph_entries h (tok_clientID tok)") (simp, simp, (intro impI conjI allI, force+)?)

lemma timer_inv_expire: "timer_inv h \<Longrightarrow> timer_inv (expire i now h)"
  by (auto simp: timer_inv_def expire_def)

lemma fold_grace_expired_nextTimer [simp]: "ph_nextTimer (fold grace_expired ts h) = ph_nextTimer h"
  by (induction ts arbitrary: h) (auto simp: grace_expired_def split: option.splits)

lemma timer_inv_fire: "timer_inv h \<Longrightarrow> timer_inv (fire i h)"
  by (auto simp: timer_inv_def fire_def fold_grace_expired_entries split: option.splits if_splits)

lemma timer_owner:
  "\<lbrakk>timer_inv h; ph_entries h c = Some e; t \<in> set (timers h); pe_graceTimer e = Some (t_id t)\<rbrakk> \<Longrightarrow> t_client t = c"
  unfolding timer_inv_def by blast

lemma connect_armed:
  assumes "connect h c = Some (h', tok, ch)"
  shows "ph_armed h' = (case ph_entries h c of None \<Rightarrow> ph_armed h
    | Some old \<Rightarrow> filter (\<lambda>t. Some (t_id t) \<noteq> pe_graceTimer old) (ph_armed h))"
  using assms by (auto simp: connect_def Let_def split: option.splits if_splits)

lemma ending_connect:
  assumes "timer_inv h" "connect h c = Some (h', tok, ch)" "d \<noteq> c" "ending h d"
  shows "ending h' d"
proof -
  note e = connect_effect [OF assms(2)] and a = connect_armed [OF assms(2)]
  from assms(4) obtain x t where x: "ph_entries h d = Some x" "t \<in> set (timers h)" "t_client t = d" "t_gen t = pe_gen x"
    by (auto simp: ending_def list_ex_iff split: option.splits)
  have "Some (t_id t) \<noteq> pe_graceTimer old" if "ph_entries h c = Some old" for old
    using timer_owner [OF assms(1) that x(2)] assms(3) x(3) by metis
  with x(2) have "t \<in> set (timers h')" by (auto simp: a e(7) split: option.split)
  with x assms(3) show ?thesis by (auto simp: ending_def e(3) list_ex_iff)
qed

lemma ending_disconnect: "ending h c \<Longrightarrow> ending (disconnect h tok now) c"
  by (auto simp: ending_def disconnect_def Let_def list_ex_iff split: option.splits)

lemma ending_left: "ph_entries h (tok_clientID tok) = Some e \<Longrightarrow> pe_gen e = tok_gen tok \<Longrightarrow> ending (disconnect h tok now) (tok_clientID tok)"
  by (simp add: ending_def disconnect_def Let_def)

lemma ending_expire: "ending (expire i now h) c \<longleftrightarrow> ending h c"
  by (auto simp: ending_def expire_def list_ex_iff split: option.splits)

lemma ending_fire:
  assumes "ending h c" "ph_entries (fire i h) c \<noteq> None"
  shows "ending (fire i h) c"
  using assms by (auto simp: ending_def fire_def fold_grace_expired_entries list_ex_iff split: option.splits if_splits)

lemma holds_frame:
  "holds h s \<Longrightarrow> holds (disconnect h tok now) s"
  "holds (expire i now h) s \<longleftrightarrow> holds h s"
  by (auto simp: holds_def disconnect_def expire_def Let_def split: option.splits)

lemma holds_fire: "holds h s \<Longrightarrow> ph_entries (fire i h) (se_client s) \<noteq> None \<Longrightarrow> holds (fire i h) s"
  by (auto simp: holds_def fire_def fold_grace_expired_entries split: option.splits if_splits)

lemma holds_connect_other:
  "\<lbrakk>connect h c = Some (h', tok, ch); se_client s \<noteq> c\<rbrakk> \<Longrightarrow> holds h' s \<longleftrightarrow> holds h s"
  using connect_effect(3) [of h c h' tok ch] by (simp add: holds_def)

section \<open>The sessions of a server\<close>

definition session_ok :: "nat \<Rightarrow> presence \<Rightarrow> ws_session \<Rightarrow> bool" where
  "session_ok n h s \<longleftrightarrow>
     tok_clientID (se_token s) = se_client s \<and> unat (tok_gen (se_token s)) \<le> n \<and>
     (attached h (se_token s) \<and> holds h s \<or> superseded (Some h) s)"

lemma superseded_closed: "ph_closed h' = ph_closed h \<Longrightarrow> superseded (Some h') s = superseded (Some h) s"
  by (simp add: superseded_def split: option.split)

definition entry_ok :: "presence \<Rightarrow> ws_session list \<Rightarrow> int \<Rightarrow> bool" where
  "entry_ok h ss c \<longleftrightarrow> ph_entries h c = None \<or> ending h c \<or> (\<exists>s \<in> set ss. se_client s = c \<and> holds h s)"

lemma entry_ok_sim:
  assumes "entry_ok h ss c" "\<And>x. x \<in> set ss \<Longrightarrow> \<exists>y \<in> set ss'. se_client y = se_client x \<and> holds h y = holds h x"
  shows "entry_ok h ss' c"
  using assms(1) unfolding entry_ok_def
proof (elim disjE bexE conjE)
  fix x assume "x \<in> set ss" "se_client x = c" "holds h x"
  with assms(2) [of x] show "ph_entries h c = None \<or> ending h c \<or> (\<exists>y \<in> set ss'. se_client y = c \<and> holds h y)" by auto
qed simp_all

definition sessions_inv :: "duration \<Rightarrow> nat \<Rightarrow> presence \<Rightarrow> (nat \<times> ws_session) list \<Rightarrow> bool" where
  "sessions_inv g n h live \<longleftrightarrow>
     reached g n h \<and> timer_inv h \<and> distinct (map fst live) \<and> distinct (map (\<lambda>x. se_token (snd x)) live) \<and>
     (\<forall>s \<in> snd ` set live. session_ok n h s) \<and> (\<forall>c. entry_ok h (map snd live) c)"

lemma sessions_inv_New: "sessions_inv g 0 (ph_New g) []"
proof -
  have "ph_entries (ph_New g) c = None" for c by (simp add: ph_New_def)
  then show ?thesis by (simp add: sessions_inv_def reached_New timer_inv_New entry_ok_def)
qed

lemma session_ok_connect:
  assumes "session_ok n h s" "connect h c = Some (h', tok, ch)"
  shows "session_ok (Suc n) h' s"
proof -
  note e = connect_effect [OF assms(2)]
  have closed: "set (ph_closed h) \<subseteq> set (ph_closed h')" by (auto simp: e(8) split: option.split)
  show ?thesis
  proof (cases "attached h (se_token s) \<and> holds h s")
    case True
    show ?thesis
    proof (cases "se_client s = c")
      case True
      with \<open>attached h _ \<and> holds h s\<close> have "superseded (Some h') s"
        by (auto simp: holds_def superseded_def e(8) split: option.splits)
      with assms(1) show ?thesis by (simp add: session_ok_def)
    next
      case False
      with True assms show ?thesis
        using attached_connect_other [OF _ assms(2), of "se_token s"] holds_connect_other [OF assms(2) False]
        by (auto simp: session_ok_def)
    qed
  next
    case False
    with assms(1) closed show ?thesis by (auto simp: session_ok_def superseded_def split: option.splits)
  qed
qed

lemma sessions_inv_join:
  assumes "sessions_inv g n h live" "Suc n < 2 ^ 64" "connect h c = Some (h', tok, ch)" "k \<notin> fst ` set live"
  shows "sessions_inv g (Suc n) h'
    ((k, \<lparr>se_client = c, se_token = tok, se_supersede = Some ch, se_lastRead = now\<rparr>) # live)"
proof -
  let ?s = "\<lparr>se_client = c, se_token = tok, se_supersede = Some ch, se_lastRead = now\<rparr>"
  note i = assms(1) [unfolded sessions_inv_def] and e = connect_effect [OF assms(3)]
  have r: "reached g n h" using i by blast
  have gen: "unat (tok_gen tok) = Suc n"
    using gen_inv_reached [OF r] unat_of_nat64 [OF assms(2)] by (simp add: e(1) gen_inv_def add.commute)
  have new: "attached h' tok" "tok_clientID tok = c" using connect_attached [OF r assms(2,3)] by auto
  have held: "holds h' ?s" by (simp add: holds_def e(1-3))
  have "tok \<notin> (\<lambda>x. se_token (snd x)) ` set live"
    using i gen by (fastforce simp: session_ok_def)
  moreover have "session_ok (Suc n) h' s" if "s \<in> snd ` set live" for s
    using session_ok_connect [OF _ assms(3)] i that by blast
  moreover have "session_ok (Suc n) h' ?s" using new held gen by (simp add: session_ok_def)
  moreover have "entry_ok h' (?s # map snd live) d" for d
  proof (cases "d = c")
    case False
    then have "ph_entries h' d = ph_entries h d" by (simp add: e(3))
    moreover have "entry_ok h (map snd live) d" using i by blast
    ultimately show ?thesis
      using ending_connect [OF _ assms(3) False] holds_connect_other [OF assms(3)] i False by (auto simp: entry_ok_def)
  qed (use held in \<open>simp add: entry_ok_def\<close>)
  ultimately show ?thesis
    using i assms(4) timer_inv_connect [OF _ assms(3)] reached_Conn [OF r assms(3)] by (auto simp: sessions_inv_def)
qed

lemma sessions_inv_leave:
  assumes "sessions_inv g n h live" "map_of live i = Some s"
  shows "sessions_inv g n (disconnect h (se_token s) now) (filter (\<lambda>(j, _). j \<noteq> i) live)"
proof -
  let ?h = "disconnect h (se_token s) now" and ?live = "filter (\<lambda>(j, _). j \<noteq> i) live"
  note inv = assms(1) [unfolded sessions_inv_def]
  have s: "(i, s) \<in> set live" "session_ok n h s" using map_of_SomeD [OF assms(2)] inv by force+
  have closed: "ph_closed ?h = ph_closed h" by (simp add: disconnect_def Let_def split: option.split)
  have other: "se_token x \<noteq> se_token s" if "(j, x) \<in> set ?live" for j x
  proof
    assume "se_token x = se_token s"
    have "inj_on (\<lambda>x. se_token (snd x)) (set live)" using inv by (simp add: distinct_map)
    then have "(j, x) = (i, s)" by (rule inj_onD) (use \<open>se_token x = _\<close> s(1) that in auto)
    with that show False by simp
  qed
  have "session_ok n ?h x" if "(j, x) \<in> set ?live" for j x
  proof -
    have "session_ok n h x" using inv that by force
    with other [OF that] show ?thesis
      using attached_disconnect_other [of h "se_token x" "se_token s" now] holds_frame(1) [of h x "se_token s" now]
      by (auto simp: session_ok_def superseded_def closed split: option.splits)
  qed
  moreover have "entry_ok ?h (map snd ?live) c" for c
  proof -
    have "ph_entries ?h c = None \<longleftrightarrow> ph_entries h c = None"
      by (auto simp: disconnect_def Let_def split: option.split)
    moreover have "ending ?h c" if "se_client s = c" "holds h s"
      using that s(2) ending_left [of h "se_token s" _ now] by (auto simp: holds_def session_ok_def split: option.splits)
    moreover have "\<exists>x \<in> set (map snd ?live). se_client x = c \<and> holds ?h x" if "(j, x) \<in> set live" "j \<noteq> i" "se_client x = c" "holds h x" for j x
      using that holds_frame(1) by force
    moreover have "j = i \<Longrightarrow> (j, x) \<in> set live \<Longrightarrow> x = s" for j x
      using inv s(1) by (meson eq_key_imp_eq_value)
    moreover have "entry_ok h (map snd live) c" using inv by blast
    ultimately show ?thesis using ending_disconnect [of h c "se_token s" now] by (fastforce simp: entry_ok_def)
  qed
  ultimately show ?thesis
    using inv timer_inv_disconnect reached_Disc by (auto simp: sessions_inv_def distinct_map_filter)
qed

lemma sessions_inv_touch:
  assumes "sessions_inv g n h live" "map_of live i = Some s"
  shows "sessions_inv g n h (map (\<lambda>(j, x). (j, if j = i then s\<lparr>se_lastRead := now\<rparr> else x)) live)"
proof -
  note inv = assms(1) [unfolded sessions_inv_def]
  have same: "x = s" if "(i, x) \<in> set live" for x
    using inv map_of_SomeD [OF assms(2)] that by (meson eq_key_imp_eq_value)
  let ?touch = "\<lambda>(j, x). (j, if j = i then s\<lparr>se_lastRead := now\<rparr> else x)"
  have tokens: "map (\<lambda>x. se_token (snd x)) (map ?touch live) = map (\<lambda>x. se_token (snd x)) live"
    using same by auto
  have keys: "map fst (map ?touch live) = map fst live" by auto
  have ok: "session_ok n h' (x\<lparr>se_lastRead := now\<rparr>) = session_ok n h' x" "holds h' (x\<lparr>se_lastRead := now\<rparr>) = holds h' x" for h' x
    by (auto simp: session_ok_def holds_def superseded_def split: option.split)
  have "session_ok n h (snd (?touch y))" if "y \<in> set live" for y
  proof -
    obtain j x where "y = (j, x)" by (cases y)
    with that inv same show ?thesis by (auto simp: ok)
  qed
  then have "\<forall>x \<in> snd ` set (map ?touch live). session_ok n h x" unfolding set_map by blast
  moreover have "entry_ok h (map snd (map ?touch live)) c" if "entry_ok h (map snd live) c" for c
  proof -
    have "\<exists>y \<in> set (map snd (map ?touch live)). se_client y = se_client x \<and> holds h y = holds h x" if "(j, x) \<in> set live" for j x
    proof (rule bexI)
      show "snd (?touch (j, x)) \<in> set (map snd (map ?touch live))" unfolding list.set_map using that by (intro imageI)
    qed (use same that in \<open>auto simp: ok\<close>)
    then have "\<exists>y \<in> set (map snd (map ?touch live)). se_client y = se_client x \<and> holds h y = holds h x"
      if "x \<in> set (map snd live)" for x using that by fastforce
    with that show ?thesis by (rule entry_ok_sim)
  qed
  ultimately show ?thesis using inv unfolding sessions_inv_def tokens keys by blast
qed

lemma sessions_inv_timers:
  assumes "sessions_inv g n h live"
  shows "sessions_inv g n (expire i now h) live" "sessions_inv g n (fire i h) live"
proof -
  note inv = assms [unfolded sessions_inv_def]
  have same: "ph_closed (expire i now h) = ph_closed h" "ph_entries (expire i now h) = ph_entries h"
    by (simp_all add: expire_def)
  have "session_ok n (expire i now h) s" if "session_ok n h s" for s
    using that by (auto simp: session_ok_def attached_expire holds_frame superseded_closed [OF same(1)])
  moreover have "entry_ok (expire i now h) ss c \<longleftrightarrow> entry_ok h ss c" for ss c
    by (simp add: entry_ok_def ending_expire holds_frame same)
  ultimately show "sessions_inv g n (expire i now h) live"
    using inv timer_inv_expire reached_Expire by (auto simp: sessions_inv_def)
  have closed: "ph_closed (fire i h) = ph_closed h" by (simp add: fire_def)
  have "session_ok n (fire i h) s" if "session_ok n h s" for s
  proof (cases "attached h (se_token s) \<and> holds h s")
    case True
    then have a: "attached (fire i h) (se_token s)" by (simp add: attached_fire)
    with that have "ph_entries (fire i h) (se_client s) \<noteq> None" by (auto simp: attached_def session_ok_def)
    with True a that show ?thesis using holds_fire by (simp add: session_ok_def)
  qed (use that in \<open>auto simp: session_ok_def superseded_closed [OF closed]\<close>)
  moreover have "entry_ok (fire i h) ss c" if "entry_ok h ss c" for ss c
    using that ending_fire [of h c i] holds_fire [of h _ i]
    by (cases "ph_entries (fire i h) c = None")
      (auto simp: entry_ok_def fire_def fold_grace_expired_entries split: option.splits)
  ultimately show "sessions_inv g n (fire i h) live"
    using inv timer_inv_fire reached_Fire by (auto simp: sessions_inv_def)
qed

definition numbered_below :: "nat \<Rightarrow> (nat \<times> 'a) list \<Rightarrow> bool" where
  "numbered_below n live \<longleftrightarrow> (\<forall>i \<in> fst ` set live. i < n)"

lemma numbered_below_simps [simp]:
  "numbered_below n []" "numbered_below n ((i, s) # live) \<longleftrightarrow> i < n \<and> numbered_below n live"
  "numbered_below n live \<Longrightarrow> numbered_below (Suc n) live" "numbered_below n live \<Longrightarrow> numbered_below n (filter P live)"
  "numbered_below n (map (\<lambda>(j, x). (j, g j x)) live) = numbered_below n live"
  by (auto simp: numbered_below_def less_SucI image_iff)

lemma numbered_below_fresh: "numbered_below n live \<Longrightarrow> n \<notin> fst ` set live"
  by (auto simp: numbered_below_def)

text \<open>The invariant of a server whose hub is not nil, after \<open>n\<close> sessions have joined.\<close>

definition server_inv :: "duration \<Rightarrow> nat \<Rightarrow> ws_server \<Rightarrow> bool" where
  "server_inv g n sv \<longleftrightarrow>
     (case sv_hub sv of None \<Rightarrow> False | Some h \<Rightarrow> sessions_inv g n h (sv_live sv)) \<and>
     n \<le> sv_next sv \<and> numbered_below (sv_next sv) (sv_live sv)"

lemma server_inv_new: "server_inv g 0 (new_server db (Some (ph_New g)))"
  by (simp add: server_inv_def new_server_def sessions_inv_New)

lemma handshake_hub:
  assumes "handshake ck f now r hello rd db hub = Some ((db', hub'), out, res)"
  shows "(\<exists>code reason. res = Refused code reason) \<and> hub' = hub \<or>
    (\<exists>c tok ch. Connect hub c = Some (hub', tok, ch) \<and>
       res = Joined \<lparr>se_client = c, se_token = tok, se_supersede = ch, se_lastRead = now\<rparr>)"
  using assms by (auto simp: handshake_def Let_def split: if_splits prod.splits option.splits)

lemma handshake_total:
  assumes "reached g n h"
  shows "handshake ck f now r hello rd db (Some h) \<noteq> None"
proof -
  have "connect h c = None \<Longrightarrow> False" for c using connect_total [OF assms] by simp
  then show ?thesis by (auto simp: handshake_def Connect_def Let_def split: prod.splits option.splits)
qed

lemma server_inv_leave:
  assumes "server_inv g n sv" "live_session sv i = Some s"
  shows "server_inv g n (leave i s now sv)"
  using assms sessions_inv_leave [of g n _ "sv_live sv" i s now]
  by (auto simp: server_inv_def leave_def live_session_def Disconnect_def split: option.splits)

lemma server_inv_open:
  assumes inv: "server_inv g n sv" and room: "Suc (sv_next sv) < 2 ^ 64"
    and "ClientWS ck (Open f now r hello rd) sv = Some (sv', rep)"
  shows "\<exists>n'. server_inv g n' sv'"
proof -
  obtain h where h: "sv_hub sv = Some h" "sessions_inv g n h (sv_live sv)" "n \<le> sv_next sv"
    using inv by (auto simp: server_inv_def split: option.splits)
  obtain db' hub' out res where hs: "handshake ck f now r hello rd (sv_db sv) (Some h) = Some ((db', hub'), out, res)"
    using assms(3) h(1) by (auto split: option.splits)
  from handshake_hub [OF hs] show ?thesis
  proof (elim disjE exE conjE)
    fix code reason assume "res = Refused code reason" "hub' = Some h"
    with hs h inv assms(3) have "server_inv g n sv'" by (auto simp: server_inv_def less_SucI)
    then show ?thesis by blast
  next
    fix c tok ch
    assume j: "Connect (Some h) c = Some (hub', tok, ch)"
      "res = Joined \<lparr>se_client = c, se_token = tok, se_supersede = ch, se_lastRead = now\<rparr>"
    then obtain h' ch' where c: "connect h c = Some (h', tok, ch')" "hub' = Some h'" "ch = Some ch'"
      by (auto simp: Connect_def)
    have "sv_next sv \<notin> fst ` set (sv_live sv)" using inv numbered_below_fresh by (auto simp: server_inv_def)
    from sessions_inv_join [OF h(2) _ c(1) this] have "server_inv g (Suc n) sv'"
      using hs h inv assms(3) room j(2) c by (auto simp: server_inv_def less_SucI)
    then show ?thesis by blast
  qed
qed

lemma server_inv_step:
  assumes "server_inv g n sv" "Suc (sv_next sv) < 2 ^ 64" "ClientWS ck op sv = Some (sv', rep)"
  shows "\<exists>n'. server_inv g n' sv'"
proof (cases op)
  case (Open f now r hello rd)
  with server_inv_open assms show ?thesis by blast
next
  case (Read i now raw)
  show ?thesis
  proof (cases "live_session sv i")
    case (Some s)
    obtain h where h: "sv_hub sv = Some h" "sessions_inv g n h (sv_live sv)"
      using assms(1) by (auto simp: server_inv_def split: option.splits)
    have "server_inv g n (fst (clientWSReadLoop i s now sv))"
    proof (cases "se_lastRead s + clientWSIdleTimeout \<le> now")
      case False
      with sessions_inv_touch [OF h(2) Some [unfolded live_session_def]] assms(1) h(1) show ?thesis
        by (auto simp: clientWSReadLoop_def server_inv_def)
    qed (use server_inv_leave [OF assms(1) Some] in \<open>simp add: clientWSReadLoop_def\<close>)
    with Some Read assms(3) show ?thesis by (metis ClientWS.simps(2) fst_conv option.inject option.simps(5))
  qed (use assms Read in auto)
next
  case (GraceDue t now)
  with assms sessions_inv_timers(1) have "server_inv g n sv'" by (auto simp: server_inv_def split: option.splits)
  then show ?thesis by blast
next
  case (GraceRun t)
  with assms sessions_inv_timers(2) have "server_inv g n sv'" by (auto simp: server_inv_def split: option.splits)
  then show ?thesis by blast
qed (use assms server_inv_leave in \<open>auto split: option.splits if_splits intro!: exI [of _ n]\<close>)

lemma server_step_total: "server_inv g n sv \<Longrightarrow> ClientWS ck op sv \<noteq> None"
proof (cases op)
  case (Open f now r hello rd)
  assume "server_inv g n sv"
  then obtain h where "sv_hub sv = Some h" "reached g n h"
    by (auto simp: server_inv_def sessions_inv_def split: option.splits)
  with handshake_total Open show ?thesis by (auto split: prod.splits option.splits handshake_result.splits)
qed (auto split: option.splits)

lemma server_step_next: "ClientWS ck op sv = Some (sv', rep) \<Longrightarrow> sv_next sv' \<le> Suc (sv_next sv)"
  by (cases op) (auto simp: leave_def clientWSReadLoop_def split: option.splits prod.splits handshake_result.splits if_splits)

lemma server_inv_run:
  assumes "server_inv g n sv" "sv_next sv + length ops < 2 ^ 64"
  shows "\<exists>sv' n'. server_run ck ops sv = Some sv' \<and> server_inv g n' sv'"
  using assms
proof (induction ops arbitrary: n sv)
  case (Cons op ops)
  then obtain sv1 rep where s: "ClientWS ck op sv = Some (sv1, rep)"
    using server_step_total [OF Cons.prems(1), of ck op] by auto
  moreover obtain n1 where "server_inv g n1 sv1"
    using server_inv_step [OF Cons.prems(1) _ s] Cons.prems(2) by auto
  ultimately show ?case using Cons.IH [of n1 sv1] server_step_next [OF s] Cons.prems(2) by auto
qed auto

section \<open>Who is online\<close>

definition active_sessions :: "ws_server \<Rightarrow> int \<Rightarrow> ws_session list" where
  "active_sessions sv c = filter (\<lambda>s. se_client s = c \<and> \<not> superseded (sv_hub sv) s) (map snd (sv_live sv))"

definition grace_timers :: "presence ptr \<Rightarrow> int \<Rightarrow> timer list" where
  "grace_timers hub c = (case hub of None \<Rightarrow> [] | Some h \<Rightarrow> filter (\<lambda>t. t_client t = c) (timers h))"

lemma at_most_one_of_key:
  assumes "distinct (map f xs)" "\<And>x y. x \<in> set xs \<Longrightarrow> y \<in> set xs \<Longrightarrow> f x = f y"
  shows "length xs \<le> 1"
proof (rule ccontr)
  assume "\<not> length xs \<le> 1"
  then obtain a b ys where "xs = a # b # ys" by (cases xs rule: remdups_adj.cases) auto
  with assms(1) assms(2) [of a b] show False by simp
qed

text \<open>C12: Whatever handshakes, frames, silences, lost connections and timers a server goes through, it never panics,
  no client has more than one session that has not been replaced, a client with such a session is online, and a client
  that is online has one or is in its grace period.\<close>

theorem online_means_a_live_session_or_grace:
  assumes "length ops < 2 ^ 64"
  shows "\<exists>sv. server_run ck ops (new_server db (Some (ph_New g))) = Some sv \<and>
    length (active_sessions sv c) \<le> 1 \<and>
    (active_sessions sv c \<noteq> [] \<longrightarrow> Online (sv_hub sv) c) \<and>
    (Online (sv_hub sv) c \<longrightarrow> active_sessions sv c \<noteq> [] \<or> grace_timers (sv_hub sv) c \<noteq> [])"
proof -
  obtain sv n where sv: "server_run ck ops (new_server db (Some (ph_New g))) = Some sv" "server_inv g n sv"
    using server_inv_run [OF server_inv_new, of db g ops ck] assms by (auto simp: new_server_def)
  obtain h where h: "sv_hub sv = Some h" and inv: "sessions_inv g n h (sv_live sv)"
    using sv(2) by (auto simp: server_inv_def split: option.splits)
  note i = inv [unfolded sessions_inv_def]
  have active: "attached h (se_token s) \<and> holds h s \<and> tok_clientID (se_token s) = c" if "s \<in> set (active_sessions sv c)" for s
    using that i by (auto simp: active_sessions_def session_ok_def h)
  have "se_token s = se_token x" if "s \<in> set (active_sessions sv c)" "x \<in> set (active_sessions sv c)" for s x
    using active [OF that(1)] active [OF that(2)] that
    by (intro Token.equality) (auto simp: active_sessions_def holds_def split: option.splits)
  moreover have "distinct (map (\<lambda>x. se_token (snd x)) (sv_live sv))" using i by blast
  then have "distinct (map se_token (map snd (sv_live sv)))" by (simp add: comp_def)
  then have "distinct (map se_token (active_sessions sv c))" unfolding active_sessions_def by (rule distinct_map_filter)
  ultimately have "length (active_sessions sv c) \<le> 1" by (metis at_most_one_of_key)
  moreover have "Online (Some h) c" if "active_sessions sv c \<noteq> []"
    using active [of "hd (active_sessions sv c)"] that attached_Online by fastforce
  moreover have "active_sessions sv c \<noteq> [] \<or> grace_timers (Some h) c \<noteq> []" if "Online (Some h) c"
  proof (cases "ending h c")
    case True
    then show ?thesis by (auto simp: ending_def grace_timers_def list_ex_iff filter_empty_conv split: option.splits)
  next
    case False
    have "entry_ok h (map snd (sv_live sv)) c" using i by blast
    with False that obtain s where s: "s \<in> set (map snd (sv_live sv))" "se_client s = c" "holds h s"
      by (auto simp: entry_ok_def Online_def)
    have "chan_inv h" using i chan_inv_reached by blast
    with s(3) have "\<not> superseded (Some h) s"
      by (auto simp: holds_def superseded_def chan_inv_def split: option.splits)
    with s have "s \<in> set (active_sessions sv c)" by (auto simp: active_sessions_def h)
    then show ?thesis by auto
  qed
  ultimately show ?thesis using sv(1) h by auto
qed

definition sample_hello :: json where
  "sample_hello = JObj [(''type'', JStr ''identity''), (''data'', JObj [(''hostname'', JStr ''pc1''), (''ad_domain'', JStr ''corp'')])]"

definition no_headers :: request where
  "no_headers = \<lparr>r_Header = (\<lambda>_. []), r_RemoteAddr = []\<rparr>"

theorem online_means_a_live_session_or_grace_witness:
  "let op = Open no_faults 1 no_headers True (Frame (Some sample_hello))
   in \<exists>sv. server_run ToLower [op, op, Taken 0 2, Lost 1 3, GraceDue 0 9, GraceRun 0] (new_server sample_db (Some (ph_New 5))) = Some sv \<and>
     length (active_sessions sv 1) \<le> 1"
proof -
  let ?op = "Open no_faults 1 no_headers True (Frame (Some sample_hello))"
  show ?thesis
    using online_means_a_live_session_or_grace [of "[?op, ?op, Taken 0 2, Lost 1 3, GraceDue 0 9, GraceRun 0]" ToLower sample_db 5 1]
    unfolding Let_def by fastforce
qed

section \<open>The handshake\<close>

text \<open>A refused handshake touches nothing but, when the upsert failed, the rows it had already evicted.\<close>

lemma refused_handshake_leaves_no_trace:
  assumes "handshake ck f now r hello rd db hub = Some ((db', hub'), out, Refused code reason)"
  shows "hub' = hub \<and> (code = StatusPolicyViolation \<longrightarrow> db' = db)"
  using assms by (auto simp: handshake_def Let_def split: if_splits prod.splits option.splits)



end
