(* ===== verification/Schema_Migrator.thy ===== *)
theory Schema_Migrator
  imports Json_Tree
begin

text \<open>
  \<open>internal/database/schema/migrator.go\<close>: what \<open>main\<close> does to the schema at every start. The statements of a script and
  the meaning of SQL are the database's: \<open>dm_exec\<close> runs one statement (None is a refusal, which changes nothing) and
  \<open>dm_catalog\<close> is the \<open>information_schema\<close> of the schema. The embedded files are a parameter, the tasks file by its
  JSON value. \<open>f i\<close> is the failure of the \<open>i\<close>-th round trip to the database.
\<close>

section \<open>Tasks\<close>

record condition =
  co_Type :: string
  co_Table :: string
  co_Column :: string
  co_Index :: string

record task =
  tk_ID :: string
  tk_SQLFile :: string
  tk_Description :: string
  tk_Conditions :: "condition slice"

definition dec_condition :: "json \<Rightarrow> condition option" where
  "dec_condition j = do {
     kvs \<leftarrow> dec_struct j;
     v_Type \<leftarrow> dec_string (field_get ''type'' kvs);
     v_Table \<leftarrow> dec_string (field_get ''table'' kvs);
     v_Column \<leftarrow> dec_string (field_get ''column'' kvs);
     v_Index \<leftarrow> dec_string (field_get ''index'' kvs);
     Some \<lparr>co_Type = v_Type, co_Table = v_Table, co_Column = v_Column, co_Index = v_Index\<rparr>
   }"

definition dec_task :: "json \<Rightarrow> task option" where
  "dec_task j = do {
     kvs \<leftarrow> dec_struct j;
     v_ID \<leftarrow> dec_string (field_get ''id'' kvs);
     v_SQLFile \<leftarrow> dec_string (field_get ''sql_file'' kvs);
     v_Description \<leftarrow> dec_string (field_get ''description'' kvs);
     v_Conditions \<leftarrow> dec_list dec_condition (field_get ''conditions'' kvs);
     Some \<lparr>tk_ID = v_ID, tk_SQLFile = v_SQLFile, tk_Description = v_Description, tk_Conditions = v_Conditions\<rparr>
   }"

definition dec_taskFile :: "json \<Rightarrow> task list option" where
  "dec_taskFile j = do { kvs \<leftarrow> dec_struct j; ts \<leftarrow> dec_list dec_task (field_get ''tasks'' kvs); Some (elems ts) }"

record embedded =
  em_init :: "string option"
  em_tasks :: "json option option"
  em_script :: "string \<Rightarrow> string option"

definition splitStatements :: "string \<Rightarrow> string list" where
  "splitStatements sql = filter (\<lambda>s. s \<noteq> []) (map TrimSpace (Split (CHR '';'') sql))"

section \<open>The database\<close>

record catalog =
  ct_columns :: "(string \<times> string) list"
  ct_indexes :: "(string \<times> string) list"
  ct_tables :: "string list"

record 'db dbms =
  dm_collate :: "string \<Rightarrow> string"
  dm_exec :: "string \<Rightarrow> 'db \<Rightarrow> 'db option"
  dm_catalog :: "'db \<Rightarrow> catalog"

text \<open>The connection: the database and the number of round trips made.\<close>

record 'db conn =
  mc_db :: 'db
  mc_trips :: nat

definition count_query :: "faults \<Rightarrow> ('db \<Rightarrow> bool) \<Rightarrow> 'db conn \<Rightarrow> 'db conn \<times> bool option" where
  "count_query f q c = (c\<lparr>mc_trips := Suc (mc_trips c)\<rparr>, if f (mc_trips c) then None else Some (q (mc_db c)))"

definition same_pair :: "('db, 'x) dbms_scheme \<Rightarrow> string \<times> string \<Rightarrow> string \<times> string \<Rightarrow> bool" where
  "same_pair dm p q \<longleftrightarrow> dm_collate dm (fst p) = dm_collate dm (fst q) \<and> dm_collate dm (snd p) = dm_collate dm (snd q)"

definition has_column :: "'db dbms \<Rightarrow> string \<Rightarrow> string \<Rightarrow> 'db \<Rightarrow> bool" where
  "has_column dm tbl col db = list_ex (same_pair dm (tbl, col)) (ct_columns (dm_catalog dm db))"

definition has_index :: "'db dbms \<Rightarrow> string \<Rightarrow> string \<Rightarrow> 'db \<Rightarrow> bool" where
  "has_index dm tbl idx db = list_ex (same_pair dm (tbl, idx)) (ct_indexes (dm_catalog dm db))"

definition has_table :: "'db dbms \<Rightarrow> string \<Rightarrow> 'db \<Rightarrow> bool" where
  "has_table dm tbl db = list_ex (\<lambda>t. dm_collate dm t = dm_collate dm tbl) (ct_tables (dm_catalog dm db))"

definition columnExists :: "'db dbms \<Rightarrow> faults \<Rightarrow> string \<Rightarrow> string \<Rightarrow> 'db conn \<Rightarrow> 'db conn \<times> bool option" where
  "columnExists dm f tbl col = count_query f (has_column dm tbl col)"

definition indexExists :: "'db dbms \<Rightarrow> faults \<Rightarrow> string \<Rightarrow> string \<Rightarrow> 'db conn \<Rightarrow> 'db conn \<times> bool option" where
  "indexExists dm f tbl idx = count_query f (has_index dm tbl idx)"

definition tableExists :: "'db dbms \<Rightarrow> faults \<Rightarrow> string \<Rightarrow> 'db conn \<Rightarrow> 'db conn \<times> bool option" where
  "tableExists dm f tbl = count_query f (has_table dm tbl)"

definition schemaIsEmpty :: "'db dbms \<Rightarrow> faults \<Rightarrow> 'db conn \<Rightarrow> 'db conn \<times> bool option" where
  "schemaIsEmpty dm f = count_query f (\<lambda>db. ct_tables (dm_catalog dm db) = [])"

section \<open>Conditions\<close>

text \<open>None is an error.\<close>

definition negated :: "'c \<times> bool option \<Rightarrow> 'c \<times> bool option" where
  "negated r = (fst r, map_option Not (snd r))"

definition evaluate :: "'db dbms \<Rightarrow> faults \<Rightarrow> condition \<Rightarrow> 'db conn \<Rightarrow> 'db conn \<times> bool option" where
  "evaluate dm f c cn =
     (if co_Type c = ''column_not_exists'' then negated (columnExists dm f (co_Table c) (co_Column c) cn)
      else if co_Type c = ''column_exists'' then columnExists dm f (co_Table c) (co_Column c) cn
      else if co_Type c = ''index_not_exists'' then negated (indexExists dm f (co_Table c) (co_Index c) cn)
      else if co_Type c = ''index_exists'' then indexExists dm f (co_Table c) (co_Index c) cn
      else if co_Type c = ''table_not_exists'' then negated (tableExists dm f (co_Table c) cn)
      else if co_Type c = ''table_exists'' then tableExists dm f (co_Table c) cn
      else (cn, None))"

fun shouldRun :: "'db dbms \<Rightarrow> faults \<Rightarrow> condition list \<Rightarrow> 'db conn \<Rightarrow> 'db conn \<times> bool option" where
  "shouldRun dm f [] cn = (cn, Some False)"
| "shouldRun dm f (c # cs) cn =
     (case evaluate dm f c cn of
        (cn', None) \<Rightarrow> (cn', None)
      | (cn', Some True) \<Rightarrow> (cn', Some True)
      | (cn', Some False) \<Rightarrow> shouldRun dm f cs cn')"

section \<open>Migration\<close>

datatype migrate_error =
    CheckEmpty | ReadInit | ExecInit string | CheckTable string | ReadTasks | ParseTasks
  | Conditions string | ReadScript string | ExecTask string string

text \<open>The statement that was refused, if one was.\<close>

fun exec_all :: "'db dbms \<Rightarrow> faults \<Rightarrow> string list \<Rightarrow> 'db conn \<Rightarrow> 'db conn \<times> string option" where
  "exec_all dm f [] cn = (cn, None)"
| "exec_all dm f (s # ss) cn =
     (case (if f (mc_trips cn) then None else dm_exec dm s (mc_db cn)) of
        None \<Rightarrow> (cn\<lparr>mc_trips := Suc (mc_trips cn)\<rparr>, Some s)
      | Some db \<Rightarrow> exec_all dm f ss \<lparr>mc_db = db, mc_trips = Suc (mc_trips cn)\<rparr>)"

definition run_init :: "'db dbms \<Rightarrow> faults \<Rightarrow> embedded \<Rightarrow> 'db conn \<Rightarrow> 'db conn \<times> migrate_error option" where
  "run_init dm f em cn =
     (case em_init em of
        None \<Rightarrow> (cn, Some ReadInit)
      | Some sql \<Rightarrow> (case exec_all dm f (splitStatements sql) cn of
          (cn', failed) \<Rightarrow> (cn', map_option ExecInit failed)))"

definition expected_tables :: "string list" where
  "expected_tables = [''bug_reports'', ''bug_report_files'', ''rate_limit_hwid'', ''user'', ''session'']"

text \<open>The tables found, or the one whose query failed.\<close>

fun find_tables :: "'db dbms \<Rightarrow> faults \<Rightarrow> string list \<Rightarrow> 'db conn \<Rightarrow> 'db conn \<times> (string + string list)" where
  "find_tables dm f [] cn = (cn, Inr [])"
| "find_tables dm f (t # ts) cn =
     (case tableExists dm f t cn of
        (cn', None) \<Rightarrow> (cn', Inl t)
      | (cn', Some found) \<Rightarrow>
          (case find_tables dm f ts cn' of
             (cn'', Inl e) \<Rightarrow> (cn'', Inl e)
           | (cn'', Inr rest) \<Rightarrow> (cn'', Inr (if found then t # rest else rest))))"

definition bootstrap :: "'db dbms \<Rightarrow> faults \<Rightarrow> embedded \<Rightarrow> 'db conn \<Rightarrow> 'db conn \<times> migrate_error option" where
  "bootstrap dm f em cn =
     (case schemaIsEmpty dm f cn of
        (cn', None) \<Rightarrow> (cn', Some CheckEmpty)
      | (cn', Some True) \<Rightarrow> run_init dm f em cn'
      | (cn', Some False) \<Rightarrow>
          (case find_tables dm f expected_tables cn' of
             (cn'', Inl t) \<Rightarrow> (cn'', Some (CheckTable t))
           | (cn'', Inr foundTables) \<Rightarrow>
               if length foundTables \<noteq> length expected_tables then run_init dm f em cn'' else (cn'', None)))"

fun run_tasks :: "'db dbms \<Rightarrow> faults \<Rightarrow> embedded \<Rightarrow> task list \<Rightarrow> 'db conn \<Rightarrow> 'db conn \<times> migrate_error option" where
  "run_tasks dm f em [] cn = (cn, None)"
| "run_tasks dm f em (t # ts) cn =
     (case shouldRun dm f (elems (tk_Conditions t)) cn of
        (cn', None) \<Rightarrow> (cn', Some (Conditions (tk_ID t)))
      | (cn', Some False) \<Rightarrow> run_tasks dm f em ts cn'
      | (cn', Some True) \<Rightarrow>
          (case em_script em (tk_SQLFile t) of
             None \<Rightarrow> (cn', Some (ReadScript (tk_SQLFile t)))
           | Some sql \<Rightarrow>
               (case exec_all dm f (splitStatements sql) cn' of
                  (cn'', Some s) \<Rightarrow> (cn'', Some (ExecTask (tk_ID t) s))
                | (cn'', None) \<Rightarrow> run_tasks dm f em ts cn'')))"

text \<open>None is success.\<close>

definition Migrate :: "'db dbms \<Rightarrow> faults \<Rightarrow> embedded \<Rightarrow> 'db \<Rightarrow> 'db \<times> migrate_error option" where
  "Migrate dm f em db =
     (case bootstrap dm f em \<lparr>mc_db = db, mc_trips = 0\<rparr> of
        (cn, Some e) \<Rightarrow> (mc_db cn, Some e)
      | (cn, None) \<Rightarrow>
          (case em_tasks em of
             None \<Rightarrow> (mc_db cn, Some ReadTasks)
           | Some raw \<Rightarrow>
               (case Option.bind raw dec_taskFile of
                  None \<Rightarrow> (mc_db cn, Some ParseTasks)
                | Some tasks \<Rightarrow> (case run_tasks dm f em tasks cn of (cn', e) \<Rightarrow> (mc_db cn', e)))))"

end
