(* ===== verification/Schema_Properties.thy ===== *)
theory Schema_Properties
  imports Schema_Migrator
begin

text \<open>
  What a start does to the schema: a script is cut into its statements, a start after a successful one changes nothing
  as long as the scripts do what their conditions ask for, and a script that was half applied is run again.
\<close>

section \<open>Scripts\<close>

text \<open>A script as it is written: statements with blanks around them, each closed by a semicolon.\<close>

definition blank :: "string \<Rightarrow> bool" where
  "blank s \<longleftrightarrow> list_all is_space s"

definition script_of :: "(string \<times> string \<times> string) list \<Rightarrow> string \<Rightarrow> string" where
  "script_of stmts tail = concat (map (\<lambda>(pre, s, post). pre @ s @ post @ '';'') stmts) @ tail"

definition statement_ok :: "string \<times> string \<times> string \<Rightarrow> bool" where
  "statement_ok p \<longleftrightarrow> (case p of (pre, s, post) \<Rightarrow>
     blank pre \<and> blank post \<and> s \<noteq> [] \<and> TrimSpace s = s \<and> CHR '';'' \<notin> set s)"

lemma dropWhile_blank: "blank b \<Longrightarrow> dropWhile is_space (b @ s) = dropWhile is_space s"
  by (induction b) (auto simp: blank_def)

lemma TrimSpace_front: "TrimSpace s = s \<Longrightarrow> dropWhile is_space s = s"
proof (cases s)
  case (Cons c cs)
  moreover assume t: "TrimSpace s = s"
  moreover have "length (TrimSpace s) \<le> length (dropWhile is_space s)"
    unfolding TrimSpace_def by (metis length_dropWhile_le length_rev)
  ultimately show ?thesis using length_dropWhile_le [of is_space cs] by (auto split: if_splits)
qed simp

lemma TrimSpace_back: "TrimSpace s = s \<Longrightarrow> dropWhile is_space (rev s) = rev s"
  using TrimSpace_front [of s] by (simp add: TrimSpace_def) (metis rev_rev_ident)

lemma TrimSpace_blank: "blank b \<Longrightarrow> TrimSpace b = []"
  by (simp add: TrimSpace_def blank_def list_all_iff dropWhile_eq_Nil_conv set_dropWhileD)

lemma blank_rev: "blank (rev b) = blank b"
  by (simp add: blank_def list_all_iff)

lemma TrimSpace_around:
  assumes "blank b" "blank e" "TrimSpace s = s" "s \<noteq> []"
  shows "TrimSpace (b @ s @ e) = s"
proof -
  obtain c cs where s: "s = c # cs" "\<not> is_space c"
    using TrimSpace_front [OF assms(3)] assms(4) by (metis hd_dropWhile list.exhaust_sel)
  then have "dropWhile is_space (b @ s @ e) = s @ e" by (simp add: dropWhile_blank [OF assms(1)])
  then show ?thesis
    using dropWhile_blank [of "rev e" "rev s"] TrimSpace_back [OF assms(3)] assms(2) by (simp add: TrimSpace_def blank_rev)
qed

lemma Split_closed: "c \<notin> set s \<Longrightarrow> Split c (s @ c # t) = s # Split c t"
  by (induction s) auto

lemma blank_no_semicolon: "blank b \<Longrightarrow> CHR '';'' \<notin> set b"
  by (auto simp: blank_def list_all_iff is_space_def Let_def)



section \<open>Conditions\<close>

text \<open>What a condition asks of the schema; None is a condition of unknown type.\<close>

definition condition_met :: "'db dbms \<Rightarrow> 'db \<Rightarrow> condition \<Rightarrow> bool option" where
  "condition_met dm db c =
     (if co_Type c = ''column_not_exists'' then Some (\<not> has_column dm (co_Table c) (co_Column c) db)
      else if co_Type c = ''column_exists'' then Some (has_column dm (co_Table c) (co_Column c) db)
      else if co_Type c = ''index_not_exists'' then Some (\<not> has_index dm (co_Table c) (co_Index c) db)
      else if co_Type c = ''index_exists'' then Some (has_index dm (co_Table c) (co_Index c) db)
      else if co_Type c = ''table_not_exists'' then Some (\<not> has_table dm (co_Table c) db)
      else if co_Type c = ''table_exists'' then Some (has_table dm (co_Table c) db)
      else None)"

lemma evaluate_met:
  assumes "evaluate dm f c cn = (cn', r)"
  shows "mc_db cn' = mc_db cn" "r = None \<or> r = condition_met dm (mc_db cn) c"
  using assms
  by (auto simp: evaluate_def condition_met_def columnExists_def indexExists_def tableExists_def count_query_def negated_def
      split: if_splits)

lemma evaluate_answers:
  "\<forall>i. \<not> f i \<Longrightarrow> snd (evaluate dm f c cn) = condition_met dm (mc_db cn) c"
  by (simp add: evaluate_def condition_met_def columnExists_def indexExists_def tableExists_def count_query_def negated_def)

definition quiet :: "'db dbms \<Rightarrow> 'db \<Rightarrow> task \<Rightarrow> bool" where
  "quiet dm db t \<longleftrightarrow> list_all (\<lambda>c. condition_met dm db c = Some False) (elems (tk_Conditions t))"

lemma shouldRun_db: "shouldRun dm f cs cn = (cn', r) \<Longrightarrow> mc_db cn' = mc_db cn"
proof (induction cs arbitrary: cn)
  case (Cons c cs)
  obtain cn1 r1 where e: "evaluate dm f c cn = (cn1, r1)" by fastforce
  with Cons.prems Cons.IH [of cn1] evaluate_met(1) [OF e] show ?case by (auto split: option.splits bool.splits)
qed simp

lemma shouldRun_quiet:
  assumes "list_all (\<lambda>c. condition_met dm (mc_db cn) c = Some False) cs" "shouldRun dm f cs cn = (cn', r)"
  shows "r \<noteq> Some True"
  using assms
proof (induction cs arbitrary: cn)
  case (Cons c cs)
  obtain cn1 r1 where e: "evaluate dm f c cn = (cn1, r1)" by fastforce
  with Cons.prems Cons.IH [of cn1] evaluate_met [OF e] show ?case by (auto split: option.splits bool.splits)
qed auto

text \<open>Without failures a task runs as soon as one of its conditions is met, if those before it are of a known type.\<close>

lemma shouldRun_answers:
  assumes "\<forall>i. \<not> f i" "list_all (\<lambda>c. condition_met dm (mc_db cn) c \<noteq> None) cs"
  shows "snd (shouldRun dm f cs cn) = Some (list_ex (\<lambda>c. condition_met dm (mc_db cn) c = Some True) cs)"
  using assms(2)
proof (induction cs arbitrary: cn)
  case (Cons c cs)
  obtain cn1 r1 where e: "evaluate dm f c cn = (cn1, r1)" by fastforce
  with evaluate_answers [OF assms(1), of dm c cn] Cons.prems Cons.IH [of cn1] evaluate_met(1) [OF e] show ?case
    by (auto split: option.splits bool.splits)
qed simp

section \<open>Starting again\<close>

definition present :: "'db dbms \<Rightarrow> 'db \<Rightarrow> bool" where
  "present dm db \<longleftrightarrow> list_all (\<lambda>t. has_table dm t db) expected_tables"

lemma find_tables_db: "find_tables dm f ts cn = (cn', r) \<Longrightarrow> mc_db cn' = mc_db cn"
  by (induction ts arbitrary: cn cn' r)
    (fastforce simp: tableExists_def count_query_def split: prod.splits option.splits sum.splits if_splits)+

lemma find_tables_present:
  "list_all (\<lambda>t. has_table dm t (mc_db cn)) ts \<Longrightarrow> find_tables dm f ts cn = (cn', Inr r) \<Longrightarrow> r = ts"
proof (induction ts arbitrary: cn r)
  case (Cons t ts)
  let ?cn1 = "cn\<lparr>mc_trips := Suc (mc_trips cn)\<rparr>"
  obtain cn2 r2 where ft: "find_tables dm f ts ?cn1 = (cn2, r2)" by fastforce
  with Cons.prems Cons.IH [of ?cn1] show ?case
    by (auto simp: tableExists_def count_query_def split: sum.splits if_splits)
qed simp

lemma find_tables_total: "\<forall>i. \<not> f i \<Longrightarrow> \<exists>r. snd (find_tables dm f ts cn) = Inr r"
  by (induction ts arbitrary: cn) (auto simp: tableExists_def count_query_def split: prod.splits sum.splits, metis snd_conv sum.distinct(1))

lemma present_nonempty: "present dm db \<Longrightarrow> ct_tables (dm_catalog dm db) \<noteq> []"
  by (auto simp: present_def expected_tables_def has_table_def)

lemma bootstrap_present:
  assumes "present dm (mc_db cn)" "bootstrap dm f em cn = (cn', e)"
  shows "mc_db cn' = mc_db cn" "\<forall>i. \<not> f i \<Longrightarrow> e = None"
proof -
  let ?cn1 = "cn\<lparr>mc_trips := Suc (mc_trips cn)\<rparr>"
  obtain cn2 r where ft: "find_tables dm f expected_tables ?cn1 = (cn2, r)" by fastforce
  have "mc_db cn2 = mc_db cn" using find_tables_db [OF ft] by simp
  moreover have "r = Inr ts \<Longrightarrow> ts = expected_tables" for ts
    using find_tables_present [of dm ?cn1 expected_tables f cn2 ts] ft assms(1) by (simp add: present_def)
  moreover have "\<exists>ts. r = Inr ts" if "\<forall>i. \<not> f i"
    using find_tables_total [of f dm expected_tables ?cn1] ft that by simp
  ultimately show "mc_db cn' = mc_db cn" "\<forall>i. \<not> f i \<Longrightarrow> e = None"
    using assms(2) present_nonempty [OF assms(1)] ft
    by (auto simp: bootstrap_def schemaIsEmpty_def count_query_def split: sum.splits if_splits)
qed

lemma run_tasks_quiet:
  assumes "list_all (quiet dm (mc_db cn)) ts" "run_tasks dm f em ts cn = (cn', e)"
  shows "mc_db cn' = mc_db cn \<and> ((\<forall>i. \<not> f i) \<longrightarrow> e = None)"
  using assms
proof (induction ts arbitrary: cn)
  case (Cons t ts)
  obtain cn1 r where s: "shouldRun dm f (elems (tk_Conditions t)) cn = (cn1, r)" by fastforce
  have q: "list_all (\<lambda>c. condition_met dm (mc_db cn) c = Some False) (elems (tk_Conditions t))"
    using Cons.prems(1) by (simp add: quiet_def)
  have "r \<noteq> Some True" by (rule shouldRun_quiet [OF q s])
  moreover have "r \<noteq> None" if "\<forall>i. \<not> f i"
    using shouldRun_answers [of f dm cn "elems (tk_Conditions t)"] q s that by (auto simp: list_all_iff)
  moreover have "mc_db cn1 = mc_db cn" by (rule shouldRun_db [OF s])
  moreover from this Cons.prems(1) have "run_tasks dm f em ts cn1 = (cn', e) \<Longrightarrow> mc_db cn' = mc_db cn \<and> ((\<forall>i. \<not> f i) \<longrightarrow> e = None)"
    using Cons.IH [of cn1] by simp
  ultimately show ?case using Cons.prems(2) s by (cases r) (auto split: bool.splits)
qed simp

lemma exec_all_db:
  assumes "\<And>s d d'. s \<in> set ss \<Longrightarrow> dm_exec dm s d = Some d' \<Longrightarrow> P d \<Longrightarrow> P d'" "P (mc_db cn)" "exec_all dm f ss cn = (cn', e)"
  shows "P (mc_db cn')"
  using assms
proof (induction ss arbitrary: cn)
  case (Cons s ss)
  show ?case
  proof (cases "if f (mc_trips cn) then None else dm_exec dm s (mc_db cn)")
    case (Some d)
    then have "dm_exec dm s (mc_db cn) = Some d" by (simp split: if_splits)
    from Cons.prems(1) [OF _ this Cons.prems(2)] have "P d" by simp
    moreover have "exec_all dm f ss \<lparr>mc_db = d, mc_trips = Suc (mc_trips cn)\<rparr> = (cn', e)" using Cons.prems(3) Some by simp
    ultimately show ?thesis
      using Cons.IH [of "\<lparr>mc_db = d, mc_trips = Suc (mc_trips cn)\<rparr>"] Cons.prems(1) by (metis conn.select_convs(1) list.set_intros(2))
  qed (use Cons.prems in auto)
qed simp

lemma shouldRun_false:
  "shouldRun dm f cs cn = (cn', Some False) \<Longrightarrow> list_all (\<lambda>c. condition_met dm (mc_db cn) c = Some False) cs"
proof (induction cs arbitrary: cn)
  case (Cons c cs)
  obtain cn1 r1 where e: "evaluate dm f c cn = (cn1, r1)" by fastforce
  with Cons.prems Cons.IH [of cn1] evaluate_met [OF e] show ?case by (auto split: option.splits bool.splits)
qed simp

text \<open>What the scripts are written to do: a script that runs to its end leaves no condition of its task met, and no
  statement of any script brings back a condition of another task or drops an expected table; \<open>init.sql\<close> creates the
  expected tables.\<close>

definition scripts_settle :: "'db dbms \<Rightarrow> embedded \<Rightarrow> task list \<Rightarrow> bool" where
  "scripts_settle dm em tasks \<longleftrightarrow>
     (\<forall>t \<in> set tasks. \<forall>sql f cn cn'. em_script em (tk_SQLFile t) = Some sql \<longrightarrow>
        exec_all dm f (splitStatements sql) cn = (cn', None) \<longrightarrow> quiet dm (mc_db cn') t)"

definition scripts_keep :: "'db dbms \<Rightarrow> embedded \<Rightarrow> task list \<Rightarrow> bool" where
  "scripts_keep dm em tasks \<longleftrightarrow>
     (\<forall>t \<in> set tasks. \<forall>sql. em_script em (tk_SQLFile t) = Some sql \<longrightarrow>
        (\<forall>s \<in> set (splitStatements sql). \<forall>d d'. dm_exec dm s d = Some d' \<longrightarrow>
           (present dm d \<longrightarrow> present dm d') \<and> (\<forall>u \<in> set tasks. quiet dm d u \<longrightarrow> quiet dm d' u)))"

definition init_creates :: "'db dbms \<Rightarrow> embedded \<Rightarrow> bool" where
  "init_creates dm em \<longleftrightarrow>
     (\<forall>sql f cn cn'. em_init em = Some sql \<longrightarrow> exec_all dm f (splitStatements sql) cn = (cn', None) \<longrightarrow> present dm (mc_db cn'))"

lemma find_tables_all:
  "find_tables dm f ts cn = (cn', Inr r) \<Longrightarrow> length r \<le> length ts \<and> (length r = length ts \<longrightarrow> list_all (\<lambda>t. has_table dm t (mc_db cn)) ts)"
proof (induction ts arbitrary: cn r)
  case (Cons t ts)
  let ?cn1 = "cn\<lparr>mc_trips := Suc (mc_trips cn)\<rparr>"
  obtain cn2 r2 where ft: "find_tables dm f ts ?cn1 = (cn2, r2)" by fastforce
  with Cons.prems Cons.IH [of ?cn1] show ?case
    by (auto simp: tableExists_def count_query_def split: sum.splits if_splits)
qed simp

lemma bootstrap_creates:
  assumes "init_creates dm em" "bootstrap dm f em cn = (cn', None)"
  shows "present dm (mc_db cn')"
proof -
  let ?cn1 = "cn\<lparr>mc_trips := Suc (mc_trips cn)\<rparr>"
  have init: "present dm (mc_db c')" if "run_init dm f em c = (c', None)" for c c'
    using that assms(1) by (auto simp: run_init_def init_creates_def split: option.splits prod.splits)
  obtain cn2 r where ft: "find_tables dm f expected_tables ?cn1 = (cn2, r)" by fastforce
  show ?thesis
  proof (cases "\<exists>ts. r = Inr ts \<and> length ts = length expected_tables")
    case True
    then obtain ts where "r = Inr ts" "length ts = length expected_tables" by blast
    with find_tables_all [of dm f expected_tables ?cn1 cn2 ts] ft find_tables_db [OF ft] assms(2) init show ?thesis
      by (auto simp: bootstrap_def schemaIsEmpty_def count_query_def present_def split: if_splits bool.splits)
  next
    case False
    with ft assms(2) init show ?thesis
      by (auto simp: bootstrap_def schemaIsEmpty_def count_query_def split: if_splits sum.splits bool.splits)
  qed
qed

lemma run_tasks_settle:
  assumes "scripts_settle dm em all" "scripts_keep dm em all" "set ts \<subseteq> set all" "present dm (mc_db cn)"
    and "list_all (quiet dm (mc_db cn)) us" "set us \<subseteq> set all" "run_tasks dm f em ts cn = (cn', None)"
  shows "present dm (mc_db cn') \<and> list_all (quiet dm (mc_db cn')) (us @ ts)"
  using assms(3-)
proof (induction ts arbitrary: us cn)
  case (Cons t ts)
  obtain cn1 r where s: "shouldRun dm f (elems (tk_Conditions t)) cn = (cn1, r)" by fastforce
  have db: "mc_db cn1 = mc_db cn" by (rule shouldRun_db [OF s])
  have "\<exists>cn2. run_tasks dm f em ts cn2 = (cn', None) \<and> present dm (mc_db cn2) \<and> list_all (quiet dm (mc_db cn2)) (us @ [t])"
  proof (cases r)
    case None
    with s Cons.prems show ?thesis by simp
  next
    case (Some needed)
    show ?thesis
    proof (cases needed)
      case False
      with Some s have "quiet dm (mc_db cn) t" using shouldRun_false [of dm f "elems (tk_Conditions t)" cn cn1] by (simp add: quiet_def)
      with False Some s db Cons.prems show ?thesis by auto
    next
      case True
      with Some s Cons.prems(5) obtain sql cn2 where sql: "em_script em (tk_SQLFile t) = Some sql"
          "exec_all dm f (splitStatements sql) cn1 = (cn2, None)" "run_tasks dm f em ts cn2 = (cn', None)"
        by (auto split: option.splits prod.splits)
      have t: "t \<in> set all" using Cons.prems(1) by simp
      let ?P = "\<lambda>d. present dm d \<and> list_all (quiet dm d) us"
      have "?P (mc_db cn2)"
      proof (rule exec_all_db [OF _ _ sql(2)])
        fix st d d' assume "st \<in> set (splitStatements sql)" "dm_exec dm st d = Some d'" "?P d"
        then show "?P d'" using assms(2) t sql(1) Cons.prems(4) unfolding scripts_keep_def list_all_iff by blast
      qed (use Cons.prems db in simp)
      moreover have "quiet dm (mc_db cn2) t" using assms(1) t sql unfolding scripts_settle_def by blast
      ultimately show ?thesis using sql(3) by auto
    qed
  qed
  then show ?case using Cons.IH [of _ "us @ [t]"] Cons.prems by fastforce
qed simp


text \<open>A schema with one column to add: the database is whether it was added.\<close>

definition sample_dbms :: "bool dbms" where
  "sample_dbms =
     \<lparr>dm_collate = (\<lambda>s. s), dm_exec = (\<lambda>s db. if s = ''ADD x'' then (if db then None else Some True) else Some db),
      dm_catalog = (\<lambda>db. \<lparr>ct_columns = (if db then [(''user'', ''x'')] else []), ct_indexes = [], ct_tables = expected_tables\<rparr>)\<rparr>"

definition sample_task :: task where
  "sample_task = \<lparr>tk_ID = ''1'', tk_SQLFile = ''1.sql'', tk_Description = [],
     tk_Conditions = Some [\<lparr>co_Type = ''column_not_exists'', co_Table = ''user'', co_Column = ''x'', co_Index = []\<rparr>]\<rparr>"

definition sample_tasks :: json where
  "sample_tasks = JObj [(''tasks'', JArr [JObj [(''id'', JStr ''1''), (''sql_file'', JStr ''1.sql''),
     (''conditions'', JArr [JObj [(''type'', JStr ''column_not_exists''), (''table'', JStr ''user''), (''column'', JStr ''x'')]])]])]"

definition sample_embedded :: embedded where
  "sample_embedded = \<lparr>em_init = None, em_tasks = Some (Some sample_tasks), em_script = (\<lambda>_. Some ''ADD x;'')\<rparr>"

lemma sample_script: "splitStatements ''ADD x;'' = [''ADD x'']"
  by code_simp

lemma sample_quiet: "quiet sample_dbms d sample_task = d"
  by (simp add: quiet_def sample_task_def condition_met_def has_column_def sample_dbms_def same_pair_def)

lemma sample_dec: "dec_taskFile sample_tasks = Some [sample_task]"
  by code_simp

lemma sample_first_start: "Migrate sample_dbms no_faults sample_embedded False = (True, None)"
  by code_simp


text \<open>The conditions of a task are alternatives, so a task whose script stopped half-way runs from its first statement
  again. When the database refuses to repeat that statement, as MySQL refuses to add a column twice, no start gets past
  the task: the schema stays as it is and so does the error.\<close>

lemma half_applied_task_blocks_every_start:
  assumes "em_tasks em = Some (Some j)" "dec_taskFile j = Some (qs @ t # ts)" "present dm db" "list_all (quiet dm db) qs"
    and "list_all (\<lambda>c. condition_met dm db c \<noteq> None) (elems (tk_Conditions t))"
    and "list_ex (\<lambda>c. condition_met dm db c = Some True) (elems (tk_Conditions t))"
    and "em_script em (tk_SQLFile t) = Some sql" "splitStatements sql = s # ss" "dm_exec dm s db = None"
  shows "Migrate dm no_faults em db = (db, Some (ExecTask (tk_ID t) s))"
proof -
  have run: "\<exists>cn'. run_tasks dm f em (qs @ t # ts) cn = (cn', Some (ExecTask (tk_ID t) s)) \<and> mc_db cn' = db"
    if "\<forall>i. \<not> f i" "mc_db cn = db" for f cn
    using assms(4) that(2)
  proof (induction qs arbitrary: cn)
    case Nil
    obtain cn1 r where r: "shouldRun dm f (elems (tk_Conditions t)) cn = (cn1, r)" by fastforce
    have "r = Some True"
      using shouldRun_answers [OF that(1), of dm cn "elems (tk_Conditions t)"] r assms(5,6) Nil by simp
    moreover have "exec_all dm f (s # ss) cn1 = (cn1\<lparr>mc_trips := Suc (mc_trips cn1)\<rparr>, Some s)"
      using assms(9) shouldRun_db [OF r] Nil by simp
    ultimately show ?case using r assms(7,8) shouldRun_db [OF r] Nil by simp
  next
    case (Cons q qs)
    obtain cn1 r where r: "shouldRun dm f (elems (tk_Conditions q)) cn = (cn1, r)" by fastforce
    have "list_all (\<lambda>c. condition_met dm (mc_db cn) c = Some False) (elems (tk_Conditions q))"
      using Cons.prems by (simp add: quiet_def)
    then have "r = Some False"
      using shouldRun_answers [OF that(1), of dm cn "elems (tk_Conditions q)"] r by (auto simp: list_all_iff list_ex_iff)
    with r Cons shouldRun_db [OF r] show ?case by simp
  qed
  obtain cn1 e1 where b: "bootstrap dm no_faults em \<lparr>mc_db = db, mc_trips = 0\<rparr> = (cn1, e1)" by fastforce
  have "mc_db cn1 = db" "e1 = None" using bootstrap_present [OF _ b] assms(3) by auto
  with run [of no_faults cn1] b assms(1,2) show ?thesis by (auto simp: Migrate_def)
qed

end
