(* ===== verification/Request_Log.thy ===== *)
theory Request_Log
  imports Updater_Identity
begin

text \<open>
  What a request leaves in the log: \<open>internal/middleware/accesslog.go\<close>, \<open>internal/timing/timing.go\<close> with
  \<open>internal/middleware/timing.go\<close>, \<open>internal/updates/download.go\<close>, and
  the warning of \<open>internal/routes/v1/v1.go\<close>. A log line is its level, its message and its
  fields; how a duration or a rate is printed is left to the logger, so those fields hold the value.
\<close>

datatype log_level = LevelDebug | LevelInfo | LevelWarn

datatype 'err log_value =
    LString string
  | LInt int
  | LDuration duration
  | LErr 'err
  | LSteps "(string \<times> duration) list"

record 'err log_line =
  ll_level :: log_level
  ll_message :: string
  ll_args :: "(string \<times> 'err log_value) list"

text \<open>\<open>if s != "" { args = append(args, key, s) }\<close>\<close>

definition add_arg :: "string \<Rightarrow> string \<Rightarrow> (string \<times> 'err log_value) list \<Rightarrow> (string \<times> 'err log_value) list" where
  "add_arg key s args = (if s \<noteq> [] then args @ [(key, LString s)] else args)"

section \<open>The access log\<close>

record loggingResponseWriter =
  lrw_status :: int
  lrw_bytes :: int

datatype response_call = CallWriteHeader int | CallWrite int

text \<open>\<open>CallWrite n\<close> is a write of which the underlying writer took \<open>n\<close> bytes.\<close>

fun lrw_step :: "response_call \<Rightarrow> loggingResponseWriter \<Rightarrow> loggingResponseWriter" where
  "lrw_step (CallWriteHeader status) w = w\<lparr>lrw_status := status\<rparr>"
| "lrw_step (CallWrite n) w =
     w\<lparr>lrw_status := (if lrw_status w = 0 then 200 else lrw_status w), lrw_bytes := lrw_bytes w + n\<rparr>"

definition dashboardUserAgent :: string where "dashboardUserAgent = ''emly-dashboard''"

definition isDashboardRequest :: "string \<Rightarrow> bool" where
  "isDashboardRequest ua = HasPrefix (ToLower ua) dashboardUserAgent"

text \<open>\<open>calls\<close> are what the handler did to the writer, \<open>elapsed\<close> the time it took.\<close>

definition AccessLog :: "request \<Rightarrow> string \<Rightarrow> string \<Rightarrow> string \<Rightarrow> response_call list \<Rightarrow> duration \<Rightarrow> 'err log_line" where
  "AccessLog r requestID meth path calls elapsed =
     (let lrw = fold lrw_step calls \<lparr>lrw_status = 0, lrw_bytes = 0\<rparr>;
          status = (if lrw_status lrw = 0 then 200 else lrw_status lrw);
          args = [(''request_id'', LString requestID), (''method'', LString meth), (''path'', LString path), (''status'', LInt status),
            (''bytes'', LInt (lrw_bytes lrw)), (''duration'', LDuration elapsed), (''user_agent'', LString (UserAgent r))];
          args = add_arg ''ad_domain'' (r_Header r ''X-EMLy-ADDomain'') args;
          args = add_arg ''host_name'' (r_Header r ''X-EMLy-Hostname'') args;
          args = add_arg ''hwid'' (r_Header r ''X-EMLy-HWID'') args;
          args = add_arg ''logged_user'' (r_Header r ''X-EMLy-LoggedUser'') args;
          args = add_arg ''logged_user_state'' (r_Header r ''X-EMLy-LoggedUserState'') args;
          args = add_arg ''logged_user_disconnected_at'' (r_Header r ''X-EMLy-LoggedUserDisconnectedAt'') args;
          args = add_arg ''serial'' (r_Header r ''X-EMLy-Serial'') args;
          args = add_arg ''product'' (r_Header r ''X-EMLy-Product'') args;
          args = add_arg ''os_version'' (r_Header r ''X-EMLy-OSVersion'') args;
          args = add_arg ''emly_version'' (r_Header r ''X-EMLy-AppVersion'') args
      in \<lparr>ll_level = (if isDashboardRequest (UserAgent r) then LevelDebug else LevelInfo), ll_message = ''request'', ll_args = args\<rparr>)"

section \<open>The deprecation warning\<close>

definition SunsetDate :: string where "SunsetDate = ''2026-10-31''"

definition requestIP :: "request \<Rightarrow> string" where
  "requestIP r = (case SplitHostPort (r_RemoteAddr r) of None \<Rightarrow> r_RemoteAddr r | Some (host, _) \<Rightarrow> host)"

definition DeprecationWarning :: "request \<Rightarrow> string \<Rightarrow> string \<Rightarrow> 'err log_line" where
  "DeprecationWarning r meth path =
     \<lparr>ll_level = LevelWarn, ll_message = ''deprecated API version used'', ll_args =
        [(''api_version'', LString ''v1''), (''sunset'', LString SunsetDate), (''method'', LString meth), (''path'', LString path),
         (''ip'', LString (requestIP r)), (''hostname'', LString (r_Header r ''X-EMLy-Hostname'')),
         (''hwid'', LString (r_Header r ''X-EMLy-HWID'')), (''user_agent'', LString (UserAgent r)),
         (''message'', LString (''v1 will be disabled after '' @ SunsetDate @ ''; migrate this client to /v2''))]\<rparr>"

section \<open>Timing\<close>

record checkpoint =
  cp_Name :: string
  cp_At :: gotime

record timer =
  tm_Start :: gotime
  tm_checkpoints :: "checkpoint list"

definition NewContext :: "gotime \<Rightarrow> timer" where
  "NewContext now = \<lparr>tm_Start = now, tm_checkpoints = []\<rparr>"

definition timer_Mark :: "gotime \<Rightarrow> string \<Rightarrow> timer \<Rightarrow> timer" where
  "timer_Mark now name t = t\<lparr>tm_checkpoints := tm_checkpoints t @ [\<lparr>cp_Name = name, cp_At = now\<rparr>]\<rparr>"

text \<open>\<open>Mark\<close> on the timer of a context; None is a context without one.\<close>

definition Mark :: "gotime \<Rightarrow> string \<Rightarrow> timer option \<Rightarrow> timer option" where
  "Mark now name t = map_option (timer_Mark now name) t"

fun steps :: "gotime \<Rightarrow> checkpoint list \<Rightarrow> (string \<times> duration) list" where
  "steps prev [] = []"
| "steps prev (cp # cps) = (cp_Name cp, cp_At cp - prev) # steps (cp_At cp) cps"

definition last_mark :: "timer \<Rightarrow> gotime" where
  "last_mark t = (if tm_checkpoints t = [] then tm_Start t else cp_At (last (tm_checkpoints t)))"

definition Timing :: "request \<Rightarrow> string \<Rightarrow> string \<Rightarrow> timer \<Rightarrow> gotime \<Rightarrow> 'err log_line" where
  "Timing r meth path t now =
     (let total' = now - tm_Start t
      in if tm_checkpoints t = [] then
           \<lparr>ll_level = LevelDebug, ll_message = ''timing'', ll_args =
              [(''method'', LString meth), (''path'', LString path), (''total'', LDuration total'), (''user_agent'', LString (UserAgent r))]\<rparr>
         else
           (let parts = steps (tm_Start t) (tm_checkpoints t);
                tail = total' - (last_mark t - tm_Start t);
                parts = (if 0 < tail then parts @ [(''response'', tail)] else parts);
                parts = parts @ [(''total'', total')]
            in \<lparr>ll_level = LevelDebug, ll_message = ''timing'', ll_args =
                  [(''method'', LString meth), (''path'', LString path), (''steps'', LSteps parts), (''user_agent'', LString (UserAgent r))]\<rparr>))"

section \<open>Installer downloads\<close>

datatype context_err = NoErr | DeadlineExceeded | Canceled

text \<open>\<open>io.Copy\<close>: the body is the chunks its reads give and how it ends; a write takes the whole chunk until one fails,
  after taking the given number of bytes.\<close>

fun io_Copy :: "string list \<Rightarrow> 'err option \<Rightarrow> (nat \<Rightarrow> (nat \<times> 'err) option) \<Rightarrow> nat \<Rightarrow> int \<times> 'err option" where
  "io_Copy [] ending wr i = (0, ending)"
| "io_Copy (c # cs) ending wr i =
     (case wr i of
        Some (n, e) \<Rightarrow> (int (min n (length c)), Some e)
      | None \<Rightarrow> (case io_Copy cs ending wr (Suc i) of (n, e) \<Rightarrow> (int (length c) + n, e)))"

text \<open>\<open>rate\<close> is the floating-point rate in kB/s. None is no line.\<close>

definition streamInstaller ::
  "(int \<Rightarrow> duration \<Rightarrow> int) \<Rightarrow> request \<Rightarrow> string \<Rightarrow> context_err \<Rightarrow> int \<times> 'err option \<Rightarrow> duration \<Rightarrow> string \<Rightarrow> string \<Rightarrow> string \<Rightarrow> int \<Rightarrow>
     'err log_line option" where
  "streamInstaller rate r requestID ctx copied elapsed product version filename sz =
     (case copied of (written, err) \<Rightarrow>
        let truncated = 0 < sz \<and> written < sz
        in if err = None \<and> \<not> truncated then None
           else
             (let reason = (case ctx of DeadlineExceeded \<Rightarrow> ''server timeout'' | Canceled \<Rightarrow> ''client disconnected'' | NoErr \<Rightarrow> ''copy failed'');
                  args = [(''request_id'', LString requestID), (''reason'', LString reason), (''product'', LString product),
                    (''version'', LString version), (''filename'', LString filename), (''bytes_sent'', LInt written), (''duration'', LDuration elapsed)];
                  args = (if 0 < sz then args @ [(''bytes_expected'', LInt sz)] else args);
                  args = (if 0 < elapsed then args @ [(''avg_kb_s'', LInt (rate written elapsed))] else args);
                  args = (case err of None \<Rightarrow> args | Some e \<Rightarrow> args @ [(''err'', LErr e)]);
                  idt = IdentityFromRequest r;
                  args = add_arg ''host_name'' (Hostname idt) args;
                  args = add_arg ''hwid'' (HWID idt) args;
                  args = add_arg ''ip'' (IP idt) args
              in Some \<lparr>ll_level = LevelWarn, ll_message = ''installer download did not complete'', ll_args = args\<rparr>))"

section \<open>What the lines say\<close>

fun call_bytes :: "response_call \<Rightarrow> int" where
  "call_bytes (CallWrite n) = n"
| "call_bytes (CallWriteHeader _) = 0"

text \<open>The status line that went out: the first explicit one, or 200 at the first write.\<close>

fun sent_status :: "response_call list \<Rightarrow> int" where
  "sent_status [] = 200"
| "sent_status (CallWriteHeader s # _) = s"
| "sent_status (CallWrite _ # _) = 200"

fun one_header :: "response_call list \<Rightarrow> bool" where
  "one_header [] = True"
| "one_header (_ # cs) = list_all (\<lambda>c. case c of CallWrite _ \<Rightarrow> True | _ \<Rightarrow> False) cs"

lemma lrw_bytes_fold: "lrw_bytes (fold lrw_step cs w) = lrw_bytes w + sum_list (map call_bytes cs)"
proof (induction cs arbitrary: w)
  case (Cons c cs)
  then show ?case by (cases c) simp_all
qed simp

lemma lrw_status_writes:
  "list_all (\<lambda>c. case c of CallWrite _ \<Rightarrow> True | _ \<Rightarrow> False) cs \<Longrightarrow> lrw_status w \<noteq> 0 \<Longrightarrow> lrw_status (fold lrw_step cs w) = lrw_status w"
  by (induction cs arbitrary: w) (auto split: response_call.splits)

text \<open>The access log records the bytes written and, when the handler sets at most one status and before its first
  write, the status the client saw. A status set after the body began is logged although the client never saw it: the
  timeout middleware does that to a download it cuts short.\<close>

lemma map_of_add_arg: "map_of args k = Some v \<Longrightarrow> map_of (add_arg key s args) k = Some v"
  by (simp add: add_arg_def map_add_def)

lemma access_log_status:
  assumes "one_header calls" "list_all (\<lambda>c. c \<noteq> CallWriteHeader 0) calls"
  shows "map_of (ll_args (AccessLog r i m p calls d)) ''status'' = Some (LInt (sent_status calls))"
    "map_of (ll_args (AccessLog r i m p calls d)) ''bytes'' = Some (LInt (sum_list (map call_bytes calls)))"
proof -
  have "(let st = lrw_status (fold lrw_step calls \<lparr>lrw_status = 0, lrw_bytes = 0\<rparr>) in if st = 0 then 200 else st) = sent_status calls"
    using assms by (cases calls rule: sent_status.cases) (auto simp: lrw_status_writes Let_def)
  then show "map_of (ll_args (AccessLog r i m p calls d)) ''status'' = Some (LInt (sent_status calls))"
    "map_of (ll_args (AccessLog r i m p calls d)) ''bytes'' = Some (LInt (sum_list (map call_bytes calls)))"
    unfolding AccessLog_def Let_def log_line.simps by (intro map_of_add_arg; simp add: lrw_bytes_fold)+
qed

lemma late_status_is_logged:
  "lrw_status (fold lrw_step [CallWrite 100, CallWriteHeader 504] \<lparr>lrw_status = 0, lrw_bytes = 0\<rparr>) = 504 \<and>
   sent_status [CallWrite 100, CallWriteHeader 504] = 200"
  by simp

lemma steps_sum: "sum_list (map snd (steps prev cps)) = (if cps = [] then prev else cp_At (last cps)) - prev"
  by (induction cps arbitrary: prev) auto

text \<open>The steps of a timing line add up to its total.\<close>

theorem timing_steps_add_up:
  assumes "tm_checkpoints t \<noteq> []" "last_mark t \<le> now"
  shows "\<exists>parts. (''steps'', LSteps (parts @ [(''total'', now - tm_Start t)])) \<in> set (ll_args (Timing r m p t now)) \<and>
    sum_list (map snd parts) = now - tm_Start t"
  using assms steps_sum [of "tm_Start t" "tm_checkpoints t"]
  by (cases "last_mark t = now") (auto simp: Timing_def Let_def last_mark_def)

text \<open>A download is reported exactly when the client was left without the whole installer, as far as the copy can tell.\<close>

lemma io_Copy_complete:
  "io_Copy cs ending wr i = (n, None) \<Longrightarrow> n = int (length (concat cs)) \<and> ending = None"
  by (induction cs arbitrary: i n) (auto split: option.splits prod.splits)

theorem every_short_download_is_reported:
  assumes "sz = int (length (concat cs)) + missing" "0 \<le> missing"
  shows "streamInstaller rate r i ctx (io_Copy cs ending wr 0) d product v filename sz = None \<longleftrightarrow>
    snd (io_Copy cs ending wr 0) = None \<and> (missing = 0 \<or> sz = 0)"
proof (cases "io_Copy cs ending wr 0")
  case (Pair n e)
  show ?thesis
  proof (cases e)
    case None
    with Pair io_Copy_complete [of cs ending wr 0 n] assms show ?thesis by (auto simp: streamInstaller_def Let_def)
  qed (use Pair in \<open>simp add: streamInstaller_def Let_def\<close>)
qed

end
