(* ===== verification/Web_Response.thy ===== *)
theory Web_Response
  imports Config_Mirror
begin

text \<open>
  What goes out on the wire: \<open>internal/response/response.go\<close>, \<open>jsonProblems\<close> of \<open>internal/configapi\<close>, and
  \<open>internal/health/health.route.go\<close>. A reply is its status, its content type and its body, which \<open>encoding/json\<close> writes
  as the given JSON value; a Go map is written in the order of its keys.
\<close>

record http_reply =
  hr_status :: nat
  hr_contentType :: string
  hr_body :: json

definition json_reply :: "nat \<Rightarrow> json \<Rightarrow> http_reply" where
  "json_reply status body = \<lparr>hr_status = status, hr_contentType = ''application/json'', hr_body = body\<rparr>"

definition write_Error :: "nat \<Rightarrow> string \<Rightarrow> http_reply" where
  "write_Error status msg = json_reply status (JObj [(''error'', JStr msg)])"

definition write_OK :: "json \<Rightarrow> http_reply" where
  "write_OK v = json_reply 200 v"

definition write_Created :: "json \<Rightarrow> http_reply" where
  "write_Created v = json_reply 201 v"

definition jsonProblems :: "nat \<Rightarrow> string \<Rightarrow> Problem list \<Rightarrow> http_reply" where
  "jsonProblems status msg problems =
     json_reply status (JObj [(''error'', JStr msg),
       (''problems'', JArr (map (\<lambda>p. JObj [(''path'', JStr (Path p)), (''message'', JStr (Message p))]) problems))])"

text \<open>The response of a handler on the wire; a bare status has no body to write, and a panic closes the connection.\<close>

definition write_response :: "('a \<Rightarrow> json) \<Rightarrow> 'a response \<Rightarrow> http_reply option" where
  "write_response enc resp =
     (case resp of Error status msg \<Rightarrow> Some (write_Error status msg) | OK v \<Rightarrow> Some (write_OK (enc v))
      | Created v \<Rightarrow> Some (write_Created (enc v)) | Status _ \<Rightarrow> None | Panicked \<Rightarrow> None)"

section \<open>Health\<close>

definition enc_Snapshot :: "mirror_snapshot \<Rightarrow> json" where
  "enc_Snapshot s =
     JObj [(''fetched_at'', enc_ptr JStr (sn_fetched_at s)), (''last_error'', enc_ptr JStr (sn_last_error s)),
       (''revision'', JNum (sn_revision s))]"

text \<open>\<open>ping\<close> tells whether the database answered within its three seconds.\<close>

definition HealthWithConfigMirror :: "bool \<Rightarrow> mirror_state ptr \<Rightarrow> http_reply" where
  "HealthWithConfigMirror ping mirror =
     (let body = [(''status'', JStr ''ok''), (''db'', JStr ''ok'')];
          status = 200;
          (body, status) = (if \<not> ping then (map_put ''db'' (JStr ''error'') (go_map_of body), 503) else (go_map_of body, status));
          body = (case mirror of None \<Rightarrow> body | Some s \<Rightarrow> map_put ''config_upstream'' (enc_Snapshot (Snapshot s)) body)
      in json_reply status (JObj body))"

definition Health :: "bool \<Rightarrow> http_reply" where
  "Health ping = HealthWithConfigMirror ping None"

lemma health_status: "hr_status (HealthWithConfigMirror ping mirror) = (if ping then 200 else 503)"
  by (simp add: HealthWithConfigMirror_def json_reply_def split_def Let_def)

lemma health_bodies:
  "hr_body (Health True) = JObj [(''db'', JStr ''ok''), (''status'', JStr ''ok'')]"
  "hr_body (Health False) = JObj [(''db'', JStr ''error''), (''status'', JStr ''ok'')]"
  by code_simp+

text \<open>The status on the wire is the one the handler's model names.\<close>

lemma write_response_status:
  "write_response enc resp = Some reply \<Longrightarrow> status_of resp = Some (hr_status reply) \<and> hr_contentType reply = ''application/json''"
  by (cases resp) (auto simp: write_response_def write_Error_def write_OK_def write_Created_def json_reply_def)

end
