(* ===== verification/Spec2Isabelle.thy ===== *)
theory Spec2Isabelle
  imports Config_Mirror Presence_Hub TTL_Cache Release_Properties Updater_Releases Rate_Limiter Ban_List
    Admin_Properties Process_Life Stats_Stream_Properties Client_WS_Properties Schema_Properties
    Request_Log Web_Response
begin

text \<open>
  A verification development of the EMLy update and remote-configuration API (Go, under \<open>src/\<close>).

  \<^bold>\<open>The program.\<close> An HTTP server over MySQL and an S3 bucket. Desktop clients fetch a configuration document
  and software manifests, report themselves and their events, and keep a WebSocket open; a dashboard edits
  the documents, the releases, the ban list and its own accounts with an admin key and a session token. A
  request passes the ban list and the rate limiter first (\<open>internal/middleware\<close>), then a handler; handlers share
  the tables, a few in-process caches and two hubs. Background loops refresh the ban snapshot, replicate the
  configuration of an upstream server, prune old events and clean the limiter.

  \<^bold>\<open>Conventions.\<close> A handler is one definition from the state it reads (its tables, the clock \<open>now\<close>, the decoded
  request) to the new state and a \<open>response\<close>: an error with its status and text, a 200 or 201 with a payload,
  or a panic. Database statements are numbered in program order and the oracle \<open>faults\<close> says which of them
  fail, so every error branch is reachable; text of driver errors is not modelled. Tables are lists of records;
  a collation is a key function \<open>ck\<close> and two values are equal in the table when their keys are. Go strings are
  byte lists, nil pointers and slices are options, times are integers in nanoseconds, counters that can
  overflow stay at their width. A request body that is not valid JSON for its struct is None; where decoding
  is what matters (the configuration document, patches, raw fields) the JSON tree itself is the input.
  Loops over data are structural recursion; a loop without a bound of its own is an option and its return is a
  theorem (\<open>Event_Prune\<close>, \<open>File_Migration\<close>), and a loop that runs for ever is driven by the list of what happens to it.

  \<^bold>\<open>The theories.\<close>
  \<^item> \<open>Go_Prelude\<close>, \<open>Go_Std\<close>, \<open>Go_Time\<close>, \<open>Go_Encoding\<close>, \<open>Json_Tree\<close>, \<open>Http_Request\<close>: the parts of Go's strings, strconv, time,
    net, encoding/hex, encoding/base64, fmt, encoding/json and net/http the program uses, with their round trips.
  \<^item> \<open>DB_Value\<close> (\<open>dbvalue.go\<close>): null columns, truncation by runes over the UTF-8 decoder.
  \<^item> \<open>RC_Types\<close>, \<open>RC_Merge_Patch\<close>, \<open>RC_Parse\<close>, \<open>RC_Match\<close>, \<open>RC_Unknown\<close> (\<open>internal/remoteconfig\<close>): the policy document, its
    encoders and decoders, RFC 7386 patches, validation, selectors, site resolution and effective documents,
    unknown-field reports. \<open>RC_Properties\<close>: what \<open>Parse\<close> accepts, round trips, and that an accepted policy routes
    every host to servers it names.
  \<^item> \<open>Unique_Flag\<close>: the contract shared by every table with a flag that one row may carry (published, stable,
    beta, critical, current). \<open>Config_Store\<close> (\<open>configapi/config.route.go\<close>): the revision store; its reachable states,
    and that the published number never decreases. \<open>Config_Mirror\<close> (\<open>configmirror.go\<close>): a mirror that synchronises
    serves what its upstream serves, and survives any upstream.
  \<^item> \<open>Object_Store\<close> (\<open>storage/s3connector.go\<close>): every operation of the connector. \<open>Releases\<close> and \<open>Release_Properties\<close> (\<open>updates/updates.route.go\<close>),
    \<open>Updater_Releases\<close> (\<open>updates/updater.route.go\<close>): uploads, slots, manifests and downloads.
  \<^item> \<open>Updater_Identity\<close>, \<open>Updater_Client\<close> (\<open>updaterclient.go\<close>): who a caller is, the upsert of clients under two unique
    keys, events with their hourly rollup. \<open>Stats_Hub\<close>, \<open>Presence_Hub\<close>, \<open>TTL_Cache\<close>: the in-process hubs and the
    cache, with concurrency as interleavings of lock-protected steps. \<open>Event_Prune\<close> (\<open>eventprune.go\<close>): the prune
    loop over the same tables, with the traffic between its batches.
  \<^item> \<open>Stats\<close>, \<open>Stats_Properties\<close> (\<open>stats/stats.route.go\<close>): the dashboard's figures over those tables; the charts against the
    raw events, the summary against the clients, the cache keys, the deletion of a client. \<open>Stats_Stream\<close>,
    \<open>Stats_Stream_Properties\<close> (\<open>stats/stats_stream.route.go\<close>): a dashboard's live connection; its subscription stays valid and a
    flush sends each stale channel once, as the events since the last one call for.
  \<^item> \<open>Client_WS\<close>, \<open>Client_WS_Properties\<close> (\<open>clientws/client_ws.route.go\<close>): the sockets of the workstations over the client table and
    the presence hub; who is online is who has a session that was not replaced, or is in its grace period.
  \<^item> \<open>Bug_Reports\<close>, \<open>Bug_Report_Properties\<close> (\<open>bugreports/bug_report.route.go\<close>): intake with files, listing, archive,
    download, status; what is served is what was sent. \<open>File_Migration\<close> (\<open>storage/migrateFiles.go\<close>): copying report files
    to the bucket, and when that returns. \<open>Paging\<close>: what the paginated listings share.
  \<^item> \<open>Rate_Limiter\<close>, \<open>Ban_List\<close> (\<open>internal/middleware\<close>, \<open>bans.route.go\<close>): the two-tier limiter and the ban snapshot.
  \<^item> \<open>Session\<close> (\<open>session.go\<close>), \<open>Admin_Password\<close>, \<open>Admin\<close>, \<open>Admin_Properties\<close> (\<open>internal/admin\<close>): accounts, stored password
    hashes, login, validation, logout; what an accepted token says about the requests before it.
  \<^item> \<open>App_Config\<close> (\<open>config.go\<close>): the configuration read from the environment, durations included. \<open>Access_Control\<close> (the key
    middlewares, every \<open>routes.go\<close>, the stacks of \<open>main.go\<close>): which key each handler needs, and the budget of the whole
    server over ban list and limiter. \<open>App_Start\<close> (\<open>main.go\<close>): when the process gets to serve.
    \<open>Telemetry\<close> (\<open>telemetry.go\<close>), \<open>Process_Life\<close> (\<open>main.go\<close>): where a log line goes, and the shutdown on a signal.
  \<^item> \<open>Schema_Migrator\<close>, \<open>Schema_Properties\<close> (\<open>database/schema/migrator.go\<close>): what a start does to the schema, and that the next start
    does nothing more.
  \<^item> \<open>Log_File\<close>, \<open>Log_Properties\<close> (\<open>logfile.go\<close>): the daily log files, their rotation and retention. \<open>Request_Log\<close>
    (\<open>accesslog.go\<close>, \<open>timing.go\<close>, \<open>updates/download.go\<close>, the warning of \<open>routes/v1\<close>): what a request leaves in the log.
    \<open>Web_Response\<close> (\<open>response.go\<close>, \<open>health.route.go\<close>): what a response is on the wire.

  \<^bold>\<open>Interfaces.\<close> The locales state what a client of a component relies on and are interpreted on the component's
  model: \<open>json_codec\<close> on every type of the document, \<open>exclusive_flag\<close> and \<open>promotable_flag\<close> on the stores with a
  flag one row may carry, \<open>ban_snapshot\<close> on the ban list, \<open>event_traffic\<close> on the recording of events, \<open>paged\<close> on
  the listings of bug reports and of clients.

  \<^bold>\<open>Parameters.\<close> MySQL beyond the statements as written, the S3 SDK, SHA-256, argon2, the random source, url.Parse and
  the JSON text layer are arguments of the definitions that use them; a property that relies on documented
  behaviour of one states it as a hypothesis and its witness instantiates it.

  \<^bold>\<open>Not modelled.\<close> The exporters of the telemetry SDK, and how the logger prints a line; the transport under the two
  WebSockets; what the database driver does with the bounds of its pool; the matching of URLs to the patterns of the route table.
\<close>

end
